(* ===== verification/Prelude.thy ===== *)
theory Prelude
  imports Complex_Main "HOL-Library.Char_ord" "HOL-Library.List_Lexorder"
begin

text \<open>
  What the components of the development share.

  The first part models the functions of Go's standard library that the program calls on
  strings (packages \<^verbatim>\<open>strings\<close> and \<^verbatim>\<open>strconv\<close>), under the names they have
  there. A Go string is a sequence of bytes, here a \<^typ>\<open>string\<close> of 8-bit characters.
  Case mapping, case folding and white space are those of ASCII: a byte above 127 is never
  changed and is never white space, so the model is the program on ASCII text (and on other
  UTF-8 text as far as the program does not change its case).

  The second part is the two interfaces that several components implement: a machine whose
  steps keep an invariant, and a protocol session that answers only after a login.
\<close>

named_theorems go_strings \<open>equations and bounds for the string functions\<close>
named_theorems table_simps \<open>reading a table after an update\<close>

section \<open>Characters\<close>

abbreviation TAB :: char where "TAB \<equiv> CHR 0x09"
abbreviation LF :: char where "LF \<equiv> CHR 0x0A"
abbreviation CR :: char where "CR \<equiv> CHR 0x0D"
abbreviation DQUOTE :: char where "DQUOTE \<equiv> CHR 0x22"
abbreviation BACKSLASH :: char where "BACKSLASH \<equiv> CHR 0x5C"
abbreviation CRLF :: string where "CRLF \<equiv> [CHR 0x0D, CHR 0x0A]"

definition ToLowerChar :: "char \<Rightarrow> char" where
  "ToLowerChar c = (let n = (of_char c :: nat) in if 65 \<le> n \<and> n \<le> 90 then char_of (n + 32) else c)"

definition ToUpperChar :: "char \<Rightarrow> char" where
  "ToUpperChar c = (let n = (of_char c :: nat) in if 97 \<le> n \<and> n \<le> 122 then char_of (n - 32) else c)"

definition IsSpace :: "char \<Rightarrow> bool" where
  "IsSpace c \<longleftrightarrow> c = CHR 0x20 \<or> c = CHR 0x09 \<or> c = CHR 0x0A \<or> c = CHR 0x0B \<or> c = CHR 0x0C \<or> c = CHR 0x0D"

lemma ToLowerChar_idem [simp]: "ToLowerChar (ToLowerChar c) = ToLowerChar c"
proof (cases "65 \<le> (of_char c :: nat) \<and> (of_char c :: nat) \<le> 90")
  case True
  then have "(of_char c :: nat) + 32 < 256" by simp
  then have "(of_char (char_of ((of_char c :: nat) + 32)) :: nat) = of_char c + 32"
    by (simp add: of_char_of)
  with True show ?thesis by (simp add: ToLowerChar_def Let_def)
next
  case False
  then have "ToLowerChar c = c" by (auto simp: ToLowerChar_def Let_def)
  then show ?thesis by simp
qed

section \<open>Strings\<close>

definition ToLower :: "string \<Rightarrow> string" where
  "ToLower s = map ToLowerChar s"

definition ToUpper :: "string \<Rightarrow> string" where
  "ToUpper s = map ToUpperChar s"

definition EqualFold :: "string \<Rightarrow> string \<Rightarrow> bool" where
  "EqualFold a b \<longleftrightarrow> ToLower a = ToLower b"

definition HasPrefix :: "string \<Rightarrow> string \<Rightarrow> bool" where
  "HasPrefix s p \<longleftrightarrow> take (length p) s = p"

definition HasSuffix :: "string \<Rightarrow> string \<Rightarrow> bool" where
  "HasSuffix s p \<longleftrightarrow> length p \<le> length s \<and> drop (length s - length p) s = p"

definition TrimPrefix :: "string \<Rightarrow> string \<Rightarrow> string" where
  "TrimPrefix s p = (if HasPrefix s p then drop (length p) s else s)"

definition TrimSuffix :: "string \<Rightarrow> string \<Rightarrow> string" where
  "TrimSuffix s p = (if HasSuffix s p then take (length s - length p) s else s)"

definition TrimRightFunc :: "(char \<Rightarrow> bool) \<Rightarrow> string \<Rightarrow> string" where
  "TrimRightFunc P s = rev (dropWhile P (rev s))"

definition TrimFunc :: "(char \<Rightarrow> bool) \<Rightarrow> string \<Rightarrow> string" where
  "TrimFunc P s = TrimRightFunc P (dropWhile P s)"

definition TrimSpace :: "string \<Rightarrow> string" where
  "TrimSpace s = TrimFunc IsSpace s"

text \<open>\<^verbatim>\<open>strings.Trim\<close> and \<^verbatim>\<open>strings.TrimRight\<close> take the characters to remove.\<close>

definition Trim :: "string \<Rightarrow> string \<Rightarrow> string" where
  "Trim s cutset = TrimFunc (\<lambda>c. c \<in> set cutset) s"

definition TrimRight :: "string \<Rightarrow> string \<Rightarrow> string" where
  "TrimRight s cutset = TrimRightFunc (\<lambda>c. c \<in> set cutset) s"

text \<open>\<^verbatim>\<open>strings.Index\<close> and \<^verbatim>\<open>bytes.Index\<close>: \<^const>\<open>None\<close> is their -1.\<close>

fun Index :: "string \<Rightarrow> string \<Rightarrow> nat option" where
  "Index s sub =
     (if HasPrefix s sub then Some 0
      else case s of [] \<Rightarrow> None | _ # t \<Rightarrow> map_option Suc (Index t sub))"

declare Index.simps [simp del]

definition Contains :: "string \<Rightarrow> string \<Rightarrow> bool" where
  "Contains s sub \<longleftrightarrow> Index s sub \<noteq> None"

definition ContainsAny :: "string \<Rightarrow> string \<Rightarrow> bool" where
  "ContainsAny s chars \<longleftrightarrow> list_ex (\<lambda>c. c \<in> set chars) s"

text \<open>The index of the first and of the last character that satisfies a predicate.\<close>

fun IndexFunc :: "(char \<Rightarrow> bool) \<Rightarrow> string \<Rightarrow> nat option" where
  "IndexFunc P [] = None"
| "IndexFunc P (c # s) = (if P c then Some 0 else map_option Suc (IndexFunc P s))"

fun LastIndexFunc :: "(char \<Rightarrow> bool) \<Rightarrow> string \<Rightarrow> nat option" where
  "LastIndexFunc P [] = None"
| "LastIndexFunc P (c # s) =
     (case LastIndexFunc P s of Some i \<Rightarrow> Some (Suc i) | None \<Rightarrow> if P c then Some 0 else None)"

text \<open>\<^verbatim>\<open>strings.Split\<close> on a one-byte separator, and \<^verbatim>\<open>strings.Join\<close>.\<close>

fun Split :: "string \<Rightarrow> char \<Rightarrow> string list" where
  "Split [] sep = [[]]"
| "Split (c # s) sep =
     (if c = sep then [] # Split s sep
      else case Split s sep of [] \<Rightarrow> [[c]] | w # ws \<Rightarrow> (c # w) # ws)"

fun Join :: "string list \<Rightarrow> string \<Rightarrow> string" where
  "Join [] sep = []"
| "Join [w] sep = w"
| "Join (w # v # ws) sep = w @ sep @ Join (v # ws) sep"

text \<open>\<^verbatim>\<open>strings.SplitN(s, sep, 2)\<close> and \<^verbatim>\<open>strings.Cut\<close> on a one-byte separator.\<close>

definition Cut :: "string \<Rightarrow> char \<Rightarrow> string \<times> string option" where
  "Cut s sep = (case IndexFunc (\<lambda>c. c = sep) s of
     None \<Rightarrow> (s, None) | Some i \<Rightarrow> (take i s, Some (drop (Suc i) s)))"

text \<open>\<^verbatim>\<open>strings.FieldsFunc\<close> and \<^verbatim>\<open>strings.Fields\<close>.\<close>

fun FieldsFunc :: "(char \<Rightarrow> bool) \<Rightarrow> string \<Rightarrow> string list" where
  "FieldsFunc P [] = []"
| "FieldsFunc P (c # s) =
     (if P c then FieldsFunc P s
      else if s = [] \<or> P (hd s) then [c] # FieldsFunc P s
      else case FieldsFunc P s of [] \<Rightarrow> [[c]] | w # ws \<Rightarrow> (c # w) # ws)"

definition Fields :: "string \<Rightarrow> string list" where
  "Fields s = FieldsFunc IsSpace s"

text \<open>\<^verbatim>\<open>strings.ReplaceAll\<close> for a non-empty pattern.\<close>

function ReplaceAll :: "string \<Rightarrow> string \<Rightarrow> string \<Rightarrow> string" where
  "ReplaceAll s old new =
     (if s = [] \<or> old = [] then s
      else if HasPrefix s old then new @ ReplaceAll (drop (length old) s) old new
      else hd s # ReplaceAll (tl s) old new)"
  by pat_completeness auto
termination
  by (relation "measure (\<lambda>(s, old, new). length s)") auto

declare ReplaceAll.simps [simp del]

section \<open>Numbers\<close>

definition digit :: "nat \<Rightarrow> char" where
  "digit n = char_of (48 + n)"

definition digit_value :: "char \<Rightarrow> nat option" where
  "digit_value c = (let n = (of_char c :: nat) in if 48 \<le> n \<and> n \<le> 57 then Some (n - 48) else None)"

fun ItoaNat :: "nat \<Rightarrow> string" where
  "ItoaNat n = (if n < 10 then [digit n] else ItoaNat (n div 10) @ [digit (n mod 10)])"

declare ItoaNat.simps [simp del]

text \<open>\<^verbatim>\<open>strconv.Itoa\<close>, and what \<^verbatim>\<open>fmt\<close> writes for \<^verbatim>\<open>%d\<close>.\<close>

definition Itoa :: "int \<Rightarrow> string" where
  "Itoa i = (if i < 0 then CHR ''-'' # ItoaNat (nat (- i)) else ItoaNat (nat i))"

fun digits_value :: "nat \<Rightarrow> string \<Rightarrow> nat option" where
  "digits_value acc [] = Some acc"
| "digits_value acc (c # s) =
     (case digit_value c of None \<Rightarrow> None | Some d \<Rightarrow> digits_value (10 * acc + d) s)"

text \<open>\<^verbatim>\<open>strconv.Atoi\<close>: an optional sign, at least one digit, and a value that fits in 64 bits.\<close>

definition Atoi :: "string \<Rightarrow> int option" where
  "Atoi s =
     (let neg = (HasPrefix s ''-'');
          body = (if HasPrefix s ''-'' \<or> HasPrefix s ''+'' then tl s else s)
      in if body = [] then None
         else case digits_value 0 body of
                None \<Rightarrow> None
              | Some n \<Rightarrow>
                  let v = (if neg then - int n else int n)
                  in if - (2 ^ 63) \<le> v \<and> v < 2 ^ 63 then Some v else None)"

text \<open>Durations, in nanoseconds as in package \<^verbatim>\<open>time\<close>.\<close>

definition Second :: int where "Second = 1000000000"
definition Minute :: int where "Minute = 60 * Second"
definition Hour :: int where "Hour = 60 * Minute"

section \<open>Facts about strings\<close>

lemma length_ToLower [simp, go_strings]: "length (ToLower s) = length s"
  by (simp add: ToLower_def)

lemma ToLower_idem [simp, go_strings]: "ToLower (ToLower s) = ToLower s"
  by (simp add: ToLower_def)

lemma ToLower_append [simp]: "ToLower (a @ b) = ToLower a @ ToLower b"
  by (simp add: ToLower_def)

lemma ToLower_Nil [simp]: "ToLower [] = []"
  by (simp add: ToLower_def)

lemma ToLower_Cons: "ToLower (c # s) = ToLowerChar c # ToLower s"
  by (simp add: ToLower_def)

lemma ToLower_eq_Nil [simp]: "ToLower s = [] \<longleftrightarrow> s = []"
  by (simp add: ToLower_def)

lemma EqualFold_refl [simp]: "EqualFold a a"
  by (simp add: EqualFold_def)

lemma EqualFold_sym: "EqualFold a b \<Longrightarrow> EqualFold b a"
  by (simp add: EqualFold_def)

lemma EqualFold_trans: "EqualFold a b \<Longrightarrow> EqualFold b c \<Longrightarrow> EqualFold a c"
  by (simp add: EqualFold_def)

lemma HasPrefix_append [simp]: "HasPrefix (p @ s) p"
  by (simp add: HasPrefix_def)

lemma HasPrefix_iff: "HasPrefix s p \<longleftrightarrow> (\<exists>t. s = p @ t)"
  unfolding HasPrefix_def by (metis append_take_drop_id append_eq_conv_conj)

lemma HasSuffix_append [simp]: "HasSuffix (s @ p) p"
  by (simp add: HasSuffix_def)

lemma HasSuffix_iff: "HasSuffix s p \<longleftrightarrow> (\<exists>t. s = t @ p)"
proof
  assume "HasSuffix s p"
  then show "\<exists>t. s = t @ p"
    unfolding HasSuffix_def by (metis append_take_drop_id)
qed (auto simp: HasSuffix_def)

lemma HasPrefix_ToLower: "HasPrefix s p \<Longrightarrow> HasPrefix (ToLower s) (ToLower p)"
  by (auto simp: HasPrefix_iff)

lemma length_TrimRightFunc [go_strings]: "length (TrimRightFunc P s) \<le> length s"
  by (metis TrimRightFunc_def length_dropWhile_le length_rev)

lemma length_TrimFunc [go_strings]: "length (TrimFunc P s) \<le> length s"
  by (metis TrimFunc_def dual_order.trans length_TrimRightFunc length_dropWhile_le)

lemma length_TrimSpace [go_strings]: "length (TrimSpace s) \<le> length s"
  by (simp add: TrimSpace_def length_TrimFunc)

lemma TrimSpace_Nil [simp]: "TrimSpace [] = []"
  by (simp add: TrimSpace_def TrimFunc_def TrimRightFunc_def)

lemma length_TrimPrefix [go_strings]: "length (TrimPrefix s p) \<le> length s"
  by (simp add: TrimPrefix_def)

lemma length_TrimSuffix [go_strings]: "length (TrimSuffix s p) \<le> length s"
  by (simp add: TrimSuffix_def)

lemma TrimRightFunc_idem [simp]: "TrimRightFunc P (TrimRightFunc P s) = TrimRightFunc P s"
  by (simp add: TrimRightFunc_def)

lemma TrimRightFunc_hd: "TrimRightFunc P s \<noteq> [] \<Longrightarrow> hd (TrimRightFunc P s) = hd s"
proof -
  assume ne: "TrimRightFunc P s \<noteq> []"
  have "s = TrimRightFunc P s @ rev (takeWhile P (rev s))"
    by (metis TrimRightFunc_def rev_append rev_rev_ident takeWhile_dropWhile_id)
  with ne show ?thesis by (metis hd_append2)
qed

lemma hd_TrimFunc: "TrimFunc P s \<noteq> [] \<Longrightarrow> \<not> P (hd (TrimFunc P s))"
proof -
  assume ne: "TrimFunc P s \<noteq> []"
  then have "hd (TrimFunc P s) = hd (dropWhile P s)"
    unfolding TrimFunc_def by (rule TrimRightFunc_hd)
  moreover have "dropWhile P s \<noteq> []"
    using ne unfolding TrimFunc_def TrimRightFunc_def by (metis dropWhile.simps(1) rev.simps(1))
  ultimately show ?thesis by (metis hd_dropWhile)
qed

lemma last_TrimFunc: "TrimFunc P s \<noteq> [] \<Longrightarrow> \<not> P (last (TrimFunc P s))"
  unfolding TrimFunc_def TrimRightFunc_def
  by (metis hd_dropWhile last_rev rev_is_Nil_conv)

lemma TrimFunc_fixed: "\<not> P (hd s) \<Longrightarrow> \<not> P (last s) \<Longrightarrow> TrimFunc P s = s"
proof (cases "s = []")
  case False
  assume h: "\<not> P (hd s)" and l: "\<not> P (last s)"
  have fixed: "dropWhile P t = t" if "t \<noteq> []" "\<not> P (hd t)" for t
    using that by (cases t) auto
  have "dropWhile P s = s" using h False by (simp add: fixed)
  moreover have "dropWhile P (rev s) = rev s" using l False by (simp add: fixed hd_rev)
  ultimately show ?thesis by (simp add: TrimFunc_def TrimRightFunc_def)
qed (simp add: TrimFunc_def TrimRightFunc_def)

lemma TrimFunc_idem [simp]: "TrimFunc P (TrimFunc P s) = TrimFunc P s"
proof (cases "TrimFunc P s = []")
  case True
  then show ?thesis by (simp only: True) (simp add: TrimFunc_def TrimRightFunc_def)
next
  case False
  then show ?thesis by (simp add: TrimFunc_fixed hd_TrimFunc last_TrimFunc)
qed

lemma TrimSpace_idem [simp]: "TrimSpace (TrimSpace s) = TrimSpace s"
  by (simp add: TrimSpace_def)

lemma Split_not_Nil [simp]: "Split s sep \<noteq> []"
  by (induction s sep rule: Split.induct) (auto split: list.splits)

lemma Join_Cons: "ws \<noteq> [] \<Longrightarrow> Join (w # ws) sep = w @ sep @ Join ws sep"
  by (cases ws) auto

lemma Join_Split: "Join (Split s sep) [sep] = s"
proof (induction s sep rule: Split.induct)
  case (2 c s sep)
  obtain w ws where e: "Split s sep = w # ws" by (cases "Split s sep") auto
  show ?case
  proof (cases "c = sep")
    case True
    with 2 show ?thesis by (simp add: Join_Cons)
  next
    case False
    with 2 e show ?thesis by (cases ws) auto
  qed
qed simp

lemma Split_no_sep: "w \<in> set (Split s sep) \<Longrightarrow> sep \<notin> set w"
  by (induction s sep arbitrary: w rule: Split.induct) (auto split: if_splits list.splits)

lemma Split_at: "sep \<notin> set l \<Longrightarrow> Split (l @ sep # t) sep = l # Split t sep"
  by (induction l) auto

lemma Split_none: "sep \<notin> set l \<Longrightarrow> Split l sep = [l]"
  by (induction l) auto

lemma length_Split: "(\<Sum>w \<leftarrow> Split s sep. Suc (length w)) = Suc (length s)"
  by (induction s sep rule: Split.induct) (auto split: list.splits)

lemma IndexFunc_Some: "IndexFunc P s = Some i \<Longrightarrow> i < length s \<and> P (s ! i) \<and> (\<forall>j < i. \<not> P (s ! j))"
  by (induction P s arbitrary: i rule: IndexFunc.induct)
     (auto split: if_splits simp: nth_Cons split: nat.splits)

lemma IndexFunc_None: "IndexFunc P s = None \<longleftrightarrow> (\<forall>c \<in> set s. \<not> P c)"
  by (induction P s rule: IndexFunc.induct) auto

lemma LastIndexFunc_None: "LastIndexFunc P s = None \<longleftrightarrow> (\<forall>c \<in> set s. \<not> P c)"
  by (induction P s rule: LastIndexFunc.induct) (auto split: option.splits)

lemma LastIndexFunc_Some:
  "LastIndexFunc P s = Some i \<Longrightarrow> i < length s \<and> P (s ! i) \<and> (\<forall>c \<in> set (drop (Suc i) s). \<not> P c)"
proof (induction P s arbitrary: i rule: LastIndexFunc.induct)
  case (2 P c s)
  then show ?case
    by (cases "LastIndexFunc P s") (auto simp: LastIndexFunc_None split: if_splits)
qed simp

section \<open>Facts about numbers\<close>

lemma digit_value_digit [simp]: "d < 10 \<Longrightarrow> digit_value (digit d) = Some d"
  by (simp add: digit_value_def digit_def of_char_of Let_def)

lemma digits_value_append:
  "digits_value acc (s @ t) = (case digits_value acc s of None \<Rightarrow> None | Some n \<Rightarrow> digits_value n t)"
  by (induction acc s rule: digits_value.induct) (auto split: option.splits)

lemma digits_value_ItoaNat: "digits_value 0 (ItoaNat n) = Some n"
proof (induction n rule: ItoaNat.induct)
  case (1 n)
  show ?case
  proof (cases "n < 10")
    case True
    then show ?thesis by (subst ItoaNat.simps) simp
  next
    case False
    with 1 show ?thesis
      by (subst ItoaNat.simps) (simp add: digits_value_append)
  qed
qed

lemma ItoaNat_not_Nil [simp]: "ItoaNat n \<noteq> []"
  by (subst ItoaNat.simps) simp

lemma digit_neq_sign: "d < 10 \<Longrightarrow> digit d \<noteq> CHR ''-'' \<and> digit d \<noteq> CHR ''+''"
proof -
  assume d: "d < 10"
  have "digit_value (CHR ''-'') = None" "digit_value (CHR ''+'') = None"
    by (simp_all add: digit_value_def)
  with digit_value_digit [OF d] show ?thesis by auto
qed

lemma hd_ItoaNat: "hd (ItoaNat n) \<noteq> CHR ''-'' \<and> hd (ItoaNat n) \<noteq> CHR ''+''"
proof (induction n rule: ItoaNat.induct)
  case (1 n)
  show ?case
  proof (cases "n < 10")
    case True
    then show ?thesis by (subst (1 2) ItoaNat.simps) (simp add: digit_neq_sign)
  next
    case False
    with 1 show ?thesis by (simp add: ItoaNat.simps [of n])
  qed
qed

lemma HasPrefix_single: "HasPrefix s [c] \<longleftrightarrow> s \<noteq> [] \<and> hd s = c"
  by (cases s) (auto simp: HasPrefix_def)

lemma Atoi_Itoa: "- (2 ^ 63) \<le> i \<Longrightarrow> i < 2 ^ 63 \<Longrightarrow> Atoi (Itoa i) = Some i"
proof (cases "i < 0")
  case True
  assume "- (2 ^ 63) \<le> i" "i < 2 ^ 63"
  with True show ?thesis
    by (simp add: Itoa_def Atoi_def HasPrefix_single digits_value_ItoaNat Let_def)
next
  case False
  assume "- (2 ^ 63) \<le> i" "i < 2 ^ 63"
  with False show ?thesis
    using hd_ItoaNat [of "nat i"]
    by (simp add: Itoa_def Atoi_def HasPrefix_single digits_value_ItoaNat Let_def)
qed

lemma Atoi_ItoaNat: "n < 2 ^ 63 \<Longrightarrow> Atoi (ItoaNat n) = Some (int n)"
proof -
  assume "n < 2 ^ 63"
  then have "int n < 2 ^ 63" by (metis of_nat_less_iff of_nat_numeral of_nat_power)
  then show ?thesis using Atoi_Itoa [of "int n"] by (simp add: Itoa_def)
qed

lemma set_ItoaNat: "set (ItoaNat n) \<subseteq> digit ` {..<10}"
proof (induction n rule: ItoaNat.induct)
  case (1 n)
  then show ?case by (subst ItoaNat.simps) auto
qed

lemma not_in_ItoaNat: "digit_value c = None \<Longrightarrow> c \<notin> set (ItoaNat n)"
  using set_ItoaNat [of n] by fastforce

section \<open>Lines and words\<close>

lemma IndexFunc_append: "(\<And>x. x \<in> set l \<Longrightarrow> \<not> P x) \<Longrightarrow> P c \<Longrightarrow> IndexFunc P (l @ c # t) = Some (length l)"
  by (induction l) auto

lemma Cut_append: "c \<notin> set w \<Longrightarrow> Cut (w @ c # t) c = (w, Some t)"
  by (subst Cut_def, subst IndexFunc_append) auto

lemma TrimRight_CRLF: "l \<noteq> [] \<Longrightarrow> last l \<noteq> CR \<Longrightarrow> last l \<noteq> LF \<Longrightarrow> TrimRight (l @ CRLF) CRLF = l"
proof -
  assume l: "l \<noteq> []" "last l \<noteq> CR" "last l \<noteq> LF"
  then obtain h t where r: "rev l = h # t" by (cases "rev l") auto
  then have "h = last l" by (metis hd_rev list.sel(1))
  with l(2,3) have "dropWhile (\<lambda>c. c \<in> set CRLF) (rev l) = rev l" unfolding r by simp
  then have "dropWhile (\<lambda>c. c \<in> set CRLF) (rev (l @ CRLF)) = rev l" by simp
  then show ?thesis unfolding TrimRight_def TrimRightFunc_def by simp
qed

lemma TrimSpace_ends: "\<not> IsSpace a \<Longrightarrow> \<not> IsSpace b \<Longrightarrow> TrimSpace (a # s @ [b]) = a # s @ [b]"
  unfolding TrimSpace_def by (rule TrimFunc_fixed) simp_all

section \<open>Tables\<close>

text \<open>
  A database table is the list of its rows. \<^verbatim>\<open>UPDATE ... WHERE\<close> is \<open>update_where\<close>;
  a count or a sum over a table is \<open>sum_rows\<close>.
\<close>

definition update_where :: "('a \<Rightarrow> bool) \<Rightarrow> ('a \<Rightarrow> 'a) \<Rightarrow> 'a list \<Rightarrow> 'a list" where
  "update_where P u rows = map (\<lambda>r. if P r then u r else r) rows"

definition sum_rows :: "('a \<Rightarrow> int) \<Rightarrow> 'a list \<Rightarrow> int" where
  "sum_rows g rows = sum_list (map g rows)"

lemma sum_rows_Nil [simp, table_simps]: "sum_rows g [] = 0"
  by (simp add: sum_rows_def)

lemma sum_rows_Cons [table_simps]: "sum_rows g (r # rows) = g r + sum_rows g rows"
  by (simp add: sum_rows_def)

lemma sum_rows_snoc [table_simps]: "sum_rows g (rows @ [r]) = sum_rows g rows + g r"
  by (simp add: sum_rows_def)

lemma sum_rows_nonneg: "(\<And>r. r \<in> set rows \<Longrightarrow> 0 \<le> g r) \<Longrightarrow> 0 \<le> sum_rows g rows"
  by (auto simp: sum_rows_def intro!: sum_list_nonneg)

lemma sum_rows_member: "(\<And>r. r \<in> set rows \<Longrightarrow> 0 \<le> g r) \<Longrightarrow> r \<in> set rows \<Longrightarrow> g r \<le> sum_rows g rows"
proof (induction rows)
  case (Cons a rows)
  from Cons.prems(1) have nn: "0 \<le> g a" "0 \<le> sum_rows g rows"
    by (auto intro: sum_rows_nonneg)
  from Cons show ?case using nn by (fastforce simp: sum_rows_Cons)
qed simp

lemma sum_rows_cong: "(\<And>r. r \<in> set rows \<Longrightarrow> g r = h r) \<Longrightarrow> sum_rows g rows = sum_rows h rows"
  by (simp add: sum_rows_def cong: map_cong)

lemma sum_rows_filter: "sum_rows (\<lambda>r. of_bool (P r)) rows = int (length (filter P rows))"
  by (induction rows) (auto simp: sum_rows_Cons)

lemma length_update_where [simp]: "length (update_where P u rows) = length rows"
  by (simp add: update_where_def)

lemma update_where_none: "(\<And>r. r \<in> set rows \<Longrightarrow> \<not> P r) \<Longrightarrow> update_where P u rows = rows"
  by (simp add: update_where_def map_idI)

lemma map_update_where: "(\<And>r. key (u r) = key r) \<Longrightarrow> map key (update_where P u rows) = map key rows"
  by (simp add: update_where_def)

lemma set_update_where: "set (update_where P u rows) = (\<lambda>r. if P r then u r else r) ` set rows"
  by (simp add: update_where_def)

lemma sum_rows_update:
  assumes "distinct (map key rows)" "r \<in> set rows"
  shows "sum_rows g (update_where (\<lambda>x. key x = key r) u rows) = sum_rows g rows - g r + g (u r)"
  using assms
proof (induction rows)
  case (Cons a rows)
  show ?case
  proof (cases "a = r")
    case True
    with Cons.prems have "key x \<noteq> key r" if "x \<in> set rows" for x
      using that by (auto simp: image_iff)
    then have "update_where (\<lambda>x. key x = key r) u rows = rows"
      by (rule update_where_none)
    with True show ?thesis by (simp add: update_where_def sum_rows_Cons)
  next
    case False
    with Cons.prems have "key a \<noteq> key r" by auto
    with False Cons show ?thesis by (simp add: update_where_def sum_rows_Cons)
  qed
qed simp

lemma distinct_key_eq: "distinct (map key rows) \<Longrightarrow> a \<in> set rows \<Longrightarrow> b \<in> set rows \<Longrightarrow> key a = key b \<Longrightarrow> a = b"
  by (auto simp: distinct_map inj_on_def)

lemma find_append: "find P (xs @ ys) = (case find P xs of None \<Rightarrow> find P ys | Some x \<Rightarrow> Some x)"
  by (induction xs) auto

lemma find_SomeD: "find P xs = Some x \<Longrightarrow> x \<in> set xs \<and> P x"
  by (auto simp: find_Some_iff)

lemma find_map: "find P (map f xs) = map_option f (find (\<lambda>x. P (f x)) xs)"
  by (induction xs) auto

lemma find_unique:
  assumes "x \<in> set xs" "P x" "\<And>y. y \<in> set xs \<Longrightarrow> P y \<Longrightarrow> y = x"
  shows "find P xs = Some x"
proof (cases "find P xs")
  case None
  with assms(1,2) show ?thesis by (auto simp: find_None_iff)
next
  case (Some y)
  with assms(3) [of y] show ?thesis by (auto dest: find_SomeD)
qed

section \<open>Interfaces\<close>

text \<open>
  A machine is a step function on a state; \<open>run\<close> feeds it a sequence of events. The first
  contract is that every step keeps an invariant; the second adds that every step moves the
  state up a preorder (counters that never go back).
\<close>

locale invariant_machine =
  fixes step :: "'s \<Rightarrow> 'e \<Rightarrow> 's"
    and inv :: "'s \<Rightarrow> bool"
  assumes step_inv: "inv s \<Longrightarrow> inv (step s e)"
begin

lemma run_inv: "inv s \<Longrightarrow> inv (foldl step s es)"
  by (induction es arbitrary: s) (auto simp: step_inv)

end

locale ordered_machine = invariant_machine step inv
  for step :: "'s \<Rightarrow> 'e \<Rightarrow> 's" and inv :: "'s \<Rightarrow> bool" +
  fixes le :: "'s \<Rightarrow> 's \<Rightarrow> bool"
  assumes le_refl: "le s s"
    and le_trans: "inv s \<Longrightarrow> le s t \<Longrightarrow> le t u \<Longrightarrow> le s u"
    and step_le: "inv s \<Longrightarrow> le s (step s e)"
begin

lemma run_le: "inv s \<Longrightarrow> le s (foldl step s es)"
proof (induction es arbitrary: s)
  case Nil
  show ?case by (simp add: le_refl)
next
  case (Cons e es)
  have "le s (step s e)" using Cons.prems by (rule step_le)
  moreover have "le (step s e) (foldl step (step s e) es)"
    using Cons.prems by (intro Cons.IH step_inv)
  ultimately have "le s (foldl step (step s e) es)"
    using Cons.prems by (blast intro: le_trans)
  then show ?case by simp
qed

end

text \<open>
  A protocol session reads commands one by one. Before a login it has no owner; the contract
  says that a command gives the session an owner only if the credentials were accepted for
  that owner, that the owner then never changes, and that a session without an owner leaves
  the stored data alone.
\<close>

locale login_session =
  fixes step :: "'s \<Rightarrow> 'c \<Rightarrow> 's"
    and owner :: "'s \<Rightarrow> 'o option"
    and data :: "'s \<Rightarrow> 'd"
    and accepted :: "'s \<Rightarrow> 'c \<Rightarrow> 'o \<Rightarrow> bool"
  assumes owner_kept: "owner s = Some a \<Longrightarrow> owner (step s c) = Some a"
    and owner_from_login: "owner s = None \<Longrightarrow> owner (step s c) = Some a \<Longrightarrow> accepted s c a"
    and data_kept: "owner s = None \<Longrightarrow> data (step s c) = data s"
begin

lemma run_owner_kept: "owner s = Some a \<Longrightarrow> owner (foldl step s cs) = Some a"
  by (induction cs arbitrary: s) (auto simp: owner_kept)

lemma run_without_login:
  assumes "owner (foldl step s cs) = None"
  shows "data (foldl step s cs) = data s"
  using assms
proof (induction cs arbitrary: s)
  case (Cons c cs)
  have "owner s = None"
  proof (rule ccontr)
    assume "owner s \<noteq> None"
    then obtain a where "owner s = Some a" by auto
    from run_owner_kept [OF this, of "c # cs"] Cons.prems show False by simp
  qed
  with Cons show ?case by (simp add: data_kept)
qed simp

lemma run_owner_needs_login:
  assumes "owner s = None" "owner (foldl step s cs) = Some a"
  shows "\<exists>before c after. cs = before @ c # after
           \<and> owner (foldl step s before) = None \<and> accepted (foldl step s before) c a"
  using assms
proof (induction cs arbitrary: s)
  case (Cons c cs)
  show ?case
  proof (cases "owner (step s c)")
    case None
    from Cons.IH [OF None] Cons.prems(2) obtain before d after where
      "cs = before @ d # after" "owner (foldl step (step s c) before) = None"
      "accepted (foldl step (step s c) before) d a" by auto
    with Cons.prems(1) have "c # cs = (c # before) @ d # after
        \<and> owner (foldl step s (c # before)) = None \<and> accepted (foldl step s (c # before)) d a"
      by simp
    then show ?thesis by blast
  next
    case (Some b)
    then have "b = a" using Cons.prems(2) run_owner_kept [OF Some, of cs] by simp
    with Some Cons.prems(1) have "accepted s c a" by (auto dest: owner_from_login)
    with Cons.prems(1) have "c # cs = [] @ c # cs
        \<and> owner (foldl step s []) = None \<and> accepted (foldl step s []) c a" by simp
    then show ?thesis by blast
  qed
qed simp

end

end
