(* ===== verification/Mail_Store.thy ===== *)
theory Mail_Store
  imports Prelude "HOL-Library.Word"
begin

text \<open>
  The mail store of \<^verbatim>\<open>internal/infrastructure/postgres\<close>: \<^verbatim>\<open>mail_store.go\<close> and
  \<^verbatim>\<open>inbound_message_repository.go\<close> (every operation that changes messages and
  folders) and \<^verbatim>\<open>mail_store_read.go\<close> (the numbers clients read).

  The database is the record \<open>mail_db\<close>: the rows of the tables the operations touch. The SQL
  statements are written out as updates of these rows. Each operation of the source runs in one
  transaction, so it has one extra argument, \<open>ok\<close>: \<^const>\<open>True\<close> when every
  statement the operation reaches succeeds, \<^const>\<open>False\<close> when one of them (or the commit)
  fails, in which case the transaction rolls back and the caller sees \<open>DbFault\<close>.
  A UUID is a number drawn from the counter \<open>next_uuid\<close>; a UID given or returned by the API is
  a 32-bit word, as in the source, while the column that holds it is 64 bits wide.

  The main result is that the cached numbers of the folder and mailbox rows always equal what
  counting the messages gives (\<open>store_inv\<close>), whatever sequence of operations is run.
\<close>

section \<open>Tables\<close>

type_synonym uuid = nat
type_synonym uid32 = "32 word"

text \<open>The table \<^verbatim>\<open>folders\<close>. No operation of the source sets \<^verbatim>\<open>parent_id\<close>.\<close>

record folder_row =
  fid :: uuid
  f_mailbox :: uuid
  f_name :: string
  special_use :: "string option"
  uid_next :: int
  uid_validity :: int
  highest_modseq :: int
  unread_count :: int
  total_count :: int

text \<open>The columns of \<^verbatim>\<open>email_messages\<close> that describe a message and never change.\<close>

record message_meta =
  sender_address :: string
  recipient_addresses :: "string list"
  subject :: "string option"
  snippet :: "string option"
  from_display_name :: "string option"
  message_id_header :: "string option"
  has_attachments :: bool
  spf_result :: "string option"
  dkim_result :: "string option"
  dmarc_result :: "string option"

text \<open>
  A row of \<^verbatim>\<open>email_messages\<close> with its rows of \<^verbatim>\<open>message_flags\<close> (a set, since
  the flag is part of that table's primary key). \<open>m_expunged\<close> says that
  \<^verbatim>\<open>expunged_at\<close> is not null.
\<close>

record message_row =
  mid :: uuid
  m_mailbox :: uuid
  m_folder :: uuid
  m_uid :: int
  m_modseq :: int
  m_blob :: uuid
  m_size :: int
  m_received_at :: int
  m_expunged :: bool
  m_flags :: "string set"
  m_meta :: message_meta

record mailbox_row =
  mb_id :: uuid
  email_address :: string
  mb_active :: bool
  max_message_bytes :: int
  quota_bytes :: int
  used_bytes :: int

record blob_row =
  blob_id :: uuid
  ref_count :: int

record outbox_row =
  event_id :: nat
  event_type :: string
  aggregate_id :: uuid
  payload :: "string \<times> int"
  published :: bool

record mail_db =
  folders :: "folder_row list"
  messages :: "message_row list"
  mailboxes :: "mailbox_row list"
  blobs :: "blob_row list"
  outbox :: "outbox_row list"
  next_uuid :: uuid

datatype store_error =
    MessageNotFound
  | FolderMissing
  | AlreadyInTrash
  | NoTrashFolder
  | NoRows
  | Duplicate
  | DbFault

definition SEEN :: string where "SEEN = BACKSLASH # ''Seen''"
definition DRAFT :: string where "DRAFT = BACKSLASH # ''Draft''"
definition FLAGGED :: string where "FLAGGED = BACKSLASH # ''Flagged''"
definition DELETED :: string where "DELETED = BACKSLASH # ''Deleted''"

text \<open>Statements that update one row by its key.\<close>

definition upd_folder :: "uuid \<Rightarrow> (folder_row \<Rightarrow> folder_row) \<Rightarrow> mail_db \<Rightarrow> mail_db" where
  "upd_folder k u db = db\<lparr>folders := update_where (\<lambda>f. fid f = k) u (folders db)\<rparr>"

definition upd_message :: "uuid \<Rightarrow> (message_row \<Rightarrow> message_row) \<Rightarrow> mail_db \<Rightarrow> mail_db" where
  "upd_message k u db = db\<lparr>messages := update_where (\<lambda>m. mid m = k) u (messages db)\<rparr>"

definition upd_mailbox :: "uuid \<Rightarrow> (mailbox_row \<Rightarrow> mailbox_row) \<Rightarrow> mail_db \<Rightarrow> mail_db" where
  "upd_mailbox k u db = db\<lparr>mailboxes := update_where (\<lambda>b. mb_id b = k) u (mailboxes db)\<rparr>"

definition upd_blob :: "uuid \<Rightarrow> (blob_row \<Rightarrow> blob_row) \<Rightarrow> mail_db \<Rightarrow> mail_db" where
  "upd_blob k u db = db\<lparr>blobs := update_where (\<lambda>b. blob_id b = k) u (blobs db)\<rparr>"

definition folder_by_id :: "mail_db \<Rightarrow> uuid \<Rightarrow> folder_row option" where
  "folder_by_id db k = find (\<lambda>f. fid f = k) (folders db)"

section \<open>Operations\<close>

text \<open>
  \<^verbatim>\<open>lockFolders\<close>: the row locks an operation takes, in the order it takes them. Locking
  does not change the rows; what matters is the order.
\<close>

fun lock_from :: "uuid option \<Rightarrow> uuid list \<Rightarrow> uuid list" where
  "lock_from prev [] = []"
| "lock_from prev (i # ids) = (if prev = Some i then lock_from (Some i) ids else i # lock_from (Some i) ids)"

definition lockFolders :: "uuid list \<Rightarrow> uuid list" where
  "lockFolders ids = lock_from None (sort ids)"

definition loadMessage :: "mail_db \<Rightarrow> uuid \<Rightarrow> uid32 \<Rightarrow> message_row option" where
  "loadMessage db folderID uid =
     find (\<lambda>m. m_folder m = folderID \<and> m_uid m = uint uid \<and> \<not> m_expunged m) (messages db)"

text \<open>
  \<^verbatim>\<open>ResolveFolder\<close> and \<^verbatim>\<open>lockFolder\<close> run the same query: role or name, ignoring
  case, rows with a role first. Among rows the ordering leaves equal, the first of the table is
  taken.
\<close>

definition folder_matches :: "uuid \<Rightarrow> string \<Rightarrow> folder_row \<Rightarrow> bool" where
  "folder_matches mailboxID r f \<longleftrightarrow>
     f_mailbox f = mailboxID \<and> (special_use f = Some (ToLower r) \<or> ToLower (f_name f) = ToLower r)"

definition ResolveFolder :: "mail_db \<Rightarrow> uuid \<Rightarrow> string \<Rightarrow> folder_row option" where
  "ResolveFolder db mailboxID r =
     (case find (\<lambda>f. folder_matches mailboxID r f \<and> special_use f \<noteq> None) (folders db) of
        Some f \<Rightarrow> Some f
      | None \<Rightarrow> find (folder_matches mailboxID r) (folders db))"

datatype flag_op = FlagOpAdd | FlagOpDel | FlagOpSet

fun apply_flag_op :: "flag_op \<Rightarrow> string list \<Rightarrow> string set \<Rightarrow> string set" where
  "apply_flag_op FlagOpAdd flags s = foldl (\<lambda>s f. insert f s) s flags"
| "apply_flag_op FlagOpDel flags s = foldl (\<lambda>s f. s - {f}) s flags"
| "apply_flag_op FlagOpSet flags s = foldl (\<lambda>s f. insert f s) {} flags"

definition sameFlags :: "string set \<Rightarrow> string set \<Rightarrow> bool" where
  "sameFlags a b \<longleftrightarrow> card a = card b \<and> (\<forall>k \<in> a. k \<in> b)"

definition unread_delta :: "string set \<Rightarrow> string set \<Rightarrow> int" where
  "unread_delta before after =
     (if SEEN \<in> before \<and> SEEN \<notin> after then 1
      else if SEEN \<notin> before \<and> SEEN \<in> after then -1 else 0)"

definition SetFlags ::
  "bool \<Rightarrow> uuid \<Rightarrow> uid32 \<Rightarrow> flag_op \<Rightarrow> string list \<Rightarrow> nat \<Rightarrow> mail_db \<Rightarrow> (store_error + bool) \<times> mail_db" where
  "SetFlags ok folderID uid op flags unchangedSince db =
     (if \<not> ok then (Inl DbFault, db)
      else case loadMessage db folderID uid of
        None \<Rightarrow> (Inl MessageNotFound, db)
      | Some msg \<Rightarrow>
          if unchangedSince > 0 \<and> m_modseq msg > int unchangedSince then (Inr False, db)
          else
            let before = m_flags msg;
                after = apply_flag_op op flags before
            in if sameFlags before after then (Inr True, db)
               else case folder_by_id db folderID of
                 None \<Rightarrow> (Inl NoRows, db)
               | Some f \<Rightarrow>
                   let modseq = highest_modseq f + 1;
                       db1 = upd_folder folderID (\<lambda>f. f\<lparr>highest_modseq := highest_modseq f + 1,
                               unread_count := max 0 (unread_count f + unread_delta before after)\<rparr>) db
                   in (Inr True, upd_message (mid msg) (\<lambda>m. m\<lparr>m_flags := after, m_modseq := modseq\<rparr>) db1))"

definition expungeRow :: "message_row \<Rightarrow> uuid \<Rightarrow> mail_db \<Rightarrow> mail_db" where
  "expungeRow msg folderID db =
     (let unreadDelta = (if SEEN \<notin> m_flags msg then -1 else 0)
      in upd_mailbox (m_mailbox msg) (\<lambda>b. b\<lparr>used_bytes := max 0 (used_bytes b - m_size msg)\<rparr>)
          (upd_folder folderID (\<lambda>f. f\<lparr>total_count := max 0 (total_count f - 1),
             unread_count := max 0 (unread_count f + unreadDelta),
             highest_modseq := highest_modseq f + 1\<rparr>)
            (upd_message (mid msg) (\<lambda>m. m\<lparr>m_expunged := True\<rparr>) db)))"

fun expunge_loop :: "uuid \<Rightarrow> uid32 list \<Rightarrow> nat \<Rightarrow> mail_db \<Rightarrow> nat \<times> mail_db" where
  "expunge_loop folderID [] removed db = (removed, db)"
| "expunge_loop folderID (uid # uids) removed db =
     (case loadMessage db folderID uid of
        None \<Rightarrow> expunge_loop folderID uids removed db
      | Some msg \<Rightarrow> expunge_loop folderID uids (removed + 1) (expungeRow msg folderID db))"

definition Expunge :: "bool \<Rightarrow> uuid \<Rightarrow> uid32 list \<Rightarrow> mail_db \<Rightarrow> (store_error + nat) \<times> mail_db" where
  "Expunge ok folderID uids db =
     (if uids = [] then (Inr 0, db)
      else if \<not> ok then (Inl DbFault, db)
      else let (removed, db') = expunge_loop folderID uids 0 db in (Inr removed, db'))"

definition Move :: "bool \<Rightarrow> uuid \<Rightarrow> uid32 \<Rightarrow> uuid \<Rightarrow> mail_db \<Rightarrow> (store_error + uid32) \<times> mail_db" where
  "Move ok sourceFolderID uid destFolderID db =
     (if \<not> ok then (Inl DbFault, db)
      else case loadMessage db sourceFolderID uid of
        None \<Rightarrow> (Inl MessageNotFound, db)
      | Some msg \<Rightarrow>
          (case folder_by_id db destFolderID of
             None \<Rightarrow> (Inl NoRows, db)
           | Some dest \<Rightarrow>
               let destUID = uid_next dest;
                   unread = (if SEEN \<notin> m_flags msg then 1 else 0);
                   modseq = highest_modseq dest + 1;
                   db1 = upd_folder destFolderID (\<lambda>f. f\<lparr>uid_next := uid_next f + 1,
                           highest_modseq := highest_modseq f + 1, total_count := total_count f + 1,
                           unread_count := unread_count f + unread\<rparr>) db;
                   db2 = upd_message (mid msg) (\<lambda>m. m\<lparr>m_folder := destFolderID, m_uid := destUID,
                           m_modseq := modseq\<rparr>) db1;
                   db3 = upd_folder sourceFolderID (\<lambda>f. f\<lparr>total_count := max 0 (total_count f - 1),
                           unread_count := max 0 (unread_count f - unread),
                           highest_modseq := highest_modseq f + 1\<rparr>) db2
               in (Inr (word_of_int destUID), db3)))"

text \<open>\<^verbatim>\<open>copyOne\<close> is one transaction; \<^verbatim>\<open>Copy\<close> runs one per message.\<close>

definition copyOne :: "bool \<Rightarrow> int \<Rightarrow> uuid \<Rightarrow> uid32 \<Rightarrow> uuid \<Rightarrow> mail_db \<Rightarrow> (store_error + uid32) \<times> mail_db" where
  "copyOne ok now sourceFolderID sourceUID destFolderID db =
     (if \<not> ok then (Inl DbFault, db)
      else case loadMessage db sourceFolderID sourceUID of
        None \<Rightarrow> (Inl MessageNotFound, db)
      | Some src \<Rightarrow>
          (case folder_by_id db destFolderID of
             None \<Rightarrow> (Inl NoRows, db)
           | Some dest \<Rightarrow>
               let destUID = uid_next dest;
                   destMailboxID = f_mailbox dest;
                   unread = (if SEEN \<notin> m_flags src then 1 else 0);
                   modseq = highest_modseq dest + 1;
                   db1 = upd_folder destFolderID (\<lambda>f. f\<lparr>uid_next := uid_next f + 1,
                           highest_modseq := highest_modseq f + 1, total_count := total_count f + 1,
                           unread_count := unread_count f + unread\<rparr>) db;
                   new = \<lparr>mid = next_uuid db1, m_mailbox = destMailboxID, m_folder = destFolderID,
                          m_uid = destUID, m_modseq = modseq, m_blob = m_blob src, m_size = m_size src,
                          m_received_at = now, m_expunged = False, m_flags = m_flags src, m_meta = m_meta src\<rparr>;
                   db2 = db1\<lparr>messages := messages db1 @ [new], next_uuid := next_uuid db1 + 1\<rparr>;
                   db3 = upd_blob (m_blob src) (\<lambda>b. b\<lparr>ref_count := ref_count b + 1\<rparr>) db2;
                   db4 = upd_mailbox destMailboxID (\<lambda>b. b\<lparr>used_bytes := used_bytes b + m_size src\<rparr>) db3
               in (Inr (word_of_int destUID), db4)))"

fun copy_loop ::
  "(uid32 \<Rightarrow> bool) \<Rightarrow> int \<Rightarrow> uuid \<Rightarrow> uid32 list \<Rightarrow> uuid \<Rightarrow> (uid32 \<times> uid32) list \<Rightarrow> mail_db
    \<Rightarrow> (store_error + (uid32 \<times> uid32) list) \<times> mail_db" where
  "copy_loop ok now src [] dst results db = (Inr results, db)"
| "copy_loop ok now src (uid # uids) dst results db =
     (case copyOne (ok uid) now src uid dst db of
        (Inl e, db') \<Rightarrow> (Inl e, db')
      | (Inr destUID, db') \<Rightarrow> copy_loop ok now src uids dst (results @ [(uid, destUID)]) db')"

definition Copy ::
  "(uid32 \<Rightarrow> bool) \<Rightarrow> int \<Rightarrow> uuid \<Rightarrow> uid32 list \<Rightarrow> uuid \<Rightarrow> mail_db
    \<Rightarrow> (store_error + (uid32 \<times> uid32) list) \<times> mail_db" where
  "Copy ok now sourceFolderID uids destFolderID db = copy_loop ok now sourceFolderID uids destFolderID [] db"

definition DeleteFolder :: "bool \<Rightarrow> uuid \<Rightarrow> mail_db \<Rightarrow> (store_error + unit) \<times> mail_db" where
  "DeleteFolder ok folderID db =
     (if \<not> ok then (Inl DbFault, db)
      else case folder_by_id db folderID of
        None \<Rightarrow> (Inl NoRows, db)
      | Some f \<Rightarrow>
          let gone = (\<lambda>m. m_folder m = folderID \<and> \<not> m_expunged m);
              freed = sum_list (map m_size (filter gone (messages db)));
              db1 = db\<lparr>messages := update_where gone (\<lambda>m. m\<lparr>m_expunged := True\<rparr>) (messages db)\<rparr>;
              db2 = upd_mailbox (f_mailbox f) (\<lambda>b. b\<lparr>used_bytes := max 0 (used_bytes b - freed)\<rparr>) db1
          in (Inr (), db2\<lparr>folders := filter (\<lambda>f. fid f \<noteq> folderID) (folders db2)\<rparr>))"

text \<open>The delivery side: \<^verbatim>\<open>persistOne\<close> and \<^verbatim>\<open>PersistAll\<close>.\<close>

record persist_input =
  pi_mailbox :: uuid
  pi_blob :: uuid
  pi_blob_size :: nat
  pi_sender :: string
  pi_recipient :: string
  pi_target_folder :: string
  pi_subject :: string
  pi_snippet :: string
  pi_from_display_name :: string
  pi_message_id :: string
  pi_has_attachments :: bool
  pi_already_seen :: bool
  pi_spf :: string
  pi_dkim :: string
  pi_dmarc :: string

definition nullIfEmpty :: "string \<Rightarrow> string option" where
  "nullIfEmpty s = (if s = [] then None else Some s)"

definition messageFlagsFor :: "persist_input \<Rightarrow> string \<Rightarrow> string list" where
  "messageFlagsFor input folder =
     (if pi_already_seen input then [SEEN] else []) @ (if EqualFold folder ''Drafts'' then [DRAFT] else [])"

definition persist_folder :: "persist_input \<Rightarrow> mail_db \<Rightarrow> folder_row option" where
  "persist_folder input db =
     (let target = (if pi_target_folder input = [] then ''INBOX'' else pi_target_folder input)
      in case ResolveFolder db (pi_mailbox input) target of
           Some f \<Rightarrow> Some f
         | None \<Rightarrow> if EqualFold target ''INBOX'' then None else ResolveFolder db (pi_mailbox input) ''INBOX'')"

definition persistOne :: "int \<Rightarrow> persist_input \<Rightarrow> mail_db \<Rightarrow> (store_error + int) \<times> mail_db" where
  "persistOne now input db =
     (let target = (if pi_target_folder input = [] then ''INBOX'' else pi_target_folder input)
      in case persist_folder input db of
           None \<Rightarrow> (Inl NoRows, db)
         | Some f \<Rightarrow>
             let uid = uid_next f;
                 unreadDelta = (if pi_already_seen input then 0 else 1);
                 modseq = highest_modseq f + 1;
                 db1 = upd_folder (fid f) (\<lambda>f. f\<lparr>uid_next := uid_next f + 1,
                         highest_modseq := highest_modseq f + 1, unread_count := unread_count f + unreadDelta,
                         total_count := total_count f + 1\<rparr>) db;
                 meta = \<lparr>sender_address = pi_sender input, recipient_addresses = [pi_recipient input],
                         subject = nullIfEmpty (pi_subject input), snippet = nullIfEmpty (pi_snippet input),
                         from_display_name = nullIfEmpty (pi_from_display_name input),
                         message_id_header = nullIfEmpty (pi_message_id input),
                         has_attachments = pi_has_attachments input,
                         spf_result = nullIfEmpty (pi_spf input), dkim_result = nullIfEmpty (pi_dkim input),
                         dmarc_result = nullIfEmpty (pi_dmarc input)\<rparr>;
                 new = \<lparr>mid = next_uuid db1, m_mailbox = pi_mailbox input, m_folder = fid f, m_uid = uid,
                        m_modseq = modseq, m_blob = pi_blob input, m_size = int (pi_blob_size input),
                        m_received_at = now, m_expunged = False,
                        m_flags = set (messageFlagsFor input target), m_meta = meta\<rparr>;
                 db2 = db1\<lparr>messages := messages db1 @ [new], next_uuid := next_uuid db1 + 1\<rparr>;
                 db3 = upd_blob (pi_blob input) (\<lambda>b. b\<lparr>ref_count := ref_count b + 1\<rparr>) db2;
                 db4 = upd_mailbox (pi_mailbox input) (\<lambda>b. b\<lparr>used_bytes := used_bytes b + int (pi_blob_size input)\<rparr>) db3;
                 event = \<lparr>event_id = length (outbox db4), event_type = ''EmailReceived'',
                          aggregate_id = pi_mailbox input, payload = (pi_recipient input, uid), published = False\<rparr>
             in (Inr uid, db4\<lparr>outbox := outbox db4 @ [event]\<rparr>))"

fun persist_loop :: "int \<Rightarrow> persist_input list \<Rightarrow> int list \<Rightarrow> mail_db \<Rightarrow> (store_error + int list) \<times> mail_db" where
  "persist_loop now [] uids db = (Inr uids, db)"
| "persist_loop now (input # inputs) uids db =
     (case persistOne now input db of
        (Inl e, db') \<Rightarrow> (Inl e, db')
      | (Inr uid, db') \<Rightarrow> persist_loop now inputs (uids @ [uid]) db')"

definition PersistAll :: "bool \<Rightarrow> int \<Rightarrow> persist_input list \<Rightarrow> mail_db \<Rightarrow> (store_error + int list) \<times> mail_db" where
  "PersistAll ok now inputs db =
     (if inputs = [] then (Inr [], db)
      else if \<not> ok then (Inl DbFault, db)
      else case persist_loop now inputs [] db of
             (Inl e, _) \<Rightarrow> (Inl e, db)
           | (Inr uids, db') \<Rightarrow> (Inr uids, db'))"

section \<open>The read side\<close>

record folder_info =
  fi_id :: uuid
  fi_name :: string
  fi_special_use :: string
  fi_uid_next :: int
  fi_uid_validity :: int
  fi_highest_modseq :: int
  fi_total :: int
  fi_unread :: int

definition live_in :: "uuid \<Rightarrow> message_row \<Rightarrow> bool" where
  "live_in k m \<longleftrightarrow> m_folder m = k \<and> \<not> m_expunged m"

definition unseen_in :: "uuid \<Rightarrow> message_row \<Rightarrow> bool" where
  "unseen_in k m \<longleftrightarrow> live_in k m \<and> SEEN \<notin> m_flags m"

definition scanFolder :: "mail_db \<Rightarrow> folder_row \<Rightarrow> folder_info" where
  "scanFolder db f =
     \<lparr>fi_id = fid f, fi_name = f_name f,
      fi_special_use = (case special_use f of None \<Rightarrow> [] | Some r \<Rightarrow> r),
      fi_uid_next = uid_next f, fi_uid_validity = uid_validity f, fi_highest_modseq = highest_modseq f,
      fi_total = int (length (filter (live_in (fid f)) (messages db))),
      fi_unread = int (length (filter (unseen_in (fid f)) (messages db)))\<rparr>"

definition Folders :: "mail_db \<Rightarrow> uuid \<Rightarrow> folder_info list" where
  "Folders db mailboxID =
     map (scanFolder db) (sort_key f_name (filter (\<lambda>f. f_mailbox f = mailboxID) (folders db)))"

definition FolderByName :: "mail_db \<Rightarrow> uuid \<Rightarrow> string \<Rightarrow> folder_info option" where
  "FolderByName db mailboxID name =
     map_option (scanFolder db) (find (\<lambda>f. f_mailbox f = mailboxID \<and> f_name f = name) (folders db))"

definition MessageBlob :: "mail_db \<Rightarrow> uuid \<Rightarrow> uid32 \<Rightarrow> store_error + uuid" where
  "MessageBlob db folderID uid =
     (case loadMessage db folderID uid of None \<Rightarrow> Inl MessageNotFound | Some m \<Rightarrow> Inr (m_blob m))"

text \<open>
  \<^verbatim>\<open>Messages\<close>: the listing with its search, order and page. \<^verbatim>\<open>ILIKE\<close> is
  PostgreSQL's pattern match ignoring case: a percent sign stands for any text, an underscore for one
  character, and a backslash takes the next character literally. The search text is
  put between two percent signs without escaping.
\<close>

record message_query =
  q_newest_first :: bool
  q_search :: string
  q_limit :: int
  q_offset :: int

fun like :: "string \<Rightarrow> string \<Rightarrow> bool" where
  "like s [] = (s = [])"
| "like s (p # ps) =
     (if p = CHR ''%'' then like s ps \<or> (case s of [] \<Rightarrow> False | _ # t \<Rightarrow> like t (p # ps))
      else case s of
          [] \<Rightarrow> False
        | c # t \<Rightarrow>
            if p = CHR ''_'' then like t ps
            else if p = BACKSLASH then (case ps of [] \<Rightarrow> False | e # ps' \<Rightarrow> c = e \<and> like t ps')
            else c = p \<and> like t ps)"

declare like.simps [simp del]

definition ilike :: "string \<Rightarrow> string \<Rightarrow> bool" where
  "ilike s pat \<longleftrightarrow> like (ToLower s) (ToLower pat)"

definition message_found :: "string \<Rightarrow> message_row \<Rightarrow> bool" where
  "message_found search m \<longleftrightarrow>
     (let pat = ''%'' @ search @ ''%'';
          col = (\<lambda>v. case v of None \<Rightarrow> False | Some s \<Rightarrow> ilike s pat)
      in search = [] \<or> col (subject (m_meta m)) \<or> ilike (sender_address (m_meta m)) pat \<or> col (snippet (m_meta m)))"

definition Messages :: "mail_db \<Rightarrow> uuid \<Rightarrow> message_query \<Rightarrow> message_row list" where
  "Messages db folderID q =
     (let limit = (if q_limit q \<le> 0 then 2 ^ 31 - 1 else q_limit q);
          offset = (if q_offset q < 0 then 0 else q_offset q);
          found = filter (\<lambda>m. live_in folderID m \<and> message_found (q_search q) m) (messages db);
          ordered = (if q_newest_first q
                     then sort_key (\<lambda>m. - m_received_at m) (sort_key (\<lambda>m. - m_uid m) found)
                     else sort_key m_uid found)
      in take (nat limit) (drop (nat offset) ordered))"

text \<open>The zero value of the query, with which IMAP and POP3 number the messages of a folder.\<close>

definition every_message :: message_query where
  "every_message = \<lparr>q_newest_first = False, q_search = [], q_limit = 0, q_offset = 0\<rparr>"

end
