(* ===== verification/Store_Invariant.thy ===== *)
theory Store_Invariant
  imports Mail_Store
begin

text \<open>
  The invariant of the mail store and its preservation by every operation of
  \<open>Mail_Store\<close>. All operations change one message, add one message, or retire a folder;
  the first two cases are proved once (\<open>message_changed\<close>, \<open>message_added\<close>)
  and every operation is an instance.
\<close>

section \<open>The invariant\<close>

definition live_size :: "uuid \<Rightarrow> message_row \<Rightarrow> int" where
  "live_size k m = (if m_mailbox m = k \<and> \<not> m_expunged m then m_size m else 0)"

definition keys_ok :: "mail_db \<Rightarrow> bool" where
  "keys_ok db \<longleftrightarrow>
     distinct (map fid (folders db)) \<and> distinct (map mid (messages db)) \<and> distinct (map mb_id (mailboxes db))
     \<and> (\<forall>f \<in> set (folders db). fid f < next_uuid db)
     \<and> (\<forall>m \<in> set (messages db). mid m < next_uuid db \<and> m_folder m < next_uuid db \<and> 0 \<le> m_size m \<and> finite (m_flags m))"

definition counts_ok :: "mail_db \<Rightarrow> bool" where
  "counts_ok db \<longleftrightarrow> (\<forall>f \<in> set (folders db).
     total_count f = sum_rows (\<lambda>m. of_bool (live_in (fid f) m)) (messages db)
     \<and> unread_count f = sum_rows (\<lambda>m. of_bool (unseen_in (fid f) m)) (messages db))"

definition uids_ok :: "mail_db \<Rightarrow> bool" where
  "uids_ok db \<longleftrightarrow>
     (\<forall>f \<in> set (folders db). 0 < uid_next f)
     \<and> (\<forall>f \<in> set (folders db). \<forall>m \<in> set (messages db). m_folder m = fid f \<longrightarrow>
           0 < m_uid m \<and> m_uid m < uid_next f \<and> m_modseq m \<le> highest_modseq f)
     \<and> (\<forall>m \<in> set (messages db). \<forall>m' \<in> set (messages db).
           m_folder m = m_folder m' \<and> m_uid m = m_uid m' \<longrightarrow> mid m = mid m')"

definition owners_ok :: "mail_db \<Rightarrow> bool" where
  "owners_ok db \<longleftrightarrow> (\<forall>m \<in> set (messages db). \<not> m_expunged m \<longrightarrow>
     (\<exists>f \<in> set (folders db). fid f = m_folder m \<and> f_mailbox f = m_mailbox m))"

definition quota_ok :: "mail_db \<Rightarrow> bool" where
  "quota_ok db \<longleftrightarrow> (\<forall>b \<in> set (mailboxes db). used_bytes b = sum_rows (live_size (mb_id b)) (messages db))"

definition refs_ok :: "mail_db \<Rightarrow> bool" where
  "refs_ok db \<longleftrightarrow> (\<forall>b \<in> set (blobs db). ref_count b = sum_rows (\<lambda>m. of_bool (m_blob m = blob_id b)) (messages db))"

definition store_inv :: "mail_db \<Rightarrow> bool" where
  "store_inv db \<longleftrightarrow> keys_ok db \<and> counts_ok db \<and> uids_ok db \<and> owners_ok db \<and> quota_ok db \<and> refs_ok db"

lemmas store_inv_defs = store_inv_def keys_ok_def counts_ok_def uids_ok_def owners_ok_def quota_ok_def refs_ok_def
lemmas store_upd_defs = upd_folder_def upd_message_def upd_mailbox_def upd_blob_def

lemma uids_okD:
  assumes "uids_ok db" "f \<in> set (folders db)"
  shows "0 < uid_next f"
    and "m \<in> set (messages db) \<Longrightarrow> m_folder m = fid f \<Longrightarrow>
         0 < m_uid m \<and> m_uid m < uid_next f \<and> m_modseq m \<le> highest_modseq f"
  using assms unfolding uids_ok_def by blast+

lemma uids_ok_unique:
  assumes "uids_ok db" "m \<in> set (messages db)" "m' \<in> set (messages db)"
    and "m_folder m = m_folder m'" "m_uid m = m_uid m'"
  shows "mid m = mid m'"
  using assms unfolding uids_ok_def by blast

lemma uids_okI:
  assumes "\<And>f. f \<in> set (folders db) \<Longrightarrow> 0 < uid_next f"
    and "\<And>f m. f \<in> set (folders db) \<Longrightarrow> m \<in> set (messages db) \<Longrightarrow> m_folder m = fid f \<Longrightarrow>
           0 < m_uid m \<and> m_uid m < uid_next f \<and> m_modseq m \<le> highest_modseq f"
    and "\<And>m m'. m \<in> set (messages db) \<Longrightarrow> m' \<in> set (messages db) \<Longrightarrow> m_folder m = m_folder m' \<Longrightarrow>
           m_uid m = m_uid m' \<Longrightarrow> mid m = mid m'"
  shows "uids_ok db"
  using assms unfolding uids_ok_def by blast

section \<open>One message changes\<close>

lemma map_if_id: "(\<lambda>x. if P x then x else x) = (\<lambda>x. x)"
  by simp

lemma sum_rows_changed:
  assumes "keys_ok db" "m \<in> set (messages db)"
  shows "sum_rows g (update_where (\<lambda>x. mid x = mid m) u (messages db)) = sum_rows g (messages db) - g m + g (u m)"
  using assms sum_rows_update [of mid "messages db" m g u] by (simp add: keys_ok_def)

lemma in_update_where:
  assumes "distinct (map key rows)" "m \<in> set rows" "x \<in> set (update_where (\<lambda>y. key y = key m) u rows)"
  shows "x = u m \<or> x \<in> set rows \<and> key x \<noteq> key m"
proof -
  from assms(3) obtain y where y: "y \<in> set rows" "x = (if key y = key m then u y else y)"
    by (auto simp: set_update_where)
  show ?thesis
  proof (cases "key y = key m")
    case True
    with assms(1,2) y have "y = m" by (auto dest: distinct_key_eq)
    with y show ?thesis by simp
  next
    case False
    with y show ?thesis by simp
  qed
qed

definition same_record :: "message_row \<Rightarrow> message_row \<Rightarrow> bool" where
  "same_record m m' \<longleftrightarrow> mid m' = mid m \<and> m_mailbox m' = m_mailbox m \<and> m_blob m' = m_blob m
     \<and> m_size m' = m_size m \<and> finite (m_flags m')"

definition folder_follows :: "message_row \<Rightarrow> message_row \<Rightarrow> folder_row \<Rightarrow> folder_row \<Rightarrow> bool" where
  "folder_follows m m' f f' \<longleftrightarrow>
     fid f' = fid f \<and> f_mailbox f' = f_mailbox f \<and> uid_validity f' = uid_validity f
     \<and> uid_next f \<le> uid_next f' \<and> highest_modseq f \<le> highest_modseq f'
     \<and> total_count f' = total_count f - of_bool (live_in (fid f) m) + of_bool (live_in (fid f) m')
     \<and> unread_count f' = unread_count f - of_bool (unseen_in (fid f) m) + of_bool (unseen_in (fid f) m')
     \<and> (m_folder m' = fid f \<longrightarrow> 0 < m_uid m' \<and> m_uid m' < uid_next f' \<and> m_modseq m' \<le> highest_modseq f')"

definition message_change ::
  "mail_db \<Rightarrow> message_row \<Rightarrow> (message_row \<Rightarrow> message_row) \<Rightarrow> (folder_row \<Rightarrow> folder_row) \<Rightarrow> (mailbox_row \<Rightarrow> mailbox_row) \<Rightarrow> bool" where
  "message_change db m u g h \<longleftrightarrow>
     m \<in> set (messages db) \<and> same_record m (u m)
     \<and> (\<forall>f \<in> set (folders db). folder_follows m (u m) f (g f))
     \<and> (m_folder (u m) = m_folder m \<and> m_uid (u m) = m_uid m
        \<or> (\<exists>f \<in> set (folders db). fid f = m_folder (u m) \<and> uid_next f \<le> m_uid (u m)))
     \<and> (m_expunged (u m) \<or> (\<exists>f \<in> set (folders db). fid f = m_folder (u m) \<and> f_mailbox f = m_mailbox m))
     \<and> (\<forall>b \<in> set (mailboxes db).
          mb_id (h b) = mb_id b \<and> used_bytes (h b) = used_bytes b - live_size (mb_id b) m + live_size (mb_id b) (u m))"

definition changed ::
  "mail_db \<Rightarrow> message_row \<Rightarrow> (message_row \<Rightarrow> message_row) \<Rightarrow> (folder_row \<Rightarrow> folder_row) \<Rightarrow> (mailbox_row \<Rightarrow> mailbox_row) \<Rightarrow> mail_db" where
  "changed db m u g h = db\<lparr>folders := map g (folders db),
     messages := update_where (\<lambda>x. mid x = mid m) u (messages db), mailboxes := map h (mailboxes db)\<rparr>"

lemma changed_simps [simp]:
  "folders (changed db m u g h) = map g (folders db)"
  "messages (changed db m u g h) = update_where (\<lambda>x. mid x = mid m) u (messages db)"
  "mailboxes (changed db m u g h) = map h (mailboxes db)"
  "blobs (changed db m u g h) = blobs db"
  "next_uuid (changed db m u g h) = next_uuid db"
  by (simp_all add: changed_def)

lemma changed_member:
  assumes "keys_ok db" "message_change db m u g h" "x \<in> set (messages (changed db m u g h))"
  shows "x = u m \<or> x \<in> set (messages db) \<and> mid x \<noteq> mid m"
  using in_update_where [of mid "messages db" m x u] assms by (simp add: keys_ok_def message_change_def)

lemma changed_keys:
  assumes k: "keys_ok db" and ch: "message_change db m u g h"
  shows "keys_ok (changed db m u g h)"
proof -
  have m: "m \<in> set (messages db)" and same: "same_record m (u m)"
    and folders: "\<And>f. f \<in> set (folders db) \<Longrightarrow> folder_follows m (u m) f (g f)"
    and mailboxes: "\<And>b. b \<in> set (mailboxes db) \<Longrightarrow> mb_id (h b) = mb_id b"
    using ch by (auto simp: message_change_def)
  have fids: "map fid (map g (folders db)) = map fid (folders db)"
    using folders by (simp add: folder_follows_def)
  have mids: "map mid (messages (changed db m u g h)) = map mid (messages db)"
    using same m k by (auto simp: update_where_def same_record_def keys_ok_def dest: distinct_key_eq)
  have mbs: "map mb_id (map h (mailboxes db)) = map mb_id (mailboxes db)"
    using mailboxes by simp
  have small: "m_folder (u m) < next_uuid db"
    using ch k m by (auto simp: keys_ok_def message_change_def)
  have rows: "mid x < next_uuid db \<and> m_folder x < next_uuid db \<and> 0 \<le> m_size x \<and> finite (m_flags x)"
    if "x \<in> set (messages (changed db m u g h))" for x
    using changed_member [OF k ch that] same small k m by (auto simp: same_record_def keys_ok_def)
  show ?thesis
    unfolding keys_ok_def
  proof (intro conjI)
    show "distinct (map fid (mail_db.folders (changed db m u g h)))"
      using k fids by (simp add: keys_ok_def del: map_map)
    show "distinct (map mid (messages (changed db m u g h)))"
      using k by (simp only: mids) (simp add: keys_ok_def)
    show "distinct (map mb_id (mail_db.mailboxes (changed db m u g h)))"
      using k mbs by (simp add: keys_ok_def del: map_map)
    show "\<forall>f \<in> set (mail_db.folders (changed db m u g h)). fid f < next_uuid (changed db m u g h)"
      using k folders by (auto simp: keys_ok_def folder_follows_def)
  qed (use rows in simp)
qed

lemma changed_place_fresh:
  assumes k: "keys_ok db" and us: "uids_ok db" and ch: "message_change db m u g h" and z: "z \<in> set (messages db)"
    and at: "m_folder z = m_folder (u m)" "m_uid z = m_uid (u m)"
  shows "z = m"
proof -
  have m: "m \<in> set (messages db)" using ch by (simp add: message_change_def)
  from ch consider
      "m_folder (u m) = m_folder m" "m_uid (u m) = m_uid m"
    | f where "f \<in> set (folders db)" "fid f = m_folder (u m)" "uid_next f \<le> m_uid (u m)"
    unfolding message_change_def by blast
  then show ?thesis
  proof cases
    case 1
    with at have "mid z = mid m" by (intro uids_ok_unique [OF us z m]) simp_all
    with k z m show ?thesis unfolding keys_ok_def by (metis distinct_key_eq)
  next
    case 2
    with at have "m_uid z < uid_next f" using uids_okD(2) [OF us 2(1) z] by simp
    with 2 at show ?thesis by simp
  qed
qed

lemma changed_uids:
  assumes k: "keys_ok db" and us: "uids_ok db" and ch: "message_change db m u g h"
  shows "uids_ok (changed db m u g h)"
proof -
  note mem = changed_member [OF k ch]
  have follow: "folder_follows m (u m) f (g f)" if "f \<in> set (folders db)" for f
    using ch that by (simp add: message_change_def)
  have pos: "0 < uid_next (g f)" if "f \<in> set (folders db)" for f
    using uids_okD(1) [OF us that] follow [OF that] by (simp add: folder_follows_def)
  have bounds: "0 < m_uid x \<and> m_uid x < uid_next (g f) \<and> m_modseq x \<le> highest_modseq (g f)"
    if f: "f \<in> set (folders db)" and x: "x \<in> set (messages (changed db m u g h))" and fx: "m_folder x = fid (g f)" for f x
  proof (cases "x = u m")
    case True
    with follow [OF f] fx show ?thesis by (auto simp: folder_follows_def)
  next
    case False
    with mem [OF x] have "x \<in> set (messages db)" by simp
    with uids_okD(2) [OF us f] follow [OF f] fx show ?thesis by (fastforce simp: folder_follows_def)
  qed
  have unique: "mid x = mid y"
    if x: "x \<in> set (messages (changed db m u g h))" and y: "y \<in> set (messages (changed db m u g h))"
      and eq: "m_folder x = m_folder y" "m_uid x = m_uid y" for x y
  proof -
    have old: "mid x = mid y" if "x \<in> set (messages db)" "y \<in> set (messages db)"
      using us that eq by (rule uids_ok_unique)
    have new: "z = m" if "z \<in> set (messages db)" "m_folder z = m_folder (u m)" "m_uid z = m_uid (u m)" for z
      using k us ch that by (rule changed_place_fresh)
    show ?thesis
      using mem [OF x] mem [OF y]
      by (elim disjE conjE) (use eq old new [of x] new [of y] in simp_all)
  qed
  show ?thesis
  proof (rule uids_okI)
    show "0 < uid_next f" if "f \<in> set (folders (changed db m u g h))" for f
      using that pos by auto
    show "0 < m_uid x \<and> m_uid x < uid_next f \<and> m_modseq x \<le> highest_modseq f"
      if "f \<in> set (folders (changed db m u g h))" "x \<in> set (messages (changed db m u g h))" "m_folder x = fid f" for f x
    proof -
      from that(1) obtain f0 where "f0 \<in> set (folders db)" "f = g f0" by auto
      with bounds [OF this(1) that(2)] that(3) show ?thesis by simp
    qed
  qed (rule unique)
qed

lemma message_changed:
  assumes inv: "store_inv db" and ch: "message_change db m u g h"
  shows "store_inv (changed db m u g h)"
proof -
  have k: "keys_ok db" and c: "counts_ok db" and us: "uids_ok db" and o: "owners_ok db"
    and q: "quota_ok db" and r: "refs_ok db"
    using inv by (simp_all add: store_inv_def)
  have m: "m \<in> set (messages db)" and same: "same_record m (u m)"
    and follow: "\<And>f. f \<in> set (folders db) \<Longrightarrow> folder_follows m (u m) f (g f)"
    and own: "m_expunged (u m) \<or> (\<exists>f \<in> set (folders db). fid f = m_folder (u m) \<and> f_mailbox f = m_mailbox m)"
    and mailboxes: "\<And>b. b \<in> set (mailboxes db) \<Longrightarrow> mb_id (h b) = mb_id b
       \<and> used_bytes (h b) = used_bytes b - live_size (mb_id b) m + live_size (mb_id b) (u m)"
    using ch by (simp_all add: message_change_def)
  have "counts_ok (changed db m u g h)"
    using c follow k m by (auto simp: counts_ok_def folder_follows_def sum_rows_changed)
  moreover have "owners_ok (changed db m u g h)"
    unfolding owners_ok_def
  proof (intro ballI impI)
    fix x assume x: "x \<in> set (messages (changed db m u g h))" and live: "\<not> m_expunged x"
    have "\<exists>f \<in> set (folders db). fid f = m_folder x \<and> f_mailbox f = m_mailbox x"
      using changed_member [OF k ch x] live own o same by (auto simp: owners_ok_def same_record_def)
    with follow show "\<exists>f \<in> set (folders (changed db m u g h)). fid f = m_folder x \<and> f_mailbox f = m_mailbox x"
      by (fastforce simp: folder_follows_def)
  qed
  moreover have "quota_ok (changed db m u g h)"
    using q mailboxes k m by (auto simp: quota_ok_def sum_rows_changed)
  moreover have "refs_ok (changed db m u g h)"
    using r same k m by (auto simp: refs_ok_def sum_rows_changed same_record_def)
  ultimately show ?thesis
    using changed_keys [OF k ch] changed_uids [OF k us ch] by (simp add: store_inv_def)
qed

section \<open>One message is added\<close>

text \<open>
  \<open>added db n g h\<close> is the store after inserting the message \<open>n\<close>: the folders change by
  \<open>g\<close>, the mailboxes by \<open>h\<close>, and the blob of the message gains a reference.
\<close>

definition added ::
  "mail_db \<Rightarrow> message_row \<Rightarrow> (folder_row \<Rightarrow> folder_row) \<Rightarrow> (mailbox_row \<Rightarrow> mailbox_row) \<Rightarrow> mail_db" where
  "added db n g h = db\<lparr>folders := map g (folders db), messages := messages db @ [n], mailboxes := map h (mailboxes db),
     blobs := update_where (\<lambda>b. blob_id b = m_blob n) (\<lambda>b. b\<lparr>ref_count := ref_count b + 1\<rparr>) (blobs db),
     next_uuid := next_uuid db + 1\<rparr>"

definition message_addition ::
  "mail_db \<Rightarrow> message_row \<Rightarrow> (folder_row \<Rightarrow> folder_row) \<Rightarrow> (mailbox_row \<Rightarrow> mailbox_row) \<Rightarrow> bool" where
  "message_addition db n g h \<longleftrightarrow>
     mid n = next_uuid db \<and> \<not> m_expunged n \<and> 0 \<le> m_size n \<and> finite (m_flags n)
     \<and> (\<exists>f \<in> set (folders db). fid f = m_folder n \<and> f_mailbox f = m_mailbox n \<and> uid_next f = m_uid n)
     \<and> (\<forall>f \<in> set (folders db).
          fid (g f) = fid f \<and> f_mailbox (g f) = f_mailbox f \<and> uid_validity (g f) = uid_validity f
          \<and> uid_next f \<le> uid_next (g f) \<and> highest_modseq f \<le> highest_modseq (g f)
          \<and> total_count (g f) = total_count f + of_bool (live_in (fid f) n)
          \<and> unread_count (g f) = unread_count f + of_bool (unseen_in (fid f) n)
          \<and> (m_folder n = fid f \<longrightarrow> m_uid n < uid_next (g f) \<and> m_modseq n \<le> highest_modseq (g f)))
     \<and> (\<forall>b \<in> set (mailboxes db).
          mb_id (h b) = mb_id b \<and> used_bytes (h b) = used_bytes b + live_size (mb_id b) n)"

lemma added_simps [simp]:
  "folders (added db n g h) = map g (folders db)"
  "messages (added db n g h) = messages db @ [n]"
  "mailboxes (added db n g h) = map h (mailboxes db)"
  "next_uuid (added db n g h) = next_uuid db + 1"
  by (simp_all add: added_def)

lemma added_keys:
  assumes k: "keys_ok db" and ad: "message_addition db n g h"
  shows "keys_ok (added db n g h)"
proof -
  have fids: "map fid (map g (folders db)) = map fid (folders db)"
    using ad by (simp add: message_addition_def)
  have mbs: "map mb_id (map h (mailboxes db)) = map mb_id (mailboxes db)"
    using ad by (simp add: message_addition_def)
  have small: "m_folder n < next_uuid db"
    using ad k by (auto simp: message_addition_def keys_ok_def)
  have new: "mid n \<notin> mid ` set (messages db)"
    using ad k by (auto simp: message_addition_def keys_ok_def)
  show ?thesis
    unfolding keys_ok_def
  proof (intro conjI)
    show "distinct (map fid (folders (added db n g h)))"
      using k fids by (simp add: keys_ok_def del: map_map)
    show "distinct (map mb_id (mailboxes (added db n g h)))"
      using k mbs by (simp add: keys_ok_def del: map_map)
    show "distinct (map mid (messages (added db n g h)))"
      using k new by (simp add: keys_ok_def)
    show "\<forall>f \<in> set (folders (added db n g h)). fid f < next_uuid (added db n g h)"
      using k ad by (auto simp: keys_ok_def message_addition_def less_Suc_eq)
    show "\<forall>m \<in> set (messages (added db n g h)). mid m < next_uuid (added db n g h) \<and>
        m_folder m < next_uuid (added db n g h) \<and> 0 \<le> m_size m \<and> finite (m_flags m)"
      using k ad small by (auto simp: keys_ok_def message_addition_def less_Suc_eq)
  qed
qed

lemma added_uids:
  assumes k: "keys_ok db" and us: "uids_ok db" and ad: "message_addition db n g h"
  shows "uids_ok (added db n g h)"
proof -
  obtain f1 where f1: "f1 \<in> set (folders db)" "fid f1 = m_folder n" "uid_next f1 = m_uid n"
    using ad by (auto simp: message_addition_def)
  have follow: "fid (g f) = fid f" "uid_next f \<le> uid_next (g f)" "highest_modseq f \<le> highest_modseq (g f)"
    "m_folder n = fid f \<Longrightarrow> m_uid n < uid_next (g f) \<and> m_modseq n \<le> highest_modseq (g f)"
    if "f \<in> set (folders db)" for f
    using ad that by (simp_all add: message_addition_def)
  have other: "\<not> (m_folder x = m_folder n \<and> m_uid x = m_uid n)" if "x \<in> set (messages db)" for x
    using uids_okD(2) [OF us f1(1) that] f1 by auto
  show ?thesis
  proof (rule uids_okI)
    show "0 < uid_next f" if "f \<in> set (folders (added db n g h))" for f
      using that uids_okD(1) [OF us] follow(2) by fastforce
    show "0 < m_uid x \<and> m_uid x < uid_next f \<and> m_modseq x \<le> highest_modseq f"
      if "f \<in> set (folders (added db n g h))" "x \<in> set (messages (added db n g h))" "m_folder x = fid f" for f x
    proof -
      from that(1) obtain f0 where f0: "f0 \<in> set (folders db)" "f = g f0" by auto
      have "0 < m_uid n" using uids_okD(1) [OF us f1(1)] f1 by simp
      with f0 that follow [OF f0(1)] uids_okD(2) [OF us f0(1), of x] show ?thesis by auto
    qed
    show "mid x = mid y" if "x \<in> set (messages (added db n g h))" "y \<in> set (messages (added db n g h))"
      "m_folder x = m_folder y" "m_uid x = m_uid y" for x y
      using that other [of x] other [of y] uids_ok_unique [OF us, of x y] by auto
  qed
qed

lemma message_added:
  assumes inv: "store_inv db" and ad: "message_addition db n g h"
  shows "store_inv (added db n g h)"
proof -
  have k: "keys_ok db" and c: "counts_ok db" and us: "uids_ok db" and o: "owners_ok db"
    and q: "quota_ok db" and r: "refs_ok db"
    using inv by (simp_all add: store_inv_def)
  have "counts_ok (added db n g h)"
    using c ad by (auto simp: counts_ok_def message_addition_def sum_rows_snoc)
  moreover have "owners_ok (added db n g h)"
    using o ad unfolding owners_ok_def message_addition_def by simp metis
  moreover have "quota_ok (added db n g h)"
    using q ad by (auto simp: quota_ok_def message_addition_def sum_rows_snoc)
  moreover have "refs_ok (added db n g h)"
    using r by (auto simp: refs_ok_def added_def set_update_where sum_rows_snoc)
  ultimately show ?thesis
    using added_keys [OF k ad] added_uids [OF k us ad] by (simp add: store_inv_def)
qed

end
