(* ===== verification/Store_Operations.thy ===== *)
theory Store_Operations
  imports Store_Invariant
begin

text \<open>
  Every operation of the mail store keeps the store invariant: flag changes, expunge, move,
  copy, delivery, and creating, renaming or deleting a folder. Each proof exhibits the operation
  as one of the two changes of \<open>Store_Invariant\<close>.
\<close>

section \<open>What a loaded message and a cached number give\<close>

lemma loadMessage_Some:
  assumes "loadMessage db k uid = Some m"
  shows "m \<in> set (messages db)" "m_folder m = k" "m_uid m = uint uid" "\<not> m_expunged m"
  using find_SomeD [OF assms [unfolded loadMessage_def]] by auto

lemma folder_by_id_Some:
  assumes "folder_by_id db k = Some f"
  shows "f \<in> set (folders db)" "fid f = k"
  using find_SomeD [OF assms [unfolded folder_by_id_def]] by auto

lemma folder_by_id_unique:
  "keys_ok db \<Longrightarrow> folder_by_id db k = Some f \<Longrightarrow> f' \<in> set (folders db) \<Longrightarrow> fid f' = k \<Longrightarrow> f' = f"
  unfolding keys_ok_def by (metis distinct_key_eq folder_by_id_Some)

lemma store_inv_keys [dest]: "store_inv db \<Longrightarrow> keys_ok db"
  by (simp add: store_inv_def)

lemma counts_lower:
  assumes "store_inv db" "f \<in> set (folders db)" "m \<in> set (messages db)"
  shows "of_bool (live_in (fid f) m) \<le> total_count f" "of_bool (unseen_in (fid f) m) \<le> unread_count f"
  using assms sum_rows_member [of "messages db" "\<lambda>m. of_bool (live_in (fid f) m)" m]
    sum_rows_member [of "messages db" "\<lambda>m. of_bool (unseen_in (fid f) m)" m]
  by (simp_all add: store_inv_def counts_ok_def)

lemma quota_lower:
  assumes "store_inv db" "b \<in> set (mailboxes db)" "m \<in> set (messages db)"
  shows "live_size (mb_id b) m \<le> used_bytes b"
  using assms sum_rows_member [of "messages db" "live_size (mb_id b)" m]
  by (simp add: store_inv_def quota_ok_def keys_ok_def live_size_def)

lemma live_owner:
  assumes "store_inv db" "m \<in> set (messages db)" "\<not> m_expunged m"
  obtains f where "f \<in> set (folders db)" "fid f = m_folder m" "f_mailbox f = m_mailbox m"
  using assms unfolding store_inv_def owners_ok_def by blast

lemma finite_apply_flag_op: "finite s \<Longrightarrow> finite (apply_flag_op op flags s)"
proof -
  have "finite (foldl (\<lambda>s f. insert f s) s flags)" if "finite s" for s :: "string set"
    using that by (induction flags arbitrary: s) auto
  moreover have "finite (foldl (\<lambda>s f. s - {f}) s flags)" if "finite s" for s :: "string set"
    using that by (induction flags arbitrary: s) auto
  ultimately show "finite s \<Longrightarrow> ?thesis" by (cases op) auto
qed

lemmas msg_facts = loadMessage_Some folder_by_id_Some
lemmas change_defs = message_change_def same_record_def folder_follows_def

section \<open>Flags\<close>

definition stale :: "nat \<Rightarrow> message_row \<Rightarrow> bool" where
  "stale since m \<longleftrightarrow> since > 0 \<and> m_modseq m > int since"

lemma SetFlags_kept:
  assumes "\<And>m. ok \<Longrightarrow> loadMessage db k uid = Some m \<Longrightarrow> stale since m \<or> sameFlags (m_flags m) (apply_flag_op op flags (m_flags m))"
  shows "snd (SetFlags ok k uid op flags since db) = db"
  using assms by (auto simp: SetFlags_def stale_def Let_def split: option.splits)

lemma live_folder:
  assumes inv: "store_inv db" and m: "loadMessage db k uid = Some m"
  obtains f where "folder_by_id db k = Some f"
proof -
  obtain f where "f \<in> set (folders db)" "fid f = k"
    using live_owner [OF inv loadMessage_Some(1,4) [OF m]] loadMessage_Some(2) [OF m] by metis
  then have "find (\<lambda>f. fid f = k) (folders db) \<noteq> None" by (auto simp: find_None_iff)
  with that show ?thesis by (auto simp: folder_by_id_def)
qed

lemma SetFlags_changes:
  assumes inv: "store_inv db" and m: "loadMessage db k uid = Some m" and go: "\<not> stale since m"
    and new: "\<not> sameFlags (m_flags m) (apply_flag_op op flags (m_flags m))"
  shows "\<exists>u g f. folder_by_id db k = Some f \<and> highest_modseq (g f) = highest_modseq f + 1
           \<and> u m = m\<lparr>m_flags := apply_flag_op op flags (m_flags m), m_modseq := highest_modseq f + 1\<rparr>
           \<and> message_change db m u g (\<lambda>b. b)
           \<and> SetFlags True k uid op flags since db = (Inr True, changed db m u g (\<lambda>b. b))"
proof -
  obtain f where f: "folder_by_id db k = Some f" using live_folder [OF inv m] .
  note facts = loadMessage_Some [OF m] folder_by_id_Some [OF f]
  define after where "after = apply_flag_op op flags (m_flags m)"
  define u where "u = (\<lambda>x::message_row. x\<lparr>m_flags := after, m_modseq := highest_modseq f + 1\<rparr>)"
  define g where "g = (\<lambda>x::folder_row. if fid x = k then x\<lparr>highest_modseq := highest_modseq x + 1,
    unread_count := max 0 (unread_count x + unread_delta (m_flags m) after)\<rparr> else x)"
  have "SetFlags True k uid op flags since db = (Inr True, changed db m u g (\<lambda>b. b))"
    using m f go new
    by (auto simp: SetFlags_def Let_def after_def u_def g_def changed_def upd_folder_def upd_message_def
      update_where_def stale_def)
  moreover have "message_change db m u g (\<lambda>b. b)"
  proof -
    have "finite (m_flags m)" using inv facts by (auto simp: store_inv_def keys_ok_def)
    then have fin: "finite after" by (simp add: after_def finite_apply_flag_op)
    have follow: "folder_follows m (u m) x (g x)" if x: "x \<in> set (folders db)" for x
    proof (cases "fid x = k")
      case True
      then have "x = f" using folder_by_id_unique [OF _ f x] inv by auto
      with True counts_lower [OF inv x facts(1)] facts uids_okD(2) [of db x m] inv x show ?thesis
        by (auto simp: folder_follows_def g_def u_def live_in_def unseen_in_def unread_delta_def store_inv_def)
    next
      case False
      with facts show ?thesis by (auto simp: folder_follows_def g_def u_def live_in_def unseen_in_def)
    qed
    from live_owner [OF inv facts(1,4)] obtain w where "w \<in> set (folders db)" "fid w = m_folder m" "f_mailbox w = m_mailbox m" .
    with facts fin follow show ?thesis
      by (auto simp: message_change_def same_record_def u_def live_size_def)
  qed
  moreover have "u m = m\<lparr>m_flags := apply_flag_op op flags (m_flags m), m_modseq := highest_modseq f + 1\<rparr>"
    "highest_modseq (g f) = highest_modseq f + 1"
    using facts by (simp_all add: u_def g_def after_def)
  ultimately show ?thesis using f by blast
qed

lemma SetFlags_cases:
  assumes inv: "store_inv db"
  shows "snd (SetFlags ok k uid op flags since db) = db
         \<or> (\<exists>m u g. message_change db m u g (\<lambda>b. b) \<and> snd (SetFlags ok k uid op flags since db) = changed db m u g (\<lambda>b. b))"
proof (cases "\<exists>m. ok \<and> loadMessage db k uid = Some m \<and> \<not> stale since m
    \<and> \<not> sameFlags (m_flags m) (apply_flag_op op flags (m_flags m))")
  case True
  then obtain m where "ok" "loadMessage db k uid = Some m" "\<not> stale since m"
    "\<not> sameFlags (m_flags m) (apply_flag_op op flags (m_flags m))" by blast
  with SetFlags_changes [OF inv this(2-4)] show ?thesis by fastforce
next
  case False
  then show ?thesis using SetFlags_kept [of ok db k uid since op flags] by blast
qed

lemma SetFlags_inv: "store_inv db \<Longrightarrow> store_inv (snd (SetFlags ok k uid op flags since db))"
  using SetFlags_cases message_changed by metis

section \<open>Expunge\<close>

lemma expungeRow_changes:
  assumes inv: "store_inv db" and m: "loadMessage db k uid = Some m"
  shows "\<exists>u g h. message_change db m u g h \<and> expungeRow m k db = changed db m u g h \<and> u m = m\<lparr>m_expunged := True\<rparr>"
proof -
  note facts = loadMessage_Some [OF m]
  define u where "u = (\<lambda>x::message_row. x\<lparr>m_expunged := True\<rparr>)"
  define g where "g = (\<lambda>x::folder_row. if fid x = k then x\<lparr>total_count := max 0 (total_count x - 1),
     unread_count := max 0 (unread_count x + (if SEEN \<notin> m_flags m then -1 else 0)),
     highest_modseq := highest_modseq x + 1\<rparr> else x)"
  define h where "h = (\<lambda>b::mailbox_row. if mb_id b = m_mailbox m
     then b\<lparr>used_bytes := max 0 (used_bytes b - m_size m)\<rparr> else b)"
  have "expungeRow m k db = changed db m u g h"
    by (simp add: expungeRow_def changed_def u_def g_def h_def store_upd_defs update_where_def)
  moreover have "folder_follows m (u m) x (g x)" if x: "x \<in> set (folders db)" for x
    using counts_lower [OF inv x facts(1)] facts uids_okD(2) [of db x m] inv x
    by (auto simp: folder_follows_def g_def u_def live_in_def unseen_in_def store_inv_def)
  moreover have "used_bytes (h b) = used_bytes b - live_size (mb_id b) m + live_size (mb_id b) (u m)"
    if "b \<in> set (mailboxes db)" for b
    using quota_lower [OF inv that facts(1)] facts by (auto simp: h_def u_def live_size_def)
  moreover have "finite (m_flags m)" using inv facts by (auto simp: store_inv_def keys_ok_def)
  ultimately have "expungeRow m k db = changed db m u g h" "message_change db m u g h"
    using facts by (auto simp: message_change_def same_record_def u_def h_def)
  moreover have "u m = m\<lparr>m_expunged := True\<rparr>" by (simp add: u_def)
  ultimately show ?thesis by blast
qed

lemma expungeRow_inv: "store_inv db \<Longrightarrow> loadMessage db k uid = Some m \<Longrightarrow> store_inv (expungeRow m k db)"
  using expungeRow_changes message_changed by metis

lemma expunge_loop_inv: "store_inv db \<Longrightarrow> store_inv (snd (expunge_loop k uids n db))"
  by (induction k uids n db rule: expunge_loop.induct) (auto split: option.splits simp: expungeRow_inv)

lemma Expunge_inv: "store_inv db \<Longrightarrow> store_inv (snd (Expunge ok k uids db))"
  using expunge_loop_inv [of db k uids 0] by (auto simp: Expunge_def split: prod.splits)

section \<open>Move\<close>

lemma Move_changes:
  assumes inv: "store_inv db" and res: "Move ok k uid d db = (Inr v, db')"
    and same: "\<And>f f'. f \<in> set (folders db) \<Longrightarrow> f' \<in> set (folders db) \<Longrightarrow> fid f = k \<Longrightarrow> fid f' = d
                 \<Longrightarrow> f_mailbox f = f_mailbox f'"
  shows "\<exists>m u g dest. loadMessage db k uid = Some m \<and> folder_by_id db d = Some dest
           \<and> message_change db m u g (\<lambda>b. b) \<and> db' = changed db m u g (\<lambda>b. b)
           \<and> u m = m\<lparr>m_folder := d, m_uid := uid_next dest, m_modseq := highest_modseq dest + 1\<rparr>
           \<and> v = word_of_int (uid_next dest)"
proof -
  from res obtain m dest where m: "loadMessage db k uid = Some m" and dest: "folder_by_id db d = Some dest"
    by (auto simp: Move_def Let_def split: if_splits option.splits)
  note facts = loadMessage_Some [OF m] and dfacts = folder_by_id_Some [OF dest]
  define n where "n = (if SEEN \<notin> m_flags m then 1 else 0 :: int)"
  define u where "u = (\<lambda>x::message_row. x\<lparr>m_folder := d, m_uid := uid_next dest, m_modseq := highest_modseq dest + 1\<rparr>)"
  define g1 where "g1 = (\<lambda>x::folder_row. if fid x = d then x\<lparr>uid_next := uid_next x + 1, highest_modseq := highest_modseq x + 1,
     total_count := total_count x + 1, unread_count := unread_count x + n\<rparr> else x)"
  define g2 where "g2 = (\<lambda>x::folder_row. if fid x = k then x\<lparr>total_count := max 0 (total_count x - 1),
     unread_count := max 0 (unread_count x - n), highest_modseq := highest_modseq x + 1\<rparr> else x)"
  have eq: "db' = changed db m u (g2 \<circ> g1) (\<lambda>b. b)" "v = word_of_int (uid_next dest)"
    using res m dest
    by (auto simp: Move_def Let_def u_def g1_def g2_def n_def changed_def store_upd_defs update_where_def split: if_splits)
  have "folder_follows m (u m) x ((g2 \<circ> g1) x)" if x: "x \<in> set (folders db)" for x
  proof (cases "fid x = d")
    case True
    then have "x = dest" using folder_by_id_unique [OF _ dest x] inv by auto
    with True counts_lower [OF inv x facts(1)] uids_okD(1) [of db x] inv x facts show ?thesis
      by (auto simp: folder_follows_def g1_def g2_def n_def u_def live_in_def unseen_in_def store_inv_def)
  next
    case False
    with counts_lower [OF inv x facts(1)] facts show ?thesis
      by (auto simp: folder_follows_def g1_def g2_def n_def u_def live_in_def unseen_in_def)
  qed
  moreover have "f_mailbox dest = m_mailbox m"
    using live_owner [OF inv facts(1,4)] same dfacts facts by metis
  moreover have "finite (m_flags m)" using inv facts by (auto simp: store_inv_def keys_ok_def)
  ultimately have "message_change db m u (g2 \<circ> g1) (\<lambda>b. b)"
    using facts dfacts by (auto simp: message_change_def same_record_def u_def live_size_def)
  moreover have "u m = m\<lparr>m_folder := d, m_uid := uid_next dest, m_modseq := highest_modseq dest + 1\<rparr>"
    by (simp add: u_def)
  ultimately show ?thesis using m dest eq by blast
qed

lemma Move_failed: "Move ok k uid d db = (Inl e, db') \<Longrightarrow> db' = db"
  by (auto simp: Move_def Let_def split: if_splits option.splits)

section \<open>Copy and delivery\<close>

text \<open>What \<^verbatim>\<open>copyOne\<close> and \<^verbatim>\<open>persistOne\<close> have in common: a message filed at the folder's next UID.\<close>

definition filed :: "mail_db \<Rightarrow> folder_row \<Rightarrow> message_row \<Rightarrow> mail_db" where
  "filed db f n = added db n
     (\<lambda>x. if fid x = fid f then x\<lparr>uid_next := uid_next x + 1, highest_modseq := highest_modseq x + 1,
        total_count := total_count x + 1, unread_count := unread_count x + (if SEEN \<in> m_flags n then 0 else 1)\<rparr> else x)
     (\<lambda>b. if mb_id b = m_mailbox n then b\<lparr>used_bytes := used_bytes b + m_size n\<rparr> else b)"

definition filed_ok :: "mail_db \<Rightarrow> folder_row \<Rightarrow> message_row \<Rightarrow> bool" where
  "filed_ok db f n \<longleftrightarrow> f \<in> set (folders db) \<and> mid n = next_uuid db \<and> \<not> m_expunged n \<and> 0 \<le> m_size n
     \<and> finite (m_flags n) \<and> m_folder n = fid f \<and> m_uid n = uid_next f
     \<and> m_modseq n = highest_modseq f + 1 \<and> f_mailbox f = m_mailbox n"

lemma filed_addition:
  assumes inv: "store_inv db" and ok: "filed_ok db f n"
  shows "store_inv (filed db f n)"
proof -
  define g where "g = (\<lambda>x::folder_row. if fid x = fid f then x\<lparr>uid_next := uid_next x + 1, highest_modseq := highest_modseq x + 1,
        total_count := total_count x + 1, unread_count := unread_count x + (if SEEN \<in> m_flags n then 0 else 1)\<rparr> else x)"
  define h where "h = (\<lambda>b::mailbox_row. if mb_id b = m_mailbox n then b\<lparr>used_bytes := used_bytes b + m_size n\<rparr> else b)"
  have one: "x = f" if "x \<in> set (folders db)" "fid x = fid f" for x
    using inv ok that distinct_key_eq [of fid "folders db" x f] by (auto simp: store_inv_def keys_ok_def filed_ok_def)
  have "fid (g x) = fid x \<and> f_mailbox (g x) = f_mailbox x \<and> uid_validity (g x) = uid_validity x \<and> uid_next x \<le> uid_next (g x)
      \<and> highest_modseq x \<le> highest_modseq (g x)
      \<and> total_count (g x) = total_count x + of_bool (live_in (fid x) n)
      \<and> unread_count (g x) = unread_count x + of_bool (unseen_in (fid x) n)
      \<and> (m_folder n = fid x \<longrightarrow> m_uid n < uid_next (g x) \<and> m_modseq n \<le> highest_modseq (g x))"
    if x: "x \<in> set (folders db)" for x
    using one [OF x] ok by (auto simp: g_def live_in_def unseen_in_def filed_ok_def)
  moreover have "mb_id (h b) = mb_id b \<and> used_bytes (h b) = used_bytes b + live_size (mb_id b) n" for b
    using ok by (auto simp: h_def live_size_def filed_ok_def)
  moreover have "\<exists>x \<in> set (folders db). fid x = m_folder n \<and> f_mailbox x = m_mailbox n \<and> uid_next x = m_uid n"
    using ok by (auto simp: filed_ok_def)
  ultimately have "message_addition db n g h"
    using ok by (simp add: message_addition_def filed_ok_def)
  from message_added [OF inv this] show ?thesis by (simp add: filed_def g_def h_def)
qed

lemma copyOne_files:
  assumes inv: "store_inv db" and res: "copyOne ok now k uid d db = (Inr v, db')"
  shows "\<exists>src dest n. loadMessage db k uid = Some src \<and> folder_by_id db d = Some dest \<and> filed_ok db dest n
           \<and> db' = filed db dest n \<and> v = word_of_int (m_uid n)
           \<and> m_blob n = m_blob src \<and> m_size n = m_size src \<and> m_flags n = m_flags src \<and> m_meta n = m_meta src"
proof -
  from res obtain src dest where src: "loadMessage db k uid = Some src" and dest: "folder_by_id db d = Some dest"
    by (auto simp: copyOne_def Let_def split: if_splits option.splits)
  define n where "n = \<lparr>mid = next_uuid db, m_mailbox = f_mailbox dest, m_folder = d, m_uid = uid_next dest,
     m_modseq = highest_modseq dest + 1, m_blob = m_blob src, m_size = m_size src, m_received_at = now,
     m_expunged = False, m_flags = m_flags src, m_meta = m_meta src\<rparr>"
  have "db' = filed db dest n" "v = word_of_int (uid_next dest)"
    using res src dest folder_by_id_Some(2) [OF dest]
    by (auto simp: copyOne_def Let_def n_def filed_def added_def store_upd_defs update_where_def split: if_splits)
  moreover have "filed_ok db dest n"
    using folder_by_id_Some [OF dest] loadMessage_Some [OF src] inv
    by (auto simp: filed_ok_def n_def store_inv_def keys_ok_def)
  ultimately show ?thesis using src dest by (auto simp: n_def)
qed

lemma copyOne_failed: "copyOne ok now k uid d db = (Inl e, db') \<Longrightarrow> db' = db"
  by (auto simp: copyOne_def Let_def split: if_splits option.splits)

lemma copyOne_inv: "store_inv db \<Longrightarrow> store_inv (snd (copyOne ok now k uid d db))"
proof (cases "copyOne ok now k uid d db")
  case (Pair r db')
  assume inv: "store_inv db"
  show ?thesis
  proof (cases r)
    case (Inr v)
    with Pair copyOne_files [OF inv] filed_addition [OF inv] show ?thesis by fastforce
  qed (use Pair inv in \<open>auto dest: copyOne_failed\<close>)
qed

lemma copy_loop_inv: "store_inv db \<Longrightarrow> store_inv (snd (copy_loop ok now k uids d acc db))"
proof (induction uids arbitrary: acc db)
  case (Cons uid uids)
  have "store_inv (snd (copyOne (ok uid) now k uid d db))" using Cons.prems by (rule copyOne_inv)
  with Cons.IH show ?case by (auto split: prod.splits sum.splits)
qed simp

lemma Copy_inv: "store_inv db \<Longrightarrow> store_inv (snd (Copy ok now k uids d db))"
  by (simp add: Copy_def copy_loop_inv)

lemma ResolveFolder_Some:
  assumes "ResolveFolder db mb r = Some f"
  shows "f \<in> set (folders db)" "f_mailbox f = mb"
  using assms by (auto simp: ResolveFolder_def folder_matches_def split: option.splits dest!: find_SomeD)

lemma persist_folder_Some:
  assumes "persist_folder input db = Some f"
  shows "f \<in> set (folders db)" "f_mailbox f = pi_mailbox input"
  using assms ResolveFolder_Some by (auto simp: persist_folder_def Let_def split: option.splits if_splits)

lemma SEEN_DRAFT [simp]: "SEEN \<noteq> DRAFT" "DRAFT \<noteq> SEEN"
  by (simp_all add: SEEN_def DRAFT_def)

lemma SEEN_messageFlagsFor [simp]: "SEEN \<in> set (messageFlagsFor input folder) \<longleftrightarrow> pi_already_seen input"
  by (simp add: messageFlagsFor_def)

lemma store_inv_outbox [simp]: "store_inv (db\<lparr>outbox := os\<rparr>) \<longleftrightarrow> store_inv db"
  by (simp add: store_inv_defs)

definition delivered_row :: "int \<Rightarrow> persist_input \<Rightarrow> folder_row \<Rightarrow> uuid \<Rightarrow> message_row \<Rightarrow> bool" where
  "delivered_row now input f k n \<longleftrightarrow> mid n = k \<and> m_mailbox n = pi_mailbox input \<and> m_folder n = fid f
     \<and> m_uid n = uid_next f \<and> m_modseq n = highest_modseq f + 1 \<and> m_blob n = pi_blob input
     \<and> m_size n = int (pi_blob_size input) \<and> \<not> m_expunged n \<and> (SEEN \<in> m_flags n \<longleftrightarrow> pi_already_seen input)
     \<and> finite (m_flags n) \<and> m_received_at n = now \<and> sender_address (m_meta n) = pi_sender input
     \<and> recipient_addresses (m_meta n) = [pi_recipient input]"

lemma persistOne_files:
  assumes res: "persistOne now input db = (Inr uid, db')"
  shows "\<exists>f n os. persist_folder input db = Some f \<and> filed_ok db f n \<and> db' = (filed db f n)\<lparr>outbox := os\<rparr>
           \<and> delivered_row now input f (next_uuid db) n \<and> uid = uid_next f"
proof -
  from res obtain f where f: "persist_folder input db = Some f"
    by (auto simp: persistOne_def Let_def split: option.splits)
  define n where "n = last (messages db')"
  have n: "delivered_row now input f (next_uuid db) n" "messages db' = messages db @ [n]"
    using res f by (auto simp: persistOne_def Let_def delivered_row_def store_upd_defs n_def)
  have "db' = (filed db f n)\<lparr>outbox := outbox db'\<rparr>"
    using res f n
    by (auto simp: persistOne_def Let_def filed_def added_def store_upd_defs update_where_def delivered_row_def)
  moreover have "filed_ok db f n"
    using n persist_folder_Some [OF f] by (auto simp: filed_ok_def delivered_row_def)
  moreover have "uid = uid_next f"
    using res f by (simp add: persistOne_def Let_def)
  ultimately show ?thesis using f n by blast
qed

lemma persistOne_failed: "persistOne now input db = (Inl e, db') \<Longrightarrow> db' = db"
  by (auto simp: persistOne_def Let_def split: option.splits)

lemma persistOne_inv: "store_inv db \<Longrightarrow> persistOne now input db = (r, db') \<Longrightarrow> store_inv db'"
proof (cases r)
  case (Inr uid)
  assume inv: "store_inv db" and "persistOne now input db = (r, db')"
  with Inr persistOne_files show ?thesis using filed_addition [OF inv] by fastforce
qed (auto dest: persistOne_failed)

lemma persist_loop_inv: "store_inv db \<Longrightarrow> store_inv (snd (persist_loop now inputs acc db))"
proof (induction inputs arbitrary: acc db)
  case (Cons i inputs)
  then show ?case using persistOne_inv [OF Cons.prems] by (auto split: prod.splits sum.splits)
qed simp

lemma PersistAll_inv: "store_inv db \<Longrightarrow> store_inv (snd (PersistAll ok now inputs db))"
  using persist_loop_inv [of db now inputs "[]"] by (auto simp: PersistAll_def split: prod.splits sum.splits)

section \<open>Deleting a folder\<close>

lemma freed_bytes:
  "sum_rows (live_size b) (update_where (\<lambda>m. m_folder m = k \<and> \<not> m_expunged m) (\<lambda>m. m\<lparr>m_expunged := True\<rparr>) ms)
   = sum_rows (live_size b) ms
     - sum_list (map m_size (filter (\<lambda>m. m_folder m = k \<and> \<not> m_expunged m \<and> m_mailbox m = b) ms))"
  by (induction ms) (auto simp: update_where_def sum_rows_Cons live_size_def)

lemma filter_owned:
  assumes "\<And>m. m \<in> set ms \<Longrightarrow> m_folder m = k \<Longrightarrow> \<not> m_expunged m \<Longrightarrow> m_mailbox m = o'"
  shows "filter (\<lambda>m. m_folder m = k \<and> \<not> m_expunged m \<and> m_mailbox m = b) ms
         = (if b = o' then filter (\<lambda>m. m_folder m = k \<and> \<not> m_expunged m) ms else [])"
  using assms by (induction ms) auto

definition retired :: "uuid \<Rightarrow> message_row \<Rightarrow> message_row" where
  "retired k m = (if m_folder m = k \<and> \<not> m_expunged m then m\<lparr>m_expunged := True\<rparr> else m)"

lemma retired_simps [simp]:
  "mid (retired k m) = mid m" "m_folder (retired k m) = m_folder m" "m_uid (retired k m) = m_uid m"
  "m_modseq (retired k m) = m_modseq m" "m_size (retired k m) = m_size m" "m_flags (retired k m) = m_flags m"
  "m_mailbox (retired k m) = m_mailbox m" "m_blob (retired k m) = m_blob m"
  "m_expunged (retired k m) \<longleftrightarrow> m_expunged m \<or> m_folder m = k"
  by (auto simp: retired_def)

lemma DeleteFolder_rows:
  assumes "folder_by_id db k = Some f"
  shows "folders (snd (DeleteFolder True k db)) = filter (\<lambda>f. fid f \<noteq> k) (folders db)"
    and "messages (snd (DeleteFolder True k db)) = map (retired k) (messages db)"
    and "mailboxes (snd (DeleteFolder True k db)) = update_where (\<lambda>b. mb_id b = f_mailbox f)
           (\<lambda>b. b\<lparr>used_bytes := max 0 (used_bytes b
              - sum_list (map m_size (filter (\<lambda>m. m_folder m = k \<and> \<not> m_expunged m) (messages db))))\<rparr>) (mailboxes db)"
    and "blobs (snd (DeleteFolder True k db)) = blobs db"
    and "next_uuid (snd (DeleteFolder True k db)) = next_uuid db"
  using assms by (simp_all add: DeleteFolder_def Let_def store_upd_defs update_where_def retired_def)

lemma sum_rows_retired: "(\<And>m. g (retired k m) = g m) \<Longrightarrow> sum_rows g (map (retired k) ms) = sum_rows g ms"
  by (simp add: sum_rows_def comp_def)

lemma DeleteFolder_uids:
  assumes us: "uids_ok db" and f: "folder_by_id db k = Some f"
  shows "uids_ok (snd (DeleteFolder True k db))"
proof (rule uids_okI)
  note rows = DeleteFolder_rows [OF f]
  show "0 < uid_next f'" if "f' \<in> set (folders (snd (DeleteFolder True k db)))" for f'
    using that us uids_okD(1) by (auto simp: rows)
  show "0 < m_uid m \<and> m_uid m < uid_next f' \<and> m_modseq m \<le> highest_modseq f'"
    if "f' \<in> set (folders (snd (DeleteFolder True k db)))" "m \<in> set (messages (snd (DeleteFolder True k db)))"
      "m_folder m = fid f'" for f' m
    using that uids_okD(2) [OF us, of f'] by (auto simp: rows)
  show "mid m = mid m'"
    if "m \<in> set (messages (snd (DeleteFolder True k db)))" "m' \<in> set (messages (snd (DeleteFolder True k db)))"
      "m_folder m = m_folder m'" "m_uid m = m_uid m'" for m m'
  proof -
    from that(1,2) obtain x y where "x \<in> set (messages db)" "m = retired k x" "y \<in> set (messages db)" "m' = retired k y"
      by (auto simp: rows)
    with that(3,4) uids_ok_unique [OF us, of x y] show ?thesis by simp
  qed
qed

lemma DeleteFolder_quota:
  assumes inv: "store_inv db" and f: "folder_by_id db k = Some f"
  shows "quota_ok (snd (DeleteFolder True k db))"
proof -
  note rows = DeleteFolder_rows [OF f]
  have own: "m_mailbox m = f_mailbox f" if "m \<in> set (messages db)" "m_folder m = k" "\<not> m_expunged m" for m
    using live_owner [OF inv that(1,3)] that folder_by_id_unique [OF store_inv_keys [OF inv] f] by metis
  define freed where "freed = sum_list (map m_size (filter (\<lambda>m. m_folder m = k \<and> \<not> m_expunged m) (messages db)))"
  have all: "sum_rows (live_size b) (map (retired k) (messages db))
      = sum_rows (live_size b) (messages db) - (if b = f_mailbox f then freed else 0)" for b
  proof -
    have "sum_list (map m_size (filter (\<lambda>m. m_folder m = k \<and> \<not> m_expunged m \<and> m_mailbox m = b) (messages db)))
        = (if b = f_mailbox f then freed else 0)"
      by (subst filter_owned [OF own]) (auto simp: freed_def)
    then show ?thesis using freed_bytes [of b k "messages db"]
      unfolding update_where_def retired_def [abs_def] by simp
  qed
  have "0 \<le> sum_rows (live_size (f_mailbox f)) (map (retired k) (messages db))"
    using store_inv_keys [OF inv] by (intro sum_rows_nonneg) (auto simp: live_size_def keys_ok_def)
  then show ?thesis
    using inv all [of "f_mailbox f"] all
    unfolding store_inv_def quota_ok_def rows set_update_where freed_def [symmetric] by (auto simp: max_def)
qed

lemma DeleteFolder_inv:
  assumes inv: "store_inv db"
  shows "store_inv (snd (DeleteFolder ok k db))"
proof (cases "\<not> ok \<or> folder_by_id db k = None")
  case True
  with inv show ?thesis by (auto simp: DeleteFolder_def)
next
  case False
  then obtain f where f: "folder_by_id db k = Some f" and ok by auto
  note rows = DeleteFolder_rows [OF f]
  have "counts_ok (snd (DeleteFolder True k db))"
    using inv unfolding store_inv_def counts_ok_def rows
    by (auto simp: live_in_def unseen_in_def sum_rows_def comp_def intro!: arg_cong [of _ _ sum_list])
  moreover have "keys_ok (snd (DeleteFolder True k db))"
    using inv unfolding store_inv_def keys_ok_def rows by (auto simp: map_update_where distinct_map_filter comp_def)
  moreover have "owners_ok (snd (DeleteFolder True k db))"
    using inv unfolding store_inv_def owners_ok_def rows by fastforce
  moreover have "refs_ok (snd (DeleteFolder True k db))"
    using inv unfolding store_inv_def refs_ok_def rows by (auto simp: sum_rows_retired)
  ultimately show ?thesis
    using \<open>ok\<close> DeleteFolder_uids [OF _ f] DeleteFolder_quota [OF inv f] inv by (simp add: store_inv_def)
qed

end
