(* ===== verification/Webmail_Repository.thy ===== *)
theory Webmail_Repository
  imports Mail_Store
begin

text \<open>
  \<^verbatim>\<open>webmail_repository.go\<close>, the thin adapters that name a message by mailbox, folder
  name and UID, and \<^verbatim>\<open>manage_folders.go\<close>, the use case that lets a mailbox owner keep
  folders of their own. The IMAP repositories (\<^verbatim>\<open>flag_repository.go\<close>,
  \<^verbatim>\<open>expunge_repository.go\<close>, \<^verbatim>\<open>copy_repository.go\<close>) call the store operations
  with no change.
\<close>

section \<open>Addressing\<close>

text \<open>The columns are \<^verbatim>\<open>CITEXT\<close>; \<open>mb_active\<close> says that the mailbox and its domain are active.\<close>

definition MailboxIDByAddress :: "mail_db \<Rightarrow> string \<Rightarrow> store_error + uuid" where
  "MailboxIDByAddress db address =
     (case find (\<lambda>b. EqualFold (email_address b) address \<and> mb_active b) (mailboxes db) of
        None \<Rightarrow> Inl MessageNotFound | Some b \<Rightarrow> Inr (mb_id b))"

definition messageFolder :: "mail_db \<Rightarrow> uuid \<Rightarrow> string \<Rightarrow> store_error + uuid" where
  "messageFolder db mailboxID folderName =
     (case ResolveFolder db mailboxID folderName of
        None \<Rightarrow> Inl MessageNotFound | Some f \<Rightarrow> Inr (fid f))"

section \<open>Messages\<close>

definition GetMessageBlob :: "mail_db \<Rightarrow> uuid \<Rightarrow> string \<Rightarrow> uid32 \<Rightarrow> store_error + uuid" where
  "GetMessageBlob db mailboxID folderName uid =
     (case messageFolder db mailboxID folderName of
        Inl e \<Rightarrow> Inl e | Inr folderID \<Rightarrow> MessageBlob db folderID uid)"

definition setFlag :: "bool \<Rightarrow> uuid \<Rightarrow> string \<Rightarrow> uid32 \<Rightarrow> string \<Rightarrow> bool \<Rightarrow> mail_db \<Rightarrow> (store_error + unit) \<times> mail_db" where
  "setFlag ok mailboxID folderName uid flag on db =
     (case messageFolder db mailboxID folderName of
        Inl e \<Rightarrow> (Inl e, db)
      | Inr folderID \<Rightarrow>
          (case SetFlags ok folderID uid (if on then FlagOpAdd else FlagOpDel) [flag] 0 db of
             (Inl e, db') \<Rightarrow> (Inl e, db')
           | (Inr _, db') \<Rightarrow> (Inr (), db')))"

definition MarkSeen :: "bool \<Rightarrow> uuid \<Rightarrow> string \<Rightarrow> uid32 \<Rightarrow> bool \<Rightarrow> mail_db \<Rightarrow> (store_error + unit) \<times> mail_db" where
  "MarkSeen ok mailboxID folderName uid seen db = setFlag ok mailboxID folderName uid SEEN seen db"

definition MarkFlagged :: "bool \<Rightarrow> uuid \<Rightarrow> string \<Rightarrow> uid32 \<Rightarrow> bool \<Rightarrow> mail_db \<Rightarrow> (store_error + unit) \<times> mail_db" where
  "MarkFlagged ok mailboxID folderName uid flagged db = setFlag ok mailboxID folderName uid FLAGGED flagged db"

definition webmail_Expunge :: "bool \<Rightarrow> uuid \<Rightarrow> string \<Rightarrow> uid32 \<Rightarrow> mail_db \<Rightarrow> (store_error + unit) \<times> mail_db" where
  "webmail_Expunge ok mailboxID folderName uid db =
     (case messageFolder db mailboxID folderName of
        Inl e \<Rightarrow> (Inl e, db)
      | Inr folderID \<Rightarrow>
          (case Expunge ok folderID [uid] db of
             (Inl e, db') \<Rightarrow> (Inl e, db')
           | (Inr removed, db') \<Rightarrow> (if removed = 0 then Inl MessageNotFound else Inr (), db')))"

definition trashTarget :: string where "trashTarget = ''trash''"

definition moveInto :: "bool \<Rightarrow> uuid \<Rightarrow> string \<Rightarrow> uid32 \<Rightarrow> string \<Rightarrow> mail_db \<Rightarrow> (store_error + uid32) \<times> mail_db" where
  "moveInto ok mailboxID folderName uid target db =
     (case messageFolder db mailboxID folderName of
        Inl e \<Rightarrow> (Inl e, db)
      | Inr sourceID \<Rightarrow>
          (case ResolveFolder db mailboxID target of
             None \<Rightarrow> (Inl (if target = trashTarget then NoTrashFolder else FolderMissing), db)
           | Some dest \<Rightarrow>
               if fid dest = sourceID then (Inl AlreadyInTrash, db)
               else Move ok sourceID uid (fid dest) db))"

definition MoveToTrash :: "bool \<Rightarrow> uuid \<Rightarrow> string \<Rightarrow> uid32 \<Rightarrow> mail_db \<Rightarrow> (store_error + uid32) \<times> mail_db" where
  "MoveToTrash ok mailboxID folderName uid db = moveInto ok mailboxID folderName uid trashTarget db"

definition MoveToFolder :: "bool \<Rightarrow> uuid \<Rightarrow> string \<Rightarrow> uid32 \<Rightarrow> string \<Rightarrow> mail_db \<Rightarrow> (store_error + uid32) \<times> mail_db" where
  "MoveToFolder ok mailboxID folderName uid target db = moveInto ok mailboxID folderName uid target db"

section \<open>Folders\<close>

text \<open>
  The folder list: by role in a fixed order, then by name. The source sorts the folders
  \<^verbatim>\<open>MailStore.Folders\<close> returned.
\<close>

definition roleOrder :: "string \<Rightarrow> nat" where
  "roleOrder r =
     (if r = ''inbox'' then 0 else if r = ''drafts'' then 1 else if r = ''sent'' then 2
      else if r = ''archive'' then 3 else if r = ''junk'' then 4 else if r = ''trash'' then 5 else 6)"

definition ListFolders :: "mail_db \<Rightarrow> uuid \<Rightarrow> folder_info list" where
  "ListFolders db mailboxID =
     sort_key (\<lambda>f. roleOrder (fi_special_use f)) (sort_key fi_name (Folders db mailboxID))"

text \<open>
  The message list of the webmail; \<^verbatim>\<open>ListMessages\<close> shapes the rows for the browser, which
  the model leaves as they are. A folder that is not there lists as empty.
\<close>

definition ListMessages :: "mail_db \<Rightarrow> uuid \<Rightarrow> string \<Rightarrow> string \<Rightarrow> int \<Rightarrow> int \<Rightarrow> message_row list" where
  "ListMessages db mailboxID folderName search limit0 offset =
     (let limit = (if limit0 \<le> 0 \<or> limit0 > 200 then 50 else limit0)
      in case ResolveFolder db mailboxID folderName of
           None \<Rightarrow> []
         | Some f \<Rightarrow> Messages db (fid f) \<lparr>q_newest_first = True, q_search = search, q_limit = limit, q_offset = offset\<rparr>)"

text \<open>
  The row of \<^verbatim>\<open>CreateFolder\<close> takes the column defaults; \<open>now\<close> is the epoch second of
  the insertion. Two root folders of a mailbox cannot have the same name
  (\<^verbatim>\<open>uq_folder_root\<close>), and the mailbox must exist.
\<close>

definition name_taken :: "mail_db \<Rightarrow> uuid \<Rightarrow> string \<Rightarrow> bool" where
  "name_taken db mailboxID name \<longleftrightarrow> list_ex (\<lambda>f. f_mailbox f = mailboxID \<and> f_name f = name) (folders db)"

definition CreateFolder :: "bool \<Rightarrow> int \<Rightarrow> uuid \<Rightarrow> string \<Rightarrow> mail_db \<Rightarrow> (store_error + unit) \<times> mail_db" where
  "CreateFolder ok now mailboxID name db =
     (if \<not> ok \<or> \<not> list_ex (\<lambda>b. mb_id b = mailboxID) (mailboxes db) then (Inl DbFault, db)
      else if name_taken db mailboxID name then (Inl Duplicate, db)
      else (Inr (), db\<lparr>folders := folders db @ [\<lparr>fid = next_uuid db, f_mailbox = mailboxID, f_name = name,
              special_use = None, uid_next = 1, uid_validity = now, highest_modseq = 1,
              unread_count = 0, total_count = 0\<rparr>], next_uuid := next_uuid db + 1\<rparr>))"

definition own_folder :: "uuid \<Rightarrow> string \<Rightarrow> folder_row \<Rightarrow> bool" where
  "own_folder mailboxID name f \<longleftrightarrow>
     f_mailbox f = mailboxID \<and> ToLower (f_name f) = ToLower name \<and> special_use f = None"

text \<open>The statement renames every row it matches; a second row with the new name violates the index.\<close>

definition RenameFolder :: "bool \<Rightarrow> uuid \<Rightarrow> string \<Rightarrow> string \<Rightarrow> mail_db \<Rightarrow> (store_error + unit) \<times> mail_db" where
  "RenameFolder ok mailboxID from_name to_name db =
     (if \<not> ok then (Inl DbFault, db)
      else
        let rows = update_where (own_folder mailboxID from_name) (\<lambda>f. f\<lparr>f_name := to_name\<rparr>) (folders db)
        in if \<not> list_ex (own_folder mailboxID from_name) (folders db) then (Inl FolderMissing, db)
           else if \<not> distinct (map f_name (filter (\<lambda>f. f_mailbox f = mailboxID) rows)) then (Inl Duplicate, db)
           else (Inr (), db\<lparr>folders := rows\<rparr>))"

definition webmail_DeleteFolder :: "bool \<Rightarrow> uuid \<Rightarrow> string \<Rightarrow> mail_db \<Rightarrow> (store_error + unit) \<times> mail_db" where
  "webmail_DeleteFolder ok mailboxID name db =
     (case find (own_folder mailboxID name) (folders db) of
        None \<Rightarrow> (Inl FolderMissing, db)
      | Some f \<Rightarrow> DeleteFolder ok (fid f) db)"

section \<open>Managing folders\<close>

datatype folder_error =
    ErrInvalidFolderName
  | ErrFolderExists
  | ErrFolderReserved
  | ErrFolderNotFound
  | ErrNoSuchMailbox
  | StoreError store_error

definition reservedFolders :: "string list" where
  "reservedFolders = [''inbox'', ''sent'', ''drafts'', ''trash'', ''junk'', ''archive'', ''reports'']"

definition maxFolderNameLength :: nat where "maxFolderNameLength = 100"

text \<open>\<^verbatim>\<open>utf8.RuneCountInString\<close> on valid UTF-8: the bytes that do not continue a rune.\<close>

definition RuneCount :: "string \<Rightarrow> nat" where
  "RuneCount s = length (filter (\<lambda>c. \<not> (128 \<le> (of_char c :: nat) \<and> (of_char c :: nat) < 192)) s)"

definition is_control :: "char \<Rightarrow> bool" where
  "is_control c \<longleftrightarrow> (of_char c :: nat) < 32 \<or> (of_char c :: nat) = 127"

definition validateFolderName :: "string \<Rightarrow> folder_error option" where
  "validateFolderName name =
     (if TrimSpace name = [] then Some ErrInvalidFolderName
      else if RuneCount name > maxFolderNameLength then Some ErrInvalidFolderName
      else if ToLower name \<in> set reservedFolders then Some ErrFolderReserved
      else if ContainsAny name [CHR ''/'', BACKSLASH, CHR ''.''] then Some ErrInvalidFolderName
      else if list_ex is_control name then Some ErrInvalidFolderName
      else None)"

definition findFolder :: "folder_info list \<Rightarrow> string \<Rightarrow> folder_info option" where
  "findFolder existing name = find (\<lambda>f. EqualFold (TrimSpace (fi_name f)) name) existing"

definition folder_mailbox :: "mail_db \<Rightarrow> string \<Rightarrow> folder_error + uuid" where
  "folder_mailbox db address =
     (case MailboxIDByAddress db address of Inl _ \<Rightarrow> Inl ErrNoSuchMailbox | Inr k \<Rightarrow> Inr k)"

definition lift_store :: "(store_error + unit) \<times> mail_db \<Rightarrow> (folder_error + unit) \<times> mail_db" where
  "lift_store r = (case fst r of Inl e \<Rightarrow> Inl (StoreError e) | Inr u \<Rightarrow> Inr u, snd r)"

definition folders_Create :: "bool \<Rightarrow> int \<Rightarrow> string \<Rightarrow> string \<Rightarrow> mail_db \<Rightarrow> (folder_error + unit) \<times> mail_db" where
  "folders_Create ok now address name0 db =
     (let name = TrimSpace name0
      in case validateFolderName name of
           Some e \<Rightarrow> (Inl e, db)
         | None \<Rightarrow>
             (case folder_mailbox db address of
                Inl e \<Rightarrow> (Inl e, db)
              | Inr mailboxID \<Rightarrow>
                  if findFolder (ListFolders db mailboxID) name \<noteq> None then (Inl ErrFolderExists, db)
                  else lift_store (CreateFolder ok now mailboxID name db)))"

definition folders_Rename :: "bool \<Rightarrow> string \<Rightarrow> string \<Rightarrow> string \<Rightarrow> mail_db \<Rightarrow> (folder_error + unit) \<times> mail_db" where
  "folders_Rename ok address from0 to0 db =
     (let from_name = TrimSpace from0; to_name = TrimSpace to0
      in if ToLower from_name \<in> set reservedFolders then (Inl ErrFolderReserved, db)
         else case validateFolderName to_name of
           Some e \<Rightarrow> (Inl e, db)
         | None \<Rightarrow>
             (case folder_mailbox db address of
                Inl e \<Rightarrow> (Inl e, db)
              | Inr mailboxID \<Rightarrow>
                  if findFolder (ListFolders db mailboxID) from_name = None then (Inl ErrFolderNotFound, db)
                  else if findFolder (ListFolders db mailboxID) to_name \<noteq> None then (Inl ErrFolderExists, db)
                  else lift_store (RenameFolder ok mailboxID from_name to_name db)))"

definition folders_Delete :: "bool \<Rightarrow> string \<Rightarrow> string \<Rightarrow> mail_db \<Rightarrow> (folder_error + unit) \<times> mail_db" where
  "folders_Delete ok address name0 db =
     (let name = TrimSpace name0
      in if ToLower name \<in> set reservedFolders then (Inl ErrFolderReserved, db)
         else (case folder_mailbox db address of
                Inl e \<Rightarrow> (Inl e, db)
              | Inr mailboxID \<Rightarrow>
                  if findFolder (ListFolders db mailboxID) name = None then (Inl ErrFolderNotFound, db)
                  else lift_store (webmail_DeleteFolder ok mailboxID name db)))"

end
