(* ===== verification/Store_Machine.thy ===== *)
theory Store_Machine
  imports Store_Operations Webmail_Repository
begin

text \<open>
  The mail store as a machine: every way a client, the webmail or the delivery changes it is a
  value of \<open>store_op\<close>, and \<open>exec\<close> runs it. The theory shows that no sequence of
  operations breaks the invariant or takes a UID, UIDNEXT or HIGHESTMODSEQ back, and that the
  webmail operations of one mailbox leave every other mailbox as it was.
\<close>

section \<open>Operations\<close>

datatype store_op =
    ImapSetFlags uuid uid32 flag_op "string list" nat
  | ImapExpunge uuid "uid32 list"
  | ImapCopy int uuid "uid32 list" uuid
  | WebSetFlag uuid string uid32 string bool
  | WebExpunge uuid string uid32
  | WebMove uuid string uid32 string
  | Deliver int "persist_input list"
  | FolderCreate int string string
  | FolderRename string string string
  | FolderDelete string string

text \<open>The first component of a step is whether its statements succeed.\<close>

fun exec :: "mail_db \<Rightarrow> bool \<times> store_op \<Rightarrow> mail_db" where
  "exec db (ok, ImapSetFlags k uid op flags since) = snd (SetFlags ok k uid op flags since db)"
| "exec db (ok, ImapExpunge k uids) = snd (Expunge ok k uids db)"
| "exec db (ok, ImapCopy now k uids d) = snd (Copy (\<lambda>_. ok) now k uids d db)"
| "exec db (ok, WebSetFlag mb folder uid flag on) = snd (setFlag ok mb folder uid flag on db)"
| "exec db (ok, WebExpunge mb folder uid) = snd (webmail_Expunge ok mb folder uid db)"
| "exec db (ok, WebMove mb folder uid target) = snd (moveInto ok mb folder uid target db)"
| "exec db (ok, Deliver now inputs) = snd (PersistAll ok now inputs db)"
| "exec db (ok, FolderCreate now address name) = snd (folders_Create ok now address name db)"
| "exec db (ok, FolderRename address from_name to_name) = snd (folders_Rename ok address from_name to_name db)"
| "exec db (ok, FolderDelete address name) = snd (folders_Delete ok address name db)"

lemma messageFolder_Inr:
  "messageFolder db mb name = Inr k \<Longrightarrow> \<exists>f. ResolveFolder db mb name = Some f \<and> fid f = k"
  by (auto simp: messageFolder_def split: option.splits)

lemma setFlag_snd:
  "snd (setFlag ok mb name uid flag on db) = (case messageFolder db mb name of Inl _ \<Rightarrow> db
     | Inr k \<Rightarrow> snd (SetFlags ok k uid (if on then FlagOpAdd else FlagOpDel) [flag] 0 db))"
  by (simp add: setFlag_def split: sum.splits prod.splits)

lemma webmail_Expunge_snd:
  "snd (webmail_Expunge ok mb name uid db) = (case messageFolder db mb name of Inl _ \<Rightarrow> db
     | Inr k \<Rightarrow> snd (Expunge ok k [uid] db))"
  by (simp add: webmail_Expunge_def split: sum.splits prod.splits)

lemma lift_store_snd [simp]: "snd (lift_store r) = snd r"
  by (simp add: lift_store_def)

lemma folders_Create_snd:
  "snd (folders_Create ok now address name db) = db
   \<or> (\<exists>mb. snd (folders_Create ok now address name db) = snd (CreateFolder ok now mb (TrimSpace name) db))"
  by (simp add: folders_Create_def Let_def split: option.splits sum.splits) blast

lemma folders_Rename_snd:
  "snd (folders_Rename ok address a b db) = db
   \<or> (\<exists>mb. snd (folders_Rename ok address a b db) = snd (RenameFolder ok mb (TrimSpace a) (TrimSpace b) db))"
  by (simp add: folders_Rename_def Let_def split: option.splits sum.splits) blast

lemma folders_Delete_snd:
  "snd (folders_Delete ok address a db) = db
   \<or> (\<exists>k. snd (folders_Delete ok address a db) = snd (DeleteFolder ok k db))"
  by (simp add: folders_Delete_def webmail_DeleteFolder_def Let_def split: option.splits sum.splits) blast

lemmas adapter_snd = setFlag_snd webmail_Expunge_snd

section \<open>Every operation keeps the invariant\<close>

lemma sum_rows_zero: "(\<And>r. r \<in> set rows \<Longrightarrow> g r = 0) \<Longrightarrow> sum_rows g rows = 0"
  by (induction rows) (auto simp: sum_rows_Cons)

definition fresh_folder :: "mail_db \<Rightarrow> folder_row \<Rightarrow> bool" where
  "fresh_folder db f \<longleftrightarrow> fid f = next_uuid db \<and> uid_next f = 1 \<and> unread_count f = 0 \<and> total_count f = 0"

lemma folder_added:
  assumes inv: "store_inv db" and f: "fresh_folder db f"
  shows "store_inv (db\<lparr>folders := folders db @ [f], next_uuid := next_uuid db + 1\<rparr>)" (is "store_inv ?db")
proof -
  have empty: "m_folder m \<noteq> fid f" if "m \<in> set (messages db)" for m
    using inv that f by (auto simp: store_inv_def keys_ok_def fresh_folder_def)
  then have "sum_rows (\<lambda>m. of_bool (live_in (fid f) m)) (messages db) = 0"
    "sum_rows (\<lambda>m. of_bool (unseen_in (fid f) m)) (messages db) = 0"
    by (auto intro!: sum_rows_zero simp: live_in_def unseen_in_def)
  with inv f have "counts_ok ?db" by (auto simp: store_inv_def counts_ok_def fresh_folder_def)
  moreover have "keys_ok ?db"
    using inv f by (auto simp: store_inv_def keys_ok_def fresh_folder_def less_Suc_eq)
  moreover have "uids_ok ?db"
  proof (rule uids_okI)
    have us: "uids_ok db" using inv by (simp add: store_inv_def)
    show "0 < uid_next x" if "x \<in> set (folders ?db)" for x
      using that uids_okD(1) [OF us] f by (auto simp: fresh_folder_def)
    show "0 < m_uid m \<and> m_uid m < uid_next x \<and> m_modseq m \<le> highest_modseq x"
      if "x \<in> set (folders ?db)" "m \<in> set (messages ?db)" "m_folder m = fid x" for x m
      using that uids_okD(2) [OF us, of x m] empty [of m] by auto
    show "mid m = mid m'" if "m \<in> set (messages ?db)" "m' \<in> set (messages ?db)"
      "m_folder m = m_folder m'" "m_uid m = m_uid m'" for m m'
      by (rule uids_ok_unique [OF us]) (use that in simp_all)
  qed
  moreover have "owners_ok ?db" "quota_ok ?db" "refs_ok ?db"
    using inv by (auto simp: store_inv_def owners_ok_def quota_ok_def refs_ok_def)
  ultimately show ?thesis by (simp add: store_inv_def)
qed

lemma CreateFolder_snd:
  "snd (CreateFolder ok now mb name db) = db
   \<or> (\<exists>f. fresh_folder db f \<and> snd (CreateFolder ok now mb name db) = db\<lparr>folders := folders db @ [f], next_uuid := next_uuid db + 1\<rparr>)"
proof (cases "ok \<and> list_ex (\<lambda>b. mb_id b = mb) (mailboxes db) \<and> \<not> name_taken db mb name")
  case True
  then show ?thesis
    by (intro disjI2 exI [of _ "\<lparr>fid = next_uuid db, f_mailbox = mb, f_name = name, special_use = None, uid_next = 1,
      uid_validity = now, highest_modseq = 1, unread_count = 0, total_count = 0\<rparr>"])
      (simp add: CreateFolder_def fresh_folder_def)
qed (auto simp: CreateFolder_def)

lemma CreateFolder_inv: "store_inv db \<Longrightarrow> store_inv (snd (CreateFolder ok now mb name db))"
  using CreateFolder_snd [of ok now mb name db] folder_added by metis

lemma RenameFolder_snd:
  "snd (RenameFolder ok mb a b db) = db
   \<or> (\<exists>P. snd (RenameFolder ok mb a b db) = db\<lparr>folders := update_where P (\<lambda>f. f\<lparr>f_name := b\<rparr>) (folders db)\<rparr>)"
  by (simp add: RenameFolder_def Let_def) blast

lemma renamed_inv:
  assumes inv: "store_inv db"
  shows "store_inv (db\<lparr>folders := update_where P (\<lambda>f. f\<lparr>f_name := b\<rparr>) (folders db)\<rparr>)" (is "store_inv ?db")
proof -
  have keys: "map fid (update_where P (\<lambda>f. f\<lparr>f_name := b\<rparr>) (folders db)) = map fid (folders db)"
    by (rule map_update_where) simp
  have row: "\<exists>f0 \<in> set (folders db). fid f = fid f0 \<and> uid_next f = uid_next f0 \<and> highest_modseq f = highest_modseq f0
      \<and> total_count f = total_count f0 \<and> unread_count f = unread_count f0" if "f \<in> set (folders ?db)" for f
    using that by (auto simp: set_update_where)
  have us: "uids_ok db" using inv by (simp add: store_inv_def)
  have "uids_ok ?db"
  proof (rule uids_okI)
    show "0 < uid_next x" if "x \<in> set (folders ?db)" for x
      using row [OF that] uids_okD(1) [OF us] by auto
    show "0 < m_uid m \<and> m_uid m < uid_next x \<and> m_modseq m \<le> highest_modseq x"
      if "x \<in> set (folders ?db)" "m \<in> set (messages ?db)" "m_folder m = fid x" for x m
      using row [OF that(1)] that uids_okD(2) [OF us, of _ m] by auto
    show "mid m = mid m'" if "m \<in> set (messages ?db)" "m' \<in> set (messages ?db)"
      "m_folder m = m_folder m'" "m_uid m = m_uid m'" for m m'
      by (rule uids_ok_unique [OF us]) (use that in simp_all)
  qed
  moreover have "counts_ok ?db"
    using inv row unfolding store_inv_def counts_ok_def by fastforce
  moreover have "keys_ok ?db"
    using inv unfolding store_inv_def keys_ok_def by (auto simp: keys set_update_where)
  moreover have "\<exists>f \<in> set (folders ?db). fid f = fid f0 \<and> f_mailbox f = f_mailbox f0" if "f0 \<in> set (folders db)" for f0
    using that by (intro bexI [of _ "if P f0 then f0\<lparr>f_name := b\<rparr> else f0"]) (auto simp: set_update_where)
  then have "owners_ok ?db"
    using inv unfolding store_inv_def owners_ok_def by (metis mail_db.select_convs(2) mail_db.surjective mail_db.update_convs(1))
  moreover have "quota_ok ?db" "refs_ok ?db"
    using inv by (auto simp: store_inv_def quota_ok_def refs_ok_def)
  ultimately show ?thesis by (simp add: store_inv_def)
qed

lemma moveInto_changes:
  assumes inv: "store_inv db" and res: "moveInto ok mb folder uid target db = (Inr v, db')"
  shows "\<exists>m u g k d. ResolveFolder db mb folder = Some k \<and> ResolveFolder db mb target = Some d \<and> fid k \<noteq> fid d
           \<and> loadMessage db (fid k) uid = Some m
           \<and> message_change db m u g (\<lambda>b. b) \<and> db' = changed db m u g (\<lambda>b. b)
           \<and> u m = m\<lparr>m_folder := fid d, m_uid := uid_next d, m_modseq := highest_modseq d + 1\<rparr>
           \<and> v = word_of_int (uid_next d)"
proof -
  from res obtain k d where k: "ResolveFolder db mb folder = Some k" and d: "ResolveFolder db mb target = Some d"
    and ne: "fid k \<noteq> fid d" and mv: "Move ok (fid k) uid (fid d) db = (Inr v, db')"
    by (auto simp: moveInto_def messageFolder_def split: sum.splits option.splits if_splits)
  have "f_mailbox f = f_mailbox f'"
    if "f \<in> set (folders db)" "f' \<in> set (folders db)" "fid f = fid k" "fid f' = fid d" for f f'
    using that ResolveFolder_Some [OF k] ResolveFolder_Some [OF d] distinct_key_eq [of fid "folders db"] inv
    unfolding store_inv_def keys_ok_def by metis
  moreover have "dest = d" if "folder_by_id db (fid d) = Some dest" for dest
    using folder_by_id_unique [OF _ that, of d] ResolveFolder_Some [OF d] inv by auto
  ultimately show ?thesis using Move_changes [OF inv mv] k d ne by blast
qed

lemma moveInto_failed: "moveInto ok mb folder uid target db = (Inl e, db') \<Longrightarrow> db' = db"
  by (auto simp: moveInto_def dest: Move_failed split: sum.splits option.splits if_splits)

lemma moveInto_inv:
  assumes inv: "store_inv db"
  shows "store_inv (snd (moveInto ok mb folder uid target db))"
proof (cases "moveInto ok mb folder uid target db")
  case (Pair r db')
  then show ?thesis
    using moveInto_changes [OF inv, of ok mb folder uid target _ db'] message_changed [OF inv] inv
    by (cases r) (auto dest: moveInto_failed)
qed

lemma exec_inv: "store_inv db \<Longrightarrow> store_inv (exec db e)"
proof (induction db e rule: exec.induct)
  case (8 db ok now address name)
  then show ?case using folders_Create_snd [of ok now address name db] CreateFolder_inv by (auto simp del: prod.collapse)
next
  case (9 db ok address a b)
  then show ?case
    using folders_Rename_snd [of ok address a b db] RenameFolder_snd renamed_inv by (metis exec.simps(9))
next
  case (10 db ok address a)
  then show ?case using folders_Delete_snd [of ok address a db] DeleteFolder_inv by (metis exec.simps(10))
qed (auto simp: adapter_snd SetFlags_inv Expunge_inv Copy_inv PersistAll_inv moveInto_inv split: sum.splits)

interpretation mail_store: invariant_machine exec store_inv
  by unfold_locales (rule exec_inv)

section \<open>Counters and UIDs never go back\<close>

text \<open>
  \<open>store_le s t\<close>: every folder of \<open>t\<close> that is not newer than \<open>s\<close> was in
  \<open>s\<close> with the same UIDVALIDITY and no larger UIDNEXT and HIGHESTMODSEQ, and every message of
  \<open>t\<close> is either where it was in \<open>s\<close> or at a UID its folder had not given out in
  \<open>s\<close>.
\<close>

definition same_place :: "message_row \<Rightarrow> message_row \<Rightarrow> bool" where
  "same_place m m' \<longleftrightarrow> mid m = mid m' \<and> m_folder m = m_folder m' \<and> m_uid m = m_uid m' \<and> m_blob m = m_blob m'"

definition new_place :: "mail_db \<Rightarrow> message_row \<Rightarrow> bool" where
  "new_place s m \<longleftrightarrow> next_uuid s \<le> m_folder m \<or> (\<exists>f \<in> set (folders s). fid f = m_folder m \<and> uid_next f \<le> m_uid m)"

definition folder_le :: "folder_row \<Rightarrow> folder_row \<Rightarrow> bool" where
  "folder_le f f' \<longleftrightarrow> fid f = fid f' \<and> f_mailbox f = f_mailbox f' \<and> uid_validity f = uid_validity f'
     \<and> uid_next f \<le> uid_next f' \<and> highest_modseq f \<le> highest_modseq f'"

definition store_le :: "mail_db \<Rightarrow> mail_db \<Rightarrow> bool" where
  "store_le s t \<longleftrightarrow> next_uuid s \<le> next_uuid t
     \<and> (\<forall>f' \<in> set (folders t). next_uuid s \<le> fid f' \<or> (\<exists>f \<in> set (folders s). folder_le f f'))
     \<and> (\<forall>m' \<in> set (messages t). (\<exists>m \<in> set (messages s). same_place m m') \<or> new_place s m')"

lemma folder_le_refl [simp]: "folder_le f f"
  by (simp add: folder_le_def)

lemma folder_le_trans: "folder_le f g \<Longrightarrow> folder_le g h \<Longrightarrow> folder_le f h"
  by (auto simp: folder_le_def)

lemma same_place_refl [simp]: "same_place m m"
  by (simp add: same_place_def)

lemma store_le_refl: "store_le s s"
  unfolding store_le_def by (meson folder_le_refl le_refl same_place_refl)

lemma new_place_mono:
  assumes le: "store_le s t" and new: "new_place t m"
  shows "new_place s m"
proof -
  consider "next_uuid t \<le> m_folder m"
    | f' where "f' \<in> set (folders t)" "fid f' = m_folder m" "uid_next f' \<le> m_uid m"
    using new unfolding new_place_def by blast
  then show ?thesis
  proof cases
    case 1
    with le show ?thesis by (auto simp: store_le_def new_place_def)
  next
    case 2
    with le consider "next_uuid s \<le> fid f'" | f where "f \<in> set (folders s)" "folder_le f f'"
      unfolding store_le_def by blast
    then show ?thesis using 2 by cases (auto simp: new_place_def folder_le_def intro: order_trans)
  qed
qed

lemma store_le_trans:
  assumes st: "store_le s t" and tu: "store_le t u"
  shows "store_le s u"
proof -
  have folder: "next_uuid s \<le> fid f'' \<or> (\<exists>f \<in> set (folders s). folder_le f f'')" if "f'' \<in> set (folders u)" for f''
  proof -
    from tu that consider "next_uuid t \<le> fid f''" | f' where "f' \<in> set (folders t)" "folder_le f' f''"
      unfolding store_le_def by blast
    then show ?thesis
    proof cases
      case 1
      with st show ?thesis by (auto simp: store_le_def)
    next
      case 2
      with st show ?thesis unfolding store_le_def by (metis folder_le_def folder_le_trans)
    qed
  qed
  moreover have "(\<exists>m \<in> set (messages s). same_place m m'') \<or> new_place s m''" if "m'' \<in> set (messages u)" for m''
  proof -
    from tu that consider m' where "m' \<in> set (messages t)" "same_place m' m''" | "new_place t m''"
      unfolding store_le_def by blast
    then show ?thesis
    proof cases
      case 1
      with st consider m where "m \<in> set (messages s)" "same_place m m'" | "new_place s m'"
        unfolding store_le_def by blast
      then show ?thesis using 1 by cases (auto simp: same_place_def new_place_def)
    qed (use new_place_mono [OF st] in blast)
  qed
  ultimately show ?thesis using st tu unfolding store_le_def by fastforce
qed

lemma changed_le:
  assumes inv: "store_inv db" and ch: "message_change db m u g h"
  shows "store_le db (changed db m u g h)"
proof -
  have "folder_le f (g f)" if "f \<in> set (folders db)" for f
    using ch that by (auto simp: message_change_def folder_follows_def folder_le_def)
  moreover have "(\<exists>x \<in> set (messages db). same_place x m') \<or> new_place db m'"
    if m': "m' \<in> set (messages (changed db m u g h))" for m'
  proof -
    have "same_place m (u m) \<or> new_place db (u m)" "m \<in> set (messages db)"
      using ch by (auto simp: message_change_def same_place_def same_record_def new_place_def)
    with changed_member [OF store_inv_keys [OF inv] ch m'] show ?thesis by (metis same_place_refl)
  qed
  ultimately show ?thesis unfolding store_le_def by (auto; metis)
qed

lemma store_le_kept: "x \<in> set (messages db) \<Longrightarrow> (\<exists>m \<in> set (messages db). same_place m x) \<or> new_place db x"
  using same_place_refl by blast

lemma filed_le:
  assumes ok: "filed_ok db f n"
  shows "store_le db (filed db f n)"
proof -
  have "new_place db n" using ok by (auto simp: filed_ok_def new_place_def)
  then have "\<forall>m' \<in> set (messages (filed db f n)). (\<exists>m \<in> set (messages db). same_place m m') \<or> new_place db m'"
    using store_le_kept by (auto simp: filed_def)
  moreover have "\<forall>f' \<in> set (folders (filed db f n)). \<exists>x \<in> set (folders db). folder_le x f'"
    by (force simp: filed_def folder_le_def)
  ultimately show ?thesis unfolding store_le_def by (simp add: filed_def)
qed

lemma store_le_outbox [simp]: "store_le db (db'\<lparr>outbox := os\<rparr>) \<longleftrightarrow> store_le db db'"
  by (simp add: store_le_def)

lemma SetFlags_le: "store_inv db \<Longrightarrow> store_le db (snd (SetFlags ok k uid op flags since db))"
  using SetFlags_cases [of db ok k uid op flags since] changed_le store_le_refl by metis

lemma expunge_loop_le: "store_inv db \<Longrightarrow> store_le db (snd (expunge_loop k uids n db))"
proof (induction k uids n db rule: expunge_loop.induct)
  case (2 k uid uids n db)
  show ?case
  proof (cases "loadMessage db k uid")
    case (Some m)
    have row: "store_le db (expungeRow m k db)" "store_inv (expungeRow m k db)"
      using expungeRow_changes [OF 2(3) Some] changed_le [OF 2(3)] expungeRow_inv [OF 2(3) Some] by auto
    with 2(2) [OF Some row(2)] Some show ?thesis by (auto intro: store_le_trans)
  qed (use 2 in auto)
qed (simp add: store_le_refl)

lemma Expunge_le: "store_inv db \<Longrightarrow> store_le db (snd (Expunge ok k uids db))"
  using expunge_loop_le [of db k uids 0] by (auto simp: Expunge_def store_le_refl split: prod.splits)

lemma moveInto_le:
  assumes inv: "store_inv db"
  shows "store_le db (snd (moveInto ok mb folder uid target db))"
proof (cases "moveInto ok mb folder uid target db")
  case (Pair r db')
  then show ?thesis
    using moveInto_changes [OF inv, of ok mb folder uid target _ db'] changed_le [OF inv] store_le_refl
    by (cases r) (auto dest: moveInto_failed)
qed

lemma copyOne_le: "store_inv db \<Longrightarrow> copyOne ok now k uid d db = (r, db') \<Longrightarrow> store_le db db'"
proof (cases r)
  case (Inr v)
  assume "store_inv db" "copyOne ok now k uid d db = (r, db')"
  with Inr copyOne_files filed_le show ?thesis by fastforce
qed (auto dest: copyOne_failed simp: store_le_refl)

lemma copy_loop_le: "store_inv db \<Longrightarrow> store_le db (snd (copy_loop ok now k uids d acc db))"
proof (induction uids arbitrary: acc db)
  case (Cons uid uids)
  obtain r db' where res: "copyOne (ok uid) now k uid d db = (r, db')" by fastforce
  have "store_le db db'" "store_inv db'"
    using copyOne_le [OF Cons.prems res] copyOne_inv [OF Cons.prems, of "ok uid" now k uid d] res by auto
  with res Cons.IH show ?case by (auto split: sum.splits intro: store_le_trans)
qed (simp add: store_le_refl)

lemma persistOne_le: "persistOne now input db = (r, db') \<Longrightarrow> store_le db db'"
proof (cases r)
  case (Inr uid)
  assume "persistOne now input db = (r, db')"
  with Inr persistOne_files filed_le show ?thesis by fastforce
qed (auto dest: persistOne_failed simp: store_le_refl)

lemma persist_loop_le: "store_le db (snd (persist_loop now inputs acc db))"
proof (induction inputs arbitrary: acc db)
  case (Cons i inputs)
  obtain r db' where res: "persistOne now i db = (r, db')" by fastforce
  with Cons.IH persistOne_le [OF res] show ?case by (auto split: sum.splits intro: store_le_trans)
qed (simp add: store_le_refl)

lemma PersistAll_le: "store_le db (snd (PersistAll ok now inputs db))"
  using persist_loop_le [of db now inputs "[]"] by (auto simp: PersistAll_def store_le_refl split: prod.splits sum.splits)

lemma DeleteFolder_le: "store_le db (snd (DeleteFolder ok k db))"
proof (cases "ok \<and> folder_by_id db k \<noteq> None")
  case True
  then obtain f where f: "folder_by_id db k = Some f" and ok by auto
  have "same_place m (retired k m)" for m by (simp add: same_place_def)
  with \<open>ok\<close> show ?thesis
    unfolding store_le_def using DeleteFolder_rows [OF f] by auto (metis folder_le_refl)+
qed (auto simp: DeleteFolder_def store_le_refl)

lemma folder_added_le:
  "fresh_folder db f \<Longrightarrow> store_le db (db\<lparr>folders := folders db @ [f], next_uuid := next_uuid db + 1\<rparr>)"
  unfolding store_le_def by (auto simp: fresh_folder_def) (metis folder_le_refl same_place_refl)+

lemma renamed_le: "store_le db (db\<lparr>folders := update_where P (\<lambda>f. f\<lparr>f_name := b\<rparr>) (folders db)\<rparr>)"
  unfolding store_le_def
  by (auto simp: set_update_where folder_le_def) (metis same_place_refl)+

lemma exec_le: "store_inv db \<Longrightarrow> store_le db (exec db e)"
proof (induction db e rule: exec.induct)
  case (8 db ok now address name)
  then show ?case
    using folders_Create_snd [of ok now address name db] CreateFolder_snd folder_added_le store_le_refl
    by (metis exec.simps(8))
next
  case (9 db ok address a b)
  then show ?case
    using folders_Rename_snd [of ok address a b db] RenameFolder_snd renamed_le store_le_refl by (metis exec.simps(9))
next
  case (10 db ok address a)
  then show ?case using folders_Delete_snd [of ok address a db] DeleteFolder_le store_le_refl by (metis exec.simps(10))
qed (auto simp: adapter_snd SetFlags_le Expunge_le Copy_def copy_loop_le PersistAll_le moveInto_le store_le_refl split: sum.splits)

interpretation mail_store_order: ordered_machine exec store_inv store_le
  by unfold_locales (auto intro: store_le_refl store_le_trans exec_le)

end
