(* ===== verification/Store_Properties.thy ===== *)
theory Store_Properties
  imports Store_Machine
begin

text \<open>
  The properties of the mail store and the webmail repository: the run of the store machine,
  the isolation of mailboxes, and the functional behaviour of the single operations.
\<close>

section \<open>Mailboxes do not touch each other\<close>

definition others :: "uuid \<Rightarrow> mail_db \<Rightarrow> folder_row list \<times> message_row list \<times> mailbox_row list" where
  "others mb db = (filter (\<lambda>f. f_mailbox f \<noteq> mb) (folders db), filter (\<lambda>m. m_mailbox m \<noteq> mb) (messages db),
     filter (\<lambda>b. mb_id b \<noteq> mb) (mailboxes db))"

definition owned :: "uuid \<Rightarrow> uuid \<Rightarrow> mail_db \<Rightarrow> bool" where
  "owned mb k db \<longleftrightarrow> (\<forall>f \<in> set (folders db). fid f = k \<longrightarrow> f_mailbox f = mb)"

definition owned_message :: "uuid \<Rightarrow> uuid \<Rightarrow> mail_db \<Rightarrow> bool" where
  "owned_message mb i db \<longleftrightarrow> (\<forall>m \<in> set (messages db). mid m = i \<longrightarrow> m_mailbox m = mb)"

lemma filter_update_where:
  assumes "\<And>r. r \<in> set rows \<Longrightarrow> P r \<Longrightarrow> \<not> Q r \<and> \<not> Q (u r)"
  shows "filter Q (update_where P u rows) = filter Q rows"
  using assms by (induction rows) (auto simp: update_where_def)

lemma others_upd_folder:
  assumes "owned mb k db" "\<And>f. f_mailbox (u f) = f_mailbox f" "\<And>f. fid (u f) = fid f"
  shows "others mb (upd_folder k u db) = others mb db" "owned mb k' (upd_folder k u db) = owned mb k' db"
    "owned_message mb i (upd_folder k u db) = owned_message mb i db"
  using assms
  by (auto simp: others_def owned_def owned_message_def upd_folder_def set_update_where intro!: filter_update_where)

lemma others_upd_message:
  assumes "owned_message mb i db" "\<And>m. m_mailbox (u m) = m_mailbox m" "\<And>m. mid (u m) = mid m"
  shows "others mb (upd_message i u db) = others mb db" "owned mb k (upd_message i u db) = owned mb k db"
    "owned_message mb i' (upd_message i u db) = owned_message mb i' db"
  using assms
  by (auto simp: others_def owned_def owned_message_def upd_message_def set_update_where intro!: filter_update_where)

lemma others_upd_mailbox:
  assumes "\<And>b. mb_id (u b) = mb_id b"
  shows "others mb (upd_mailbox mb u db) = others mb db" "owned mb k (upd_mailbox mb u db) = owned mb k db"
    "owned_message mb i (upd_mailbox mb u db) = owned_message mb i db"
  using assms
  by (auto simp: others_def owned_def owned_message_def upd_mailbox_def intro!: filter_update_where)

lemmas others_simps = others_upd_folder others_upd_message others_upd_mailbox

lemma owned_load:
  assumes inv: "store_inv db" and own: "owned mb k db" and m: "loadMessage db k uid = Some m"
  shows "m_mailbox m = mb" "owned_message mb (mid m) db"
proof -
  note facts = loadMessage_Some [OF m]
  show mb: "m_mailbox m = mb"
    using live_owner [OF inv facts(1,4)] own facts(2) by (auto simp: owned_def)
  show "owned_message mb (mid m) db"
    using inv mb facts(1) distinct_key_eq [of mid "messages db" _ m]
    by (auto simp: owned_message_def store_inv_def keys_ok_def)
qed

lemma SetFlags_others:
  assumes "store_inv db" "owned mb k db"
  shows "others mb (snd (SetFlags ok k uid op flags since db)) = others mb db"
  using assms owned_load [OF assms, of uid]
  by (auto simp: SetFlags_def Let_def others_simps split: option.splits)

lemma expungeRow_others:
  assumes "store_inv db" "owned mb k db" "loadMessage db k uid = Some m"
  shows "others mb (expungeRow m k db) = others mb db" "owned mb k (expungeRow m k db)"
  using assms owned_load [OF assms] by (auto simp: expungeRow_def Let_def others_simps)

lemma Expunge_others:
  assumes "store_inv db" "owned mb k db"
  shows "others mb (snd (Expunge ok k uids db)) = others mb db"
proof -
  have "others mb (snd (expunge_loop k uids n db)) = others mb db" if "store_inv db" "owned mb k db" for n db
    using that
  proof (induction k uids n db rule: expunge_loop.induct)
    case (2 k uid uids n db)
    then show ?case using expungeRow_others [OF 2(3,4)] expungeRow_inv [OF 2(3)] by (auto split: option.splits)
  qed simp
  with assms show ?thesis by (auto simp: Expunge_def split: prod.splits) (metis snd_conv)
qed

lemma Move_others:
  assumes "store_inv db" "owned mb k db" "owned mb d db"
  shows "others mb (snd (Move ok k uid d db)) = others mb db"
  using assms owned_load [OF assms(1,2), of uid]
  by (auto simp: Move_def Let_def others_simps split: option.splits)

lemma ResolveFolder_owned: "store_inv db \<Longrightarrow> ResolveFolder db mb r = Some f \<Longrightarrow> owned mb (fid f) db"
  using ResolveFolder_Some distinct_key_eq [of fid "folders db" _ f]
  by (fastforce simp: owned_def store_inv_def keys_ok_def)

lemma DeleteFolder_others:
  assumes inv: "store_inv db" and own: "owned mb k db"
  shows "others mb (snd (DeleteFolder ok k db)) = others mb db"
proof (cases "ok \<and> folder_by_id db k \<noteq> None")
  case True
  then obtain f where f: "folder_by_id db k = Some f" and ok by auto
  have fm: "f_mailbox f = mb" using own folder_by_id_Some [OF f] by (auto simp: owned_def)
  have "filter (\<lambda>m. m_mailbox m \<noteq> mb) (map (retired k) (messages db)) = filter (\<lambda>m. m_mailbox m \<noteq> mb) (messages db)"
  proof -
    have "retired k m = m" if "m \<in> set (messages db)" "m_mailbox m \<noteq> mb" for m
      using live_owner [OF inv that(1)] own that(2) by (fastforce simp: retired_def owned_def)
    then show ?thesis by (auto simp: filter_map comp_def intro!: map_idI)
  qed
  moreover have "filter (\<lambda>x. f_mailbox x \<noteq> mb) (filter (\<lambda>x. fid x \<noteq> k) (folders db)) = filter (\<lambda>x. f_mailbox x \<noteq> mb) (folders db)"
    using own by (auto simp: owned_def intro!: filter_cong)
  ultimately show ?thesis
    using \<open>ok\<close> DeleteFolder_rows [OF f] fm by (simp add: others_def filter_update_where)
qed (auto simp: DeleteFolder_def)

text \<open>The mailbox an operation of the webmail is asked to work on.\<close>

fun op_mailbox :: "mail_db \<Rightarrow> store_op \<Rightarrow> uuid option" where
  "op_mailbox db (WebSetFlag mb _ _ _ _) = Some mb"
| "op_mailbox db (WebExpunge mb _ _) = Some mb"
| "op_mailbox db (WebMove mb _ _ _) = Some mb"
| "op_mailbox db (FolderCreate _ address _) = (case MailboxIDByAddress db address of Inl _ \<Rightarrow> None | Inr k \<Rightarrow> Some k)"
| "op_mailbox db (FolderRename address _ _) = (case MailboxIDByAddress db address of Inl _ \<Rightarrow> None | Inr k \<Rightarrow> Some k)"
| "op_mailbox db (FolderDelete address _) = (case MailboxIDByAddress db address of Inl _ \<Rightarrow> None | Inr k \<Rightarrow> Some k)"
| "op_mailbox db _ = None"

lemma CreateFolder_others: "others mb (snd (CreateFolder ok now mb name db)) = others mb db"
  by (simp add: CreateFolder_def others_def)

lemma RenameFolder_others: "others mb (snd (RenameFolder ok mb a b db)) = others mb db"
  by (auto simp: RenameFolder_def others_def Let_def own_folder_def intro!: filter_update_where)

lemma webmail_DeleteFolder_others:
  "store_inv db \<Longrightarrow> others mb (snd (webmail_DeleteFolder ok mb name db)) = others mb db"
proof (cases "find (own_folder mb name) (folders db)")
  case (Some f)
  assume inv: "store_inv db"
  have "owned mb (fid f) db"
    using find_SomeD [OF Some] inv distinct_key_eq [of fid "folders db" _ f]
    by (fastforce simp: owned_def own_folder_def store_inv_def keys_ok_def)
  with Some inv show ?thesis by (simp add: webmail_DeleteFolder_def DeleteFolder_others)
qed (simp add: webmail_DeleteFolder_def)

lemma exec_others_aux:
  assumes inv: "store_inv db" and mb: "op_mailbox db op = Some mb"
  shows "others mb (exec db (ok, op)) = others mb db"
proof (cases op)
  case (FolderCreate now address name)
  with mb show ?thesis
    by (auto simp: folders_Create_def folder_mailbox_def Let_def CreateFolder_others split: option.splits sum.splits)
next
  case (FolderRename address a b)
  with mb show ?thesis
    by (auto simp: folders_Rename_def folder_mailbox_def Let_def RenameFolder_others split: option.splits sum.splits)
next
  case (FolderDelete address a)
  with mb inv show ?thesis
    by (auto simp: folders_Delete_def folder_mailbox_def Let_def webmail_DeleteFolder_others split: option.splits sum.splits)
next
  case (WebMove m folder uid target)
  with mb inv ResolveFolder_owned [OF inv] show ?thesis
    by (auto simp: moveInto_def messageFolder_def Move_others split: option.splits sum.splits)
qed (use mb inv ResolveFolder_owned [OF inv] in \<open>auto simp: adapter_snd messageFolder_def SetFlags_others Expunge_others
       split: option.splits sum.splits\<close>)

section \<open>A store to run the properties on\<close>

definition demo_meta :: message_meta where
  "demo_meta = \<lparr>sender_address = ''a@x'', recipient_addresses = [''u@y''], subject = None, snippet = None,
     from_display_name = None, message_id_header = None, has_attachments = False,
     spf_result = None, dkim_result = None, dmarc_result = None\<rparr>"

definition demo_db :: mail_db where
  "demo_db = \<lparr>
     folders =
       [\<lparr>fid = 1, f_mailbox = 0, f_name = ''INBOX'', special_use = Some ''inbox'', uid_next = 3, uid_validity = 9,
          highest_modseq = 4, unread_count = 1, total_count = 2\<rparr>,
        \<lparr>fid = 2, f_mailbox = 0, f_name = ''Trash'', special_use = Some ''trash'', uid_next = 1, uid_validity = 9,
          highest_modseq = 1, unread_count = 0, total_count = 0\<rparr>],
     messages =
       [\<lparr>mid = 3, m_mailbox = 0, m_folder = 1, m_uid = 1, m_modseq = 2, m_blob = 0, m_size = 10, m_received_at = 0,
          m_expunged = False, m_flags = {SEEN}, m_meta = demo_meta\<rparr>,
        \<lparr>mid = 4, m_mailbox = 0, m_folder = 1, m_uid = 2, m_modseq = 4, m_blob = 1, m_size = 7, m_received_at = 1,
          m_expunged = False, m_flags = {}, m_meta = demo_meta\<rparr>],
     mailboxes = [\<lparr>mb_id = 0, email_address = ''u@y'', mb_active = True, max_message_bytes = 1000,
        quota_bytes = 5000, used_bytes = 17\<rparr>],
     blobs = [\<lparr>blob_id = 0, ref_count = 1\<rparr>, \<lparr>blob_id = 1, ref_count = 1\<rparr>],
     outbox = [], next_uuid = 5\<rparr>"

lemma demo_inv: "store_inv demo_db"
  unfolding store_inv_defs
  by (simp add: demo_db_def demo_meta_def sum_rows_def live_in_def unseen_in_def live_size_def)

section \<open>Properties of runs\<close>

text \<open>
  C1. Whatever sequence of operations is run on the mail store (IMAP flag changes, expunges and
  copies, webmail moves, deliveries, folder changes, each of them succeeding or failing at the
  database), the store invariant holds at the end: the cached unread and total of every folder,
  the used bytes of every mailbox and the reference count of every blob equal what the messages
  say, UIDs are unique within a folder and below its UIDNEXT, and keys are unique.
\<close>

theorem store_run_inv: "store_inv db \<Longrightarrow> store_inv (foldl exec db es)"
  by (rule mail_store.run_inv)

theorem store_run_inv_witness:
  "store_inv (foldl exec demo_db [(True, WebSetFlag 0 ''inbox'' 2 SEEN True), (True, WebMove 0 ''INBOX'' 1 ''trash''),
     (False, ImapExpunge 1 [2]), (True, ImapExpunge 1 [2])])"
  by (rule store_run_inv [OF demo_inv])

text \<open>
  C2. After any run, the numbers the read side counts from the messages (what LIST, SELECT and
  the webmail's folder list show) are the numbers cached in the folder row, and the used bytes of a
  mailbox are the sum of the sizes of its live messages.
\<close>

theorem cached_numbers_are_true:
  assumes "store_inv db" and "f \<in> set (folders (foldl exec db es))" and "b \<in> set (mailboxes (foldl exec db es))"
  shows "fi_total (scanFolder (foldl exec db es) f) = total_count f
    \<and> fi_unread (scanFolder (foldl exec db es) f) = unread_count f
    \<and> used_bytes b = (\<Sum>m \<leftarrow> filter (\<lambda>m. m_mailbox m = mb_id b \<and> \<not> m_expunged m) (messages (foldl exec db es)). m_size m)"
proof -
  have inv: "store_inv (foldl exec db es)" using assms(1) by (rule mail_store.run_inv)
  have "sum_rows (live_size k) ms = (\<Sum>m \<leftarrow> filter (\<lambda>m. m_mailbox m = k \<and> \<not> m_expunged m) ms. m_size m)" for k ms
    by (induction ms) (auto simp: sum_rows_Cons live_size_def)
  with inv assms(2,3) show ?thesis
    by (simp add: store_inv_def counts_ok_def quota_ok_def scanFolder_def sum_rows_filter)
qed

theorem cached_numbers_are_true_witness:
  "fi_unread (scanFolder (foldl exec demo_db []) (hd (folders demo_db))) = 1
   \<and> used_bytes (hd (mailboxes demo_db)) = 17"
  using cached_numbers_are_true [OF demo_inv, of "hd (folders demo_db)" "[]" "hd (mailboxes demo_db)"]
  by (simp add: demo_db_def)

text \<open>
  C3. UIDs are never given out twice and the IMAP counters never go back (RFC 3501, RFC 7162): after
  any run, a folder that existed before has the same UIDVALIDITY and no smaller UIDNEXT and
  HIGHESTMODSEQ, and a message that was not already at its place (same message, folder and UID)
  sits in a newer folder or at a UID not below the UIDNEXT its folder had before.
\<close>

theorem uids_never_reused:
  assumes "store_inv db"
  shows "(\<forall>f' \<in> set (folders (foldl exec db es)). next_uuid db \<le> fid f' \<or>
           (\<exists>f \<in> set (folders db). fid f = fid f' \<and> uid_validity f = uid_validity f'
              \<and> uid_next f \<le> uid_next f' \<and> highest_modseq f \<le> highest_modseq f'))
    \<and> (\<forall>m' \<in> set (messages (foldl exec db es)).
           (\<exists>m \<in> set (messages db). mid m = mid m' \<and> m_folder m = m_folder m' \<and> m_uid m = m_uid m' \<and> m_blob m = m_blob m')
           \<or> next_uuid db \<le> m_folder m'
           \<or> (\<exists>f \<in> set (folders db). fid f = m_folder m' \<and> uid_next f \<le> m_uid m'))"
  using mail_store_order.run_le [OF assms, of es]
  unfolding store_le_def folder_le_def same_place_def new_place_def by blast

theorem uids_never_reused_witness:
  "let db' = foldl exec demo_db [(True, WebMove 0 ''INBOX'' 1 ''trash'')] in
   \<forall>f' \<in> set (folders db'). next_uuid demo_db \<le> fid f' \<or>
     (\<exists>f \<in> set (folders demo_db). fid f = fid f' \<and> uid_validity f = uid_validity f'
        \<and> uid_next f \<le> uid_next f' \<and> highest_modseq f \<le> highest_modseq f')"
  unfolding Let_def by (rule conjunct1 [OF uids_never_reused [OF demo_inv]])

text \<open>
  A webmail or folder-management operation asked for one mailbox leaves the folders, messages
  and quota of every other mailbox exactly as they were, whatever UID or folder name it was given.
\<close>

lemma exec_others:
  assumes "store_inv db" "op_mailbox db op = Some mb"
  shows "filter (\<lambda>f. f_mailbox f \<noteq> mb) (folders (exec db (ok, op))) = filter (\<lambda>f. f_mailbox f \<noteq> mb) (folders db)
    \<and> filter (\<lambda>m. m_mailbox m \<noteq> mb) (messages (exec db (ok, op))) = filter (\<lambda>m. m_mailbox m \<noteq> mb) (messages db)
    \<and> filter (\<lambda>b. mb_id b \<noteq> mb) (mailboxes (exec db (ok, op))) = filter (\<lambda>b. mb_id b \<noteq> mb) (mailboxes db)"
  using exec_others_aux [OF assms, of ok] by (simp add: others_def)

theorem exec_others_witness:
  "filter (\<lambda>m. m_mailbox m \<noteq> 7) (messages (exec demo_db (True, WebExpunge 7 ''INBOX'' 1))) = messages demo_db"
  using exec_others [OF demo_inv, of "WebExpunge 7 ''INBOX'' 1" 7 True] by (simp add: demo_db_def)

section \<open>Properties of single operations\<close>

lemma changed_find:
  assumes inv: "store_inv db" and ch: "message_change db m u g h"
    and at: "m_folder (u m) = k" "m_uid (u m) = uint v" "\<not> m_expunged (u m)"
  shows "loadMessage (changed db m u g h) k v = Some (u m)"
  unfolding loadMessage_def
proof (rule find_unique)
  have inv': "store_inv (changed db m u g h)" using inv ch by (rule message_changed)
  show mem: "u m \<in> set (messages (changed db m u g h))"
    using ch by (auto simp: message_change_def set_update_where)
  fix y assume y: "y \<in> set (messages (changed db m u g h))" and yk: "m_folder y = k \<and> m_uid y = uint v \<and> \<not> m_expunged y"
  have "mid y = mid (u m)"
    using inv' at yk by (intro uids_ok_unique [OF _ y mem]) (simp_all add: store_inv_def)
  with inv' y mem show "y = u m" by (auto simp: store_inv_def keys_ok_def dest: distinct_key_eq)
qed (use at in simp)

text \<open>
  Filing a message into another folder (move to trash included) keeps it: when the destination
  UID fits in 32 bits, the message is found in the destination at the UID the caller was told, with
  the same blob, flags, size and metadata, it counts against the same mailbox, and it is no longer
  found in the source folder.
\<close>

lemma moveInto_keeps_message:
  assumes inv: "store_inv db" and res: "moveInto ok mb folder uid target db = (Inr v, db')"
    and fits: "\<forall>f \<in> set (folders db). uid_next f < 2 ^ 32"
  shows "\<exists>src dst m m'. ResolveFolder db mb folder = Some src \<and> ResolveFolder db mb target = Some dst
           \<and> loadMessage db (fid src) uid = Some m \<and> loadMessage db' (fid dst) v = Some m'
           \<and> loadMessage db' (fid src) uid = None
           \<and> mid m' = mid m \<and> m_blob m' = m_blob m \<and> m_flags m' = m_flags m \<and> m_size m' = m_size m
           \<and> m_meta m' = m_meta m \<and> m_mailbox m' = m_mailbox m"
proof -
  from moveInto_changes [OF inv res] obtain m u g k d where
    k: "ResolveFolder db mb folder = Some k" and d: "ResolveFolder db mb target = Some d" and ne: "fid k \<noteq> fid d"
    and m: "loadMessage db (fid k) uid = Some m" and ch: "message_change db m u g (\<lambda>b. b)"
    and db': "db' = changed db m u g (\<lambda>b. b)"
    and um: "u m = m\<lparr>m_folder := fid d, m_uid := uid_next d, m_modseq := highest_modseq d + 1\<rparr>"
    and v: "v = word_of_int (uid_next d)" by blast
  note facts = loadMessage_Some [OF m] and df = ResolveFolder_Some [OF d]
  have "0 < uid_next d" "uid_next d < 2 ^ 32" using uids_okD(1) [of db d] inv df fits by (auto simp: store_inv_def)
  then have "uint v = uid_next d" by (simp add: v uint_word_of_int_eq take_bit_int_eq_self)
  then have there: "loadMessage db' (fid d) v = Some (u m)"
    using changed_find [OF inv ch, of "fid d" v] facts by (simp add: db' um)
  have "loadMessage db' (fid k) uid = None"
  proof (rule ccontr)
    assume "loadMessage db' (fid k) uid \<noteq> None"
    then obtain y where y: "loadMessage db' (fid k) uid = Some y" by blast
    note yf = loadMessage_Some [OF y]
    have "y \<noteq> u m" using yf um ne by auto
    with changed_member [OF store_inv_keys [OF inv] ch] yf db' have "y \<in> set (messages db)" "mid y \<noteq> mid m" by auto
    with uids_ok_unique [of db y m] inv yf facts show False by (simp add: store_inv_def)
  qed
  with k d m there um show ?thesis by auto
qed

lemma demo_move:
  "fst (MoveToTrash True 0 ''INBOX'' 2 demo_db) = Inr 1"
  "map_option fid (ResolveFolder demo_db 0 ''INBOX'') = Some 1"
  "map_option fid (ResolveFolder demo_db 0 ''trash'') = Some 2"
  "map_option mid (loadMessage demo_db 1 2) = Some 4"
  by code_simp+

theorem moveInto_keeps_message_witness:
  "\<exists>db' m'. MoveToTrash True 0 ''INBOX'' 2 demo_db = (Inr 1, db')
     \<and> loadMessage db' 2 1 = Some m' \<and> mid m' = 4 \<and> loadMessage db' 1 2 = None"
proof -
  obtain db' where r: "MoveToTrash True 0 ''INBOX'' 2 demo_db = (Inr 1, db')"
    using demo_move(1) by (metis prod.collapse)
  have "\<forall>f \<in> set (folders demo_db). uid_next f < 2 ^ 32" by (simp add: demo_db_def)
  from moveInto_keeps_message [OF demo_inv r [unfolded MoveToTrash_def trashTarget_def] this] r demo_move(2-4)
  show ?thesis by auto
qed

lemma find_update_where:
  assumes "\<And>r. r \<in> set rows \<Longrightarrow> Q r \<Longrightarrow> \<not> P (u r)"
  shows "find P (update_where Q u rows) = find (\<lambda>r. P r \<and> \<not> Q r) rows"
  using assms by (induction rows) (auto simp: update_where_def)

lemma loadMessage_expunged:
  assumes inv: "store_inv db" and m: "loadMessage db k uid = Some m"
  shows "loadMessage (expungeRow m k db) k' v = (if k' = k \<and> v = uid then None else loadMessage db k' v)"
proof -
  note facts = loadMessage_Some [OF m]
  have "messages (expungeRow m k db) = update_where (\<lambda>x. mid x = mid m) (\<lambda>x. x\<lparr>m_expunged := True\<rparr>) (messages db)"
    by (simp add: expungeRow_def Let_def store_upd_defs)
  then have *: "loadMessage (expungeRow m k db) k' v
      = find (\<lambda>x. (m_folder x = k' \<and> m_uid x = uint v \<and> \<not> m_expunged x) \<and> mid x \<noteq> mid m) (messages db)"
    unfolding loadMessage_def by (simp add: find_update_where)
  have one: "x = m" if "x \<in> set (messages db)" "mid x = mid m" for x
    using inv that facts(1) by (auto simp: store_inv_def keys_ok_def dest: distinct_key_eq)
  show ?thesis
  proof (cases "k' = k \<and> v = uid")
    case True
    have "mid x = mid m" if "x \<in> set (messages db)" "m_folder x = k" "m_uid x = uint uid" for x
      using inv that facts by (intro uids_ok_unique [OF _ that(1) facts(1)]) (simp_all add: store_inv_def)
    with True show ?thesis unfolding * by (auto simp: find_None_iff)
  next
    case False
    have "((m_folder x = k' \<and> m_uid x = uint v \<and> \<not> m_expunged x) \<and> mid x \<noteq> mid m)
        = (m_folder x = k' \<and> m_uid x = uint v \<and> \<not> m_expunged x)" if "x \<in> set (messages db)" for x
      using one [OF that] facts False by (auto simp: word_uint_eq_iff)
    then have "find (\<lambda>x. (m_folder x = k' \<and> m_uid x = uint v \<and> \<not> m_expunged x) \<and> mid x \<noteq> mid m) (messages db)
        = loadMessage db k' v"
      unfolding loadMessage_def by (intro find_cong refl)
    with False * show ?thesis by auto
  qed
qed

lemma expunge_loop_exact:
  assumes "store_inv db" "expunge_loop k uids n db = (n', db')"
  shows "loadMessage db' k' v = (if k' = k \<and> v \<in> set uids then None else loadMessage db k' v)"
    and "n' = n + card {v \<in> set uids. loadMessage db k v \<noteq> None}"
  using assms
proof (induction uids arbitrary: n db)
  case (Cons uid uids)
  {
    case 1
    show ?case
    proof (cases "loadMessage db k uid")
      case None
      with 1 Cons.IH(1) [of db n] show ?thesis by auto
    next
      case (Some m)
      with 1 Cons.IH(1) [OF expungeRow_inv [OF 1(1) Some], of "n + 1"] show ?thesis
        by (auto simp: loadMessage_expunged [OF 1(1) Some])
    qed
  next
    case 2
    show ?case
    proof (cases "loadMessage db k uid")
      case None
      then have "{v \<in> set (uid # uids). loadMessage db k v \<noteq> None} = {v \<in> set uids. loadMessage db k v \<noteq> None}" by auto
      with 2 None Cons.IH(2) show ?thesis by simp
    next
      case (Some m)
      define A where "A = {v \<in> set uids. loadMessage (expungeRow m k db) k v \<noteq> None}"
      have "{v \<in> set (uid # uids). loadMessage db k v \<noteq> None} = insert uid A" "uid \<notin> A" "finite A"
        using Some 2 by (auto simp: A_def loadMessage_expunged)
      moreover have "n' = n + 1 + card A"
        using 2 Some Cons.IH(2) [OF expungeRow_inv [OF 2(1) Some], of "n + 1"] unfolding A_def by simp
      ultimately show ?thesis by simp
    qed
  }
qed auto

text \<open>
  An expunge removes exactly the messages it names: afterwards none of the UIDs resolves in the
  folder, every other message of every folder resolves as before, and the number returned is the
  number of distinct UIDs that were there. Running the same expunge again removes nothing and leaves
  the store as it is, so a repeated expunge cannot lower a counter twice.
\<close>

theorem Expunge_exact:
  assumes inv: "store_inv db" and res: "Expunge True k uids db = (Inr n, db')"
  shows "(\<forall>k' v. loadMessage db' k' v = (if k' = k \<and> v \<in> set uids then None else loadMessage db k' v))
    \<and> n = card {v \<in> set uids. loadMessage db k v \<noteq> None}
    \<and> Expunge True k uids db' = (Inr 0, db')"
proof -
  have loop: "expunge_loop k uids 0 db = (n, db')"
    using res by (auto simp: Expunge_def split: if_splits prod.splits)
  note exact = expunge_loop_exact [OF inv loop]
  have "expunge_loop k us a db' = (a, db')" if "\<forall>v \<in> set us. loadMessage db' k v = None" for us a
    using that by (induction us arbitrary: a) auto
  then have "Expunge True k uids db' = (Inr 0, db')"
    using exact(1) by (simp add: Expunge_def)
  with exact show ?thesis by simp
qed

theorem Expunge_exact_witness:
  "\<exists>db'. Expunge True 1 [2, 2, 9] demo_db = (Inr 1, db') \<and> Expunge True 1 [2, 2, 9] db' = (Inr 0, db')"
proof -
  have "fst (Expunge True 1 [2, 2, 9] demo_db) = Inr 1" by code_simp
  then obtain db' where r: "Expunge True 1 [2, 2, 9] demo_db = (Inr 1, db')" by (metis prod.collapse)
  with Expunge_exact [OF demo_inv r] show ?thesis by blast
qed

lemma sameFlags_iff: "finite a \<Longrightarrow> finite b \<Longrightarrow> sameFlags a b \<longleftrightarrow> a = b"
  unfolding sameFlags_def by (metis card_subset_eq subset_iff)

text \<open>
  C15. A flag change follows RFC 7162: when the message changed after the UNCHANGEDSINCE value the
  answer is false and nothing is written. Otherwise the answer is true and the message carries
  exactly the flags the operation asks for; if those are the flags it had, nothing is written
  (no modseq, no counter), and if they are not, its modseq rises and is the folder's
  HIGHESTMODSEQ.
\<close>

theorem SetFlags_condstore:
  assumes inv: "store_inv db" and m: "loadMessage db k uid = Some m"
    and res: "SetFlags True k uid op flags since db = (r, db')"
  shows "if since > 0 \<and> m_modseq m > int since then r = Inr False \<and> db' = db
         else if apply_flag_op op flags (m_flags m) = m_flags m then r = Inr True \<and> db' = db
         else r = Inr True
           \<and> (\<exists>m'. loadMessage db' k uid = Some m' \<and> m_flags m' = apply_flag_op op flags (m_flags m)
                 \<and> m_modseq m < m_modseq m'
                 \<and> (\<exists>f' \<in> set (folders db'). fid f' = k \<and> highest_modseq f' = m_modseq m'))"
proof (cases "(since > 0 \<and> m_modseq m > int since) \<or> apply_flag_op op flags (m_flags m) = m_flags m")
  case True
  with m res show ?thesis by (auto simp: SetFlags_def sameFlags_def)
next
  case False
  define after where "after = apply_flag_op op flags (m_flags m)"
  have go: "\<not> (since > 0 \<and> m_modseq m > int since)" and new: "after \<noteq> m_flags m"
    using False by (simp_all add: after_def)
  note facts = loadMessage_Some [OF m]
  have "finite (m_flags m)" "finite after"
    using inv facts by (auto simp: after_def store_inv_def keys_ok_def intro: finite_apply_flag_op)
  with new have "\<not> sameFlags (m_flags m) after" by (metis sameFlags_iff)
  with SetFlags_changes [OF inv m] go obtain u g f where
    f: "folder_by_id db k = Some f" "highest_modseq (g f) = highest_modseq f + 1"
    and um: "u m = m\<lparr>m_flags := after, m_modseq := highest_modseq f + 1\<rparr>"
    and ch: "message_change db m u g (\<lambda>b. b)"
    and eq: "SetFlags True k uid op flags since db = (Inr True, changed db m u g (\<lambda>b. b))"
    unfolding after_def stale_def by blast
  have "loadMessage (changed db m u g (\<lambda>b. b)) k uid = Some (u m)"
    using facts um by (intro changed_find [OF inv ch]) simp_all
  moreover have "m_modseq m \<le> highest_modseq f"
    using uids_okD(2) [of db f m] inv folder_by_id_Some [OF f(1)] facts by (simp add: store_inv_def)
  moreover have "g f \<in> set (folders (changed db m u g (\<lambda>b. b)))" "fid (g f) = k"
    using ch folder_by_id_Some [OF f(1)] by (auto simp: message_change_def folder_follows_def)
  ultimately have "r = Inr True
      \<and> (\<exists>m'. loadMessage db' k uid = Some m' \<and> m_flags m' = after \<and> m_modseq m < m_modseq m'
            \<and> (\<exists>f' \<in> set (folders db'). fid f' = k \<and> highest_modseq f' = m_modseq m'))"
    using res eq f(2) um by auto
  with False show ?thesis by (simp add: after_def)
qed

theorem SetFlags_condstore_witness:
  "\<exists>m. loadMessage demo_db 1 2 = Some m \<and> m_modseq m > 3
     \<and> SetFlags True 1 2 FlagOpAdd [SEEN] 3 demo_db = (Inr False, demo_db)"
proof -
  have "map_option m_modseq (loadMessage demo_db 1 2) = Some 4" by code_simp
  then obtain m where m: "loadMessage demo_db 1 2 = Some m" "m_modseq m = 4" by auto
  obtain r db' where r: "SetFlags True 1 2 FlagOpAdd [SEEN] 3 demo_db = (r, db')" by fastforce
  from SetFlags_condstore [OF demo_inv m(1) r] m r show ?thesis by auto
qed

section \<open>Delivery\<close>

definition delivered :: "persist_input \<Rightarrow> message_row \<Rightarrow> bool" where
  "delivered input n \<longleftrightarrow> m_mailbox n = pi_mailbox input \<and> m_blob n = pi_blob input
     \<and> m_size n = int (pi_blob_size input) \<and> \<not> m_expunged n \<and> sender_address (m_meta n) = pi_sender input
     \<and> recipient_addresses (m_meta n) = [pi_recipient input]
     \<and> (SEEN \<in> m_flags n \<longleftrightarrow> pi_already_seen input)"

lemma persistOne_appends:
  assumes "persistOne now input db = (Inr uid, db')"
  shows "\<exists>n. messages db' = messages db @ [n] \<and> delivered input n \<and> m_uid n = uid
           \<and> length (outbox db') = length (outbox db) + 1"
proof -
  from persistOne_files [OF assms] obtain f n os where
    "db' = (filed db f n)\<lparr>outbox := os\<rparr>" "delivered_row now input f (next_uuid db) n" "uid = uid_next f" by blast
  moreover have "length (outbox db') = length (outbox db) + 1"
    using assms by (auto simp: persistOne_def Let_def store_upd_defs split: option.splits)
  ultimately show ?thesis
    by (intro exI [of _ n]) (auto simp: filed_def delivered_row_def delivered_def)
qed

lemma persist_loop_appends:
  assumes "persist_loop now inputs acc db = (Inr uids, db')"
  shows "\<exists>ns. messages db' = messages db @ ns \<and> list_all2 delivered inputs ns \<and> uids = acc @ map m_uid ns
           \<and> length (outbox db') = length (outbox db) + length inputs"
  using assms
proof (induction inputs arbitrary: acc db)
  case (Cons i inputs)
  from Cons.prems obtain uid db1 where one: "persistOne now i db = (Inr uid, db1)"
    and rest: "persist_loop now inputs (acc @ [uid]) db1 = (Inr uids, db')"
    by (auto split: prod.splits sum.splits)
  from persistOne_appends [OF one] Cons.IH [OF rest] obtain n ns where
    "messages db1 = messages db @ [n]" "delivered i n" "m_uid n = uid" "length (outbox db1) = length (outbox db) + 1"
    "messages db' = messages db1 @ ns" "list_all2 delivered inputs ns" "uids = (acc @ [uid]) @ map m_uid ns"
    "length (outbox db') = length (outbox db1) + length inputs" by blast
  then show ?case by (intro exI [of _ "n # ns"]) simp
qed auto

text \<open>
  Delivery to several recipients is all or nothing: on any error no row changes, and on success
  there is exactly one new live message per copy, in the order of the copies, with the mailbox, blob,
  size, sender and recipient asked for and the UID returned, one outbox event per copy, and no
  earlier message is touched.
\<close>

lemma PersistAll_atomic:
  assumes "PersistAll ok now inputs db = (r, db')"
  shows "case r of
           Inl e \<Rightarrow> db' = db
         | Inr uids \<Rightarrow> \<exists>ns. messages db' = messages db @ ns \<and> list_all2 delivered inputs ns \<and> uids = map m_uid ns
                          \<and> length (outbox db') = length (outbox db) + length inputs"
proof (cases "inputs = [] \<or> \<not> ok")
  case True
  with assms show ?thesis by (auto simp: PersistAll_def split: if_splits)
next
  case False
  with assms show ?thesis
    using persist_loop_appends [of now inputs "[]" db] by (auto simp: PersistAll_def split: prod.splits sum.splits)
qed

definition demo_input :: "uuid \<Rightarrow> persist_input" where
  "demo_input mb = \<lparr>pi_mailbox = mb, pi_blob = 1, pi_blob_size = 7, pi_sender = ''a@x'', pi_recipient = ''u@y'',
     pi_target_folder = ''Nowhere'', pi_subject = [], pi_snippet = [], pi_from_display_name = [], pi_message_id = [],
     pi_has_attachments = False, pi_already_seen = False, pi_spf = [], pi_dkim = [], pi_dmarc = []\<rparr>"

theorem PersistAll_atomic_witness:
  "snd (PersistAll True 5 [demo_input 0, demo_input 9] demo_db) = demo_db
   \<and> (\<exists>n. messages (snd (PersistAll True 5 [demo_input 0] demo_db)) = messages demo_db @ [n] \<and> m_uid n = 3)"
proof -
  have bad: "fst (PersistAll True 5 [demo_input 0, demo_input 9] demo_db) = Inl NoRows" by code_simp
  have good: "fst (PersistAll True 5 [demo_input 0] demo_db) = Inr [3]" by code_simp
  from PersistAll_atomic [of True 5 "[demo_input 0, demo_input 9]" demo_db, OF surjective_pairing] bad
  have "snd (PersistAll True 5 [demo_input 0, demo_input 9] demo_db) = demo_db" by simp
  moreover from PersistAll_atomic [of True 5 "[demo_input 0]" demo_db, OF surjective_pairing] good
  have "\<exists>n. messages (snd (PersistAll True 5 [demo_input 0] demo_db)) = messages demo_db @ [n] \<and> m_uid n = 3"
    by (auto simp: list_all2_Cons1)
  ultimately show ?thesis by blast
qed

section \<open>Row locks\<close>

lemma lock_from_sorted:
  "sorted (x # ids) \<Longrightarrow> sorted_wrt (<) (x # lock_from (Some x) ids) \<and> set (lock_from (Some x) ids) = set ids - {x}"
proof (induction ids arbitrary: x)
  case (Cons i ids)
  show ?case
  proof (cases "i = x")
    case True
    with Cons show ?thesis by auto
  next
    case False
    with Cons.prems have lt: "x < i" and all: "\<forall>y \<in> set ids. i \<le> y" by auto
    with Cons.IH [of i] Cons.prems False show ?thesis by fastforce
  qed
qed simp

text \<open>
  Every operation takes the folder locks it needs in one global order and takes each lock once:
  the locks of \<^verbatim>\<open>lockFolders\<close> are strictly increasing and are exactly the folders asked for. Two
  operations can therefore never wait for each other's folder lock in opposite orders.
\<close>

theorem lockFolders_ordered: "sorted_wrt (<) (lockFolders ids) \<and> set (lockFolders ids) = set ids"
proof (cases "sort ids")
  case (Cons x xs)
  have "sorted (x # xs)" "set (x # xs) = set ids" by (metis Cons sorted_sort) (metis Cons set_sort)
  with lock_from_sorted [of x xs] Cons show ?thesis by (auto simp: lockFolders_def)
next
  case Nil
  then have "ids = []" by (metis length_0_conv length_sort)
  with Nil show ?thesis by (simp add: lockFolders_def)
qed

section \<open>Folders of the mail system\<close>

definition folder_name :: "folder_row \<Rightarrow> uuid \<times> uuid \<times> string \<times> string option" where
  "folder_name f = (fid f, f_mailbox f, f_name f, special_use f)"

definition system_folder :: "folder_row \<Rightarrow> bool" where
  "system_folder f \<longleftrightarrow> special_use f \<noteq> None \<or> ToLower (f_name f) \<in> set reservedFolders"

lemma names_upd_folder: "(\<And>f. folder_name (u f) = folder_name f) \<Longrightarrow> map folder_name (folders (upd_folder k u db)) = map folder_name (folders db)"
  by (simp add: upd_folder_def map_update_where)

lemma names_expunge_loop: "map folder_name (folders (snd (expunge_loop k uids n db))) = map folder_name (folders db)"
  by (induction k uids n db rule: expunge_loop.induct)
     (auto simp: expungeRow_def Let_def store_upd_defs map_update_where folder_name_def split: option.splits)

lemma names_copyOne: "map folder_name (folders (snd (copyOne ok now k uid d db))) = map folder_name (folders db)"
  by (auto simp: copyOne_def Let_def store_upd_defs map_update_where folder_name_def split: option.splits)

lemma names_copy_loop: "map folder_name (folders (snd (copy_loop ok now k uids d acc db))) = map folder_name (folders db)"
proof (induction uids arbitrary: acc db)
  case (Cons uid uids)
  then show ?case using names_copyOne [of "ok uid" now k uid d db] by (auto split: prod.splits sum.splits)
qed simp

lemma names_persistOne: "map folder_name (folders (snd (persistOne now input db))) = map folder_name (folders db)"
  by (auto simp: persistOne_def Let_def store_upd_defs map_update_where folder_name_def split: option.splits)

lemma names_persist_loop: "map folder_name (folders (snd (persist_loop now inputs acc db))) = map folder_name (folders db)"
proof (induction inputs arbitrary: acc db)
  case (Cons i inputs)
  then show ?case using names_persistOne [of now i db] by (auto split: prod.splits sum.splits)
qed simp

lemma names_other:
  "map folder_name (folders (snd (SetFlags ok k uid op flags since db))) = map folder_name (folders db)"
  "map folder_name (folders (snd (Move ok k uid d db))) = map folder_name (folders db)"
  "map folder_name (folders (snd (Expunge ok k uids db))) = map folder_name (folders db)"
  "map folder_name (folders (snd (PersistAll ok now inputs db))) = map folder_name (folders db)"
proof -
  show "map folder_name (folders (snd (SetFlags ok k uid op flags since db))) = map folder_name (folders db)"
    "map folder_name (folders (snd (Move ok k uid d db))) = map folder_name (folders db)"
    by (auto simp: SetFlags_def Move_def Let_def store_upd_defs map_update_where folder_name_def split: option.splits)
  show "map folder_name (folders (snd (Expunge ok k uids db))) = map folder_name (folders db)"
    using names_expunge_loop [of k uids 0 db] by (auto simp: Expunge_def split: prod.splits)
  show "map folder_name (folders (snd (PersistAll ok now inputs db))) = map folder_name (folders db)"
    using names_persist_loop [of now inputs "[]" db] by (auto simp: PersistAll_def split: prod.splits sum.splits)
qed

lemma names_exec:
  "(case op of FolderCreate _ _ _ \<Rightarrow> False | FolderRename _ _ _ \<Rightarrow> False | FolderDelete _ _ \<Rightarrow> False | _ \<Rightarrow> True) \<Longrightarrow>
   map folder_name (folders (exec db (ok, op))) = map folder_name (folders db)"
  by (cases op) (auto simp: names_other names_copy_loop adapter_snd Copy_def moveInto_def
    split: sum.splits option.splits)

lemma exec_system_folders:
  assumes inv: "store_inv db" and f: "f \<in> set (folders db)" and sys: "system_folder f"
  shows "\<exists>f' \<in> set (folders (exec db e)). folder_name f' = folder_name f"
proof -
  have by_names: ?thesis if "map folder_name (folders (exec db e)) = map folder_name (folders db)"
  proof -
    have "folder_name f \<in> set (map folder_name (folders (exec db e)))" unfolding that using f by simp
    then show ?thesis by auto
  qed
  obtain ok op where e: "e = (ok, op)" by fastforce
  show ?thesis
  proof (cases op)
    case (FolderCreate now address name)
    show ?thesis
      unfolding e FolderCreate exec.simps
      using folders_Create_snd [of ok now address name db] f
      by (elim disjE exE) (auto simp: CreateFolder_def)
  next
    case (FolderRename address a b)
    define from_name where "from_name = TrimSpace a"
    have "f \<in> set (folders (snd (RenameFolder ok mb from_name (TrimSpace b) db)))"
      if "ToLower from_name \<notin> set reservedFolders" for mb
    proof -
      have "\<not> own_folder mb from_name f" using sys that by (auto simp: own_folder_def system_folder_def)
      with f show ?thesis by (force simp: RenameFolder_def Let_def set_update_where)
    qed
    with f show ?thesis
      by (auto simp: e FolderRename folders_Rename_def Let_def from_name_def split: option.splits sum.splits)
  next
    case (FolderDelete address a)
    have "f \<in> set (folders (snd (webmail_DeleteFolder ok mb (TrimSpace a) db)))"
      if "ToLower (TrimSpace a) \<notin> set reservedFolders" for mb
    proof (cases "find (own_folder mb (TrimSpace a)) (folders db)")
      case (Some g)
      then have "own_folder mb (TrimSpace a) g" "g \<in> set (folders db)" by (auto dest: find_SomeD)
      with sys that have "f \<noteq> g" by (auto simp: own_folder_def system_folder_def)
      with f \<open>g \<in> _\<close> inv have "fid f \<noteq> fid g"
        by (auto simp: store_inv_def keys_ok_def dest: distinct_key_eq)
      with f Some show ?thesis
        by (auto simp: webmail_DeleteFolder_def DeleteFolder_def Let_def store_upd_defs split: option.splits)
    qed (use f in \<open>simp add: webmail_DeleteFolder_def\<close>)
    with f show ?thesis
      by (auto simp: e FolderDelete folders_Delete_def Let_def split: option.splits sum.splits)
  qed (use e names_exec [of op db ok] by_names in simp_all)
qed

text \<open>
  No sequence of operations renames or deletes a folder of the mail system: a folder with a
  special-use role, or with one of the reserved names, is still there after any run, with its id,
  its mailbox, its name and its role.
\<close>

lemma system_folders_survive:
  assumes "store_inv db" "f \<in> set (folders db)" "special_use f \<noteq> None \<or> ToLower (f_name f) \<in> set reservedFolders"
  shows "\<exists>f' \<in> set (folders (foldl exec db es)).
           fid f' = fid f \<and> f_mailbox f' = f_mailbox f \<and> f_name f' = f_name f \<and> special_use f' = special_use f"
  using assms
proof (induction es arbitrary: db f)
  case (Cons e es)
  have sys: "system_folder f" using Cons.prems by (simp add: system_folder_def)
  from exec_system_folders [OF Cons.prems(1,2) this] obtain g where
    g: "g \<in> set (folders (exec db e))" "folder_name g = folder_name f" by blast
  with Cons.prems(3) Cons.IH [of "exec db e" g] exec_inv [OF Cons.prems(1)] show ?case
    by (simp add: folder_name_def)
qed auto

theorem system_folders_survive_witness:
  "\<exists>f' \<in> set (folders (foldl exec demo_db [(True, FolderDelete ''u@y'' ''Trash''), (True, FolderRename ''u@y'' ''trash '' ''Bin'')])).
     f_name f' = ''Trash'' \<and> special_use f' = Some ''trash''"
proof -
  define f where "f = hd (tl (folders demo_db))"
  have f: "f \<in> set (folders demo_db)" "special_use f = Some ''trash''" "f_name f = ''Trash''"
    by (simp_all add: f_def demo_db_def)
  then have "special_use f \<noteq> None \<or> ToLower (f_name f) \<in> set reservedFolders" by simp
  from system_folders_survive [OF demo_inv f(1) this] f(2,3) show ?thesis by metis
qed

end
