(* ===== verification/Sieve_Engine.thy ===== *)
theory Sieve_Engine
  imports Prelude
begin

text \<open>
  The filtering engine of \<^verbatim>\<open>internal/domain/sieve\<close>: how a script is split and parsed
  (\<^verbatim>\<open>parser.go\<close>, \<^verbatim>\<open>test.go\<close>), how it is evaluated on a message
  (\<^verbatim>\<open>sieve.go\<close>), and when a vacation reply may be sent (\<^verbatim>\<open>vacation.go\<close>).

  The parser of the source walks an index over the list of statements; here a function takes and
  returns the part of the list that is left. The four parsing functions call each other on what a
  previous call left, so they carry fuel; \<open>Parse\<close> gives them enough (shown in
  \<open>Sieve_Properties\<close>: the out-of-fuel result never occurs).
\<close>

section \<open>Data\<close>

record message =
  Headers :: "(string \<times> string list) list"
  Sender :: string
  Recipient :: string

datatype test =
    headerTest string string string
  | anyOf "test list"
  | allOf "test list"
  | notTest test

datatype statement =
    conditional "branch list" "statement list"
  | fileInto string
  | discard
  | addFlag string
  | keep
  | stop
  | vacation string string
and branch = Branch test "statement list"

record outcome =
  Folder :: string
  Discard :: bool
  Flags :: "string list"
  Vacation :: "(string \<times> string) option"

datatype sieve_error =
    TooManyStatements nat
  | UnexpectedStatement string
  | UnsupportedStatement string
  | ExpectedBlock
  | UnclosedBlock
  | TooManyBranches
  | IfWithoutTest
  | NeedsOneString string
  | VacationNeedsMessage
  | UnsupportedTest string
  | EmptyTestList
  | HeaderTestNeedsTwo
  | OutOfFuel

definition maxRules :: nat where "maxRules = 500"

text \<open>\<open>header_values\<close> is the method \<^verbatim>\<open>header\<close>: the map is keyed by lower-case name.\<close>

definition header_values :: "message \<Rightarrow> string \<Rightarrow> string list" where
  "header_values msg name =
     (case map_of (Headers msg) (ToLower (TrimSpace name)) of None \<Rightarrow> [] | Some vs \<Rightarrow> vs)"

section \<open>Wildcards\<close>

text \<open>
  The matcher works on code points: \<open>runes\<close> is Go's conversion \<^verbatim>\<open>[]rune(s)\<close>, a rune being an
  integer.
  A well-formed UTF-8 sequence of one to four bytes is one code point, and every byte that does not
  start one is the replacement character on its own. \<open>decodeRune\<close> gives the code point at the
  front and how many bytes after the first one it takes.
\<close>

abbreviation STAR :: int where "STAR \<equiv> 42"
abbreviation QUESTION :: int where "QUESTION \<equiv> 63"
abbreviation ESCAPE :: int where "ESCAPE \<equiv> 92"

definition byteAt :: "string \<Rightarrow> nat \<Rightarrow> int" where
  "byteAt s k = (if k < length s then of_char (s ! k) else 0)"

definition byte_within :: "int \<Rightarrow> int \<Rightarrow> int \<Rightarrow> bool" where
  "byte_within lo hi b \<longleftrightarrow> lo \<le> b \<and> b \<le> hi"

definition decodeRune :: "char \<Rightarrow> string \<Rightarrow> int \<times> nat" where
  "decodeRune c s =
     (let a = of_char c; b0 = byteAt s 0; b1 = byteAt s 1; b2 = byteAt s 2
      in if a < 128 then (a, 0)
         else if byte_within 194 223 a \<and> byte_within 128 191 b0 then ((a - 192) * 64 + (b0 - 128), 1)
         else if byte_within 224 239 a \<and> byte_within (if a = 224 then 160 else 128) (if a = 237 then 159 else 191) b0
              \<and> byte_within 128 191 b1
           then ((a - 224) * 4096 + (b0 - 128) * 64 + (b1 - 128), 2)
         else if byte_within 240 244 a \<and> byte_within (if a = 240 then 144 else 128) (if a = 244 then 143 else 191) b0
              \<and> byte_within 128 191 b1 \<and> byte_within 128 191 b2
           then ((a - 240) * 262144 + (b0 - 128) * 4096 + (b1 - 128) * 64 + (b2 - 128), 3)
         else (65533, 0))"

fun runes :: "string \<Rightarrow> int list" where
  "runes [] = []"
| "runes (c # s) = (case decodeRune c s of (r, n) \<Rightarrow> r # runes (drop n s))"

text \<open>The pattern character at the front, its width, and whether it is escaped.\<close>

definition escaped :: "int list \<Rightarrow> int \<times> nat \<times> bool" where
  "escaped p = (if hd p = ESCAPE \<and> 1 < length p then (p ! 1, 2, True) else (hd p, 1, False))"

text \<open>
  The loop of \<^verbatim>\<open>wildcardMatch\<close>. \<open>v\<close> and \<open>p\<close> are the value and the pattern from
  \<^verbatim>\<open>vi\<close> and \<^verbatim>\<open>pi\<close> on, \<open>taken\<close> the characters from \<^verbatim>\<open>mark\<close> up to
  \<^verbatim>\<open>vi\<close>, last first, and \<open>star\<close> the pattern after the last star, when there was one.
  Going back to \<^verbatim>\<open>mark + 1\<close> puts the taken characters back and drops the first.
\<close>

definition only_stars :: "int list \<Rightarrow> bool" where
  "only_stars p \<longleftrightarrow> list_all (\<lambda>c. c = STAR) p"

function wildcard_loop :: "int list \<Rightarrow> int list \<Rightarrow> int list \<Rightarrow> int list option \<Rightarrow> bool" where
  "wildcard_loop taken [] p star = only_stars p"
| "wildcard_loop taken (c # v) p star =
     (let (ch, width, isEscaped) = (if p = [] then (c, 0, True) else escaped p)
      in if p \<noteq> [] \<and> isEscaped \<and> ch = c then wildcard_loop (c # taken) v (drop width p) star
         else if p \<noteq> [] \<and> \<not> isEscaped \<and> (ch = QUESTION \<or> ch = c) then wildcard_loop (c # taken) v (drop width p) star
         else if p \<noteq> [] \<and> \<not> isEscaped \<and> ch = STAR then wildcard_loop [] (c # v) (drop width p) (Some (drop width p))
         else case star of
                None \<Rightarrow> False
              | Some q \<Rightarrow> wildcard_loop [] (tl (rev taken @ c # v)) q star)"
  by pat_completeness auto
termination
  by (relation "measures [\<lambda>(taken, v, p, star). length taken + length v, \<lambda>(taken, v, p, star). length v + length p]")
     (auto simp: escaped_def split: if_splits)

definition wildcardMatch :: "string \<Rightarrow> string \<Rightarrow> bool" where
  "wildcardMatch value pattern = wildcard_loop [] (runes value) (runes pattern) None"

section \<open>Tests\<close>

definition compare :: "string \<Rightarrow> string \<Rightarrow> string \<Rightarrow> bool" where
  "compare comparator actual want =
     (let a = ToLower (TrimSpace actual); w = ToLower want
      in if comparator = ''is'' then a = w
         else if comparator = ''matches'' then wildcardMatch a w
         else Contains a w)"

fun matches :: "message \<Rightarrow> test \<Rightarrow> bool" where
  "matches msg (headerTest name value comparator) =
     list_ex (\<lambda>actual. compare comparator actual value) (header_values msg name)"
| "matches msg (anyOf tests) = list_ex (matches msg) tests"
| "matches msg (allOf tests) = (list_all (matches msg) tests \<and> tests \<noteq> [])"
| "matches msg (notTest inner) = (\<not> matches msg inner)"

section \<open>Splitting\<close>

definition flush :: "string \<Rightarrow> string list" where
  "flush current = (let t = TrimSpace current in if t \<noteq> [] then [t] else [])"

lemma length_after_comment: "length (dropWhile P s) - Suc 0 < Suc (length s)"
  using length_dropWhile_le [of P s] by linarith

text \<open>\<open>current\<close> is the statement read so far; a character is added at its end.\<close>

function (sequential) split_from :: "bool \<Rightarrow> string \<Rightarrow> string \<Rightarrow> string list" where
  "split_from inString current [] = flush current"
| "split_from True current [c] =
     (if c = DQUOTE then split_from False (current @ [c]) [] else split_from True (current @ [c]) [])"
| "split_from True current (c # d # s) =
     (if c = BACKSLASH then split_from True (current @ [c, d]) s
      else if c = DQUOTE then split_from False (current @ [c]) (d # s)
      else split_from True (current @ [c]) (d # s))"
| "split_from False current (c # s) =
     (if c = DQUOTE then split_from True (current @ [c]) s
      else if c = CHR ''#'' then split_from False current (tl (dropWhile (\<lambda>x. x \<noteq> LF) s))
      else if c = CHR ''{'' \<or> c = CHR ''}'' then flush current @ [c] # split_from False [] s
      else if c = CHR '';'' then flush current @ split_from False [] s
      else split_from False (current @ [c]) s)"
  by pat_completeness auto
termination
  by (relation "measure (\<lambda>(inString, current, s). length s)") (auto simp: length_after_comment)

definition splitStatements :: "string \<Rightarrow> string list" where
  "splitStatements source = split_from False [] source"

section \<open>Words and quoted strings\<close>

definition firstWord :: "string \<Rightarrow> string" where
  "firstWord line = takeWhile (\<lambda>c. c \<noteq> CHR '' '' \<and> c \<noteq> TAB \<and> c \<noteq> CHR ''('') line"

text \<open>One quoted string, from after its opening quote: its text and what follows the closing quote.\<close>

fun quoted :: "string \<Rightarrow> string \<times> string" where
  "quoted [] = ([], [])"
| "quoted (c # s) =
     (if c = DQUOTE then ([], s)
      else if c = BACKSLASH \<and> s \<noteq> [] then
        (let (b, r) = quoted (tl s)
         in (if hd s = DQUOTE \<or> hd s = BACKSLASH then hd s # b else BACKSLASH # hd s # b, r))
      else (let (b, r) = quoted s in (c # b, r)))"

lemma length_quoted: "length (snd (quoted s)) \<le> length s"
proof (induction s rule: quoted.induct)
  case (2 c s)
  then show ?case by (cases s) (auto split: prod.splits simp: le_SucI)
qed simp

function quotedStrings :: "string \<Rightarrow> string list" where
  "quotedStrings [] = []"
| "quotedStrings (c # s) =
     (if c = DQUOTE then fst (quoted s) # quotedStrings (snd (quoted s)) else quotedStrings s)"
  by pat_completeness auto
termination
  by (relation "measure length") (auto simp: le_imp_less_Suc length_quoted)

definition singleString :: "string \<Rightarrow> string \<Rightarrow> sieve_error + string" where
  "singleString line keyword =
     (let vs = quotedStrings (TrimSpace (drop (length keyword) line))
      in if length vs \<noteq> 1 then Inl (NeedsOneString keyword) else Inr (hd vs))"

definition parseVacation :: "string \<Rightarrow> sieve_error + statement" where
  "parseVacation line =
     (let rest = TrimSpace (drop 8 line); vs = quotedStrings rest
      in if vs = [] then Inl VacationNeedsMessage
         else if Contains (ToLower rest) '':subject'' \<and> 2 \<le> length vs then Inr (vacation (hd vs) (last vs))
         else Inr (vacation [] (last vs)))"

section \<open>Parsing tests\<close>

definition parseHeaderTest :: "string \<Rightarrow> sieve_error + test" where
  "parseHeaderTest source =
     (let comparator = (case find (\<lambda>candidate. Contains (ToLower source) ('':'' @ candidate)) [''contains'', ''is'', ''matches''] of
                          Some candidate \<Rightarrow> candidate | None \<Rightarrow> ''contains'');
          vs = quotedStrings source
      in if length vs < 2 then Inl HeaderTestNeedsTwo else Inr (headerTest (vs ! 0) (vs ! 1) comparator))"

text \<open>The parts of a test list: split at commas outside quotes and parentheses.\<close>

fun split_tests :: "bool \<Rightarrow> int \<Rightarrow> string \<Rightarrow> string \<Rightarrow> string list" where
  "split_tests inString depth current [] = (if TrimSpace current \<noteq> [] then [current] else [])"
| "split_tests True depth current [c] =
     split_tests (c \<noteq> DQUOTE) depth (current @ [c]) []"
| "split_tests True depth current (c # d # s) =
     (if c = BACKSLASH then split_tests True depth (current @ [c, d]) s
      else split_tests (c \<noteq> DQUOTE) depth (current @ [c]) (d # s))"
| "split_tests False depth current (c # s) =
     (if c = DQUOTE then split_tests True depth (current @ [c]) s
      else if c = CHR ''('' then split_tests False (depth + 1) (current @ [c]) s
      else if c = CHR '')'' then split_tests False (depth - 1) (current @ [c]) s
      else if c = CHR '','' \<and> depth = 0 then current # split_tests False depth [] s
      else split_tests False depth (current @ [c]) s)"

definition test_parts :: "string \<Rightarrow> string list" where
  "test_parts source =
     (let s1 = TrimPrefix (TrimSpace source) ''(''; s2 = TrimSuffix (TrimSpace s1) '')''
      in split_tests False 0 [] s2)"

lemma length_split_tests:
  "(\<Sum>p \<leftarrow> split_tests inString depth current s. Suc (length p)) \<le> Suc (length current + length s)"
  by (induction inString depth current s rule: split_tests.induct) auto

lemma length_test_parts: "(\<Sum>p \<leftarrow> test_parts s. Suc (length p)) \<le> Suc (length s)"
proof -
  define s1 where "s1 = TrimPrefix (TrimSpace s) ''(''"
  define s2 where "s2 = TrimSuffix (TrimSpace s1) '')''"
  have "length s2 \<le> length s"
    unfolding s2_def s1_def
    by (meson length_TrimPrefix length_TrimSpace length_TrimSuffix order_trans)
  with length_split_tests [of False 0 "[]" s2] show ?thesis
    by (simp add: test_parts_def s1_def s2_def Let_def)
qed

lemma HasPrefix_length: "HasPrefix (ToLower s) p \<Longrightarrow> length p \<le> length s"
  by (metis HasPrefix_iff le_add1 length_ToLower length_append)

function (sequential) parseTest :: "string \<Rightarrow> sieve_error + test"
  and parse_tests :: "string list \<Rightarrow> sieve_error + test list" where
  "parseTest source0 =
     (let source = TrimSpace source0; lower = ToLower source
      in if HasPrefix lower ''not '' then
           (case parseTest (drop 4 source) of Inl e \<Rightarrow> Inl e | Inr inner \<Rightarrow> Inr (notTest inner))
         else if HasPrefix lower ''anyof'' \<or> HasPrefix lower ''allof'' then
           (case parse_tests (test_parts (drop 5 source)) of
              Inl e \<Rightarrow> Inl e
            | Inr [] \<Rightarrow> Inl EmptyTestList
            | Inr inner \<Rightarrow> Inr (if HasPrefix lower ''anyof'' then anyOf inner else allOf inner))
         else if HasPrefix lower ''header'' \<or> HasPrefix lower ''address'' then parseHeaderTest source
         else if lower = ''true'' then Inr (allOf [])
         else Inl (UnsupportedTest (firstWord source)))"
| "parse_tests [] = Inr []"
| "parse_tests (part # parts) =
     (case parseTest part of
        Inl e \<Rightarrow> Inl e
      | Inr t \<Rightarrow> (case parse_tests parts of Inl e \<Rightarrow> Inl e | Inr ts \<Rightarrow> Inr (t # ts)))"
  by pat_completeness auto
termination
proof (relation "measure (case_sum length (\<lambda>ps. \<Sum>p \<leftarrow> ps. Suc (length p)))", goal_cases)
  case (2 source0 source lower)
  then have "4 \<le> length source" using HasPrefix_length [of source "''not ''"] by simp
  with 2 length_TrimSpace [of source0] show ?case by simp
next
  case (3 source0 source lower)
  then have "5 \<le> length source"
    using HasPrefix_length [of source "''anyof''"] HasPrefix_length [of source "''allof''"] by auto
  with 3 length_TrimSpace [of source0] length_test_parts [of "drop 5 source"] show ?case by simp
qed auto

section \<open>Parsing statements\<close>

type_synonym 'a parsed = "sieve_error + 'a \<times> string list"

definition isConditionalHead :: "string \<Rightarrow> bool" where
  "isConditionalHead head \<longleftrightarrow> head = ''if'' \<or> head = ''elsif'' \<or> head = ''else''"

fun parseBlock :: "nat \<Rightarrow> string list \<Rightarrow> statement list parsed"
  and parseStatement :: "nat \<Rightarrow> string list \<Rightarrow> statement option parsed"
  and parseConditional :: "nat \<Rightarrow> branch list \<Rightarrow> string list \<Rightarrow> statement parsed"
  and readBraced :: "nat \<Rightarrow> string list \<Rightarrow> statement list parsed" where
  "parseBlock 0 lines = Inl OutOfFuel"
| "parseBlock (Suc n) [] = Inr ([], [])"
| "parseBlock (Suc n) (line # lines) =
     (if line = ''}'' then Inr ([], line # lines)
      else case parseStatement n (line # lines) of
          Inl e \<Rightarrow> Inl e
        | Inr (st, next) \<Rightarrow>
            (case parseBlock n next of
               Inl e \<Rightarrow> Inl e
             | Inr (out, rest) \<Rightarrow> Inr (case st of None \<Rightarrow> out | Some s \<Rightarrow> s # out, rest)))"
| "parseStatement 0 lines = Inl OutOfFuel"
| "parseStatement (Suc n) [] = Inl OutOfFuel"
| "parseStatement (Suc n) (line # lines) =
     (let head = ToLower (firstWord line)
      in if head = ''require'' then Inr (None, lines)
         else if head = ''if'' then
           (case parseConditional n [] (line # lines) of Inl e \<Rightarrow> Inl e | Inr (st, next) \<Rightarrow> Inr (Some st, next))
         else if head = ''fileinto'' then
           (case singleString line ''fileinto'' of Inl e \<Rightarrow> Inl e | Inr folder \<Rightarrow> Inr (Some (fileInto folder), lines))
         else if head = ''addflag'' \<or> head = ''setflag'' then
           (case singleString line head of Inl e \<Rightarrow> Inl e | Inr flag \<Rightarrow> Inr (Some (addFlag flag), lines))
         else if head = ''discard'' then Inr (Some discard, lines)
         else if head = ''keep'' then Inr (Some keep, lines)
         else if head = ''stop'' then Inr (Some stop, lines)
         else if head = ''vacation'' then
           (case parseVacation line of Inl e \<Rightarrow> Inl e | Inr v \<Rightarrow> Inr (Some v, lines))
         else if head = [] then Inr (None, lines)
         else Inl (UnsupportedStatement (firstWord line)))"
| "parseConditional 0 branches lines = Inl OutOfFuel"
| "parseConditional (Suc n) branches lines =
     (let head = (if lines = [] then [] else ToLower (firstWord (hd lines)))
      in if lines = [] \<or> \<not> isConditionalHead head then
           (if branches = [] then Inl IfWithoutTest else Inr (conditional branches [], lines))
         else if head = ''else'' then
           (case readBraced n (tl lines) of
              Inl e \<Rightarrow> Inl e
            | Inr (body, next) \<Rightarrow>
                if branches = [] then Inl IfWithoutTest else Inr (conditional branches body, next))
         else
           (case parseTest (TrimSpace (drop (length head) (hd lines))) of
              Inl e \<Rightarrow> Inl e
            | Inr parsedTest \<Rightarrow>
                (case readBraced n (tl lines) of
                   Inl e \<Rightarrow> Inl e
                 | Inr (body, next) \<Rightarrow>
                     let branches' = branches @ [Branch parsedTest body]
                     in if length branches' > maxRules then Inl TooManyBranches
                        else parseConditional n branches' next)))"
| "readBraced 0 lines = Inl OutOfFuel"
| "readBraced (Suc n) lines =
     (if lines = [] \<or> hd lines \<noteq> ''{'' then Inl ExpectedBlock
      else case parseBlock n (tl lines) of
          Inl e \<Rightarrow> Inl e
        | Inr (body, next) \<Rightarrow>
            if next = [] \<or> hd next \<noteq> ''}'' then Inl UnclosedBlock else Inr (body, tl next))"

text \<open>Four units of fuel per statement: one for each function that can be called on the same statements.\<close>

definition parse_fuel :: "string list \<Rightarrow> nat" where
  "parse_fuel lines = 4 * length lines + 4"

definition Parse :: "string \<Rightarrow> sieve_error + statement list" where
  "Parse source =
     (let lines = splitStatements source
      in if length lines > maxRules then Inl (TooManyStatements (length lines))
         else case parseBlock (parse_fuel lines) lines of
             Inl e \<Rightarrow> Inl e
           | Inr (statements, rest) \<Rightarrow>
               if rest \<noteq> [] then Inl (UnexpectedStatement (hd rest)) else Inr statements)"

section \<open>Automatic replies\<close>

definition reservedLocals :: "string list" where
  "reservedLocals =
     [''mailer-daemon'', ''mailerdaemon'', ''postmaster'', ''no-reply'', ''noreply'',
      ''donotreply'', ''do-not-reply'', ''bounce'', ''bounces'', ''notification'',
      ''notifications'', ''automated'', ''auto-reply'', ''autoreply'']"

definition suppressHeaders :: "string list" where
  "suppressHeaders =
     [''list-id'', ''list-help'', ''list-unsubscribe'', ''list-post'',
      ''x-auto-response-suppress'', ''x-autoreply'', ''x-autorespond'']"

definition senderLocal :: "string \<Rightarrow> string" where
  "senderLocal sender =
     (let local = ToLower sender
      in case Index local ''@'' of Some (Suc i) \<Rightarrow> take (Suc i) local | _ \<Rightarrow> local)"

definition shouldAutoReply :: "message \<Rightarrow> bool" where
  "shouldAutoReply msg =
     (if TrimSpace (Sender msg) = [] then False
      else if Recipient msg \<noteq> [] \<and> EqualFold (Sender msg) (Recipient msg) then False
      else if list_ex (\<lambda>reserved. senderLocal (Sender msg) = reserved
                 \<or> list_ex (\<lambda>separator. HasPrefix (senderLocal (Sender msg)) (reserved @ separator)) [''+'', ''-'', ''.'', ''_''])
              reservedLocals then False
      else if list_ex (\<lambda>v. \<not> EqualFold (TrimSpace v) ''no'') (header_values msg ''auto-submitted'') then False
      else if list_ex (\<lambda>h. header_values msg h \<noteq> []) suppressHeaders then False
      else if list_ex (\<lambda>v. ToLower (TrimSpace v) \<in> {''bulk'', ''list'', ''junk''}) (header_values msg ''precedence'') then False
      else True)"

section \<open>Evaluation\<close>

text \<open>\<open>stopped\<close> and \<open>run\<close> return whether evaluation must end and the outcome so far.\<close>

function (sequential) stopped :: "message \<Rightarrow> statement \<Rightarrow> outcome \<Rightarrow> bool \<times> outcome"
  and run :: "message \<Rightarrow> statement list \<Rightarrow> outcome \<Rightarrow> bool \<times> outcome"
  and run_branches :: "message \<Rightarrow> branch list \<Rightarrow> statement list \<Rightarrow> outcome \<Rightarrow> bool \<times> outcome" where
  "stopped msg (conditional branches fallback) out = run_branches msg branches fallback out"
| "stopped msg (fileInto folder) out =
     (False, if Folder out = [] then out\<lparr>Folder := folder\<rparr> else out)"
| "stopped msg discard out = (False, out\<lparr>Discard := True\<rparr>)"
| "stopped msg (addFlag flag) out =
     (False, if flag \<in> set (Flags out) then out else out\<lparr>Flags := Flags out @ [flag]\<rparr>)"
| "stopped msg keep out = (False, out)"
| "stopped msg stop out = (True, out)"
| "stopped msg (vacation sub bod) out =
     (False, if shouldAutoReply msg then out\<lparr>Vacation := Some (sub, bod)\<rparr> else out)"
| "run msg [] out = (False, out)"
| "run msg (st # sts) out =
     (case stopped msg st out of (True, out') \<Rightarrow> (True, out') | (False, out') \<Rightarrow> run msg sts out')"
| "run_branches msg [] fallback out = run msg fallback out"
| "run_branches msg (Branch t body # branches) fallback out =
     (if matches msg t then run msg body out else run_branches msg branches fallback out)"
  by pat_completeness auto
termination
  by (relation "measure (case_sum (\<lambda>(msg, st, out). 2 * size st)
        (case_sum (\<lambda>(msg, sts, out). 2 * size_list size sts)
           (\<lambda>(msg, bs, fb, out). 2 * (size_list size bs + size_list size fb) + 1)))") auto

definition no_outcome :: outcome where
  "no_outcome = \<lparr>Folder = [], Discard = False, Flags = [], Vacation = None\<rparr>"

definition Evaluate :: "statement list \<Rightarrow> message \<Rightarrow> outcome" where
  "Evaluate script msg = snd (run msg script no_outcome)"

section \<open>Applying the rules of a mailbox\<close>

text \<open>
  \<^verbatim>\<open>apply_rules.go\<close>. The active script is read from the database: \<^const>\<open>Inl\<close> when
  that fails. The parsed headers of the payload come from \<^verbatim>\<open>net/mail\<close>, a parameter.
\<close>

definition rules_For ::
  "(string \<Rightarrow> (string \<times> string list) list) \<Rightarrow> 'e + string \<Rightarrow> string \<Rightarrow> string \<Rightarrow> string \<Rightarrow> outcome" where
  "rules_For headersOf source recipient sender payload =
     (case source of
        Inl _ \<Rightarrow> no_outcome
      | Inr s \<Rightarrow>
          if TrimSpace s = [] then no_outcome
          else case Parse s of
              Inl _ \<Rightarrow> no_outcome
            | Inr script \<Rightarrow> Evaluate script \<lparr>Headers = headersOf payload, Sender = sender, Recipient = recipient\<rparr>)"

end
