(* ===== verification/Sieve_Wildcard.thy ===== *)
theory Sieve_Wildcard
  imports Sieve_Properties
begin

text \<open>
  The wildcard matcher of \<^verbatim>\<open>test.go\<close> is an iterative search that remembers only the last
  star. Here it is shown to decide the recursive definition of \<^verbatim>\<open>:matches\<close>
  (RFC 5228, section 2.7.1) for every value that has no literal asterisk, and to differ from it when
  the value has one.
\<close>

section \<open>The reference definition\<close>

fun glob :: "int list \<Rightarrow> int list \<Rightarrow> bool" where
  "glob v [] = (v = [])"
| "glob v (p # ps) =
     (if p = ESCAPE \<and> ps \<noteq> [] then (case v of [] \<Rightarrow> False | c # v' \<Rightarrow> c = hd ps \<and> glob v' (tl ps))
      else if p = STAR then glob v ps \<or> (case v of [] \<Rightarrow> False | c # v' \<Rightarrow> glob v' (p # ps))
      else (case v of [] \<Rightarrow> False | c # v' \<Rightarrow> (p = QUESTION \<or> p = c) \<and> glob v' ps))"

declare glob.simps(2) [simp del] wildcard_loop.simps(2) [simp del]

lemma ex_le_Suc: "(\<exists>k \<le> Suc n. P k) \<longleftrightarrow> P 0 \<or> (\<exists>k \<le> n. P (Suc k))"
  by (metis Suc_le_mono not0_implies_Suc zero_le)

lemma glob_star: "glob v (STAR # p) \<longleftrightarrow> (\<exists>k \<le> length v. glob (drop k v) p)"
proof (induction v)
  case Nil
  show ?case by (simp add: glob.simps(2))
next
  case (Cons c v)
  have "glob (c # v) (STAR # p) \<longleftrightarrow> glob (c # v) p \<or> (\<exists>k \<le> length v. glob (drop k v) p)"
    using Cons by (subst glob.simps(2)) simp
  also have "\<dots> \<longleftrightarrow> (\<exists>k \<le> length (c # v). glob (drop k (c # v)) p)"
    by (simp add: ex_le_Suc)
  finally show ?case .
qed

lemma glob_star_drop: "glob (drop k v) (STAR # p) \<Longrightarrow> glob v (STAR # p)"
proof -
  assume "glob (drop k v) (STAR # p)"
  then obtain j where "j \<le> length v - k" "glob (drop (j + k) v) p" by (auto simp: glob_star)
  moreover from this have "glob (drop (min (j + k) (length v)) v) p"
    by (metis drop_all min.absorb1 min.absorb2 nat_le_linear)
  ultimately show ?thesis by (auto simp: glob_star intro: exI [of _ "min (j + k) (length v)"])
qed

lemma only_stars_glob: "only_stars p \<longleftrightarrow> glob [] p"
  by (induction p) (auto simp: only_stars_def glob.simps(2))

text \<open>One pattern character against one character of the value.\<close>

lemma glob_step:
  assumes "p \<noteq> []" "escaped p = (ch, w, e)" "e \<or> ch \<noteq> STAR"
  shows "glob (c # v) p \<longleftrightarrow> (ch = c \<or> \<not> e \<and> ch = QUESTION) \<and> glob v (drop w p)"
proof (cases p)
  case (Cons a q)
  with assms show ?thesis
    by (cases q) (auto simp: escaped_def glob.simps(2) split: if_splits)
qed (use assms in simp)

lemma escaped_star: "p \<noteq> [] \<Longrightarrow> escaped p = (STAR, w, False) \<Longrightarrow> w = 1 \<and> p = STAR # tl p"
  by (cases p) (auto simp: escaped_def split: if_splits)

text \<open>The pattern after \<open>n\<close> characters none of which is a star.\<close>

fun after :: "nat \<Rightarrow> int list \<Rightarrow> int list option" where
  "after 0 p = Some p"
| "after (Suc n) p =
     (if p = [] then None
      else case escaped p of (ch, w, e) \<Rightarrow> if \<not> e \<and> ch = STAR then None else after n (drop w p))"

lemma after_Suc:
  "after n q = Some p \<Longrightarrow> p \<noteq> [] \<Longrightarrow> escaped p = (ch, w, e) \<Longrightarrow> e \<or> ch \<noteq> STAR \<Longrightarrow> after (Suc n) q = Some (drop w p)"
proof (induction n q rule: after.induct)
  case (2 n q)
  obtain ch' w' e' where esc: "escaped q = (ch', w', e')" by (metis prod_cases3)
  with 2(2) have q: "q \<noteq> []" "\<not> (\<not> e' \<and> ch' = STAR)" "after n (drop w' q) = Some p"
    by (auto split: if_splits)
  from 2(1) [OF q(1) esc [symmetric] refl] q 2(3-5) esc
  have "after (Suc n) (drop w' q) = Some (drop w p)" by simp
  then show ?case using q esc by (subst after.simps(2)) simp
qed simp

lemma glob_after: "after n q = Some p \<Longrightarrow> glob v q \<Longrightarrow> n \<le> length v \<and> glob (drop n v) p"
proof (induction n q arbitrary: v rule: after.induct)
  case (2 n q)
  obtain ch w e where esc: "escaped q = (ch, w, e)" by (metis prod_cases3)
  with 2(2) have q: "q \<noteq> []" "e \<or> ch \<noteq> STAR" "after n (drop w q) = Some p"
    by (auto split: if_splits)
  obtain c v' where v: "v = c # v'"
    using 2(3) q esc by (cases v; cases q) (auto simp: glob.simps(2) escaped_def split: if_splits)
  then have "glob v' (drop w q)" using glob_step [OF q(1) esc q(2)] 2(3) by simp
  with 2(1) [OF q(1) esc [symmetric] refl] q v show ?case by auto
qed simp

section \<open>The loop decides it\<close>

definition retry :: "int list \<Rightarrow> int list \<Rightarrow> int list option \<Rightarrow> bool" where
  "retry taken v star \<longleftrightarrow> (\<exists>q k. star = Some q \<and> 1 \<le> k \<and> k \<le> length taken + length v \<and> glob (drop k (rev taken @ v)) q)"

lemma wildcard_consume:
  assumes "p \<noteq> []" "escaped p = (ch, w, e)" "ch = c \<or> \<not> e \<and> ch = QUESTION"
  shows "wildcard_loop taken (c # v) p star = wildcard_loop (c # taken) v (drop w p) star"
  using assms by (subst wildcard_loop.simps(2)) auto

lemma wildcard_star:
  assumes "c \<noteq> STAR"
  shows "wildcard_loop taken (c # v) (STAR # p) star = wildcard_loop [] (c # v) p (Some p)"
  using assms by (simp add: wildcard_loop.simps(2) [of taken] escaped_def)

lemma wildcard_back:
  assumes "p = [] \<or> (\<exists>ch w e. escaped p = (ch, w, e) \<and> ch \<noteq> c \<and> (e \<or> ch \<noteq> QUESTION \<and> ch \<noteq> STAR))"
  shows "wildcard_loop taken (c # v) p star =
    (case star of None \<Rightarrow> False | Some q \<Rightarrow> wildcard_loop [] (tl (rev taken @ c # v)) q star)"
  using assms by (elim disjE exE conjE) (simp_all add: wildcard_loop.simps(2) [of taken])

lemma retry_consume: "retry (c # taken) v star \<longleftrightarrow> retry taken (c # v) star"
  by (simp add: retry_def)

lemma retry_back:
  "glob (tl (rev taken @ c # v)) q \<or> retry [] (tl (rev taken @ c # v)) (Some q) \<longleftrightarrow> retry taken (c # v) (Some q)"
proof -
  define full where "full = rev taken @ c # v"
  have len: "length full = Suc (length (tl full))" by (simp add: full_def)
  have "retry taken (c # v) (Some q) \<longleftrightarrow> (\<exists>k \<le> length (tl full). glob (drop (Suc k) full) q)"
    unfolding retry_def full_def [symmetric] using len
    by (auto simp: full_def) (metis Suc_le_D Suc_le_mono)
  also have "\<dots> \<longleftrightarrow> (\<exists>k \<le> length (tl full). glob (drop k (tl full)) q)"
    by (simp add: drop_Suc)
  also have "\<dots> \<longleftrightarrow> glob (tl full) q \<or> retry [] (tl full) (Some q)"
    unfolding retry_def by (auto simp: Suc_le_eq) (metis drop0 neq0_conv)
  finally show ?thesis by (simp add: full_def)
qed

lemma retry_star:
  assumes "\<And>q. star = Some q \<Longrightarrow> after (length taken) q = Some (STAR # p)" "retry taken v star"
  shows "glob v (STAR # p)"
proof -
  from assms(2) obtain q k where q: "star = Some q" "glob (drop k (rev taken @ v)) q"
    by (auto simp: retry_def)
  have "drop (length taken) (drop k (rev taken @ v)) = drop k v"
    by (metis add.commute append_eq_conv_conj drop_drop length_rev)
  with glob_after [OF assms(1) [OF q(1)] q(2)] have "glob (drop k v) (STAR # p)" by simp
  then show ?thesis by (rule glob_star_drop)
qed

lemma glob_star_retry: "glob v p \<or> retry [] v (Some p) \<longleftrightarrow> glob v (STAR # p)"
  unfolding retry_def glob_star by (auto simp: Suc_le_eq) (metis drop0 neq0_conv)

definition must_back :: "int \<Rightarrow> int list \<Rightarrow> bool" where
  "must_back c p \<longleftrightarrow> p = [] \<or> (\<exists>ch w e. escaped p = (ch, w, e) \<and> ch \<noteq> c \<and> (e \<or> ch \<noteq> QUESTION \<and> ch \<noteq> STAR))"

lemma wildcard_induct [case_names Nil consume star retreat]:
  assumes nil: "\<And>taken p star. P taken [] p star"
    and consume: "\<And>taken c v p star ch w e. p \<noteq> [] \<Longrightarrow> escaped p = (ch, w, e) \<Longrightarrow> ch = c \<or> \<not> e \<and> ch = QUESTION \<Longrightarrow>
      P (c # taken) v (drop w p) star \<Longrightarrow> P taken (c # v) p star"
    and new_star: "\<And>taken c v p star. c \<noteq> STAR \<Longrightarrow> P [] (c # v) p (Some p) \<Longrightarrow> P taken (c # v) (STAR # p) star"
    and retreat: "\<And>taken c v p star. must_back c p \<Longrightarrow>
      (\<And>q. star = Some q \<Longrightarrow> P [] (tl (rev taken @ c # v)) q star) \<Longrightarrow> P taken (c # v) p star"
  shows "P taken v p star"
proof (induction taken v p star rule: wildcard_loop.induct)
  case (2 taken c v p star)
  show ?case
  proof (cases "p = []")
    case True
    with 2(4) show ?thesis by (intro retreat) (auto simp: must_back_def)
  next
    case False
    obtain ch w e where esc: "escaped p = (ch, w, e)" by (metis prod_cases3)
    have x: "escaped p = (if p = [] then (c, 0, True) else escaped p)" "(ch, (w, e)) = escaped p" "(w, e) = (w, e)"
      using False esc by simp_all
    consider "ch = c \<or> \<not> e \<and> ch = QUESTION" | "ch \<noteq> c" "\<not> e" "ch = STAR"
      | "ch \<noteq> c" "e \<or> ch \<noteq> QUESTION \<and> ch \<noteq> STAR" by blast
    then show ?thesis
    proof cases
      case 1
      have "P (c # taken) v (drop w p) star"
        using 2(1) [OF x] 2(2) [OF x] 1 False by (cases e) auto
      with consume [OF False esc 1] show ?thesis by blast
    next
      case star: 2
      then have p: "w = 1" "p = STAR # tl p" using escaped_star [OF False] esc by auto
      have "P [] (c # v) (tl p) (Some (tl p))"
        using 2(3) [OF x] star False p(1) by (simp add: drop_Suc)
      with new_star [of c v "tl p" taken star] star p(2) show ?thesis by simp
    next
      case 3
      then have "must_back c p" using esc by (auto simp: must_back_def)
      then show ?thesis
        by (rule retreat) (use 2(4) [OF x] 3 in auto)
    qed
  qed
qed (rule nil)

lemma set_tl_subset: "set (tl xs) \<subseteq> set xs"
  by (cases xs) auto

lemma wildcard_loop_glob:
  assumes "STAR \<notin> set v" "STAR \<notin> set taken" "\<And>q. star = Some q \<Longrightarrow> after (length taken) q = Some p"
  shows "wildcard_loop taken v p star \<longleftrightarrow> glob v p \<or> retry taken v star"
  using assms
proof (induction taken v p star rule: wildcard_induct)
  case (Nil taken p star)
  have "\<not> retry taken [] star"
  proof
    assume "retry taken [] star"
    then obtain q k where q: "star = Some q" "1 \<le> k" "k \<le> length taken" "glob (drop k (rev taken)) q"
      by (auto simp: retry_def)
    from glob_after [OF Nil(3) [OF q(1)] q(4)] q(2,3) show False by auto
  qed
  then show ?case by (simp add: only_stars_glob)
next
  case (consume taken c v p star ch w e)
  have plain: "e \<or> ch \<noteq> STAR" using consume(3,5) by auto
  have "after (length (c # taken)) q = Some (drop w p)" if "star = Some q" for q
    using after_Suc [OF consume(7) [OF that] consume(1,2) plain] by simp
  with consume show ?case
    by (simp add: wildcard_consume [OF consume(1-3)] glob_step [OF consume(1,2) plain] retry_consume)
next
  case (star taken c v p st)
  have "wildcard_loop taken (c # v) (STAR # p) st \<longleftrightarrow> glob (c # v) (STAR # p)"
    using star by (simp add: wildcard_star glob_star_retry)
  with retry_star [OF star(5)] show ?case by blast
next
  case (retreat taken c v p star)
  have no: "\<not> glob (c # v) p"
    using retreat(1) glob_step [of p _ _ _ c v] by (cases "p = []") (auto simp: must_back_def)
  show ?case
  proof (cases star)
    case None
    with no wildcard_back [OF retreat(1) [unfolded must_back_def]] show ?thesis by (simp add: retry_def)
  next
    case (Some q)
    have "STAR \<notin> set (tl (rev taken @ c # v))"
      using retreat(3,4) set_tl_subset [of "rev taken @ c # v"] by auto
    then have "wildcard_loop [] (tl (rev taken @ c # v)) q star
        \<longleftrightarrow> glob (tl (rev taken @ c # v)) q \<or> retry [] (tl (rev taken @ c # v)) star"
      using retreat(2) [OF Some] Some by simp
    with no Some retry_back [of taken c v q] wildcard_back [OF retreat(1) [unfolded must_back_def]]
    show ?thesis by simp
  qed
qed

section \<open>Code points\<close>

lemma decodeRune_STAR: "decodeRune c s = (STAR, n) \<Longrightarrow> c = CHR ''*''"
proof -
  assume "decodeRune c s = (STAR, n)"
  then have "of_char c = (42 :: int)"
    by (simp add: decodeRune_def Let_def byte_within_def split: if_splits)
  then have "of_char c = (of_char (CHR ''*'') :: int)" by simp
  then show ?thesis by (simp only: of_char_eq_iff)
qed

lemma runes_star: "STAR \<in> set (runes s) \<Longrightarrow> CHR ''*'' \<in> set s"
proof (induction s rule: runes.induct)
  case (2 c s)
  obtain r n where d: "decodeRune c s = (r, n)" by (metis prod.exhaust)
  with 2(2) have "r = STAR \<or> STAR \<in> set (runes (drop n s))" by simp
  then show ?case
  proof
    assume "r = STAR"
    with d show ?thesis using decodeRune_STAR by auto
  next
    assume "STAR \<in> set (runes (drop n s))"
    with 2(1) [OF d [symmetric]] show ?thesis by (auto dest: in_set_dropD)
  qed
qed simp

lemma runes_ascii: "list_all (\<lambda>c. (of_char c :: int) < 128) s \<Longrightarrow> runes s = map of_char s"
  by (induction s) (simp_all add: decodeRune_def)

text \<open>One accented letter is two bytes and one code point; a stray byte is the replacement character.\<close>

lemma runes_accent: "runes [CHR 0xC3, CHR 0xA9, CHR 0xE2, CHR 0x82, CHR 0xAC, CHR ''x'', CHR 0xA9] = [233, 8364, 120, 65533]"
  by code_simp

text \<open>
  C18. For every value without a literal asterisk and every pattern, the iterative matcher of
  \<^verbatim>\<open>:matches\<close> returns exactly what the recursive definition says of their code
  points: a star matches any run of characters, a question mark exactly one (one code point, however
  many bytes it takes), a backslash makes the next character literal, and every other character
  matches only itself.
\<close>

theorem wildcardMatch_glob:
  assumes "CHR ''*'' \<notin> set value"
  shows "wildcardMatch value pattern \<longleftrightarrow> glob (runes value) (runes pattern)"
proof -
  have "STAR \<notin> set (runes value)" using assms runes_star by blast
  with wildcard_loop_glob [of "runes value" "[]" None "runes pattern"] show ?thesis
    by (simp add: wildcardMatch_def retry_def)
qed

theorem wildcardMatch_glob_witness:
  "wildcardMatch (''invoic'' @ [CHR 0xC3, CHR 0xA9] @ '' 42.pdf'') ''*voic? *.pdf''
   \<and> glob (runes (''invoic'' @ [CHR 0xC3, CHR 0xA9] @ '' 42.pdf'')) (runes ''*voic? *.pdf'')"
proof -
  have m: "wildcardMatch (''invoic'' @ [CHR 0xC3, CHR 0xA9] @ '' 42.pdf'') ''*voic? *.pdf''" by code_simp
  with wildcardMatch_glob [of "''invoic'' @ [CHR 0xC3, CHR 0xA9] @ '' 42.pdf''" "''*voic? *.pdf''"]
  show ?thesis by simp
qed

text \<open>
  A value that begins with an asterisk: the matcher takes the star of the pattern as a literal and
  does not match, although a single star matches everything.
\<close>

lemma wildcardMatch_literal_star: "\<not> wildcardMatch ''*abc'' ''*'' \<and> glob (runes ''*abc'') (runes ''*'')"
  by code_simp

end
