(* ===== verification/Credentials.thy ===== *)
theory Credentials
  imports Prelude
begin

text \<open>
  \<^verbatim>\<open>application/usecase/credentials.go\<close> and \<^verbatim>\<open>postgres/auth_repository.go\<close>: which
  passwords unlock a mailbox for a protocol. The comparison of a password with an Argon2id hash is a
  parameter: \<^const>\<open>Inl\<close> when the stored hash cannot be read.
\<close>

type_synonym argon2 = "string \<Rightarrow> string \<Rightarrow> unit + bool"

record app_password =
  ap_id :: nat
  ap_hash :: string
  ap_scopes :: "string list"

record mailbox_auth =
  ma_id :: nat
  ma_password_hash :: string
  ma_email :: string
  ma_domain :: string
  ma_max_recipients :: int
  ma_app_passwords :: "app_password list"

text \<open>A row of \<^verbatim>\<open>mailboxes\<close> joined with its domain and its app passwords, the newest first.\<close>

record account_row =
  ac_auth :: mailbox_auth
  ac_active :: bool
  ac_domain_active :: bool

definition MaxAppPasswordsChecked :: nat where "MaxAppPasswordsChecked = 20"

definition FindByAddress :: "account_row list \<Rightarrow> string \<Rightarrow> mailbox_auth option" where
  "FindByAddress rows address =
     (case find (\<lambda>r. EqualFold (ma_email (ac_auth r)) address \<and> ac_active r \<and> ac_domain_active r) rows of
        None \<Rightarrow> None
      | Some r \<Rightarrow> Some ((ac_auth r)\<lparr>ma_app_passwords := take MaxAppPasswordsChecked (ma_app_passwords (ac_auth r))\<rparr>))"

definition ScopeSMTP :: string where "ScopeSMTP = ''smtp''"
definition ScopeIMAP :: string where "ScopeIMAP = ''imap''"
definition ScopePOP3 :: string where "ScopePOP3 = ''pop3''"

definition hasScope :: "string list \<Rightarrow> string \<Rightarrow> bool" where
  "hasScope scopes scope \<longleftrightarrow> list_ex (\<lambda>s. s = scope) scopes"

fun matching_app :: "argon2 \<Rightarrow> string \<Rightarrow> string \<Rightarrow> app_password list \<Rightarrow> nat option" where
  "matching_app cmp password scope [] = None"
| "matching_app cmp password scope (app # apps) =
     (if \<not> hasScope (ap_scopes app) scope then matching_app cmp password scope apps
      else case cmp password (ap_hash app) of
          Inr True \<Rightarrow> Some (ap_id app)
        | _ \<Rightarrow> matching_app cmp password scope apps)"

text \<open>
  The answer, and the app password whose use is recorded. Recording is best effort and never
  changes the answer.
\<close>

definition verifyCredential :: "argon2 \<Rightarrow> mailbox_auth \<Rightarrow> string \<Rightarrow> string \<Rightarrow> (unit + bool) \<times> nat option" where
  "verifyCredential cmp r password scope =
     (case cmp password (ma_password_hash r) of
        Inr True \<Rightarrow> (Inr True, None)
      | main \<Rightarrow>
          (case matching_app cmp password scope (ma_app_passwords r) of
             Some i \<Rightarrow> (Inr True, Some i)
           | None \<Rightarrow> (case main of Inl e \<Rightarrow> (Inl e, None) | Inr _ \<Rightarrow> (Inr False, None))))"

definition unlocks :: "argon2 \<Rightarrow> mailbox_auth \<Rightarrow> string \<Rightarrow> string \<Rightarrow> bool" where
  "unlocks cmp r password scope \<longleftrightarrow>
     cmp password (ma_password_hash r) = Inr True
     \<or> (\<exists>app \<in> set (ma_app_passwords r). scope \<in> set (ap_scopes app) \<and> cmp password (ap_hash app) = Inr True)"

lemma matching_app_None:
  "matching_app cmp password scope apps = None \<longleftrightarrow>
   (\<forall>app \<in> set apps. scope \<in> set (ap_scopes app) \<longrightarrow> cmp password (ap_hash app) \<noteq> Inr True)"
  by (induction apps) (auto simp: hasScope_def list_ex_iff split: sum.splits bool.splits)

lemma verifyCredential_unlocks: "fst (verifyCredential cmp r password scope) = Inr True \<longleftrightarrow> unlocks cmp r password scope"
proof (cases "matching_app cmp password scope (ma_app_passwords r)")
  case None
  then have "\<forall>app \<in> set (ma_app_passwords r). scope \<in> set (ap_scopes app) \<longrightarrow> cmp password (ap_hash app) \<noteq> Inr True"
    by (simp only: matching_app_None)
  with None show ?thesis by (auto simp: verifyCredential_def unlocks_def split: sum.splits bool.splits)
next
  case (Some i)
  then have "\<exists>app \<in> set (ma_app_passwords r). scope \<in> set (ap_scopes app) \<and> cmp password (ap_hash app) = Inr True"
    by (metis matching_app_None option.distinct(1))
  with Some show ?thesis by (auto simp: verifyCredential_def unlocks_def split: sum.splits bool.splits)
qed

text \<open>
  A password unlocks a mailbox for a protocol exactly when it matches the mailbox's own hash or
  the hash of one of its app passwords that holds the protocol's scope. A hash that cannot be read,
  the mailbox's own or an app password's, never lets a password in and never keeps out one that
  matches elsewhere.
\<close>

theorem verifyCredential_iff:
  "fst (verifyCredential cmp r password scope) = Inr True \<longleftrightarrow>
     cmp password (ma_password_hash r) = Inr True
     \<or> (\<exists>app \<in> set (ma_app_passwords r). scope \<in> set (ap_scopes app) \<and> cmp password (ap_hash app) = Inr True)"
  by (simp only: verifyCredential_unlocks unlocks_def)

end
