(* ===== verification/Pop3.thy ===== *)
theory Pop3
  imports Mail_Store Credentials
begin

text \<open>
  The POP3 server: \<^verbatim>\<open>presentation/pop3/conn.go\<close> and
  \<^verbatim>\<open>application/usecase/pop3_session.go\<close>. A connection is the record \<open>pop3_conn\<close>;
  \<open>serve_line\<close> is one turn of the loop of \<^verbatim>\<open>serve\<close>: it reads one line and returns the
  new connection, the new mail store and the text written to the client.

  Parameters: the accounts (as \<^verbatim>\<open>FindByAddress\<close> reads them), the Argon2id comparison, and the
  blob storage. Each line comes with whether the database and the TLS handshake succeed during
  the command.
\<close>

section \<open>Lines\<close>

text \<open>
  \<^verbatim>\<open>bufio.Scanner\<close> splits at line feeds, drops one carriage return at the end of a line, does
  not report an empty last line, and stops at the first line that does not fit in its buffer of
  64 KiB.
\<close>

definition maxTokenSize :: nat where "maxTokenSize = 65536"

definition dropCR :: "string \<Rightarrow> string" where
  "dropCR line = (if line \<noteq> [] \<and> last line = CR then butlast line else line)"

definition raw_lines :: "string \<Rightarrow> string list" where
  "raw_lines s = (let ls = Split s LF in if last ls = [] then butlast ls else ls)"

definition scan_lines :: "string \<Rightarrow> string list" where
  "scan_lines s = map dropCR (takeWhile (\<lambda>l. length l < maxTokenSize) (raw_lines s))"

definition writeDotStuffedContent :: "string \<Rightarrow> string" where
  "writeDotStuffedContent content =
     concat (map (\<lambda>line. (if HasPrefix line ''.'' then ''.'' @ line else line) @ CRLF) (scan_lines content))"

text \<open>
  \<^verbatim>\<open>bodyScanner.Scan() && linesWritten < n\<close> writes the first \<open>n\<close> lines.
\<close>

definition extractTopLines :: "string \<Rightarrow> nat \<Rightarrow> string" where
  "extractTopLines content n =
     (case (case Index content (CRLF @ CRLF) of
              Some i \<Rightarrow> Some (i + 4)
            | None \<Rightarrow> (case Index content [LF, LF] of Some i \<Rightarrow> Some (i + 2) | None \<Rightarrow> None)) of
        None \<Rightarrow> content
      | Some k \<Rightarrow> take k content @ concat (map (\<lambda>l. l @ CRLF) (take n (scan_lines (drop k content)))))"

section \<open>The connection\<close>

datatype pop3_state = stateAuth | stateTransaction | stateUpdate

record pop3_msg =
  seqNum :: nat
  rec_uid :: uid32
  rec_blob :: uuid
  rec_size :: int
  deleted :: bool

record pop3_conn =
  state :: pop3_state
  username :: string
  mailboxID :: uuid
  folderID :: uuid
  pop_messages :: "pop3_msg list"
  isTLS :: bool
  closed :: bool

record pop3_env =
  accounts :: "string \<Rightarrow> unit + mailbox_auth option"
  compare_hash :: argon2
  read_blob :: "uuid \<Rightarrow> unit + string"
  tls_provider :: bool

record pop3_line =
  line_text :: string
  db_ok :: bool
  handshake_ok :: bool

definition newConn :: pop3_conn where
  "newConn = \<lparr>state = stateAuth, username = [], mailboxID = 0, folderID = 0, pop_messages = [], isTLS = False, closed = False\<rparr>"

definition writeLine :: "string \<Rightarrow> string" where
  "writeLine msg = msg @ CRLF"

section \<open>The use case\<close>

definition pop3_Login :: "pop3_env \<Rightarrow> string \<Rightarrow> string \<Rightarrow> uuid option" where
  "pop3_Login env user password =
     (case accounts env user of
        Inl _ \<Rightarrow> None
      | Inr None \<Rightarrow> None
      | Inr (Some r) \<Rightarrow>
          if fst (verifyCredential (compare_hash env) r password ScopePOP3) = Inr True then Some (ma_id r) else None)"

definition GetInbox :: "bool \<Rightarrow> mail_db \<Rightarrow> uuid \<Rightarrow> (uuid \<times> message_row list) option" where
  "GetInbox ok db mailbox =
     (if \<not> ok then None
      else case FolderByName db mailbox ''INBOX'' of
          None \<Rightarrow> None
        | Some f \<Rightarrow> Some (fi_id f, Messages db (fi_id f) every_message))"

definition ExpungeMessages :: "bool \<Rightarrow> uuid \<Rightarrow> uid32 list \<Rightarrow> mail_db \<Rightarrow> mail_db" where
  "ExpungeMessages ok folder uids db = (if uids = [] then db else snd (Expunge ok folder uids db))"

section \<open>The commands\<close>

type_synonym pop3_result = "pop3_conn \<times> mail_db \<times> string"

definition handleCapa :: "pop3_env \<Rightarrow> pop3_conn \<Rightarrow> mail_db \<Rightarrow> pop3_result" where
  "handleCapa env c db =
     (c, db, ''+OK Capability list follows'' @ CRLF @ ''USER'' @ CRLF @ ''TOP'' @ CRLF @ ''UIDL'' @ CRLF
       @ ''RESP-CODES'' @ CRLF @ ''PIPELINING'' @ CRLF
       @ (if \<not> isTLS c \<and> tls_provider env then ''STLS'' @ CRLF else [])
       @ ''IMPLEMENTATION LambdaMail POP3'' @ CRLF @ ''.'' @ CRLF)"

definition handleStls :: "pop3_env \<Rightarrow> bool \<Rightarrow> pop3_conn \<Rightarrow> mail_db \<Rightarrow> pop3_result" where
  "handleStls env handshake c db =
     (if isTLS c then (c, db, writeLine ''-ERR TLS already active'')
      else if \<not> tls_provider env then (c, db, writeLine ''-ERR STLS not supported'')
      else (if handshake then c\<lparr>isTLS := True\<rparr> else c, db, writeLine ''+OK Begin TLS negotiation''))"

definition handleUser :: "string \<Rightarrow> pop3_conn \<Rightarrow> mail_db \<Rightarrow> pop3_result" where
  "handleUser arg c db =
     (if state c \<noteq> stateAuth then (c, db, writeLine ''-ERR Invalid command state'')
      else if arg = [] then (c, db, writeLine ''-ERR Missing username argument'')
      else (c\<lparr>username := arg\<rparr>, db, writeLine ''+OK User accepted''))"

text \<open>The messages of the maildrop are numbered from 1 in the order of their UIDs.\<close>

fun number_from :: "nat \<Rightarrow> message_row list \<Rightarrow> pop3_msg list" where
  "number_from n [] = []"
| "number_from n (m # ms) =
     \<lparr>seqNum = n, rec_uid = word_of_int (m_uid m), rec_blob = m_blob m, rec_size = m_size m, deleted = False\<rparr>
     # number_from (n + 1) ms"

definition handlePass :: "pop3_env \<Rightarrow> bool \<Rightarrow> string \<Rightarrow> pop3_conn \<Rightarrow> mail_db \<Rightarrow> pop3_result" where
  "handlePass env ok password c db =
     (if state c \<noteq> stateAuth \<or> username c = [] then (c, db, writeLine ''-ERR Invalid state or missing USER'')
      else case pop3_Login env (username c) password of
          None \<Rightarrow> (c, db, writeLine ''-ERR Invalid credentials'')
        | Some mailbox \<Rightarrow>
            (case GetInbox ok db mailbox of
               None \<Rightarrow> (c, db, writeLine ''-ERR Unable to access INBOX'')
             | Some (folder, recs) \<Rightarrow>
                 (c\<lparr>mailboxID := mailbox, folderID := folder, pop_messages := number_from 1 recs, state := stateTransaction\<rparr>,
                  db,
                  writeLine (''+OK Logged in, '' @ ItoaNat (length recs) @ '' message(s) ('' @
                    Itoa (sum_list (map m_size recs)) @ '' octets)''))))"

definition statActive :: "pop3_conn \<Rightarrow> nat \<times> int" where
  "statActive c = (let act = filter (\<lambda>m. \<not> deleted m) (pop_messages c) in (length act, sum_list (map rec_size act)))"

definition handleStat :: "pop3_conn \<Rightarrow> mail_db \<Rightarrow> pop3_result" where
  "handleStat c db =
     (if state c \<noteq> stateTransaction then (c, db, writeLine ''-ERR Invalid command state'')
      else (c, db, writeLine (''+OK '' @ ItoaNat (fst (statActive c)) @ '' '' @ Itoa (snd (statActive c)))))"

text \<open>The guard that LIST, UIDL, RETR, TOP and DELE share: a number of a message that is not deleted.\<close>

definition pick :: "pop3_conn \<Rightarrow> int option \<Rightarrow> pop3_msg option" where
  "pick c seq =
     (case seq of
        None \<Rightarrow> None
      | Some n \<Rightarrow>
          if n < 1 \<or> n > int (length (pop_messages c)) \<or> deleted (pop_messages c ! nat (n - 1)) then None
          else Some (pop_messages c ! nat (n - 1)))"

definition listing :: "(pop3_msg \<Rightarrow> string) \<Rightarrow> pop3_conn \<Rightarrow> string" where
  "listing show c =
     concat (map (\<lambda>m. ItoaNat (seqNum m) @ '' '' @ show m @ CRLF) (filter (\<lambda>m. \<not> deleted m) (pop_messages c)))
     @ ''.'' @ CRLF"

definition show_size :: "pop3_msg \<Rightarrow> string" where "show_size m = Itoa (rec_size m)"
definition show_uid :: "pop3_msg \<Rightarrow> string" where "show_uid m = Itoa (uint (rec_uid m))"

definition handleList :: "string \<Rightarrow> pop3_conn \<Rightarrow> mail_db \<Rightarrow> pop3_result" where
  "handleList arg c db =
     (if state c \<noteq> stateTransaction then (c, db, writeLine ''-ERR Invalid command state'')
      else if arg \<noteq> [] then
        (case pick c (Atoi arg) of
           None \<Rightarrow> (c, db, writeLine ''-ERR No such message'')
         | Some m \<Rightarrow> (c, db, writeLine (''+OK '' @ Itoa (the (Atoi arg)) @ '' '' @ show_size m)))
      else (c, db, ''+OK '' @ ItoaNat (fst (statActive c)) @ '' messages ('' @ Itoa (snd (statActive c)) @ '' octets)'' @ CRLF
              @ listing show_size c))"

definition handleUidl :: "string \<Rightarrow> pop3_conn \<Rightarrow> mail_db \<Rightarrow> pop3_result" where
  "handleUidl arg c db =
     (if state c \<noteq> stateTransaction then (c, db, writeLine ''-ERR Invalid command state'')
      else if arg \<noteq> [] then
        (case pick c (Atoi arg) of
           None \<Rightarrow> (c, db, writeLine ''-ERR No such message'')
         | Some m \<Rightarrow> (c, db, writeLine (''+OK '' @ Itoa (the (Atoi arg)) @ '' '' @ show_uid m)))
      else (c, db, ''+OK Unique-ID listing follows'' @ CRLF @ listing show_uid c))"

definition handleRetr :: "pop3_env \<Rightarrow> string \<Rightarrow> pop3_conn \<Rightarrow> mail_db \<Rightarrow> pop3_result" where
  "handleRetr env arg c db =
     (if state c \<noteq> stateTransaction then (c, db, writeLine ''-ERR Invalid command state'')
      else case pick c (Atoi arg) of
          None \<Rightarrow> (c, db, writeLine ''-ERR No such message'')
        | Some m \<Rightarrow>
            (case read_blob env (rec_blob m) of
               Inl _ \<Rightarrow> (c, db, writeLine ''-ERR Unable to read message content'')
             | Inr content \<Rightarrow>
                 (c, db, ''+OK '' @ ItoaNat (length content) @ '' octets'' @ CRLF
                    @ writeDotStuffedContent content @ ''.'' @ CRLF)))"

definition handleTop :: "pop3_env \<Rightarrow> string \<Rightarrow> pop3_conn \<Rightarrow> mail_db \<Rightarrow> pop3_result" where
  "handleTop env arg c db =
     (if state c \<noteq> stateTransaction then (c, db, writeLine ''-ERR Invalid command state'')
      else let parts = Fields arg
           in if length parts < 2 then (c, db, writeLine ''-ERR Missing parameters for TOP'')
              else case (pick c (Atoi (parts ! 0)), Atoi (parts ! 1)) of
                  (Some m, Some n) \<Rightarrow>
                    if n < 0 then (c, db, writeLine ''-ERR Invalid message number or line count'')
                    else (case read_blob env (rec_blob m) of
                        Inl _ \<Rightarrow> (c, db, writeLine ''-ERR Unable to read message content'')
                      | Inr content \<Rightarrow>
                          (c, db, ''+OK Top of message follows'' @ CRLF
                             @ writeDotStuffedContent (extractTopLines content (nat n)) @ ''.'' @ CRLF))
                | _ \<Rightarrow> (c, db, writeLine ''-ERR Invalid message number or line count''))"

definition handleDele :: "string \<Rightarrow> pop3_conn \<Rightarrow> mail_db \<Rightarrow> pop3_result" where
  "handleDele arg c db =
     (if state c \<noteq> stateTransaction then (c, db, writeLine ''-ERR Invalid command state'')
      else case pick c (Atoi arg) of
          None \<Rightarrow> (c, db, writeLine ''-ERR Message already deleted or no such message'')
        | Some m \<Rightarrow>
            let i = nat (the (Atoi arg) - 1)
            in (c\<lparr>pop_messages := (pop_messages c)[i := m\<lparr>deleted := True\<rparr>]\<rparr>, db,
                writeLine (''+OK Message '' @ Itoa (the (Atoi arg)) @ '' marked for deletion'')))"

definition handleRset :: "pop3_conn \<Rightarrow> mail_db \<Rightarrow> pop3_result" where
  "handleRset c db =
     (if state c \<noteq> stateTransaction then (c, db, writeLine ''-ERR Invalid command state'')
      else (c\<lparr>pop_messages := map (\<lambda>m. m\<lparr>deleted := False\<rparr>) (pop_messages c)\<rparr>, db, writeLine ''+OK Mailbox reset''))"

definition handleNoop :: "pop3_conn \<Rightarrow> mail_db \<Rightarrow> pop3_result" where
  "handleNoop c db = (c, db, writeLine ''+OK'')"

definition toDelete :: "pop3_conn \<Rightarrow> uid32 list" where
  "toDelete c = map rec_uid (filter deleted (pop_messages c))"

text \<open>The error of the expunge is dropped and the client is told OK either way.\<close>

definition handleQuit :: "bool \<Rightarrow> pop3_conn \<Rightarrow> mail_db \<Rightarrow> pop3_result" where
  "handleQuit ok c db =
     (case state c of
        stateAuth \<Rightarrow> (c, db, writeLine ''+OK POP3 server signing off'')
      | stateTransaction \<Rightarrow>
          (c\<lparr>state := stateUpdate\<rparr>,
           if toDelete c = [] then db else ExpungeMessages ok (folderID c) (toDelete c) db,
           writeLine ''+OK POP3 server signing off'')
      | stateUpdate \<Rightarrow> (c, db, []))"

section \<open>The loop\<close>

text \<open>The command word in upper case and its argument; a blank line is skipped before this.\<close>

definition parse_command :: "string \<Rightarrow> string \<times> string" where
  "parse_command line = (case Cut line CHR '' '' of (w, None) \<Rightarrow> (ToUpper w, []) | (w, Some a) \<Rightarrow> (ToUpper w, a))"

definition serve_line :: "pop3_env \<Rightarrow> pop3_conn \<times> mail_db \<Rightarrow> pop3_line \<Rightarrow> pop3_result" where
  "serve_line env s l =
     (let (c, db) = s; line = TrimRight (line_text l) CRLF; (cmd, arg) = parse_command line
      in if closed c \<or> line = [] then (c, db, [])
         else if cmd = ''CAPA'' then handleCapa env c db
         else if cmd = ''STLS'' then handleStls env (handshake_ok l) c db
         else if cmd = ''USER'' then handleUser arg c db
         else if cmd = ''PASS'' then handlePass env (db_ok l) arg c db
         else if cmd = ''STAT'' then handleStat c db
         else if cmd = ''LIST'' then handleList arg c db
         else if cmd = ''UIDL'' then handleUidl arg c db
         else if cmd = ''RETR'' then handleRetr env arg c db
         else if cmd = ''TOP'' then handleTop env arg c db
         else if cmd = ''DELE'' then handleDele arg c db
         else if cmd = ''RSET'' then handleRset c db
         else if cmd = ''NOOP'' then handleNoop c db
         else if cmd = ''QUIT'' then (case handleQuit (db_ok l) c db of (c', db', out) \<Rightarrow> (c'\<lparr>closed := True\<rparr>, db', out))
         else (c, db, writeLine ''-ERR Unknown or unsupported command''))"

definition pop3_step :: "pop3_env \<Rightarrow> pop3_conn \<times> mail_db \<Rightarrow> pop3_line \<Rightarrow> pop3_conn \<times> mail_db" where
  "pop3_step env s l = (case serve_line env s l of (c, db, out) \<Rightarrow> (c, db))"

end
