(* ===== verification/Pop3_Properties.thy ===== *)
theory Pop3_Properties
  imports Pop3 Store_Properties
begin

text \<open>
  Properties of the POP3 server: nothing is reachable without a login, the mail store changes only
  at QUIT and then by exactly the marked messages, and what RETR sends is the message.
\<close>

section \<open>What a command changes\<close>

lemmas pop3_handler_defs = handleCapa_def handleStls_def handleUser_def handleStat_def handleList_def
  handleUidl_def handleRetr_def handleTop_def handleDele_def handleRset_def handleNoop_def

definition mild :: "pop3_conn \<Rightarrow> mail_db \<Rightarrow> pop3_result \<Rightarrow> bool" where
  "mild c db r \<longleftrightarrow> (\<exists>u t ms out. r = (c\<lparr>username := u, isTLS := t, pop_messages := ms\<rparr>, db, out))"

lemma mildI:
  "mild c db (c, db, out)" "mild c db (c\<lparr>isTLS := t\<rparr>, db, out)" "mild c db (c\<lparr>username := u\<rparr>, db, out)"
  "mild c db (c\<lparr>pop_messages := ms\<rparr>, db, out)"
proof -
  have "c = c\<lparr>username := username c, isTLS := isTLS c, pop_messages := pop_messages c\<rparr>"
    "c\<lparr>isTLS := t\<rparr> = c\<lparr>username := username c, isTLS := t, pop_messages := pop_messages c\<rparr>"
    "c\<lparr>username := u\<rparr> = c\<lparr>username := u, isTLS := isTLS c, pop_messages := pop_messages c\<rparr>"
    "c\<lparr>pop_messages := ms\<rparr> = c\<lparr>username := username c, isTLS := isTLS c, pop_messages := ms\<rparr>"
    by simp_all
  then show "mild c db (c, db, out)" "mild c db (c\<lparr>isTLS := t\<rparr>, db, out)" "mild c db (c\<lparr>username := u\<rparr>, db, out)"
    "mild c db (c\<lparr>pop_messages := ms\<rparr>, db, out)"
    unfolding mild_def by metis+
qed

lemma mild_handlers:
  "mild c db (handleCapa env c db)" "mild c db (handleStls env hs c db)" "mild c db (handleUser arg c db)"
  "mild c db (handleStat c db)" "mild c db (handleList arg c db)" "mild c db (handleUidl arg c db)"
  "mild c db (handleRetr env arg c db)" "mild c db (handleTop env arg c db)" "mild c db (handleDele arg c db)"
  "mild c db (handleRset c db)" "mild c db (handleNoop c db)"
  by (simp_all add: pop3_handler_defs mildI Let_def split: option.split sum.split prod.split)

lemma mild_if: "(b \<Longrightarrow> mild c db x) \<Longrightarrow> (\<not> b \<Longrightarrow> mild c db y) \<Longrightarrow> mild c db (if b then x else y)"
  by simp

definition pop3_command :: "pop3_line \<Rightarrow> string \<times> string" where
  "pop3_command l = parse_command (TrimRight (line_text l) CRLF)"

lemma mild_serve_line:
  assumes "closed c \<or> TrimRight (line_text l) CRLF = [] \<or> fst (pop3_command l) \<noteq> ''QUIT'' \<and> fst (pop3_command l) \<noteq> ''PASS''"
  shows "mild c db (serve_line env (c, db) l)"
proof -
  obtain cmd arg where cmd: "parse_command (TrimRight (line_text l) CRLF) = (cmd, arg)" by fastforce
  have ok: "closed c \<or> TrimRight (line_text l) CRLF = [] \<or> cmd \<noteq> ''QUIT'' \<and> cmd \<noteq> ''PASS''"
    using assms cmd by (simp add: pop3_command_def)
  show ?thesis
    unfolding serve_line_def Let_def prod.case cmd
    by (intro mild_if mildI mild_handlers) (use ok in simp_all)
qed

text \<open>The three kinds of step: QUIT, PASS, and the commands that keep state, mailbox, folder and store.\<close>

lemma pop3_step_cases [consumes 1, case_names quit pass_word other]:
  assumes "pop3_step env (c, db) l = (c', db')"
  obtains "fst (pop3_command l) = ''QUIT''" "\<not> closed c"
      "c' = (fst (handleQuit (db_ok l) c db))\<lparr>closed := True\<rparr>" "db' = fst (snd (handleQuit (db_ok l) c db))"
    | pw out where "pop3_command l = (''PASS'', pw)" "\<not> closed c" "handlePass env (db_ok l) pw c db = (c', db', out)"
    | u t ms where "db' = db" "c' = c\<lparr>username := u, isTLS := t, pop_messages := ms\<rparr>"
proof -
  obtain cmd arg where cmd: "pop3_command l = (cmd, arg)" by fastforce
  show ?thesis
  proof (cases "closed c \<or> TrimRight (line_text l) CRLF = [] \<or> cmd \<noteq> ''QUIT'' \<and> cmd \<noteq> ''PASS''")
    case True
    then have "mild c db (serve_line env (c, db) l)" using mild_serve_line [of c l db env] cmd by simp
    with assms that(3) show ?thesis by (auto simp: mild_def pop3_step_def)
  next
    case False
    then consider "cmd = ''QUIT''" | "cmd = ''PASS''" by blast
    then show ?thesis
    proof cases
      case 1
      with False assms cmd that(1) show ?thesis
        by (auto simp: pop3_step_def serve_line_def pop3_command_def Let_def split: prod.splits)
    next
      case 2
      with False assms cmd that(2) [of arg] show ?thesis
        by (auto simp: pop3_step_def serve_line_def pop3_command_def Let_def split: prod.splits)
    qed
  qed
qed

section \<open>Logging in\<close>

definition pop3_owner :: "pop3_conn \<times> mail_db \<Rightarrow> uuid option" where
  "pop3_owner s = (if state (fst s) = stateAuth then None else Some (mailboxID (fst s)))"

definition pop3_accepted :: "pop3_env \<Rightarrow> pop3_conn \<times> mail_db \<Rightarrow> pop3_line \<Rightarrow> uuid \<Rightarrow> bool" where
  "pop3_accepted env s l a \<longleftrightarrow>
     (\<exists>pw r. pop3_command l = (''PASS'', pw) \<and> accounts env (username (fst s)) = Inr (Some r) \<and> ma_id r = a
        \<and> unlocks (compare_hash env) r pw ScopePOP3)"

lemma pop3_Login_Some:
  "pop3_Login env user pw = Some a \<Longrightarrow>
   \<exists>r. accounts env user = Inr (Some r) \<and> ma_id r = a \<and> unlocks (compare_hash env) r pw ScopePOP3"
  using verifyCredential_unlocks by (auto simp: pop3_Login_def split: sum.splits option.splits if_splits)

lemma handlePass_cases:
  assumes "handlePass env ok pw c db = (c', db', out)"
  shows "db' = db \<and> closed c' = closed c \<and> (c' = c \<or> state c = stateAuth \<and> state c' = stateTransaction \<and>
     pop3_Login env (username c) pw = Some (mailboxID c')
     \<and> (\<exists>recs. GetInbox ok db (mailboxID c') = Some (folderID c', recs) \<and> pop_messages c' = number_from 1 recs))"
  using assms by (auto simp: handlePass_def split: if_splits option.splits prod.splits)

interpretation pop3: login_session "pop3_step env" pop3_owner snd "pop3_accepted env" for env
proof
  fix s l a assume own: "pop3_owner s = Some a"
  obtain c db where s: "s = (c, db)" by fastforce
  obtain c' db' where st: "pop3_step env (c, db) l = (c', db')" by fastforce
  from st show "pop3_owner (pop3_step env s l) = Some a"
  proof (cases rule: pop3_step_cases)
    case quit
    with own s st show ?thesis by (auto simp: pop3_owner_def handleQuit_def split: pop3_state.splits if_splits)
  next
    case (pass_word pw out)
    with own s st handlePass_cases [OF pass_word(3)] show ?thesis by (auto simp: pop3_owner_def split: if_splits)
  qed (use own s st in \<open>auto simp: pop3_owner_def\<close>)
next
  fix s l a assume own: "pop3_owner s = None" and got: "pop3_owner (pop3_step env s l) = Some a"
  obtain c db where s: "s = (c, db)" by fastforce
  obtain c' db' where st: "pop3_step env (c, db) l = (c', db')" by fastforce
  from st show "pop3_accepted env s l a"
  proof (cases rule: pop3_step_cases)
    case quit
    with own got s st show ?thesis by (auto simp: pop3_owner_def handleQuit_def split: pop3_state.splits if_splits)
  next
    case (pass_word pw out)
    with own got s st handlePass_cases [OF pass_word(3)] show ?thesis
      by (auto simp: pop3_owner_def pop3_accepted_def dest: pop3_Login_Some split: if_splits)
  qed (use own got s st in \<open>auto simp: pop3_owner_def split: if_splits\<close>)
next
  fix s l assume own: "pop3_owner s = None"
  obtain c db where s: "s = (c, db)" by fastforce
  obtain c' db' where st: "pop3_step env (c, db) l = (c', db')" by fastforce
  from st show "snd (pop3_step env s l) = snd s"
  proof (cases rule: pop3_step_cases)
    case quit
    with own s st show ?thesis by (auto simp: pop3_owner_def handleQuit_def split: pop3_state.splits if_splits)
  next
    case (pass_word pw out)
    with s st handlePass_cases [OF pass_word(3)] show ?thesis by auto
  qed (use s st in auto)
qed

text \<open>
  C19. No POP3 session reaches a mailbox without its credentials: whatever lines a client sends on a
  new connection, if the session ends up logged in as a mailbox then one of the lines was a PASS whose
  password unlocks that mailbox for POP3 under the user name given before it, and a session that is
  not logged in has left the mail store as it was.
\<close>

theorem pop3_needs_credentials:
  "case foldl (pop3_step env) (newConn, db) ls of (c, db') \<Rightarrow>
     if state c = stateAuth then db' = db
     else \<exists>before l after pw r.
       ls = before @ l # after \<and> pop3_command l = (''PASS'', pw)
       \<and> accounts env (username (fst (foldl (pop3_step env) (newConn, db) before))) = Inr (Some r)
       \<and> ma_id r = mailboxID c
       \<and> fst (verifyCredential (compare_hash env) r pw ScopePOP3) = Inr True"
proof -
  obtain c db' where s: "foldl (pop3_step env) (newConn, db) ls = (c, db')" by fastforce
  have start: "pop3_owner (newConn, db) = None" by (simp add: pop3_owner_def newConn_def)
  show ?thesis
  proof (cases "state c = stateAuth")
    case True
    with s pop3.run_without_login [where s = "(newConn, db)" and cs = ls and env = env] show ?thesis
      by (simp add: pop3_owner_def)
  next
    case False
    with s have "pop3_owner (foldl (pop3_step env) (newConn, db) ls) = Some (mailboxID c)" by (simp add: pop3_owner_def)
    from pop3.run_owner_needs_login [OF start this] False s show ?thesis
      by (auto simp: pop3_accepted_def verifyCredential_unlocks)
  qed
qed

section \<open>Deleting\<close>

lemma pop3_step_store:
  assumes "pop3_step env (c, db) l = (c', db')" "db' \<noteq> db"
  shows "fst (pop3_command l) = ''QUIT'' \<and> \<not> closed c \<and> state c = stateTransaction \<and> closed c'
    \<and> db' = snd (Expunge (db_ok l) (folderID c) (toDelete c) db)"
  using assms(1)
proof (cases rule: pop3_step_cases)
  case quit
  with assms show ?thesis by (auto simp: handleQuit_def ExpungeMessages_def split: pop3_state.splits if_splits)
next
  case (pass_word pw out)
  with assms handlePass_cases [OF pass_word(3)] show ?thesis by simp
qed (use assms in simp)

text \<open>
  C20. A POP3 session changes the mail store only at the end (RFC 1939, the UPDATE state): as long as
  the client has not sent QUIT the store is what it was, whatever else it sent; so a connection that
  breaks deletes nothing.
\<close>

theorem pop3_no_quit_no_change:
  assumes "\<forall>l \<in> set ls. fst (pop3_command l) \<noteq> ''QUIT''"
  shows "snd (foldl (pop3_step env) (c, db) ls) = db"
  using assms
proof (induction ls arbitrary: c)
  case (Cons l ls)
  obtain c1 db1 where st: "pop3_step env (c, db) l = (c1, db1)" by fastforce
  with pop3_step_store [OF st] Cons.prems have "db1 = db" by auto
  with st Cons show ?case by simp
qed simp

definition demo_env :: pop3_env where
  "demo_env = \<lparr>accounts = (\<lambda>a. if a = ''u@y'' then Inr (Some \<lparr>ma_id = 0, ma_password_hash = ''pw'', ma_email = ''u@y'',
       ma_domain = ''y'', ma_max_recipients = 10, ma_app_passwords = []\<rparr>) else Inr None),
     compare_hash = (\<lambda>p h. Inr (p = h)), read_blob = (\<lambda>_. Inr ''Hello''), tls_provider = False\<rparr>"

definition said :: "string \<Rightarrow> pop3_line" where
  "said s = \<lparr>line_text = s @ CRLF, db_ok = True, handshake_ok = True\<rparr>"

definition demo_conn :: pop3_conn where
  "demo_conn = newConn\<lparr>state := stateTransaction, folderID := 1, pop_messages :=
     [\<lparr>seqNum = 1, rec_uid = 1, rec_blob = 0, rec_size = 5, deleted = False\<rparr>,
      \<lparr>seqNum = 2, rec_uid = 2, rec_blob = 1, rec_size = 5, deleted = True\<rparr>]\<rparr>"

theorem pop3_no_quit_no_change_witness:
  "toDelete demo_conn = [2] \<and> snd (foldl (pop3_step demo_env) (demo_conn, demo_db) [said ''DELE 1'', said ''noop'']) = demo_db"
proof -
  have "\<forall>l \<in> set [said ''DELE 1'', said ''noop'']. fst (pop3_command l) \<noteq> ''QUIT''" by code_simp
  from pop3_no_quit_no_change [OF this, of demo_env demo_conn demo_db] show ?thesis
    by (simp add: demo_conn_def toDelete_def)
qed

text \<open>
  C21. QUIT removes exactly the messages the client marked: when the expunge succeeds, a message of the
  maildrop whose UID is marked is gone afterwards and every other message, of this folder and of every
  other, is as it was; the connection is closed either way.
\<close>

theorem pop3_quit_removes_marked:
  assumes inv: "store_inv db" and st: "state c = stateTransaction" "\<not> closed c"
    and l: "fst (pop3_command l) = ''QUIT''" "db_ok l"
    and res: "pop3_step env (c, db) l = (c', db')"
  shows "closed c' \<and> state c' = stateUpdate
    \<and> (\<forall>k v. loadMessage db' k v = (if k = folderID c \<and> v \<in> set (toDelete c) then None else loadMessage db k v))"
  using res
proof (cases rule: pop3_step_cases)
  case quit
  then have c': "closed c'" "state c' = stateUpdate" using st by (simp_all add: handleQuit_def)
  have db': "db' = (if toDelete c = [] then db else snd (Expunge True (folderID c) (toDelete c) db))"
    using quit st l by (simp add: handleQuit_def ExpungeMessages_def)
  show ?thesis
  proof (cases "toDelete c = []")
    case False
    obtain n db1 where loop: "expunge_loop (folderID c) (toDelete c) 0 db = (n, db1)" by fastforce
    with False db' have "db' = db1" by (simp add: Expunge_def)
    with expunge_loop_exact(1) [OF inv loop] c' show ?thesis by simp
  qed (use db' c' in simp)
next
  case (pass_word pw out)
  with l show ?thesis by simp
next
  case (other u t ms)
  have "fst (parse_command (TrimRight (line_text l) CRLF)) = ''QUIT''" using l by (simp add: pop3_command_def)
  moreover from this have "TrimRight (line_text l) CRLF \<noteq> []" by (auto simp: parse_command_def Cut_def ToUpper_def)
  ultimately have "closed c'"
    using res st by (auto simp: pop3_step_def serve_line_def Let_def split: prod.splits)
  with other st show ?thesis by simp
qed

theorem pop3_quit_removes_marked_witness:
  "\<exists>c' db'. pop3_step demo_env (demo_conn, demo_db) (said ''quit'') = (c', db')
     \<and> loadMessage db' 1 2 = None \<and> loadMessage db' 1 1 = loadMessage demo_db 1 1"
proof -
  obtain c' db' where r: "pop3_step demo_env (demo_conn, demo_db) (said ''quit'') = (c', db')" by fastforce
  have c: "state demo_conn = stateTransaction" "\<not> closed demo_conn" "folderID demo_conn = 1" "toDelete demo_conn = [2]"
    by (simp_all add: demo_conn_def newConn_def toDelete_def)
  have l: "fst (pop3_command (said ''quit'')) = ''QUIT''" "db_ok (said ''quit'')" by code_simp+
  from pop3_quit_removes_marked [OF demo_inv c(1,2) l r] c(3,4)
  have "loadMessage db' 1 2 = None" "loadMessage db' 1 1 = loadMessage demo_db 1 1" by simp_all
  with r show ?thesis by blast
qed

section \<open>What RETR sends\<close>

text \<open>
  A client reads lines ended by CRLF up to a line with a single dot, and drops the first dot of a
  line that begins with one.
\<close>

fun unstuff :: "string list \<Rightarrow> string list option" where
  "unstuff [] = None"
| "unstuff (l # ls) =
     (if l = ''.'' then Some []
      else case unstuff ls of None \<Rightarrow> None | Some r \<Rightarrow> Some ((if HasPrefix l ''.'' then tl l else l) # r))"

definition received_lines :: "string \<Rightarrow> string list" where
  "received_lines s = map dropCR (Split s LF)"

definition stuffed :: "string \<Rightarrow> string" where
  "stuffed line = (if HasPrefix line ''.'' then ''.'' @ line else line)"

lemma dropCR_snoc [simp]: "dropCR (l @ [CR]) = l"
  by (simp add: dropCR_def)

lemma received_stuffed:
  assumes "\<forall>l \<in> set ls. LF \<notin> set l"
  shows "received_lines (concat (map (\<lambda>l. stuffed l @ CRLF) ls) @ t) = map stuffed ls @ received_lines t"
  using assms
proof (induction ls)
  case (Cons l ls)
  have "LF \<notin> set (stuffed l @ [CR])" using Cons.prems by (auto simp: stuffed_def)
  from Split_at [OF this] Cons show ?case by (simp add: received_lines_def)
qed (simp add: received_lines_def)

lemma unstuff_stuffed: "unstuff (map stuffed ls @ ''.'' # rest) = Some ls"
  by (induction ls) (auto simp: stuffed_def HasPrefix_single)

lemma scan_lines_no_LF: "l \<in> set (scan_lines s) \<Longrightarrow> LF \<notin> set l"
proof -
  assume "l \<in> set (scan_lines s)"
  then obtain r where r: "r \<in> set (raw_lines s)" "l = dropCR r"
    by (auto simp: scan_lines_def dest: set_takeWhileD)
  then have "r \<in> set (Split s LF)" by (auto simp: raw_lines_def Let_def dest: in_set_butlastD split: if_splits)
  with r Split_no_sep [of r s LF] show ?thesis by (auto simp: dropCR_def dest: in_set_butlastD split: if_splits)
qed

lemma received_content:
  "unstuff (received_lines (writeDotStuffedContent content @ ''.'' @ CRLF @ rest)) = Some (scan_lines content)"
proof -
  have w: "writeDotStuffedContent content = concat (map (\<lambda>l. stuffed l @ CRLF) (scan_lines content))"
    by (simp add: writeDotStuffedContent_def stuffed_def)
  have "received_lines (''.'' @ CRLF @ rest) = ''.'' # received_lines rest"
    using Split_at [of LF "''.'' @ [CR]" rest] by (simp add: received_lines_def dropCR_def)
  with received_stuffed [of "scan_lines content" "''.'' @ CRLF @ rest"] scan_lines_no_LF
  show ?thesis by (simp only: w) (simp add: unstuff_stuffed)
qed

text \<open>
  C22. RETR is transparent: for a message none of whose lines reaches 64 KiB, the answer is a status
  line with the size followed by text from which a client that follows RFC 1939 (read up to the line
  with a single dot, undo the dot-stuffing) gets exactly the lines of the stored message, whatever
  bytes they hold and whatever the server sends next.
\<close>

theorem pop3_retr_transparent:
  assumes "state c = stateTransaction" "pick c (Atoi arg) = Some m" "read_blob env (rec_blob m) = Inr content"
    and short: "\<forall>l \<in> set (raw_lines content). length l < maxTokenSize"
    and res: "handleRetr env arg c db = (c', db', out)"
  shows "\<exists>body. out = ''+OK '' @ ItoaNat (length content) @ '' octets'' @ CRLF @ body
    \<and> (\<forall>rest. unstuff (received_lines (body @ rest)) = Some (map dropCR (raw_lines content)))"
proof -
  have "scan_lines content = map dropCR (raw_lines content)"
    unfolding scan_lines_def using short by (simp add: takeWhile_eq_all_conv [THEN iffD2])
  with received_content [of content] assms show ?thesis
    by (intro exI [of _ "writeDotStuffedContent content @ ''.'' @ CRLF"]) (auto simp: handleRetr_def)
qed

theorem pop3_retr_transparent_witness:
  "\<exists>out body. handleRetr demo_env ''1'' demo_conn demo_db = (demo_conn, demo_db, out)
     \<and> out = ''+OK '' @ ItoaNat 5 @ '' octets'' @ CRLF @ body
     \<and> unstuff (received_lines (body @ [])) = Some [''Hello'']"
proof -
  define m where "m = hd (pop_messages demo_conn)"
  have a: "Atoi ''1'' = Some 1" by (simp add: Atoi_def HasPrefix_def digit_value_def)
  have p: "pick demo_conn (Atoi ''1'') = Some m"
    by (simp add: a pick_def demo_conn_def m_def)
  have b: "read_blob demo_env (rec_blob m) = Inr ''Hello''" by (simp add: demo_env_def)
  have lines: "raw_lines ''Hello'' = [''Hello'']" by (simp add: raw_lines_def)
  then have s: "\<forall>l \<in> set (raw_lines ''Hello''). length l < maxTokenSize" by (simp add: maxTokenSize_def)
  have t: "state demo_conn = stateTransaction" by (simp add: demo_conn_def)
  obtain out where r: "handleRetr demo_env ''1'' demo_conn demo_db = (demo_conn, demo_db, out)"
    using p b t by (simp add: handleRetr_def)
  from pop3_retr_transparent [OF t p b s r] obtain body where
    "out = ''+OK '' @ ItoaNat (length ''Hello'') @ '' octets'' @ CRLF @ body"
    "\<forall>rest. unstuff (received_lines (body @ rest)) = Some (map dropCR (raw_lines ''Hello''))" by blast
  moreover have "map dropCR (raw_lines ''Hello'') = [''Hello'']" by (simp add: lines dropCR_def)
  moreover have "length ''Hello'' = 5" by simp
  ultimately show ?thesis using r by metis
qed

text \<open>A line of 64 KiB or more: the scanner stops, so this line and everything after it is not sent.\<close>

lemma scan_lines_long_line:
  assumes "LF \<notin> set l" "maxTokenSize \<le> length l"
  shows "scan_lines (l @ LF # s) = []"
proof -
  obtain x xs where "Split s LF = x # xs" by (cases "Split s LF") auto
  then show ?thesis using Split_at [OF assms(1), of s] assms(2) by (simp add: scan_lines_def raw_lines_def Let_def)
qed

end
