(* ===== verification/Sieve_Validator.thy ===== *)
theory Sieve_Validator
  imports Prelude
begin

text \<open>
  \<^verbatim>\<open>internal/domain/entity/sieve_validator.go\<close>: the structural check ManageSieve makes before
  it stores a script, and that it accepts exactly the scripts whose braces and brackets nest
  once strings and comments are taken out.
\<close>

section \<open>The validator\<close>

text \<open>An unmatched brace or bracket reported at the end carries its balance.\<close>

datatype validator_error =
    ErrEmptyScript
  | ErrUnmatchedBrace "int option"
  | ErrUnmatchedBracket "int option"
  | ErrUnterminatedQuote
  | ErrUnterminatedComment

text \<open>At most one of \<^verbatim>\<open>inMultiComment\<close>, \<^verbatim>\<open>inString\<close>, \<^verbatim>\<open>inSingleQuote\<close> is set; \<open>InCode\<close> is none of them.\<close>

datatype scan_mode = InCode | InMultiComment | InString | InSingleQuote

fun validate_loop :: "scan_mode \<Rightarrow> int \<Rightarrow> int \<Rightarrow> string \<Rightarrow> validator_error option" where
  "validate_loop InMultiComment b k [] = Some ErrUnterminatedComment"
| "validate_loop InString b k [] = Some ErrUnterminatedQuote"
| "validate_loop InCode b k [] =
     (if b \<noteq> 0 then Some (ErrUnmatchedBrace (Some b))
      else if k \<noteq> 0 then Some (ErrUnmatchedBracket (Some k)) else None)"
| "validate_loop InSingleQuote b k [] =
     (if b \<noteq> 0 then Some (ErrUnmatchedBrace (Some b))
      else if k \<noteq> 0 then Some (ErrUnmatchedBracket (Some k)) else None)"
| "validate_loop InMultiComment b k (r # s) =
     (if r = CHR ''*'' \<and> HasPrefix s ''/'' then validate_loop InCode b k (tl s)
      else validate_loop InMultiComment b k s)"
| "validate_loop InString b k (r # s) =
     (if r = BACKSLASH then validate_loop InString b k (tl s)
      else if r = DQUOTE then validate_loop InCode b k s
      else validate_loop InString b k s)"
| "validate_loop InSingleQuote b k (r # s) =
     (if r = LF then validate_loop InCode b k s else validate_loop InSingleQuote b k s)"
| "validate_loop InCode b k (r # s) =
     (if r = CHR ''/'' \<and> HasPrefix s ''*'' then validate_loop InMultiComment b k (tl s)
      else if r = CHR ''#'' then validate_loop InSingleQuote b k s
      else if r = DQUOTE then validate_loop InString b k s
      else if r = CHR ''{'' then validate_loop InCode (b + 1) k s
      else if r = CHR ''}'' then if b - 1 < 0 then Some (ErrUnmatchedBrace None) else validate_loop InCode (b - 1) k s
      else if r = CHR ''['' then validate_loop InCode b (k + 1) s
      else if r = CHR '']'' then if k - 1 < 0 then Some (ErrUnmatchedBracket None) else validate_loop InCode b (k - 1) s
      else validate_loop InCode b k s)"

definition ValidateSieveScript :: "string \<Rightarrow> validator_error option" where
  "ValidateSieveScript script =
     (if TrimSpace script = [] then Some ErrEmptyScript else validate_loop InCode 0 0 script)"

definition validator_text :: "validator_error \<Rightarrow> string" where
  "validator_text e =
     (let balance = (\<lambda>b. case b of None \<Rightarrow> [] | Some n \<Rightarrow> '': balance is '' @ Itoa n)
      in case e of
           ErrEmptyScript \<Rightarrow> ''sieve script cannot be empty''
         | ErrUnmatchedBrace b \<Rightarrow> ''unmatched curly brace in sieve script'' @ balance b
         | ErrUnmatchedBracket b \<Rightarrow> ''unmatched square bracket in sieve script'' @ balance b
         | ErrUnterminatedQuote \<Rightarrow> ''unterminated string literal in sieve script''
         | ErrUnterminatedComment \<Rightarrow> ''unterminated comment block in sieve script'')"

section \<open>What it means\<close>

text \<open>The characters of a script outside strings and comments, and how the script ends.\<close>

fun code_of :: "scan_mode \<Rightarrow> string \<Rightarrow> string \<times> scan_mode" where
  "code_of m [] = ([], m)"
| "code_of InMultiComment (r # s) =
     (if r = CHR ''*'' \<and> HasPrefix s ''/'' then code_of InCode (tl s) else code_of InMultiComment s)"
| "code_of InString (r # s) =
     (if r = BACKSLASH then code_of InString (tl s) else if r = DQUOTE then code_of InCode s else code_of InString s)"
| "code_of InSingleQuote (r # s) = (if r = LF then code_of InCode s else code_of InSingleQuote s)"
| "code_of InCode (r # s) =
     (if r = CHR ''/'' \<and> HasPrefix s ''*'' then code_of InMultiComment (tl s)
      else if r = CHR ''#'' then code_of InSingleQuote s
      else if r = DQUOTE then code_of InString s
      else let (c, m) = code_of InCode s in (r # c, m))"

definition nested :: "char \<Rightarrow> char \<Rightarrow> int \<Rightarrow> string \<Rightarrow> bool" where
  "nested opening closing d t \<longleftrightarrow>
     (\<forall>n \<le> length t. 0 \<le> d + int (count_list (take n t) opening) - int (count_list (take n t) closing))
     \<and> d + int (count_list t opening) - int (count_list t closing) = 0"

lemma all_le_Suc: "(\<forall>n \<le> Suc m. P n) \<longleftrightarrow> P 0 \<and> (\<forall>n \<le> m. P (Suc n))"
  by (metis Suc_le_mono not0_implies_Suc zero_le)

lemma nested_Nil: "nested opening closing d [] \<longleftrightarrow> d = 0"
  by (auto simp: nested_def)

lemma nested_Cons:
  assumes "opening \<noteq> closing" "0 \<le> d"
  shows "nested opening closing d (c # t) \<longleftrightarrow>
     (if c = opening then nested opening closing (d + 1) t
      else if c = closing then 0 < d \<and> nested opening closing (d - 1) t
      else nested opening closing d t)"
proof -
  have head: "nested opening closing d' t \<Longrightarrow> 0 \<le> d'" for d'
    unfolding nested_def by (metis add.right_neutral count_list.simps(1) diff_zero le0 of_nat_0 take0)
  show ?thesis
    using assms head [of "d - 1"]
    by (auto simp: nested_def all_le_Suc algebra_simps)
qed

lemma validate_loop_code:
  assumes "0 \<le> b" "0 \<le> k"
  shows "validate_loop m b k s = None \<longleftrightarrow>
    (case code_of m s of (code, end_mode) \<Rightarrow> end_mode \<notin> {InMultiComment, InString}
       \<and> nested CHR ''{'' CHR ''}'' b code \<and> nested CHR ''['' CHR '']'' k code)"
  using assms
  by (induction m b k s rule: validate_loop.induct) (auto simp: nested_Nil nested_Cons split: prod.splits)

text \<open>
  The validator accepts a script exactly when it is not blank, ends outside a string and outside
  a block comment, and in what is left after removing strings and comments no closing brace or
  bracket comes before its opening one and each kind is balanced at the end.
\<close>

lemma ValidateSieveScript_iff:
  "ValidateSieveScript script = None \<longleftrightarrow> TrimSpace script \<noteq> [] \<and>
     (case code_of InCode script of (code, end_mode) \<Rightarrow> end_mode \<notin> {InMultiComment, InString}
        \<and> nested CHR ''{'' CHR ''}'' 0 code \<and> nested CHR ''['' CHR '']'' 0 code)"
  by (simp add: ValidateSieveScript_def validate_loop_code)

end
