(* ===== verification/Manage_Sieve.thy ===== *)
theory Manage_Sieve
  imports Sieve_Validator Credentials
begin

text \<open>
  The ManageSieve server: the script table of \<^verbatim>\<open>postgres/sieve_repository.go\<close>, the use case
  \<^verbatim>\<open>managesieve_session.go\<close>, and the connection \<^verbatim>\<open>presentation/managesieve/conn.go\<close>.

  A command may carry a literal, whose bytes follow on the same connection, so the state of the
  connection holds the input that the client has sent and the server has not read. \<open>ms_serve\<close>
  is one turn of the loop of \<^verbatim>\<open>serve\<close>. Each turn comes with what the outside does meanwhile:
  whether reads and writes of the database succeed, and what the client sends over TLS when
  it starts TLS.
\<close>

section \<open>The script table\<close>

record script_row =
  sc_mailbox :: nat
  sc_name :: string
  sc_script :: string
  sc_active :: bool

type_synonym scripts = "script_row list"

definition is_script :: "nat \<Rightarrow> string \<Rightarrow> script_row \<Rightarrow> bool" where
  "is_script mb name r \<longleftrightarrow> sc_mailbox r = mb \<and> sc_name r = name"

definition repo_GetScript :: "scripts \<Rightarrow> nat \<Rightarrow> string \<Rightarrow> script_row option" where
  "repo_GetScript rows mb name = find (is_script mb name) rows"

definition repo_PutScript :: "scripts \<Rightarrow> nat \<Rightarrow> string \<Rightarrow> string \<Rightarrow> scripts" where
  "repo_PutScript rows mb name script =
     (if list_ex (is_script mb name) rows
      then update_where (is_script mb name) (\<lambda>r. r\<lparr>sc_script := script\<rparr>) rows
      else rows @ [\<lparr>sc_mailbox = mb, sc_name = name, sc_script = script, sc_active = False\<rparr>])"

definition repo_ListScripts :: "scripts \<Rightarrow> nat \<Rightarrow> script_row list" where
  "repo_ListScripts rows mb = sort_key sc_name (filter (\<lambda>r. sc_mailbox r = mb) rows)"

text \<open>One transaction: when no row has the name the deactivation is rolled back.\<close>

definition repo_SetActiveScript :: "scripts \<Rightarrow> nat \<Rightarrow> string \<Rightarrow> scripts option" where
  "repo_SetActiveScript rows mb name =
     (let off = update_where (\<lambda>r. sc_mailbox r = mb) (\<lambda>r. r\<lparr>sc_active := False\<rparr>) rows
      in if name = [] then Some off
         else if \<not> list_ex (is_script mb name) off then None
         else Some (update_where (is_script mb name) (\<lambda>r. r\<lparr>sc_active := True\<rparr>) off))"

definition repo_DeleteScript :: "scripts \<Rightarrow> nat \<Rightarrow> string \<Rightarrow> scripts" where
  "repo_DeleteScript rows mb name = filter (\<lambda>r. \<not> (is_script mb name r \<and> \<not> sc_active r)) rows"

text \<open>\<^const>\<open>None\<close>: the new name violates the uniqueness of names.\<close>

definition repo_RenameScript :: "scripts \<Rightarrow> nat \<Rightarrow> string \<Rightarrow> string \<Rightarrow> scripts option" where
  "repo_RenameScript rows mb oldName newName =
     (if oldName \<noteq> newName \<and> list_ex (is_script mb oldName) rows \<and> list_ex (is_script mb newName) rows then None
      else Some (update_where (is_script mb oldName) (\<lambda>r. r\<lparr>sc_name := newName\<rparr>) rows))"

definition ActiveScriptFor :: "scripts \<Rightarrow> nat \<Rightarrow> string" where
  "ActiveScriptFor rows mb =
     (case find (\<lambda>r. sc_mailbox r = mb \<and> sc_active r) rows of None \<Rightarrow> [] | Some r \<Rightarrow> sc_script r)"

section \<open>The use case\<close>

datatype script_error =
    ErrScriptNotFound
  | ErrActiveScriptDelete
  | ErrScriptAlreadyExists
  | ErrScriptQuotaExceeded
  | InvalidScript validator_error
  | CheckFailed validator_error
  | ScriptDbError

definition MaxScriptSizeBytes :: nat where "MaxScriptSizeBytes = 1024 * 1024"

text \<open>\<open>rd\<close> and \<open>wr\<close>: whether the database answers reads and takes writes.\<close>

definition PutScript :: "bool \<Rightarrow> scripts \<Rightarrow> nat \<Rightarrow> string \<Rightarrow> string \<Rightarrow> script_error + scripts" where
  "PutScript wr rows mb name content =
     (if length content > MaxScriptSizeBytes then Inl ErrScriptQuotaExceeded
      else case ValidateSieveScript content of
          Some e \<Rightarrow> Inl (InvalidScript e)
        | None \<Rightarrow> if wr then Inr (repo_PutScript rows mb name content) else Inl ScriptDbError)"

definition GetScript :: "bool \<Rightarrow> scripts \<Rightarrow> nat \<Rightarrow> string \<Rightarrow> script_error + script_row" where
  "GetScript rd rows mb name =
     (if \<not> rd then Inl ScriptDbError
      else case repo_GetScript rows mb name of None \<Rightarrow> Inl ErrScriptNotFound | Some r \<Rightarrow> Inr r)"

definition SetActive :: "bool \<Rightarrow> bool \<Rightarrow> scripts \<Rightarrow> nat \<Rightarrow> string \<Rightarrow> script_error + scripts" where
  "SetActive rd wr rows mb name =
     (let write = (if \<not> wr then Inl ScriptDbError
                   else case repo_SetActiveScript rows mb name of None \<Rightarrow> Inl ScriptDbError | Some rows' \<Rightarrow> Inr rows')
      in if name = [] then write
         else if \<not> rd then Inl ScriptDbError
         else if repo_GetScript rows mb name = None then Inl ErrScriptNotFound
         else write)"

definition DeleteScript :: "bool \<Rightarrow> bool \<Rightarrow> scripts \<Rightarrow> nat \<Rightarrow> string \<Rightarrow> script_error + scripts" where
  "DeleteScript rd wr rows mb name =
     (if \<not> rd then Inl ScriptDbError
      else case repo_GetScript rows mb name of
          None \<Rightarrow> Inl ErrScriptNotFound
        | Some r \<Rightarrow>
            if sc_active r then Inl ErrActiveScriptDelete
            else if wr then Inr (repo_DeleteScript rows mb name) else Inl ScriptDbError)"

definition RenameScript :: "bool \<Rightarrow> bool \<Rightarrow> scripts \<Rightarrow> nat \<Rightarrow> string \<Rightarrow> string \<Rightarrow> script_error + scripts" where
  "RenameScript rd wr rows mb oldName newName =
     (if \<not> rd then Inl ScriptDbError
      else if repo_GetScript rows mb oldName = None then Inl ErrScriptNotFound
      else if repo_GetScript rows mb newName \<noteq> None then Inl ErrScriptAlreadyExists
      else if \<not> wr then Inl ScriptDbError
      else case repo_RenameScript rows mb oldName newName of None \<Rightarrow> Inl ScriptDbError | Some rows' \<Rightarrow> Inr rows')"

definition CheckScript :: "string \<Rightarrow> script_error option" where
  "CheckScript content =
     (if length content > MaxScriptSizeBytes then Some ErrScriptQuotaExceeded
      else case ValidateSieveScript content of Some e \<Rightarrow> Some (CheckFailed e) | None \<Rightarrow> None)"

section \<open>Base64\<close>

text \<open>\<^verbatim>\<open>base64.StdEncoding\<close>: line breaks are skipped, padding is required.\<close>

definition b64_value :: "char \<Rightarrow> nat option" where
  "b64_value c =
     (let n = (of_char c :: nat)
      in if 65 \<le> n \<and> n \<le> 90 then Some (n - 65)
         else if 97 \<le> n \<and> n \<le> 122 then Some (n - 71)
         else if 48 \<le> n \<and> n \<le> 57 then Some (n + 4)
         else if n = 43 then Some 62
         else if n = 47 then Some 63
         else None)"

fun b64_groups :: "string \<Rightarrow> string option" where
  "b64_groups [] = Some []"
| "b64_groups (a # b # c # d # rest) =
     (case (b64_value a, b64_value b) of
        (Some x, Some y) \<Rightarrow>
          if rest = [] \<and> c = CHR ''='' \<and> d = CHR ''='' then Some [char_of (x * 4 + y div 16)]
          else (case b64_value c of
              None \<Rightarrow> None
            | Some z \<Rightarrow>
                if rest = [] \<and> d = CHR ''='' then Some [char_of (x * 4 + y div 16), char_of ((y mod 16) * 16 + z div 4)]
                else (case (b64_value d, b64_groups rest) of
                    (Some w, Some bs) \<Rightarrow>
                      Some (char_of (x * 4 + y div 16) # char_of ((y mod 16) * 16 + z div 4) # char_of ((z mod 4) * 64 + w) # bs)
                  | _ \<Rightarrow> None))
      | _ \<Rightarrow> None)"
| "b64_groups _ = None"

definition DecodeString :: "string \<Rightarrow> string option" where
  "DecodeString s = b64_groups (filter (\<lambda>c. c \<noteq> CR \<and> c \<noteq> LF) s)"

section \<open>The connection\<close>

datatype ms_state = msAuth | msMain

record ms_conn =
  ms_state :: ms_state
  ms_username :: string
  ms_mailbox :: nat
  ms_tls :: bool
  ms_input :: string
  ms_closed :: bool
  ms_crashed :: bool

record ms_env =
  ms_accounts :: "string \<Rightarrow> unit + mailbox_auth option"
  ms_compare :: argon2
  ms_tls_provider :: bool
  db_error_text :: string

record ms_turn =
  rd_ok :: bool
  wr_ok :: bool
  tls_input :: "string option"

definition quoted_text :: "string \<Rightarrow> string \<Rightarrow> string" where
  "quoted_text status t = status @ '' '' @ [DQUOTE] @ t @ [DQUOTE] @ CRLF"

definition NO :: "string \<Rightarrow> string" where "NO t = quoted_text ''NO'' t"
definition OK :: "string \<Rightarrow> string" where "OK t = quoted_text ''OK'' t"

definition script_error_text :: "ms_env \<Rightarrow> script_error \<Rightarrow> string" where
  "script_error_text env e =
     (case e of
        ErrScriptNotFound \<Rightarrow> ''script does not exist''
      | ErrActiveScriptDelete \<Rightarrow> ''cannot delete active script''
      | ErrScriptAlreadyExists \<Rightarrow> ''script with new name already exists''
      | ErrScriptQuotaExceeded \<Rightarrow> ''script size exceeds storage limit''
      | InvalidScript v \<Rightarrow> ''invalid sieve script syntax: '' @ validator_text v
      | CheckFailed v \<Rightarrow> validator_text v
      | ScriptDbError \<Rightarrow> db_error_text env)"

text \<open>\<^verbatim>\<open>ReadString('\n')\<close>: a line with its line feed, and the rest; \<^const>\<open>None\<close> at the end of input.\<close>

definition ReadLine :: "string \<Rightarrow> (string \<times> string) option" where
  "ReadLine s = (case IndexFunc (\<lambda>c. c = LF) s of None \<Rightarrow> None | Some i \<Rightarrow> Some (take (i + 1) s, drop (i + 1) s))"

definition parseStringLiteral :: "string \<Rightarrow> string" where
  "parseStringLiteral input0 =
     (let input = TrimSpace input0
      in if HasPrefix input [DQUOTE] \<and> HasSuffix input [DQUOTE] \<and> 2 \<le> length input then butlast (tl input) else input)"

definition parseTwoStrings :: "string \<Rightarrow> string list" where
  "parseTwoStrings input = map parseStringLiteral (Fields input)"

text \<open>
  Reading a literal allocates its announced size first. \<^verbatim>\<open>make\<close> panics when the size exceeds
  what can be addressed; nothing recovers the panic, so it ends the process.
\<close>

datatype 'a literal_read = Parsed 'a | ParseError string | Panic

definition maxAlloc :: int where "maxAlloc = 2 ^ 48"

definition parseNameAndContent :: "string \<Rightarrow> string \<Rightarrow> (string \<times> string) literal_read \<times> string" where
  "parseNameAndContent arg input =
     (case Cut arg CHR '' '' of
        (_, None) \<Rightarrow> (ParseError ''missing parameters'', input)
      | (first, Some second) \<Rightarrow>
          let name = parseStringLiteral first; literalHeader = TrimSpace second
          in if \<not> HasPrefix literalHeader ''{'' \<or> \<not> HasSuffix literalHeader ''}'' then
               (Parsed (name, parseStringLiteral literalHeader), input)
             else
               let sizeStr = TrimSuffix (TrimSuffix (TrimPrefix literalHeader ''{'') ''}'') ''+''
               in (case Atoi sizeStr of
                    None \<Rightarrow> (ParseError ''invalid literal size'', input)
                  | Some sz \<Rightarrow>
                      if sz < 0 then (ParseError ''invalid literal size'', input)
                      else if sz > maxAlloc then (Panic, input)
                      else if int (length input) < sz then
                        (ParseError (''unable to read script content: '' @ (if input = [] then ''EOF'' else ''unexpected EOF'')), [])
                      else
                        let content = take (nat sz) input; rest = drop (nat sz) input
                        in (Parsed (name, content), (case ReadLine rest of None \<Rightarrow> [] | Some (_, r) \<Rightarrow> r))))"

definition sendCapabilities :: "ms_env \<Rightarrow> ms_conn \<Rightarrow> string" where
  "sendCapabilities env c =
     [DQUOTE] @ ''IMPLEMENTATION'' @ [DQUOTE] @ '' '' @ [DQUOTE] @ ''LambdaMail ManageSieve'' @ [DQUOTE] @ CRLF
     @ [DQUOTE] @ ''SASL'' @ [DQUOTE] @ '' '' @ [DQUOTE] @ ''PLAIN'' @ [DQUOTE] @ CRLF
     @ (if \<not> ms_tls c \<and> ms_tls_provider env then [DQUOTE] @ ''STARTTLS'' @ [DQUOTE] @ CRLF else [])
     @ [DQUOTE] @ ''SIEVE'' @ [DQUOTE] @ '' '' @ [DQUOTE]
     @ ''fileinto reject envelope subaddress body imap4flags variables'' @ [DQUOTE] @ CRLF"

section \<open>The commands\<close>

type_synonym ms_result = "ms_conn \<times> scripts \<times> string"

definition ms_Login :: "ms_env \<Rightarrow> string \<Rightarrow> string \<Rightarrow> nat option" where
  "ms_Login env address password =
     (case ms_accounts env address of
        Inr (Some r) \<Rightarrow> if ms_compare env password (ma_password_hash r) = Inr True then Some (ma_id r) else None
      | _ \<Rightarrow> None)"

definition handleStartTLS :: "ms_env \<Rightarrow> ms_turn \<Rightarrow> ms_conn \<Rightarrow> scripts \<Rightarrow> ms_result" where
  "handleStartTLS env turn c rows =
     (if ms_tls c then (c, rows, NO ''TLS already active.'')
      else if \<not> ms_tls_provider env then (c, rows, NO ''STARTTLS not supported.'')
      else case tls_input turn of
          None \<Rightarrow> (c, rows, OK ''Begin TLS negotiation.'')
        | Some input \<Rightarrow>
            let c' = c\<lparr>ms_tls := True, ms_input := input\<rparr>
            in (c', rows, OK ''Begin TLS negotiation.'' @ sendCapabilities env c' @ OK ''TLS negotiation complete.''))"

definition sasl_plain :: "string \<Rightarrow> (string \<times> string) option" where
  "sasl_plain decoded =
     (case Split decoded (CHR 0x00) of
        [_, user, pw] \<Rightarrow> Some (user, pw)
      | [user, pw] \<Rightarrow> Some (user, pw)
      | _ \<Rightarrow> None)"

definition authenticate_with :: "ms_env \<Rightarrow> string \<Rightarrow> ms_conn \<Rightarrow> scripts \<Rightarrow> ms_result" where
  "authenticate_with env respB64 c rows =
     (case DecodeString respB64 of
        None \<Rightarrow> (c, rows, NO ''Invalid base64 payload.'')
      | Some decoded \<Rightarrow>
          (case sasl_plain decoded of
             None \<Rightarrow> (c, rows, NO ''Malformed SASL PLAIN authentication.'')
           | Some (user, pw) \<Rightarrow>
               (case ms_Login env user pw of
                  None \<Rightarrow> (c, rows, NO ''Authentication failed.'')
                | Some mailbox \<Rightarrow>
                    (c\<lparr>ms_username := user, ms_mailbox := mailbox, ms_state := msMain\<rparr>, rows, OK ''Logged in.''))))"

definition handleAuthenticate :: "ms_env \<Rightarrow> string \<Rightarrow> ms_conn \<Rightarrow> scripts \<Rightarrow> ms_result" where
  "handleAuthenticate env arg c rows =
     (if ms_state c \<noteq> msAuth then (c, rows, NO ''Already authenticated.'')
      else
        let parts = Fields arg
        in if parts = [] \<or> ToUpper (hd parts) \<noteq> [DQUOTE] @ ''PLAIN'' @ [DQUOTE] \<and> ToUpper (hd parts) \<noteq> ''PLAIN'' then
             (c, rows, NO ''Unsupported SASL mechanism.'')
           else if 1 < length parts then authenticate_with env (parts ! 1) c rows
           else case ReadLine (ms_input c) of
               None \<Rightarrow> (c\<lparr>ms_input := []\<rparr>, rows, [DQUOTE, DQUOTE] @ CRLF)
             | Some (line, rest) \<Rightarrow>
                 (case authenticate_with env (TrimRight line CRLF) (c\<lparr>ms_input := rest\<rparr>) rows of
                    (c', rows', out) \<Rightarrow> (c', rows', [DQUOTE, DQUOTE] @ CRLF @ out)))"

definition handlePutScript :: "ms_env \<Rightarrow> ms_turn \<Rightarrow> string \<Rightarrow> ms_conn \<Rightarrow> scripts \<Rightarrow> ms_result" where
  "handlePutScript env turn arg c rows =
     (if ms_state c \<noteq> msMain then (c, rows, NO ''Authentication required.'')
      else case parseNameAndContent arg (ms_input c) of
          (Panic, _) \<Rightarrow> (c\<lparr>ms_crashed := True, ms_closed := True\<rparr>, rows, [])
        | (ParseError e, rest) \<Rightarrow> (c\<lparr>ms_input := rest\<rparr>, rows, NO e)
        | (Parsed (name, content), rest) \<Rightarrow>
            (case PutScript (wr_ok turn) rows (ms_mailbox c) name content of
               Inl e \<Rightarrow> (c\<lparr>ms_input := rest\<rparr>, rows, NO (script_error_text env e))
             | Inr rows' \<Rightarrow> (c\<lparr>ms_input := rest\<rparr>, rows', OK ''PUTSCRIPT completed.'')))"

definition handleGetScript :: "ms_turn \<Rightarrow> string \<Rightarrow> ms_conn \<Rightarrow> scripts \<Rightarrow> ms_result" where
  "handleGetScript turn arg c rows =
     (if ms_state c \<noteq> msMain then (c, rows, NO ''Authentication required.'')
      else
        let name = parseStringLiteral arg
        in if name = [] then (c, rows, NO ''Missing script name.'')
           else case GetScript (rd_ok turn) rows (ms_mailbox c) name of
               Inl _ \<Rightarrow> (c, rows, NO ''Script does not exist.'')
             | Inr r \<Rightarrow>
                 (c, rows, ''{'' @ ItoaNat (length (sc_script r)) @ ''+}'' @ CRLF @ sc_script r @ CRLF
                    @ OK ''GETSCRIPT completed.''))"

definition handleSetActive :: "ms_env \<Rightarrow> ms_turn \<Rightarrow> string \<Rightarrow> ms_conn \<Rightarrow> scripts \<Rightarrow> ms_result" where
  "handleSetActive env turn arg c rows =
     (if ms_state c \<noteq> msMain then (c, rows, NO ''Authentication required.'')
      else case SetActive (rd_ok turn) (wr_ok turn) rows (ms_mailbox c) (parseStringLiteral arg) of
          Inl e \<Rightarrow> (c, rows, NO (script_error_text env e))
        | Inr rows' \<Rightarrow> (c, rows', OK ''SETACTIVE completed.''))"

definition handleHaveSpace :: "string \<Rightarrow> ms_conn \<Rightarrow> scripts \<Rightarrow> ms_result" where
  "handleHaveSpace arg c rows =
     (let parts = Fields arg
      in if length parts < 2 then (c, rows, NO ''Missing arguments for HAVESPACE.'')
         else case Atoi (parts ! 1) of
             None \<Rightarrow> (c, rows, NO ''Quota exceeded.'')
           | Some sz \<Rightarrow>
               if sz < 0 \<or> sz > int MaxScriptSizeBytes then (c, rows, NO ''Quota exceeded.'')
               else (c, rows, OK ''Storage space available.''))"

text \<open>\<^verbatim>\<open>%q\<close> on the ASCII characters; a byte above 127 is written as it is.\<close>

definition hex_digit :: "nat \<Rightarrow> char" where
  "hex_digit n = (if n < 10 then digit n else char_of (87 + n))"

definition quote_char :: "char \<Rightarrow> string" where
  "quote_char c =
     (let n = (of_char c :: nat)
      in if c = DQUOTE \<or> c = BACKSLASH then [BACKSLASH, c]
         else if n = 7 then BACKSLASH # ''a'' else if n = 8 then BACKSLASH # ''b'' else if n = 12 then BACKSLASH # ''f''
         else if n = 10 then BACKSLASH # ''n'' else if n = 13 then BACKSLASH # ''r''
         else if n = 9 then BACKSLASH # ''t'' else if n = 11 then BACKSLASH # ''v''
         else if n < 32 \<or> n = 127 then [BACKSLASH, CHR ''x'', hex_digit (n div 16), hex_digit (n mod 16)]
         else [c])"

definition Quote :: "string \<Rightarrow> string" where
  "Quote s = [DQUOTE] @ concat (map quote_char s) @ [DQUOTE]"

definition handleListScripts :: "ms_turn \<Rightarrow> ms_conn \<Rightarrow> scripts \<Rightarrow> ms_result" where
  "handleListScripts turn c rows =
     (if ms_state c \<noteq> msMain then (c, rows, NO ''Authentication required.'')
      else if \<not> rd_ok turn then (c, rows, NO ''Unable to list scripts.'')
      else (c, rows, concat (map (\<lambda>r. Quote (sc_name r) @ (if sc_active r then '' ACTIVE'' else []) @ CRLF)
                               (repo_ListScripts rows (ms_mailbox c)))
                     @ OK ''LISTSCRIPTS completed.''))"

definition handleDeleteScript :: "ms_env \<Rightarrow> ms_turn \<Rightarrow> string \<Rightarrow> ms_conn \<Rightarrow> scripts \<Rightarrow> ms_result" where
  "handleDeleteScript env turn arg c rows =
     (if ms_state c \<noteq> msMain then (c, rows, NO ''Authentication required.'')
      else
        let name = parseStringLiteral arg
        in if name = [] then (c, rows, NO ''Missing script name.'')
           else case DeleteScript (rd_ok turn) (wr_ok turn) rows (ms_mailbox c) name of
               Inl e \<Rightarrow> (c, rows, NO (script_error_text env e))
             | Inr rows' \<Rightarrow> (c, rows', OK ''DELETESCRIPT completed.''))"

definition handleRenameScript :: "ms_env \<Rightarrow> ms_turn \<Rightarrow> string \<Rightarrow> ms_conn \<Rightarrow> scripts \<Rightarrow> ms_result" where
  "handleRenameScript env turn arg c rows =
     (if ms_state c \<noteq> msMain then (c, rows, NO ''Authentication required.'')
      else
        let parts = parseTwoStrings arg
        in if length parts < 2 then (c, rows, NO ''Missing script names for RENAMESCRIPT.'')
           else case RenameScript (rd_ok turn) (wr_ok turn) rows (ms_mailbox c) (parts ! 0) (parts ! 1) of
               Inl e \<Rightarrow> (c, rows, NO (script_error_text env e))
             | Inr rows' \<Rightarrow> (c, rows', OK ''RENAMESCRIPT completed.''))"

definition check_content :: "ms_env \<Rightarrow> string \<Rightarrow> string" where
  "check_content env content =
     (case CheckScript content of Some e \<Rightarrow> NO (script_error_text env e) | None \<Rightarrow> OK ''CHECKSCRIPT completed.'')"

text \<open>The source does not ask for a login here.\<close>

definition handleCheckScript :: "ms_env \<Rightarrow> string \<Rightarrow> ms_conn \<Rightarrow> scripts \<Rightarrow> ms_result" where
  "handleCheckScript env arg c rows =
     (if HasPrefix arg ''{'' then
        (case parseNameAndContent ([DQUOTE, DQUOTE] @ '' '' @ arg) (ms_input c) of
           (Panic, _) \<Rightarrow> (c\<lparr>ms_crashed := True, ms_closed := True\<rparr>, rows, [])
         | (ParseError e, rest) \<Rightarrow> (c\<lparr>ms_input := rest\<rparr>, rows, NO e)
         | (Parsed (name, content), rest) \<Rightarrow> (c\<lparr>ms_input := rest\<rparr>, rows, check_content env content))
      else (c, rows, check_content env (parseStringLiteral arg)))"

section \<open>The loop\<close>

definition ms_command :: "string \<Rightarrow> string \<times> string" where
  "ms_command line = (case Cut line CHR '' '' of (w, None) \<Rightarrow> (ToUpper w, []) | (w, Some a) \<Rightarrow> (ToUpper w, a))"

definition ms_dispatch :: "ms_env \<Rightarrow> ms_turn \<Rightarrow> string \<Rightarrow> ms_conn \<Rightarrow> scripts \<Rightarrow> ms_result" where
  "ms_dispatch env turn line c rows =
     (let (cmd, arg) = ms_command line
      in if cmd = ''CAPABILITY'' then (c, rows, sendCapabilities env c @ OK ''Capability completed.'')
         else if cmd = ''STARTTLS'' then handleStartTLS env turn c rows
         else if cmd = ''AUTHENTICATE'' then handleAuthenticate env arg c rows
         else if cmd = ''PUTSCRIPT'' then handlePutScript env turn arg c rows
         else if cmd = ''GETSCRIPT'' then handleGetScript turn arg c rows
         else if cmd = ''SETACTIVE'' then handleSetActive env turn arg c rows
         else if cmd = ''HAVESPACE'' then handleHaveSpace arg c rows
         else if cmd = ''LISTSCRIPTS'' then handleListScripts turn c rows
         else if cmd = ''DELETESCRIPT'' then handleDeleteScript env turn arg c rows
         else if cmd = ''RENAMESCRIPT'' then handleRenameScript env turn arg c rows
         else if cmd = ''CHECKSCRIPT'' then handleCheckScript env arg c rows
         else if cmd = ''LOGOUT'' \<or> cmd = ''QUIT'' then (c\<lparr>ms_closed := True\<rparr>, rows, OK ''Logout complete.'')
         else (c, rows, NO ''Unknown or unsupported command.''))"

definition ms_serve :: "ms_env \<Rightarrow> ms_conn \<times> scripts \<Rightarrow> ms_turn \<Rightarrow> ms_result" where
  "ms_serve env s turn =
     (let (c, rows) = s
      in if ms_closed c then (c, rows, [])
         else case ReadLine (ms_input c) of
             None \<Rightarrow> (c\<lparr>ms_closed := True\<rparr>, rows, [])
           | Some (l, rest) \<Rightarrow>
               let line = TrimRight l CRLF; c1 = c\<lparr>ms_input := rest\<rparr>
               in if line = [] then (c1, rows, []) else ms_dispatch env turn line c1 rows)"

definition ms_step :: "ms_env \<Rightarrow> ms_conn \<times> scripts \<Rightarrow> ms_turn \<Rightarrow> ms_conn \<times> scripts" where
  "ms_step env s turn = (case ms_serve env s turn of (c, rows, out) \<Rightarrow> (c, rows))"

definition ms_newConn :: "string \<Rightarrow> ms_conn" where
  "ms_newConn input = \<lparr>ms_state = msAuth, ms_username = [], ms_mailbox = 0, ms_tls = False, ms_input = input,
     ms_closed = False, ms_crashed = False\<rparr>"

end
