(* ===== verification/Script_Repository.thy ===== *)
theory Script_Repository
  imports Manage_Sieve
begin

text \<open>
  The contract of the script repository: what \<^verbatim>\<open>GetScript\<close> answers after each of the
  operations. The locale states it for any implementation; the table of
  \<^verbatim>\<open>sieve_repository.go\<close> is shown to satisfy it.
\<close>

section \<open>The contract\<close>

locale script_repository =
  fixes ok :: "'s \<Rightarrow> bool"
    and get :: "'s \<Rightarrow> nat \<Rightarrow> string \<Rightarrow> (string \<times> bool) option"
    and put :: "'s \<Rightarrow> nat \<Rightarrow> string \<Rightarrow> string \<Rightarrow> 's"
    and activate :: "'s \<Rightarrow> nat \<Rightarrow> string \<Rightarrow> 's option"
    and remove :: "'s \<Rightarrow> nat \<Rightarrow> string \<Rightarrow> 's"
    and rename :: "'s \<Rightarrow> nat \<Rightarrow> string \<Rightarrow> string \<Rightarrow> 's option"
  assumes get_put: "ok s \<Longrightarrow> get (put s mb n c) mb' n' =
      (if mb' = mb \<and> n' = n then Some (c, case get s mb n of Some (_, a) \<Rightarrow> a | None \<Rightarrow> False) else get s mb' n')"
    and get_activate: "ok s \<Longrightarrow> activate s mb n = Some s' \<Longrightarrow> get s' mb' n' =
      (if mb' = mb then map_option (\<lambda>(c, a). (c, n \<noteq> [] \<and> n' = n)) (get s mb' n') else get s mb' n')"
    and get_remove: "ok s \<Longrightarrow> get (remove s mb n) mb' n' =
      (if mb' = mb \<and> n' = n \<and> (\<exists>c. get s mb n = Some (c, False)) then None else get s mb' n')"
    and get_rename: "ok s \<Longrightarrow> get s mb b = None \<Longrightarrow> rename s mb a b = Some s' \<Longrightarrow> get s' mb' n' =
      (if mb' = mb \<and> n' = b then get s mb a else if mb' = mb \<and> n' = a then None else get s mb' n')"
    and ok_put: "ok s \<Longrightarrow> ok (put s mb n c)"
    and ok_activate: "ok s \<Longrightarrow> activate s mb n = Some s' \<Longrightarrow> ok s'"
    and ok_remove: "ok s \<Longrightarrow> ok (remove s mb n)"
    and ok_rename: "ok s \<Longrightarrow> get s mb b = None \<Longrightarrow> rename s mb a b = Some s' \<Longrightarrow> ok s'"
begin

lemma put_then_get: "ok s \<Longrightarrow> \<exists>a. get (put s mb n c) mb n = Some (c, a)"
  by (simp add: get_put)

lemma put_other_mailbox: "ok s \<Longrightarrow> mb' \<noteq> mb \<Longrightarrow> get (put s mb n c) mb' n' = get s mb' n'"
  by (simp add: get_put)

lemma activate_only_one:
  assumes "ok s" "activate s mb n = Some s'" "get s' mb n1 = Some (c, True)"
  shows "n1 = n"
  using get_activate [OF assms(1,2), of mb n1] assms(3) by (cases "get s mb n1") auto

lemma remove_keeps_active:
  assumes "ok s" "get s mb' n' = Some (c, True)"
  shows "get (remove s mb n) mb' n' = Some (c, True)"
  using get_remove [OF assms(1), of mb n mb' n'] assms(2) by auto

lemma rename_and_back:
  assumes "ok s" "get s mb a = Some v" "get s mb b = None" "rename s mb a b = Some s'" "rename s' mb b a = Some s''"
  shows "get s'' mb' n' = get s mb' n'"
proof -
  have "ok s'" using assms ok_rename by blast
  moreover have "get s' mb a = None"
    using get_rename [OF assms(1,3,4), of mb a] assms(2,3) by auto
  ultimately show ?thesis
    using get_rename [OF assms(1,3,4)] get_rename [of s' mb a b s''] assms by auto
qed

end

section \<open>The table satisfies it\<close>

definition script_key :: "script_row \<Rightarrow> nat \<times> string" where
  "script_key r = (sc_mailbox r, sc_name r)"

definition scripts_ok :: "scripts \<Rightarrow> bool" where
  "scripts_ok rows \<longleftrightarrow> distinct (map script_key rows)
     \<and> (\<forall>r \<in> set rows. \<forall>r' \<in> set rows. sc_mailbox r = sc_mailbox r' \<and> sc_active r \<and> sc_active r' \<longrightarrow> r = r')"

definition script_view :: "scripts \<Rightarrow> nat \<Rightarrow> string \<Rightarrow> (string \<times> bool) option" where
  "script_view rows mb n = map_option (\<lambda>r. (sc_script r, sc_active r)) (repo_GetScript rows mb n)"

lemma is_script_key: "is_script mb n r \<longleftrightarrow> script_key r = (mb, n)"
  by (auto simp: is_script_def script_key_def)

lemma GetScript_update:
  assumes "\<And>r. script_key (u r) = script_key r"
  shows "repo_GetScript (update_where Q u rows) mb n = map_option (\<lambda>r. if Q r then u r else r) (repo_GetScript rows mb n)"
proof -
  have "is_script mb n \<circ> (\<lambda>r. if Q r then u r else r) = is_script mb n"
    using assms by (auto simp: is_script_key fun_eq_iff)
  then show ?thesis by (simp add: repo_GetScript_def update_where_def find_map [folded comp_def])
qed

lemma GetScript_None: "repo_GetScript rows mb n = None \<longleftrightarrow> \<not> list_ex (is_script mb n) rows"
  by (auto simp: repo_GetScript_def find_None_iff list_ex_iff)

lemma GetScript_Some: "repo_GetScript rows mb n = Some r \<Longrightarrow> r \<in> set rows \<and> script_key r = (mb, n)"
  by (auto simp: repo_GetScript_def is_script_key dest: find_SomeD)

lemma map_key_update: "(\<And>r. script_key (u r) = script_key r) \<Longrightarrow> map script_key (update_where Q u rows) = map script_key rows"
  by (rule map_update_where)

lemma view_put:
  "script_view (repo_PutScript rows mb n c) mb' n' =
    (if mb' = mb \<and> n' = n then Some (c, case script_view rows mb n of Some (_, a) \<Rightarrow> a | None \<Rightarrow> False)
     else script_view rows mb' n')"
proof (cases "repo_GetScript rows mb n")
  case None
  then have no: "\<not> list_ex (is_script mb n) rows" by (simp add: GetScript_None)
  have "repo_GetScript (rows @ [x]) mb' n' = (case repo_GetScript rows mb' n' of None \<Rightarrow> if is_script mb' n' x then Some x else None | Some r \<Rightarrow> Some r)" for x
    by (simp add: repo_GetScript_def find_append split: option.split)
  with no None show ?thesis
    by (auto simp: script_view_def repo_PutScript_def is_script_def split: option.splits)
next
  case (Some r)
  then have ex: "list_ex (is_script mb n) rows" by (metis GetScript_None option.distinct(1))
  have "repo_GetScript (repo_PutScript rows mb n c) mb' n'
      = map_option (\<lambda>r. if is_script mb n r then r\<lparr>sc_script := c\<rparr> else r) (repo_GetScript rows mb' n')"
    using ex by (simp add: repo_PutScript_def GetScript_update script_key_def)
  with Some GetScript_Some [of rows mb' n'] show ?thesis
    by (cases "repo_GetScript rows mb' n'") (auto simp: script_view_def is_script_key script_key_def dest: GetScript_Some)
qed

lemma view_activate:
  assumes "repo_SetActiveScript rows mb n = Some rows'"
  shows "script_view rows' mb' n' =
    (if mb' = mb then map_option (\<lambda>(c, a). (c, n \<noteq> [] \<and> n' = n)) (script_view rows mb' n') else script_view rows mb' n')"
proof -
  define off where "off = update_where (\<lambda>r. sc_mailbox r = mb) (\<lambda>r. r\<lparr>sc_active := False\<rparr>) rows"
  have g: "repo_GetScript off mb' n' = map_option (\<lambda>r. if sc_mailbox r = mb then r\<lparr>sc_active := False\<rparr> else r) (repo_GetScript rows mb' n')"
    by (simp add: off_def GetScript_update script_key_def)
  consider "n = []" "rows' = off" | "n \<noteq> []" "rows' = update_where (is_script mb n) (\<lambda>r. r\<lparr>sc_active := True\<rparr>) off"
    using assms by (auto simp: repo_SetActiveScript_def off_def Let_def split: if_splits)
  then show ?thesis
  proof cases
    case 1
    with g show ?thesis
      by (cases "repo_GetScript rows mb' n'") (auto simp: script_view_def script_key_def dest: GetScript_Some)
  next
    case 2
    then have "repo_GetScript rows' mb' n' = map_option (\<lambda>r. if is_script mb n r then r\<lparr>sc_active := True\<rparr> else r) (repo_GetScript off mb' n')"
      by (simp add: GetScript_update script_key_def)
    with 2 g show ?thesis
      by (cases "repo_GetScript rows mb' n'") (auto simp: script_view_def is_script_def script_key_def dest: GetScript_Some)
  qed
qed

lemma find_filter: "find P (filter Q xs) = find (\<lambda>x. P x \<and> Q x) xs"
  by (induction xs) auto

lemma view_remove:
  assumes ok: "scripts_ok rows"
  shows "script_view (repo_DeleteScript rows mb n) mb' n' =
    (if mb' = mb \<and> n' = n \<and> (\<exists>c. script_view rows mb n = Some (c, False)) then None else script_view rows mb' n')"
proof -
  have g: "repo_GetScript (repo_DeleteScript rows mb n) mb' n' =
      find (\<lambda>r. is_script mb' n' r \<and> \<not> (is_script mb n r \<and> \<not> sc_active r)) rows"
    by (simp add: repo_GetScript_def repo_DeleteScript_def find_filter)
  show ?thesis
  proof (cases "(mb', n') = (mb, n)")
    case False
    then have "(\<lambda>r. is_script mb' n' r \<and> \<not> (is_script mb n r \<and> \<not> sc_active r)) = is_script mb' n'"
      by (auto simp: is_script_def fun_eq_iff)
    with g have "repo_GetScript (repo_DeleteScript rows mb n) mb' n' = repo_GetScript rows mb' n'"
      by (simp add: repo_GetScript_def)
    with False show ?thesis by (auto simp: script_view_def)
  next
    case True
    show ?thesis
    proof (cases "repo_GetScript rows mb n")
      case None
      then have "find (\<lambda>r. is_script mb n r \<and> \<not> (is_script mb n r \<and> \<not> sc_active r)) rows = None"
        by (auto simp: repo_GetScript_def find_None_iff)
      with True g None show ?thesis by (simp add: script_view_def)
    next
      case (Some r)
      then have r: "r \<in> set rows" "script_key r = (mb, n)" by (auto dest: GetScript_Some)
      have one: "x = r" if "x \<in> set rows" "is_script mb n x" for x
        using ok that r by (auto simp: scripts_ok_def is_script_key dest: distinct_key_eq)
      have "find (\<lambda>x. is_script mb n x \<and> \<not> (is_script mb n x \<and> \<not> sc_active x)) rows = (if sc_active r then Some r else None)"
      proof (cases "sc_active r")
        case True
        have "find (\<lambda>x. is_script mb n x \<and> \<not> (is_script mb n x \<and> \<not> sc_active x)) rows = Some r"
          by (rule find_unique) (use r True in \<open>auto simp: is_script_key intro!: one\<close>)
        with True show ?thesis by simp
      next
        case False
        with one show ?thesis by (auto simp: find_None_iff)
      qed
      with True g Some show ?thesis by (auto simp: script_view_def)
    qed
  qed
qed

lemma view_rename:
  assumes none: "script_view rows mb b = None" and res: "repo_RenameScript rows mb a b = Some rows'"
  shows "script_view rows' mb' n' =
    (if mb' = mb \<and> n' = b then script_view rows mb a else if mb' = mb \<and> n' = a then None else script_view rows mb' n')"
proof -
  define f where "f = (\<lambda>r::script_row. if is_script mb a r then r\<lparr>sc_name := b\<rparr> else r)"
  have rows': "rows' = map f rows"
    using res by (auto simp: repo_RenameScript_def update_where_def f_def split: if_splits)
  have nob: "\<not> is_script mb b r" if "r \<in> set rows" for r
    using none that by (auto simp: script_view_def repo_GetScript_def find_None_iff)
  have view: "script_view rows' mb' n' = map_option (\<lambda>r. (sc_script r, sc_active r)) (find (is_script mb' n' \<circ> f) rows)"
  proof -
    have "(\<lambda>r. (sc_script r, sc_active r)) \<circ> f = (\<lambda>r. (sc_script r, sc_active r))" by (auto simp: f_def)
    then show ?thesis by (simp add: script_view_def repo_GetScript_def rows' find_map [folded comp_def] option.map_comp)
  qed
  have "find (is_script mb' n' \<circ> f) rows =
     (if mb' = mb \<and> n' = b then find (is_script mb a) rows
      else if mb' = mb \<and> n' = a then None else find (is_script mb' n') rows)"
  proof -
    have at_b: "find (is_script mb b \<circ> f) rows = find (is_script mb a) rows"
      using nob by (intro find_cong) (auto simp: f_def is_script_def)
    have at_a: "find (is_script mb a \<circ> f) rows = None" if "a \<noteq> b"
      using that by (auto simp: find_None_iff f_def is_script_def)
    have else_: "find (is_script mb' n' \<circ> f) rows = find (is_script mb' n') rows" if "\<not> (mb' = mb \<and> (n' = a \<or> n' = b))"
      using that by (intro find_cong) (auto simp: f_def is_script_def)
    from at_b at_a else_ show ?thesis by auto
  qed
  with view show ?thesis by (auto simp: script_view_def repo_GetScript_def)
qed

lemma scripts_okI:
  assumes "distinct (map script_key rows)"
    and "\<And>r r'. r \<in> set rows \<Longrightarrow> r' \<in> set rows \<Longrightarrow> sc_mailbox r = sc_mailbox r' \<Longrightarrow> sc_active r \<Longrightarrow> sc_active r' \<Longrightarrow>
           sc_name r = sc_name r'"
  shows "scripts_ok rows"
proof -
  have "r = r'" if "r \<in> set rows" "r' \<in> set rows" "sc_mailbox r = sc_mailbox r'" "sc_active r" "sc_active r'" for r r'
    using assms(1) that(1,2) by (rule distinct_key_eq) (simp add: script_key_def that assms(2) [OF that])
  with assms(1) show ?thesis by (simp add: scripts_ok_def)
qed

lemma scripts_ok_active:
  "scripts_ok rows \<Longrightarrow> r \<in> set rows \<Longrightarrow> r' \<in> set rows \<Longrightarrow> sc_mailbox r = sc_mailbox r' \<Longrightarrow> sc_active r \<Longrightarrow> sc_active r' \<Longrightarrow> r = r'"
  by (simp add: scripts_ok_def)

lemma scripts_ok_map:
  assumes ok: "scripts_ok rows" and keys: "distinct (map script_key (map f rows))"
    and mb: "\<And>r. sc_mailbox (f r) = sc_mailbox r"
    and act: "\<And>r r'. r \<in> set rows \<Longrightarrow> r' \<in> set rows \<Longrightarrow> sc_mailbox r = sc_mailbox r' \<Longrightarrow> sc_active (f r) \<Longrightarrow> sc_active (f r') \<Longrightarrow>
           r = r' \<or> sc_name (f r) = sc_name (f r')"
  shows "scripts_ok (map f rows)"
proof (rule scripts_okI [OF keys])
  fix x x' assume "x \<in> set (map f rows)" "x' \<in> set (map f rows)" "sc_mailbox x = sc_mailbox x'" "sc_active x" "sc_active x'"
  then obtain r r' where "r \<in> set rows" "x = f r" "r' \<in> set rows" "x' = f r'" "sc_mailbox r = sc_mailbox r'"
    by (auto simp: mb)
  with act [of r r'] \<open>sc_active x\<close> \<open>sc_active x'\<close> show "sc_name x = sc_name x'" by auto
qed

lemma put_ok:
  assumes ok: "scripts_ok rows"
  shows "scripts_ok (repo_PutScript rows mb n c)"
proof (cases "list_ex (is_script mb n) rows")
  case True
  define f where "f = (\<lambda>r::script_row. if is_script mb n r then r\<lparr>sc_script := c\<rparr> else r)"
  have f: "script_key (f r) = script_key r" "sc_mailbox (f r) = sc_mailbox r" "sc_active (f r) = sc_active r" for r
    by (simp_all add: f_def script_key_def)
  have "scripts_ok (map f rows)"
    using ok by (rule scripts_ok_map) (use ok f scripts_ok_active [OF ok] in \<open>simp_all add: scripts_ok_def comp_def\<close>)
  with True show ?thesis by (simp add: repo_PutScript_def update_where_def f_def)
next
  case False
  have keys: "distinct (map script_key (repo_PutScript rows mb n c))"
    using False ok by (auto simp: repo_PutScript_def scripts_ok_def script_key_def is_script_def list_ex_iff)
  show ?thesis
  proof (rule scripts_okI [OF keys])
    fix r r' assume "r \<in> set (repo_PutScript rows mb n c)" "r' \<in> set (repo_PutScript rows mb n c)"
      "sc_mailbox r = sc_mailbox r'" "sc_active r" "sc_active r'"
    with False show "sc_name r = sc_name r'"
      using scripts_ok_active [OF ok, of r r'] by (auto simp: repo_PutScript_def)
  qed
qed

lemma activate_ok:
  assumes ok: "scripts_ok rows" and res: "repo_SetActiveScript rows mb n = Some rows'"
  shows "scripts_ok rows'"
proof -
  define f where "f = (\<lambda>r::script_row. if sc_mailbox r = mb then r\<lparr>sc_active := n \<noteq> [] \<and> sc_name r = n\<rparr> else r)"
  have "rows' = map f rows"
    using res
    by (auto simp: repo_SetActiveScript_def update_where_def f_def Let_def is_script_def split: if_splits)
  moreover have "scripts_ok (map f rows)"
    using ok
  proof (rule scripts_ok_map)
    have "script_key (f r) = script_key r" for r by (simp add: f_def script_key_def)
    then show "distinct (map script_key (map f rows))" using ok by (simp add: scripts_ok_def comp_def)
    fix r r' assume "r \<in> set rows" "r' \<in> set rows" "sc_mailbox r = sc_mailbox r'" "sc_active (f r)" "sc_active (f r')"
    then show "r = r' \<or> sc_name (f r) = sc_name (f r')"
      using scripts_ok_active [OF ok, of r r'] by (cases "sc_mailbox r = mb") (simp_all add: f_def)
  qed (simp add: f_def)
  ultimately show ?thesis by simp
qed

lemma remove_ok: "scripts_ok rows \<Longrightarrow> scripts_ok (repo_DeleteScript rows mb n)"
  by (simp add: scripts_ok_def repo_DeleteScript_def distinct_map_filter)

lemma rename_ok:
  assumes ok: "scripts_ok rows" and none: "script_view rows mb b = None" and res: "repo_RenameScript rows mb a b = Some rows'"
  shows "scripts_ok rows'"
proof -
  define f where "f = (\<lambda>r::script_row. if is_script mb a r then r\<lparr>sc_name := b\<rparr> else r)"
  have rows': "rows' = map f rows"
    using res by (auto simp: repo_RenameScript_def update_where_def f_def split: if_splits)
  have nob: "script_key r \<noteq> (mb, b)" if "r \<in> set rows" for r
    using none that by (auto simp: script_view_def repo_GetScript_def find_None_iff is_script_key)
  have inj: "r = r'" if "r \<in> set rows" "r' \<in> set rows" "script_key (f r) = script_key (f r')" for r r'
  proof -
    have "script_key r = script_key r'"
      using that nob [OF that(1)] nob [OF that(2)] by (auto simp: f_def is_script_def script_key_def split: if_splits)
    with ok that show ?thesis unfolding scripts_ok_def by (metis distinct_key_eq)
  qed
  have "distinct rows" using ok by (auto simp: scripts_ok_def distinct_map)
  then have keys: "distinct (map script_key (map f rows))"
    using inj by (simp add: distinct_map inj_on_def comp_def)
  have "scripts_ok (map f rows)"
    using ok keys by (rule scripts_ok_map) (use scripts_ok_active [OF ok] in \<open>auto simp: f_def split: if_splits\<close>)
  with rows' show ?thesis by simp
qed

interpretation table: script_repository scripts_ok script_view repo_PutScript repo_SetActiveScript repo_DeleteScript repo_RenameScript
proof (unfold_locales, goal_cases)
  case 1 show ?case by (rule view_put)
next
  case 2 then show ?case by (intro view_activate)
next
  case 3 then show ?case by (intro view_remove)
next
  case 4 then show ?case by (intro view_rename)
next
  case 5 then show ?case by (rule put_ok)
next
  case 6 then show ?case by (rule activate_ok)
next
  case 7 then show ?case by (rule remove_ok)
next
  case 8 then show ?case by (rule rename_ok)
qed

end
