(* ===== verification/Manage_Sieve_Properties.thy ===== *)
theory Manage_Sieve_Properties
  imports Script_Repository
begin

text \<open>
  Properties of the ManageSieve server: scripts are reached only after a login and only in the
  mailbox of that login, what is stored is always a valid script, an uploaded script comes back
  byte for byte, and exactly one script is in force.
\<close>

section \<open>What a command changes\<close>

text \<open>The four ways in which a command of a logged-in session changes the script table.\<close>

definition script_change :: "nat \<Rightarrow> scripts \<Rightarrow> scripts \<Rightarrow> bool" where
  "script_change mb rows rows' \<longleftrightarrow>
     (\<exists>wr n c. PutScript wr rows mb n c = Inr rows') \<or> (\<exists>rd wr n. SetActive rd wr rows mb n = Inr rows')
     \<or> (\<exists>rd wr n. DeleteScript rd wr rows mb n = Inr rows') \<or> (\<exists>rd wr a b. RenameScript rd wr rows mb a b = Inr rows')"

definition ms_tame :: "ms_conn \<Rightarrow> scripts \<Rightarrow> ms_result \<Rightarrow> bool" where
  "ms_tame c rows res \<longleftrightarrow> (case res of (c', rows', _) \<Rightarrow>
     ms_state c' = ms_state c \<and> ms_mailbox c' = ms_mailbox c
     \<and> (rows' = rows \<or> ms_state c = msMain \<and> script_change (ms_mailbox c) rows rows'))"

lemma ms_tame_same: "ms_state c' = ms_state c \<Longrightarrow> ms_mailbox c' = ms_mailbox c \<Longrightarrow> ms_tame c rows (c', rows, out)"
  by (simp add: ms_tame_def)

lemma ms_tame_if: "(b \<Longrightarrow> ms_tame c rows x) \<Longrightarrow> (\<not> b \<Longrightarrow> ms_tame c rows y) \<Longrightarrow> ms_tame c rows (if b then x else y)"
  by simp

lemmas ms_tame_defs = ms_tame_def script_change_def

lemma ms_tame_handlers:
  "ms_tame c rows (handleStartTLS env turn c rows)"
  "ms_tame c rows (handlePutScript env turn arg c rows)"
  "ms_tame c rows (handleGetScript turn arg c rows)"
  "ms_tame c rows (handleSetActive env turn arg c rows)"
  "ms_tame c rows (handleHaveSpace arg c rows)"
  "ms_tame c rows (handleListScripts turn c rows)"
  "ms_tame c rows (handleDeleteScript env turn arg c rows)"
  "ms_tame c rows (handleRenameScript env turn arg c rows)"
  "ms_tame c rows (handleCheckScript env arg c rows)"
  subgoal by (simp add: handleStartTLS_def ms_tame_same Let_def split: option.split)
  subgoal by (auto simp: handlePutScript_def ms_tame_defs split: literal_read.split prod.split sum.split)
  subgoal by (simp add: handleGetScript_def ms_tame_same Let_def split: sum.split)
  subgoal by (auto simp: handleSetActive_def ms_tame_defs split: sum.split)
  subgoal by (simp add: handleHaveSpace_def ms_tame_same Let_def split: option.split)
  subgoal by (simp add: handleListScripts_def ms_tame_same)
  subgoal by (auto simp: handleDeleteScript_def ms_tame_defs Let_def split: sum.split)
  subgoal by (auto simp: handleRenameScript_def ms_tame_defs Let_def split: sum.split)
  subgoal by (simp add: handleCheckScript_def ms_tame_same split: literal_read.split prod.split)
  done

lemma ms_tame_dispatch: "fst (ms_command line) \<noteq> ''AUTHENTICATE'' \<Longrightarrow> ms_tame c rows (ms_dispatch env turn line c rows)"
proof -
  assume na: "fst (ms_command line) \<noteq> ''AUTHENTICATE''"
  obtain cmd arg where cmd: "ms_command line = (cmd, arg)" by fastforce
  show ?thesis
    unfolding ms_dispatch_def cmd Let_def prod.case
    by (intro ms_tame_if ms_tame_handlers ms_tame_same) (use na cmd in simp_all)
qed

text \<open>
  The credentials that a session presents: the response of SASL PLAIN, given with the command or on
  the next line.
\<close>

definition sasl_response :: "string \<Rightarrow> string \<Rightarrow> string \<Rightarrow> bool" where
  "sasl_response arg input payload \<longleftrightarrow>
     1 < length (Fields arg) \<and> payload = Fields arg ! 1
     \<or> (\<exists>l rest. ReadLine input = Some (l, rest) \<and> payload = TrimRight l CRLF)"

definition ms_accepted :: "ms_env \<Rightarrow> ms_conn \<times> scripts \<Rightarrow> ms_turn \<Rightarrow> nat \<Rightarrow> bool" where
  "ms_accepted env s turn a \<longleftrightarrow> (\<exists>l rest arg payload decoded user pw.
     ReadLine (ms_input (fst s)) = Some (l, rest) \<and> ms_command (TrimRight l CRLF) = (''AUTHENTICATE'', arg)
     \<and> sasl_response arg rest payload \<and> DecodeString payload = Some decoded \<and> sasl_plain decoded = Some (user, pw)
     \<and> ms_Login env user pw = Some a)"

definition ms_owner :: "ms_conn \<times> scripts \<Rightarrow> nat option" where
  "ms_owner s = (if ms_state (fst s) = msMain then Some (ms_mailbox (fst s)) else None)"

lemma ms_owner_Some: "ms_owner s = Some mb \<longleftrightarrow> ms_state (fst s) = msMain \<and> ms_mailbox (fst s) = mb"
  by (simp add: ms_owner_def)

lemma authenticate_with_cases:
  assumes "authenticate_with env payload c rows = (c', rows', out)"
  shows "rows' = rows \<and> (c' = c \<or> ms_state c' = msMain \<and> (\<exists>decoded user pw.
     DecodeString payload = Some decoded \<and> sasl_plain decoded = Some (user, pw) \<and> ms_Login env user pw = Some (ms_mailbox c')))"
  using assms by (auto simp: authenticate_with_def split: option.splits prod.splits)

lemma handleAuthenticate_cases:
  assumes "handleAuthenticate env arg c rows = (c', rows', out)"
  shows "rows' = rows \<and> (ms_state c' = ms_state c \<and> ms_mailbox c' = ms_mailbox c \<or>
     ms_state c = msAuth \<and> ms_state c' = msMain \<and> (\<exists>payload decoded user pw. sasl_response arg (ms_input c) payload
       \<and> DecodeString payload = Some decoded \<and> sasl_plain decoded = Some (user, pw) \<and> ms_Login env user pw = Some (ms_mailbox c')))"
proof -
  consider (none) "rows' = rows" "ms_state c' = ms_state c" "ms_mailbox c' = ms_mailbox c"
    | (arg) "ms_state c = msAuth" "1 < length (Fields arg)" "authenticate_with env (Fields arg ! 1) c rows = (c', rows', out)"
    | (line) l rest out' where "ms_state c = msAuth" "ReadLine (ms_input c) = Some (l, rest)"
        "authenticate_with env (TrimRight l CRLF) (c\<lparr>ms_input := rest\<rparr>) rows = (c', rows', out')"
    using assms by (auto simp: handleAuthenticate_def Let_def split: if_splits option.splits prod.splits)
  then show ?thesis
  proof cases
    case arg
    with authenticate_with_cases [OF arg(3)] show ?thesis unfolding sasl_response_def by auto
  next
    case line
    from authenticate_with_cases [OF line(3)] show ?thesis
      using line(1,2) unfolding sasl_response_def by auto
  qed simp
qed

lemma ms_step_cases [consumes 1, case_names other login]:
  assumes "ms_step env (c, rows) turn = (c', rows')"
  obtains "ms_state c' = ms_state c" "ms_mailbox c' = ms_mailbox c"
      "rows' = rows \<or> ms_state c = msMain \<and> script_change (ms_mailbox c) rows rows'"
    | "rows' = rows" "ms_state c = msAuth" "ms_state c' = msMain" "ms_accepted env (c, rows) turn (ms_mailbox c')"
proof (cases "ms_closed c")
  case True
  with assms show ?thesis by (intro that(1)) (auto simp: ms_step_def ms_serve_def)
next
  case False
  show ?thesis
  proof (cases "ReadLine (ms_input c)")
    case None
    with False assms show ?thesis by (intro that(1)) (auto simp: ms_step_def ms_serve_def)
  next
    case (Some lr)
    obtain l rest where lr: "lr = (l, rest)" by fastforce
    define line where "line = TrimRight l CRLF"
    define c1 where "c1 = c\<lparr>ms_input := rest\<rparr>"
    have c1: "ms_state c1 = ms_state c" "ms_mailbox c1 = ms_mailbox c" "ms_input c1 = rest" by (simp_all add: c1_def)
    obtain out where serve: "(if line = [] then (c1, rows, []) else ms_dispatch env turn line c1 rows) = (c', rows', out)"
      using assms False Some lr unfolding line_def c1_def by (auto simp: ms_step_def ms_serve_def Let_def split: prod.splits)
    consider "ms_tame c1 rows (c', rows', out)" | arg where "ms_command line = (''AUTHENTICATE'', arg)" "line \<noteq> []"
    proof (cases "line = [] \<or> fst (ms_command line) \<noteq> ''AUTHENTICATE''")
      case True
      then have "ms_tame c1 rows (if line = [] then (c1, rows, []) else ms_dispatch env turn line c1 rows)"
        by (intro ms_tame_if ms_tame_same ms_tame_dispatch) auto
      with serve that(1) show ?thesis by simp
    next
      case False
      with that(2) [of "snd (ms_command line)"] show ?thesis by (simp add: prod_eq_iff)
    qed
    then show ?thesis
    proof cases
      case 1
      with c1 show ?thesis by (intro that(1)) (auto simp: ms_tame_def)
    next
      case (2 arg)
      then have "handleAuthenticate env arg c1 rows = (c', rows', out)" using serve by (simp add: ms_dispatch_def)
      from handleAuthenticate_cases [OF this] consider
          "rows' = rows" "ms_state c' = ms_state c" "ms_mailbox c' = ms_mailbox c"
        | "rows' = rows" "ms_state c = msAuth" "ms_state c' = msMain" "ms_accepted env (c, rows) turn (ms_mailbox c')"
        using c1 2(1) Some lr unfolding ms_accepted_def line_def by fastforce
      then show ?thesis using that by cases simp_all
    qed
  qed
qed

interpretation managesieve: login_session "ms_step env" ms_owner snd "ms_accepted env" for env
proof
  fix s turn a assume own: "ms_owner s = Some a"
  obtain c rows where s: "s = (c, rows)" by fastforce
  obtain c' rows' where st: "ms_step env (c, rows) turn = (c', rows')" by fastforce
  from st show "ms_owner (ms_step env s turn) = Some a"
    by (cases rule: ms_step_cases) (use own s st in \<open>auto simp: ms_owner_def split: if_splits\<close>)
next
  fix s turn a assume own: "ms_owner s = None" and got: "ms_owner (ms_step env s turn) = Some a"
  obtain c rows where s: "s = (c, rows)" by fastforce
  obtain c' rows' where st: "ms_step env (c, rows) turn = (c', rows')" by fastforce
  from st show "ms_accepted env s turn a"
    by (cases rule: ms_step_cases) (use own got s st in \<open>auto simp: ms_owner_def split: if_splits\<close>)
next
  fix s turn assume own: "ms_owner s = None"
  obtain c rows where s: "s = (c, rows)" by fastforce
  obtain c' rows' where st: "ms_step env (c, rows) turn = (c', rows')" by fastforce
  from st show "snd (ms_step env s turn) = snd s"
    by (cases rule: ms_step_cases) (use own s st in \<open>auto simp: ms_owner_def split: if_splits\<close>)
qed

text \<open>
  C23. No ManageSieve session reaches the scripts of a mailbox without its password: whatever a client
  sends on a new connection, a session that is not logged in has left the script table as it was, and a
  session that is logged in as a mailbox has at some turn answered an AUTHENTICATE command with a
  SASL PLAIN response whose user and password are accepted for that mailbox.
\<close>

theorem managesieve_needs_credentials:
  "case foldl (ms_step env) (ms_newConn input, rows) turns of (c, rows') \<Rightarrow>
     if ms_state c = msAuth then rows' = rows
     else \<exists>before turn after payload decoded user pw r.
       turns = before @ turn # after \<and> DecodeString payload = Some decoded
       \<and> (\<exists>l rest arg. ReadLine (ms_input (fst (foldl (ms_step env) (ms_newConn input, rows) before))) = Some (l, rest)
            \<and> ms_command (TrimRight l CRLF) = (''AUTHENTICATE'', arg) \<and> sasl_response arg rest payload)
       \<and> sasl_plain decoded = Some (user, pw) \<and> ms_accounts env user = Inr (Some r) \<and> ma_id r = ms_mailbox c
       \<and> ms_compare env pw (ma_password_hash r) = Inr True"
proof -
  obtain c rows' where s: "foldl (ms_step env) (ms_newConn input, rows) turns = (c, rows')" by fastforce
  have start: "ms_owner (ms_newConn input, rows) = None" by (simp add: ms_owner_def ms_newConn_def)
  have main: "x \<noteq> msAuth \<longleftrightarrow> x = msMain" for x by (cases x) auto
  show ?thesis
  proof (cases "ms_state c = msAuth")
    case True
    with s managesieve.run_without_login [where s = "(ms_newConn input, rows)" and cs = turns and env = env] show ?thesis
      by (simp add: ms_owner_def)
  next
    case False
    with s have "ms_owner (foldl (ms_step env) (ms_newConn input, rows) turns) = Some (ms_mailbox c)"
      by (simp add: ms_owner_def main)
    from managesieve.run_owner_needs_login [OF start this] obtain before turn after where
      split: "turns = before @ turn # after" and
      acc: "ms_accepted env (foldl (ms_step env) (ms_newConn input, rows) before) turn (ms_mailbox c)"
      by blast
    from acc obtain l rest arg payload decoded user pw where
      sent: "ReadLine (ms_input (fst (foldl (ms_step env) (ms_newConn input, rows) before))) = Some (l, rest)"
        "ms_command (TrimRight l CRLF) = (''AUTHENTICATE'', arg)" "sasl_response arg rest payload"
        "DecodeString payload = Some decoded" "sasl_plain decoded = Some (user, pw)"
      and login: "ms_Login env user pw = Some (ms_mailbox c)"
      unfolding ms_accepted_def by blast
    from login obtain r where
      "ms_accounts env user = Inr (Some r)" "ma_id r = ms_mailbox c" "ms_compare env pw (ma_password_hash r) = Inr True"
      by (auto simp: ms_Login_def split: sum.splits option.splits if_splits)
    with False s split sent show ?thesis by simp blast
  qed
qed

section \<open>What is stored\<close>

definition script_valid :: "script_row \<Rightarrow> bool" where
  "script_valid r \<longleftrightarrow> length (sc_script r) \<le> MaxScriptSizeBytes \<and> ValidateSieveScript (sc_script r) = None"

definition scripts_good :: "scripts \<Rightarrow> bool" where
  "scripts_good rows \<longleftrightarrow> scripts_ok rows \<and> list_all script_valid rows"

lemma PutScript_Inr:
  "PutScript wr rows mb n c = Inr rows' \<Longrightarrow>
   rows' = repo_PutScript rows mb n c \<and> length c \<le> MaxScriptSizeBytes \<and> ValidateSieveScript c = None"
  by (auto simp: PutScript_def split: if_splits option.splits)

lemma SetActive_Inr: "SetActive rd wr rows mb n = Inr rows' \<Longrightarrow> repo_SetActiveScript rows mb n = Some rows'"
  by (auto simp: SetActive_def Let_def split: if_splits option.splits)

lemma DeleteScript_Inr: "DeleteScript rd wr rows mb n = Inr rows' \<Longrightarrow> rows' = repo_DeleteScript rows mb n"
  by (auto simp: DeleteScript_def split: if_splits option.splits)

lemma RenameScript_Inr:
  "RenameScript rd wr rows mb a b = Inr rows' \<Longrightarrow>
   script_view rows mb a \<noteq> None \<and> script_view rows mb b = None \<and> repo_RenameScript rows mb a b = Some rows'"
  by (auto simp: RenameScript_def script_view_def split: if_splits option.splits)

lemma script_change_cases [consumes 1, case_names put active del rename]:
  assumes "script_change mb rows rows'"
  obtains n c where "rows' = repo_PutScript rows mb n c" "length c \<le> MaxScriptSizeBytes" "ValidateSieveScript c = None"
    | n where "repo_SetActiveScript rows mb n = Some rows'"
    | n where "rows' = repo_DeleteScript rows mb n"
    | a b where "script_view rows mb a \<noteq> None" "script_view rows mb b = None" "repo_RenameScript rows mb a b = Some rows'"
  using assms unfolding script_change_def
  by (elim disjE exE) (blast dest: PutScript_Inr SetActive_Inr DeleteScript_Inr RenameScript_Inr)+

lemma valid_update:
  "list_all script_valid rows \<Longrightarrow> (\<And>r. P r \<Longrightarrow> script_valid r \<Longrightarrow> script_valid (u r)) \<Longrightarrow> list_all script_valid (update_where P u rows)"
  by (auto simp: list_all_iff update_where_def)

lemma script_change_good:
  assumes "script_change mb rows rows'" "scripts_good rows"
  shows "scripts_good rows'"
proof -
  have ok: "scripts_ok rows" and val: "list_all script_valid rows" using assms(2) by (simp_all add: scripts_good_def)
  from assms(1) have "scripts_ok rows' \<and> list_all script_valid rows'"
  proof (cases rule: script_change_cases)
    case (put n c)
    have "list_all script_valid rows'"
      using put val by (auto simp: repo_PutScript_def script_valid_def intro!: valid_update)
    with put table.ok_put [OF ok] show ?thesis by simp
  next
    case (active n)
    with ok val table.ok_activate [OF ok active] show ?thesis
      by (auto simp: repo_SetActiveScript_def Let_def script_valid_def split: if_splits intro!: valid_update)
  next
    case (del n)
    then have "list_all script_valid rows'" using val by (auto simp: repo_DeleteScript_def list_all_iff)
    with del table.ok_remove [OF ok] show ?thesis by simp
  next
    case (rename a b)
    with ok val table.ok_rename [OF ok rename(2,3)] show ?thesis
      by (auto simp: repo_RenameScript_def script_valid_def split: if_splits intro!: valid_update)
  qed
  then show ?thesis by (simp add: scripts_good_def)
qed

lemma script_change_others:
  assumes "script_change mb rows rows'" "scripts_ok rows" "mb' \<noteq> mb"
  shows "script_view rows' mb' n = script_view rows mb' n"
  using assms(1)
proof (cases rule: script_change_cases)
  case (put n' c)
  then show ?thesis using table.put_other_mailbox [OF assms(2,3)] by simp
next
  case (active n')
  then show ?thesis using table.get_activate [OF assms(2) active] assms(3) by simp
next
  case (del n')
  then show ?thesis using table.get_remove [OF assms(2)] assms(3) by simp
next
  case (rename a b)
  then show ?thesis using table.get_rename [OF assms(2) rename(2,3)] assms(3) by simp
qed

text \<open>The table stays well formed and differs from what it was only in the mailbox of the session.\<close>

definition session_inv :: "scripts \<Rightarrow> ms_conn \<times> scripts \<Rightarrow> bool" where
  "session_inv rows0 s \<longleftrightarrow> scripts_good (snd s)
     \<and> (\<forall>mb n. script_view (snd s) mb n \<noteq> script_view rows0 mb n \<longrightarrow> ms_owner s = Some mb)"

interpretation managesieve_table: invariant_machine "ms_step env" "session_inv rows0" for env rows0
proof
  fix s turn assume inv: "session_inv rows0 s"
  obtain c rows where s: "s = (c, rows)" by fastforce
  obtain c' rows' where st: "ms_step env (c, rows) turn = (c', rows')" by fastforce
  from st show "session_inv rows0 (ms_step env s turn)"
  proof (cases rule: ms_step_cases)
    case other
    show ?thesis
    proof (cases "rows' = rows")
      case True
      with other inv s st show ?thesis by (simp add: session_inv_def ms_owner_Some)
    next
      case False
      with other have main: "ms_state c = msMain" and ch: "script_change (ms_mailbox c) rows rows'" by auto
      have good: "scripts_good rows" and only: "\<And>mb n. script_view rows mb n \<noteq> script_view rows0 mb n \<Longrightarrow> mb = ms_mailbox c"
        using inv s main by (auto simp: session_inv_def ms_owner_Some)
      have "mb = ms_mailbox c" if "script_view rows' mb n \<noteq> script_view rows0 mb n" for mb n
        using script_change_others [OF ch, of mb n] good only that by (fastforce simp: scripts_good_def)
      with script_change_good [OF ch good] other main s st show ?thesis
        by (simp add: session_inv_def ms_owner_Some)
    qed
  next
    case login
    with inv s st show ?thesis by (simp add: session_inv_def ms_owner_Some)
  qed
qed

text \<open>
  Whatever a client sends on a new connection, the script table stays well formed: a name at most
  once per mailbox, at most one active script per mailbox, and every script within the size limit
  and accepted by the validator. And the session changes no script of another mailbox: where the table
  answers differently than before, the session is logged in as that mailbox.
\<close>

theorem managesieve_keeps_table:
  assumes "scripts_good rows"
  shows "case foldl (ms_step env) (ms_newConn input, rows) turns of (c, rows') \<Rightarrow>
    scripts_good rows'
    \<and> (\<forall>mb n. script_view rows' mb n \<noteq> script_view rows mb n \<longrightarrow> ms_state c = msMain \<and> ms_mailbox c = mb)"
proof -
  have "session_inv rows (ms_newConn input, rows)" using assms by (simp add: session_inv_def)
  from managesieve_table.run_inv [OF this, of env turns] show ?thesis
    by (cases "foldl (ms_step env) (ms_newConn input, rows) turns") (simp add: session_inv_def ms_owner_Some)
qed

definition demo_script :: string where "demo_script = ''keep;''"

definition demo_scripts :: scripts where
  "demo_scripts =
     [\<lparr>sc_mailbox = 1, sc_name = ''main'', sc_script = demo_script, sc_active = True\<rparr>,
      \<lparr>sc_mailbox = 1, sc_name = ''old'', sc_script = demo_script, sc_active = False\<rparr>,
      \<lparr>sc_mailbox = 2, sc_name = ''main'', sc_script = demo_script, sc_active = False\<rparr>]"

lemma demo_script_valid: "ValidateSieveScript demo_script = None" "length demo_script \<le> MaxScriptSizeBytes"
  subgoal by code_simp
  subgoal by (simp add: demo_script_def MaxScriptSizeBytes_def)
  done

lemma demo_scripts_good: "scripts_good demo_scripts"
proof -
  have "scripts_ok demo_scripts" by (simp add: scripts_ok_def demo_scripts_def script_key_def)
  moreover have "list_all script_valid demo_scripts"
    by (simp add: demo_scripts_def script_valid_def demo_script_valid)
  ultimately show ?thesis by (simp add: scripts_good_def)
qed

definition demo_ms_env :: ms_env where
  "demo_ms_env = \<lparr>ms_accounts = (\<lambda>_. Inr None), ms_compare = (\<lambda>_ _. Inr False), ms_tls_provider = False, db_error_text = ''db''\<rparr>"

theorem managesieve_keeps_table_witness:
  "scripts_good demo_scripts \<and> (case foldl (ms_step demo_ms_env) (ms_newConn ''LOGOUT'', demo_scripts)
      [\<lparr>rd_ok = True, wr_ok = True, tls_input = None\<rparr>] of (c, rows') \<Rightarrow>
    scripts_good rows'
    \<and> (\<forall>mb n. script_view rows' mb n \<noteq> script_view demo_scripts mb n \<longrightarrow> ms_state c = msMain \<and> ms_mailbox c = mb))"
  by (rule conjI [OF demo_scripts_good managesieve_keeps_table [OF demo_scripts_good]])

section \<open>Uploading and downloading\<close>

lemma ReadLine_append: "LF \<notin> set l \<Longrightarrow> ReadLine (l @ LF # rest) = Some (l @ [LF], rest)"
  unfolding ReadLine_def by (subst IndexFunc_append) auto

lemma ReadLine_CRLF: "LF \<notin> set l \<Longrightarrow> ReadLine (l @ CR # LF # rest) = Some (l @ CRLF, rest)"
  using ReadLine_append [of "l @ [CR]" rest] by simp

lemma parseStringLiteral_quoted: "parseStringLiteral (DQUOTE # s @ [DQUOTE]) = s"
proof -
  have "TrimSpace (DQUOTE # s @ [DQUOTE]) = DQUOTE # s @ [DQUOTE]" by (rule TrimSpace_ends) (simp_all add: IsSpace_def)
  moreover have "HasSuffix (DQUOTE # s @ [DQUOTE]) [DQUOTE]" by (metis HasSuffix_append append_Cons)
  ultimately show ?thesis by (simp add: parseStringLiteral_def Let_def HasPrefix_single)
qed

definition quoted_name :: "string \<Rightarrow> string" where "quoted_name s = DQUOTE # s @ [DQUOTE]"

text \<open>The literal \<^verbatim>\<open>{n+}\<close> of a content, and the two commands as a client writes them.\<close>

definition literal_header :: "string \<Rightarrow> string" where
  "literal_header content = CHR ''{'' # ItoaNat (length content) @ ''+}''"

definition put_command :: "string \<Rightarrow> string \<Rightarrow> string" where
  "put_command name content = ''PUTSCRIPT '' @ quoted_name name @ '' '' @ literal_header content"

definition get_command :: "string \<Rightarrow> string" where
  "get_command name = ''GETSCRIPT '' @ quoted_name name"

lemma sizeStr_literal:
  "TrimSuffix (TrimSuffix (TrimPrefix (literal_header content) ''{'') ''}'') ''+'' = ItoaNat (length content)"
proof -
  have "TrimPrefix (literal_header content) ''{'' = ItoaNat (length content) @ ''+}''"
    by (simp add: literal_header_def TrimPrefix_def HasPrefix_single)
  moreover have "TrimSuffix (s @ ''+}'') ''}'' = s @ ''+''" for s
    using HasSuffix_append [of "s @ ''+''" "''}''"] by (simp add: TrimSuffix_def)
  moreover have "TrimSuffix (s @ ''+'') ''+'' = s" for s by (simp add: TrimSuffix_def)
  ultimately show ?thesis by simp
qed

lemma literal_header_shape:
  "TrimSpace (literal_header content) = literal_header content" "HasPrefix (literal_header content) ''{''"
  "HasSuffix (literal_header content) ''}''" "LF \<notin> set (literal_header content)"
proof -
  have eq: "literal_header content = CHR ''{'' # (ItoaNat (length content) @ ''+'') @ [CHR ''}'']"
    by (simp add: literal_header_def)
  show "TrimSpace (literal_header content) = literal_header content"
    unfolding eq by (rule TrimSpace_ends) (simp_all add: IsSpace_def)
  show "HasPrefix (literal_header content) ''{''" by (simp add: eq HasPrefix_single)
  show "HasSuffix (literal_header content) ''}''" by (metis eq HasSuffix_append append_Cons)
  show "LF \<notin> set (literal_header content)" by (simp add: literal_header_def not_in_ItoaNat digit_value_def)
qed

lemma parseNameAndContent_literal:
  assumes "CHR '' '' \<notin> set name" "length content \<le> MaxScriptSizeBytes"
  shows "parseNameAndContent (quoted_name name @ '' '' @ literal_header content) (content @ CRLF @ rest) = (Parsed (name, content), rest)"
proof -
  have cut: "Cut (quoted_name name @ '' '' @ literal_header content) CHR '' '' = (quoted_name name, Some (literal_header content))"
    using assms(1) Cut_append [of "CHR '' ''" "quoted_name name"] by (simp add: quoted_name_def)
  have small: "length content < 2 ^ 63" using assms(2) by (simp add: MaxScriptSizeBytes_def)
  have "\<not> int (length content) > maxAlloc" using assms(2) by (simp add: MaxScriptSizeBytes_def maxAlloc_def)
  with cut literal_header_shape sizeStr_literal Atoi_ItoaNat [OF small] ReadLine_CRLF [of "[]"] show ?thesis
    by (simp add: parseNameAndContent_def parseStringLiteral_quoted quoted_name_def Let_def)
qed

lemma ms_serve_line:
  assumes "\<not> ms_closed c" "ms_input c = line @ CRLF @ rest" "LF \<notin> set line" "line \<noteq> []" "last line \<noteq> CR"
  shows "ms_serve env (c, rows) turn = ms_dispatch env turn line (c\<lparr>ms_input := rest\<rparr>) rows"
proof -
  have "last line \<noteq> LF" using assms(3,4) by (metis last_in_set)
  with assms show ?thesis by (simp add: ms_serve_def ReadLine_CRLF TrimRight_CRLF Let_def)
qed

lemma ms_command_put: "ms_command (put_command name content) = (''PUTSCRIPT'', quoted_name name @ '' '' @ literal_header content)"
  using Cut_append [of "CHR '' ''" "''PUTSCRIPT''" "quoted_name name @ '' '' @ literal_header content"]
  by (simp add: ms_command_def put_command_def ToUpper_def ToUpperChar_def)

lemma ms_command_get: "ms_command (get_command name) = (''GETSCRIPT'', quoted_name name)"
  using Cut_append [of "CHR '' ''" "''GETSCRIPT''" "quoted_name name"]
  by (simp add: ms_command_def get_command_def ToUpper_def ToUpperChar_def)

lemma serve_put:
  assumes "\<not> ms_closed c" "ms_state c = msMain" "ms_input c = put_command name content @ CRLF @ content @ CRLF @ rest"
    and "CHR '' '' \<notin> set name" "LF \<notin> set name" "length content \<le> MaxScriptSizeBytes"
  shows "ms_serve env (c, rows) turn =
    (case PutScript (wr_ok turn) rows (ms_mailbox c) name content of
       Inl e \<Rightarrow> (c\<lparr>ms_input := rest\<rparr>, rows, NO (script_error_text env e))
     | Inr rows' \<Rightarrow> (c\<lparr>ms_input := rest\<rparr>, rows', OK ''PUTSCRIPT completed.''))"
proof -
  have "LF \<notin> set (put_command name content)" "put_command name content \<noteq> []" "last (put_command name content) \<noteq> CR"
    using assms(5) literal_header_shape(4) by (auto simp: put_command_def quoted_name_def literal_header_def)
  from ms_serve_line [OF assms(1,3) this] show ?thesis
    using assms(2) parseNameAndContent_literal [OF assms(4,6)]
    by (simp add: ms_dispatch_def ms_command_put handlePutScript_def split: sum.split)
qed

lemma serve_get:
  assumes "\<not> ms_closed c" "ms_input c = get_command name @ CRLF @ rest" "LF \<notin> set name"
  shows "ms_serve env (c, rows) turn = handleGetScript turn (quoted_name name) (c\<lparr>ms_input := rest\<rparr>) rows"
proof -
  have "LF \<notin> set (get_command name)" "get_command name \<noteq> []" "last (get_command name) \<noteq> CR"
    using assms(3) by (auto simp: get_command_def quoted_name_def)
  from ms_serve_line [OF assms(1,2) this] show ?thesis by (simp add: ms_dispatch_def ms_command_get)
qed

text \<open>
  C24. A script that is uploaded under a name without a space comes back byte for byte: on a logged-in connection,
  PUTSCRIPT with a non-empty quoted name that holds no space and no line feed and with a
  literal of any valid content within the limit (line breaks, braces and quotes included), followed by
  GETSCRIPT of the name, when the database answers both: the two commands are answered, nothing else of what the
  client sent is consumed, and the second answer is the literal with exactly the content that was sent. A name with
  a space does not work (\<open>name_with_space_is_split\<close>): the command is split at its first space.
\<close>

theorem managesieve_upload_roundtrip:
  assumes "\<not> ms_closed c" "ms_state c = msMain" "scripts_ok rows"
    and input: "ms_input c = put_command name content @ CRLF @ content @ CRLF @ get_command name @ CRLF @ rest"
    and name: "name \<noteq> []" "CHR '' '' \<notin> set name" "LF \<notin> set name"
    and content: "length content \<le> MaxScriptSizeBytes" "ValidateSieveScript content = None"
    and db: "wr_ok t1" "rd_ok t2"
  shows "\<exists>c1 c2 rows'. ms_serve env (c, rows) t1 = (c1, rows', OK ''PUTSCRIPT completed.'')
    \<and> ms_serve env (c1, rows') t2 =
        (c2, rows', literal_header content @ CRLF @ content @ CRLF @ OK ''GETSCRIPT completed.'')
    \<and> ms_input c2 = rest"
proof -
  define rows' where "rows' = repo_PutScript rows (ms_mailbox c) name content"
  define c1 where "c1 = c\<lparr>ms_input := get_command name @ CRLF @ rest\<rparr>"
  have put: "ms_serve env (c, rows) t1 = (c1, rows', OK ''PUTSCRIPT completed.'')"
    using serve_put [OF assms(1,2) input name(2,3) content(1)] content db
    by (simp add: PutScript_def rows'_def c1_def)
  have "\<exists>a. script_view rows' (ms_mailbox c) name = Some (content, a)"
    unfolding rows'_def using assms(3) by (rule table.put_then_get)
  then obtain r where r: "repo_GetScript rows' (ms_mailbox c) name = Some r" "sc_script r = content"
    by (auto simp: script_view_def)
  have c1: "\<not> ms_closed c1" "ms_input c1 = get_command name @ CRLF @ rest" using assms(1) by (simp_all add: c1_def)
  have "ms_serve env (c1, rows') t2 =
      (c1\<lparr>ms_input := rest\<rparr>, rows', literal_header content @ CRLF @ content @ CRLF @ OK ''GETSCRIPT completed.'')"
    using serve_get [OF c1 name(3)] r name db assms(2)
    by (simp add: handleGetScript_def GetScript_def quoted_name_def parseStringLiteral_quoted literal_header_def c1_def Let_def)
  with put show ?thesis by fastforce
qed

text \<open>
  The command of a script called \<^verbatim>\<open>my script\<close>: the name is taken to be the part up to the space, the rest of it
  and the announcement of the literal to be the content, and the literal itself stays in the input, where the loop reads it as
  commands.
\<close>

lemma name_with_space_is_split:
  "parseNameAndContent ([DQUOTE] @ ''my script'' @ [DQUOTE] @ '' {8+}'') input
     = (Parsed (DQUOTE # ''my'', ''script'' @ [DQUOTE] @ '' {8+}''), input)"
proof -
  have "Cut ([DQUOTE] @ ''my script'' @ [DQUOTE] @ '' {8+}'') CHR '' '' = (DQUOTE # ''my'', Some (''script'' @ [DQUOTE] @ '' {8+}''))"
    "parseStringLiteral (DQUOTE # ''my'') = DQUOTE # ''my''"
    "TrimSpace (''script'' @ [DQUOTE] @ '' {8+}'') = ''script'' @ [DQUOTE] @ '' {8+}''"
    "parseStringLiteral (''script'' @ [DQUOTE] @ '' {8+}'') = ''script'' @ [DQUOTE] @ '' {8+}''"
    "\<not> HasPrefix (''script'' @ [DQUOTE] @ '' {8+}'') ''{''"
    by code_simp+
  then show ?thesis by (simp add: parseNameAndContent_def Let_def)
qed

definition demo_conn :: "string \<Rightarrow> ms_conn" where
  "demo_conn input = (ms_newConn input)\<lparr>ms_state := msMain, ms_mailbox := 1\<rparr>"

definition demo_turn :: ms_turn where
  "demo_turn = \<lparr>rd_ok = True, wr_ok = True, tls_input = None\<rparr>"

theorem managesieve_upload_roundtrip_witness:
  "\<exists>c1 c2 rows'.
     ms_serve demo_ms_env
       (demo_conn (put_command ''new'' demo_script @ CRLF @ demo_script @ CRLF @ get_command ''new'' @ CRLF @ ''LOGOUT''), demo_scripts)
       demo_turn = (c1, rows', OK ''PUTSCRIPT completed.'')
    \<and> ms_serve demo_ms_env (c1, rows') demo_turn =
        (c2, rows', literal_header demo_script @ CRLF @ demo_script @ CRLF @ OK ''GETSCRIPT completed.'')
    \<and> ms_input c2 = ''LOGOUT''"
proof -
  have "scripts_ok demo_scripts" using demo_scripts_good by (simp add: scripts_good_def)
  then show ?thesis
    by (intro managesieve_upload_roundtrip [where name = "''new''" and content = demo_script])
       (use demo_script_valid in \<open>simp_all add: demo_conn_def ms_newConn_def demo_turn_def\<close>)
qed

section \<open>The script in force\<close>

definition active_content :: "scripts \<Rightarrow> nat \<Rightarrow> string option" where
  "active_content rows mb = map_option sc_script (find (\<lambda>r. sc_mailbox r = mb \<and> sc_active r) rows)"

lemma ActiveScriptFor_content: "ActiveScriptFor rows mb = (case active_content rows mb of None \<Rightarrow> [] | Some c \<Rightarrow> c)"
  by (simp add: ActiveScriptFor_def active_content_def split: option.split)

lemma active_content_Some:
  assumes ok: "scripts_ok rows"
  shows "active_content rows mb = Some c \<longleftrightarrow> (\<exists>n. script_view rows mb n = Some (c, True))"
proof
  assume "active_content rows mb = Some c"
  then obtain r where r: "r \<in> set rows" "sc_mailbox r = mb" "sc_active r" "sc_script r = c"
    by (auto simp: active_content_def dest: find_SomeD)
  have "repo_GetScript rows mb (sc_name r) = Some r"
    unfolding repo_GetScript_def
    by (rule find_unique) (use ok r in \<open>auto simp: scripts_ok_def is_script_def script_key_def intro: distinct_key_eq\<close>)
  with r show "\<exists>n. script_view rows mb n = Some (c, True)" by (auto simp: script_view_def)
next
  assume "\<exists>n. script_view rows mb n = Some (c, True)"
  then obtain r where r: "r \<in> set rows" "sc_mailbox r = mb" "sc_active r" "sc_script r = c"
    by (auto simp: script_view_def script_key_def dest: GetScript_Some)
  have "find (\<lambda>r. sc_mailbox r = mb \<and> sc_active r) rows = Some r"
    by (rule find_unique) (use r scripts_ok_active [OF ok] in auto)
  with r show "active_content rows mb = Some c" by (simp add: active_content_def)
qed

lemma active_content_cong:
  assumes "scripts_ok rows" "scripts_ok rows'"
    and "\<And>c. (\<exists>n. script_view rows' mb n = Some (c, True)) \<longleftrightarrow> (\<exists>n. script_view rows mb n = Some (c, True))"
  shows "active_content rows' mb = active_content rows mb"
proof -
  have "active_content rows' mb = Some c \<longleftrightarrow> active_content rows mb = Some c" for c
    using assms(3) active_content_Some [OF assms(1)] active_content_Some [OF assms(2)] by simp
  then show ?thesis by (metis option.exhaust)
qed

lemma active_content_activate:
  assumes ok: "scripts_ok rows" and act: "SetActive rd wr rows mb n = Inr rows'"
  shows "active_content rows' mb' = (if mb' = mb then map_option fst (if n = [] then None else script_view rows mb n)
     else active_content rows mb')"
proof -
  have res: "repo_SetActiveScript rows mb n = Some rows'" using act by (rule SetActive_Inr)
  have ok': "scripts_ok rows'" using ok res by (rule table.ok_activate)
  show ?thesis
  proof (cases "mb' = mb")
    case True
    have "active_content rows' mb = Some c \<longleftrightarrow> map_option fst (if n = [] then None else script_view rows mb n) = Some c" for c
      unfolding active_content_Some [OF ok'] table.get_activate [OF ok res] by auto
    then show ?thesis using True by (metis option.exhaust)
  next
    case False
    then show ?thesis
      using active_content_cong [OF ok ok'] table.get_activate [OF ok res] by simp
  qed
qed

lemma active_content_put:
  assumes ok: "scripts_ok rows" and put: "PutScript wr rows mb n content = Inr rows'"
  shows "active_content rows' mb' =
    (if mb' = mb \<and> (\<exists>old. script_view rows mb n = Some (old, True)) then Some content else active_content rows mb')"
proof -
  have rows': "rows' = repo_PutScript rows mb n content" using put by (auto dest: PutScript_Inr)
  have ok': "scripts_ok rows'" unfolding rows' using ok by (rule table.ok_put)
  have view: "script_view rows' mb' m = (if mb' = mb \<and> m = n
      then Some (content, case script_view rows mb n of Some (_, a) \<Rightarrow> a | None \<Rightarrow> False) else script_view rows mb' m)" for mb' m
    unfolding rows' using ok by (rule table.get_put)
  show ?thesis
  proof (cases "mb' = mb \<and> (\<exists>old. script_view rows mb n = Some (old, True))")
    case True
    then have "active_content rows' mb' = Some content" using view [of mb' n] by (auto simp: active_content_Some [OF ok'])
    with True show ?thesis by simp
  next
    case False
    then have same: "script_view rows' mb' m = Some (c, True) \<longleftrightarrow> script_view rows mb' m = Some (c, True)" for m c
      by (cases "mb' = mb \<and> m = n") (auto simp: view split: option.split)
    have "active_content rows' mb' = active_content rows mb'"
      by (intro active_content_cong [OF ok ok']) (simp only: same)
    with False show ?thesis by auto
  qed
qed

lemma active_content_remove:
  assumes ok: "scripts_ok rows" and del: "DeleteScript rd wr rows mb n = Inr rows'"
  shows "active_content rows' mb' = active_content rows mb'"
proof -
  have rows': "rows' = repo_DeleteScript rows mb n" using del by (rule DeleteScript_Inr)
  have same: "script_view rows' mb' m = Some (c, True) \<longleftrightarrow> script_view rows mb' m = Some (c, True)" for m c
    unfolding rows' table.get_remove [OF ok] by auto
  show ?thesis
    unfolding rows' by (intro active_content_cong [OF ok table.ok_remove [OF ok]]) (simp only: same [unfolded rows'])
qed

lemma active_content_rename:
  assumes ok: "scripts_ok rows" and ren: "RenameScript rd wr rows mb n n' = Inr rows'"
  shows "active_content rows' mb' = active_content rows mb'"
proof -
  have none: "script_view rows mb n' = None" and res: "repo_RenameScript rows mb n n' = Some rows'"
    using ren by (auto dest: RenameScript_Inr)
  have ok': "scripts_ok rows'" using ok none res by (rule table.ok_rename)
  have view: "script_view rows' mb' m = (if mb' = mb \<and> m = n' then script_view rows mb n
      else if mb' = mb \<and> m = n then None else script_view rows mb' m)" for m
    using ok none res by (rule table.get_rename)
  show ?thesis
  proof (rule active_content_cong [OF ok ok'])
    fix c
    show "(\<exists>m. script_view rows' mb' m = Some (c, True)) \<longleftrightarrow> (\<exists>m. script_view rows mb' m = Some (c, True))"
      using view none by (metis option.distinct(1))
  qed
qed

text \<open>
  Which script filters the mail of a mailbox: after a successful SETACTIVE of a name it is that script
  as it was stored, after SETACTIVE of the empty name it is none; an upload changes it only when it
  replaces the script in force, and then to the uploaded content; deleting and renaming never change it;
  and none of these changes the script in force of another mailbox.
\<close>

lemma active_script_in_force:
  assumes ok: "scripts_ok rows"
  shows "(SetActive rd wr rows mb n = Inr rows' \<longrightarrow> ActiveScriptFor rows' mb' =
        (if mb' \<noteq> mb then ActiveScriptFor rows mb' else if n = [] then [] else sc_script (the (repo_GetScript rows mb n))))
    \<and> (PutScript wr rows mb n content = Inr rows' \<longrightarrow> ActiveScriptFor rows' mb' =
        (if mb' = mb \<and> (\<exists>old. script_view rows mb n = Some (old, True)) then content else ActiveScriptFor rows mb'))
    \<and> (DeleteScript rd wr rows mb n = Inr rows' \<longrightarrow> ActiveScriptFor rows' mb' = ActiveScriptFor rows mb')
    \<and> (RenameScript rd wr rows mb n n' = Inr rows' \<longrightarrow> ActiveScriptFor rows' mb' = ActiveScriptFor rows mb')"
proof (intro conjI impI)
  assume act: "SetActive rd wr rows mb n = Inr rows'"
  then have "n \<noteq> [] \<Longrightarrow> repo_GetScript rows mb n \<noteq> None"
    by (auto simp: SetActive_def Let_def split: if_splits)
  then show "ActiveScriptFor rows' mb' =
      (if mb' \<noteq> mb then ActiveScriptFor rows mb' else if n = [] then [] else sc_script (the (repo_GetScript rows mb n)))"
    using active_content_activate [OF ok act, of mb'] by (auto simp: ActiveScriptFor_content script_view_def)
qed (auto simp: ActiveScriptFor_content active_content_put [OF ok] active_content_remove [OF ok] active_content_rename [OF ok])

theorem active_script_in_force_witness:
  "\<exists>rows'. SetActive True True demo_scripts 1 ''old'' = Inr rows' \<and> ActiveScriptFor rows' 1 = demo_script"
proof -
  have ok: "scripts_ok demo_scripts" using demo_scripts_good by (simp add: scripts_good_def)
  have get: "repo_GetScript demo_scripts 1 ''old'' =
      Some \<lparr>sc_mailbox = 1, sc_name = ''old'', sc_script = demo_script, sc_active = False\<rparr>"
    by (simp add: repo_GetScript_def is_script_def demo_scripts_def)
  have "\<exists>rows'. SetActive True True demo_scripts 1 ''old'' = Inr rows'"
    using get by (simp add: SetActive_def repo_SetActiveScript_def is_script_def demo_scripts_def update_where_def Let_def)
  then obtain rows' where res: "SetActive True True demo_scripts 1 ''old'' = Inr rows'" by blast
  have "ActiveScriptFor rows' 1 = demo_script"
    using active_script_in_force [OF ok, of True True 1 "''old''" rows' 1] res get by simp
  with res show ?thesis by blast
qed

section \<open>A literal before the login\<close>

text \<open>
  CHECKSCRIPT asks for no login and reads a literal of any announced size; a size beyond what the
  runtime can allocate ends the process.
\<close>

lemma checkscript_crashes_before_login:
  "case ms_serve env (ms_newConn (''CHECKSCRIPT {281474976710657}'' @ CRLF), rows) turn of (c, rows', out) \<Rightarrow>
     ms_state c = msAuth \<and> ms_crashed c"
proof -
  have atoi: "Atoi ''281474976710657'' = Some 281474976710657"
    by (simp add: Atoi_def HasPrefix_def digit_value_def)
  have "parseNameAndContent ([DQUOTE, DQUOTE] @ '' '' @ ''{281474976710657}'') [] = (Panic, [])"
    by (simp add: parseNameAndContent_def Cut_def parseStringLiteral_def TrimSpace_def TrimFunc_def TrimRightFunc_def IsSpace_def
        HasPrefix_def HasSuffix_def TrimSuffix_def TrimPrefix_def atoi maxAlloc_def Let_def)
  moreover have "ms_command ''CHECKSCRIPT {281474976710657}'' = (''CHECKSCRIPT'', ''{281474976710657}'')"
    by (simp add: ms_command_def Cut_def ToUpper_def ToUpperChar_def)
  moreover have "ms_serve env (ms_newConn (''CHECKSCRIPT {281474976710657}'' @ CRLF), rows) turn
     = ms_dispatch env turn ''CHECKSCRIPT {281474976710657}'' (ms_newConn []) rows"
    using ms_serve_line [of "ms_newConn (''CHECKSCRIPT {281474976710657}'' @ CRLF)" "''CHECKSCRIPT {281474976710657}''" "[]"]
    by (simp add: ms_newConn_def)
  ultimately show ?thesis by (simp add: ms_dispatch_def handleCheckScript_def HasPrefix_def ms_newConn_def)
qed

end
