(* ===== verification/TLS_Policy.thy ===== *)
theory TLS_Policy
  imports Prelude
begin

text \<open>
  The transport security of outgoing mail: \<^verbatim>\<open>domain/entity/tls_policy.go\<close>,
  \<^verbatim>\<open>domain/valueobject/tlsa_record.go\<close> and \<^verbatim>\<open>mta_sts_policy.go\<close>, the resolver
  \<^verbatim>\<open>infrastructure/tlspolicy/resolver.go\<close> with its cache, the TLSA lookup of
  \<^verbatim>\<open>netdns/tlsa_resolver.go\<close>, and the order of mail exchangers of
  \<^verbatim>\<open>netdns/mx_resolver.go\<close>.

  The replies of the DNS server and the body of an HTTPS response are inputs. SHA-256 is a parameter. Times are
  nanoseconds; a cache entry is kept under the name of its domain.
\<close>

section \<open>TLSA records\<close>

record TLSARecord =
  tlsa_usage :: nat
  tlsa_selector :: nat
  tlsa_matchingType :: nat
  tlsa_data :: string

datatype tlsa_error = ErrTLSAUsageUnsupported | ErrTLSADataWrongLength

definition NewTLSARecord :: "nat \<Rightarrow> nat \<Rightarrow> nat \<Rightarrow> string \<Rightarrow> tlsa_error + TLSARecord" where
  "NewTLSARecord use sel mt dat =
     (if use \<noteq> 3 then Inl ErrTLSAUsageUnsupported
      else if mt = 1 \<and> length dat \<noteq> 64 then Inl ErrTLSADataWrongLength
      else Inr \<lparr>tlsa_usage = use, tlsa_selector = sel, tlsa_matchingType = mt, tlsa_data = dat\<rparr>)"

section \<open>Policies\<close>

definition TLSModeDane :: string where "TLSModeDane = ''dane''"
definition TLSModeMtaSts :: string where "TLSModeMtaSts = ''mta-sts''"
definition TLSModeOpportunistic :: string where "TLSModeOpportunistic = ''opportunistic''"
definition TLSModeRelay :: string where "TLSModeRelay = ''relay''"
definition TLSModeLocal :: string where "TLSModeLocal = ''local''"

record tls_policy =
  daneAvailable :: bool
  mtaSTSAvailable :: bool
  enforce :: bool
  mxPatterns :: "string list"
  tlsaRecords :: "TLSARecord list"

definition NewTLSPolicy :: "bool \<Rightarrow> bool \<Rightarrow> tls_policy" where
  "NewTLSPolicy d m = \<lparr>daneAvailable = d, mtaSTSAvailable = m, enforce = False, mxPatterns = [], tlsaRecords = []\<rparr>"

definition NewDanePolicy :: "TLSARecord list \<Rightarrow> tls_policy" where
  "NewDanePolicy records =
     \<lparr>daneAvailable = True, mtaSTSAvailable = False, enforce = True, mxPatterns = [], tlsaRecords = records\<rparr>"

definition entity_NewMtaStsPolicy :: "string list \<Rightarrow> bool \<Rightarrow> tls_policy" where
  "entity_NewMtaStsPolicy patterns enf =
     \<lparr>daneAvailable = False, mtaSTSAvailable = True, enforce = enf, mxPatterns = patterns, tlsaRecords = []\<rparr>"

definition Effective :: "tls_policy \<Rightarrow> string" where
  "Effective p = (if daneAvailable p then TLSModeDane else if mtaSTSAvailable p then TLSModeMtaSts else TLSModeOpportunistic)"

definition RequiresValidation :: "tls_policy \<Rightarrow> bool" where
  "RequiresValidation p \<longleftrightarrow> enforce p \<and> (daneAvailable p \<or> mtaSTSAvailable p)"

definition matchMxPattern :: "string \<Rightarrow> string \<Rightarrow> bool" where
  "matchMxPattern pattern0 host0 =
     (let pattern = ToLower (TrimSuffix pattern0 ''.''); host = ToLower (TrimSuffix host0 ''.'')
      in if \<not> HasPrefix pattern ''*.'' then pattern = host
         else let suffix = tl pattern
              in if \<not> HasSuffix host suffix then False
                 else let label = TrimSuffix host suffix in label \<noteq> [] \<and> \<not> Contains label ''.'')"

definition CoversHost :: "tls_policy \<Rightarrow> string \<Rightarrow> bool" where
  "CoversHost p host \<longleftrightarrow> (\<not> mtaSTSAvailable p \<or> list_ex (\<lambda>pattern. matchMxPattern pattern host) (mxPatterns p))"

text \<open>What a certificate offers to a TLSA record: its bytes and those of its public key.\<close>

record certificate =
  cert_Raw :: string
  cert_RawSubjectPublicKeyInfo :: string

definition hex_digits :: "char \<Rightarrow> string" where
  "hex_digits c =
     (let n = (of_char c :: nat); d = (\<lambda>k. if k < 10 then char_of (48 + k) else char_of (87 + k))
      in [d (n div 16), d (n mod 16)])"

definition hex_EncodeToString :: "string \<Rightarrow> string" where
  "hex_EncodeToString s = concat (map hex_digits s)"

definition digestFor :: "(string \<Rightarrow> string) \<Rightarrow> certificate \<Rightarrow> TLSARecord \<Rightarrow> string" where
  "digestFor sha256 cert r =
     (case (if tlsa_selector r = 0 then Some (cert_Raw cert)
            else if tlsa_selector r = 1 then Some (cert_RawSubjectPublicKeyInfo cert) else None) of
        None \<Rightarrow> []
      | Some material \<Rightarrow>
          if tlsa_matchingType r = 0 then ToLower (hex_EncodeToString material)
          else if tlsa_matchingType r = 1 then hex_EncodeToString (sha256 material)
          else [])"

definition MatchesCertificate :: "(string \<Rightarrow> string) \<Rightarrow> tls_policy \<Rightarrow> certificate list \<Rightarrow> bool" where
  "MatchesCertificate sha256 p chain \<longleftrightarrow>
     tlsaRecords p \<noteq> [] \<and> chain \<noteq> [] \<and>
     list_ex (\<lambda>r. digestFor sha256 (hd chain) r = ToLower (tlsa_data r)) (tlsaRecords p)"

section \<open>The policy file\<close>

record MtaStsPolicy =
  sts_Version :: string
  sts_Mode :: string
  sts_MX :: "string list"
  sts_MaxAge :: int

definition NewMtaStsPolicy :: "string \<Rightarrow> string list \<Rightarrow> int \<Rightarrow> MtaStsPolicy" where
  "NewMtaStsPolicy md mx maxAgeSeconds =
     \<lparr>sts_Version = ''STSv1'', sts_Mode = md, sts_MX = mx,
      sts_MaxAge = (if maxAgeSeconds \<le> 0 then 604800 else maxAgeSeconds)\<rparr>"

definition sts_Format :: "MtaStsPolicy \<Rightarrow> string" where
  "sts_Format p =
     ''version: '' @ sts_Version p @ CRLF
     @ ''mode: '' @ sts_Mode p @ CRLF
     @ concat (map (\<lambda>mxHost. ''mx: '' @ mxHost @ CRLF) (sts_MX p))
     @ ''max_age: '' @ Itoa (sts_MaxAge p) @ CRLF"

text \<open>
  \<^verbatim>\<open>strconv.Atoi\<close> also returns a value with an error, 0 for a syntax error and the nearest
  bound for a range error; both lie outside the accepted range of \<^verbatim>\<open>max_age\<close>, so 0 stands
  for both.
\<close>

definition policy_line :: "string \<times> string list \<times> int \<Rightarrow> string \<Rightarrow> string \<times> string list \<times> int" where
  "policy_line acc line =
     (case Cut (TrimSpace line) CHR '':'' of
        (_, None) \<Rightarrow> acc
      | (k, Some v) \<Rightarrow>
          let key = ToLower (TrimSpace k); val = TrimSpace v; (mode, mx, maxAge) = acc
          in if key = ''mode'' then (ToLower val, mx, maxAge)
             else if key = ''mx'' then (mode, mx @ [val], maxAge)
             else if key = ''max_age'' then (mode, mx, case Atoi val of None \<Rightarrow> 0 | Some n \<Rightarrow> n)
             else acc)"

definition parsePolicy :: "string \<Rightarrow> string \<times> string list \<times> int" where
  "parsePolicy body =
     (case foldl policy_line ([], [], 0) (Split body LF) of
        (mode, mx, maxAge) \<Rightarrow> (mode, mx, if maxAge \<le> 0 \<or> maxAge > 31557600 then 86400 else maxAge))"

section \<open>The resolver\<close>

record cachedPolicy =
  cp_policy :: tls_policy
  cp_expiresAt :: int
  cp_absent :: bool

type_synonym policy_cache = "string \<Rightarrow> cachedPolicy option"

text \<open>
  What the network answers: the reply of the validating DNS server to a TLSA question
  (\<^const>\<open>None\<close> when the exchange fails), and the body of the policy URL of a domain
  (\<^const>\<open>None\<close> when the request, its status or reading it fails). Of a reply the lookup
  reads the response code, the answer section and the validation bit; an answer of another
  type, such as an alias, is \<^const>\<open>None\<close> in the list.
\<close>

datatype rcode = RcodeSuccess | RcodeNameError | RcodeOther nat

record tlsa_rr =
  rr_Usage :: nat
  rr_Selector :: nat
  rr_MatchingType :: nat
  rr_Certificate :: string

record tlsa_reply =
  reply_Rcode :: rcode
  reply_Answer :: "tlsa_rr option list"
  reply_AuthenticatedData :: bool

record policy_net =
  net_query :: "string \<Rightarrow> tlsa_reply option"
  net_policy_body :: "string \<Rightarrow> string option"

datatype tlsa_lookup_error = TlsaQueryFailed | TlsaQueryReturned rcode

definition tlsa_name :: "string \<Rightarrow> int \<Rightarrow> string" where
  "tlsa_name host port = ''_'' @ Itoa port @ ''._tcp.'' @ TrimSuffix host ''.''"

text \<open>An answer that \<^const>\<open>NewTLSARecord\<close> refuses is skipped, like one of another type.\<close>

definition tlsa_answer :: "tlsa_rr option \<Rightarrow> TLSARecord list" where
  "tlsa_answer answer =
     (case answer of
        None \<Rightarrow> []
      | Some rr \<Rightarrow>
          (case NewTLSARecord (rr_Usage rr) (rr_Selector rr) (rr_MatchingType rr) (ToLower (rr_Certificate rr)) of
             Inl _ \<Rightarrow> []
           | Inr record \<Rightarrow> [record]))"

definition LookupTLSA ::
  "(string \<Rightarrow> tlsa_reply option) \<Rightarrow> string \<Rightarrow> int \<Rightarrow> tlsa_lookup_error + TLSARecord list \<times> bool" where
  "LookupTLSA query host port =
     (case query (tlsa_name host port) of
        None \<Rightarrow> Inl TlsaQueryFailed
      | Some reply \<Rightarrow>
          (case reply_Rcode reply of
             RcodeSuccess \<Rightarrow> Inr (concat (map tlsa_answer (reply_Answer reply)), reply_AuthenticatedData reply)
           | RcodeNameError \<Rightarrow> Inr ([], reply_AuthenticatedData reply)
           | RcodeOther n \<Rightarrow> Inl (TlsaQueryReturned (RcodeOther n))))"

record resolver_config =
  daneEnabled :: bool
  mtaStsEnabled :: bool

definition policyFetchLimit :: nat where "policyFetchLimit = 64 * 1024"

definition empty_policy :: tls_policy where "empty_policy = NewTLSPolicy False False"

definition fetchPolicy :: "policy_net \<Rightarrow> string \<Rightarrow> tls_policy \<times> int \<times> bool" where
  "fetchPolicy net domain =
     (case net_policy_body net domain of
        None \<Rightarrow> (empty_policy, 0, False)
      | Some body \<Rightarrow>
          (case parsePolicy (take policyFetchLimit body) of (mode, patterns, maxAge) \<Rightarrow>
             if mode = [] \<or> patterns = [] then (empty_policy, 0, False)
             else if mode = ''none'' then (empty_policy, 0, False)
             else (entity_NewMtaStsPolicy patterns (mode = ''enforce''), maxAge, True)))"

definition policy_cached :: "policy_cache \<Rightarrow> int \<Rightarrow> string \<Rightarrow> cachedPolicy option" where
  "policy_cached cache now domain =
     (case cache domain of None \<Rightarrow> None | Some e \<Rightarrow> if now > cp_expiresAt e then None else Some e)"

definition mtaStsPolicy :: "policy_net \<Rightarrow> int \<Rightarrow> string \<Rightarrow> policy_cache \<Rightarrow> (tls_policy \<times> bool) \<times> policy_cache" where
  "mtaStsPolicy net now domain0 cache =
     (let domain = ToLower (TrimSuffix domain0 ''.'')
      in case policy_cached cache now domain of
           Some e \<Rightarrow> ((cp_policy e, \<not> cp_absent e), cache)
         | None \<Rightarrow>
             let (policy, maxAge, found) = fetchPolicy net domain;
                 ttl = (if found then maxAge * Second else Hour)
             in ((policy, found),
                 cache(domain \<mapsto> \<lparr>cp_policy = policy, cp_expiresAt = now + ttl, cp_absent = \<not> found\<rparr>)))"

datatype resolve_error = TlsaLookupFailed | TlsaNotValidated

definition Resolve ::
  "resolver_config \<Rightarrow> policy_net \<Rightarrow> int \<Rightarrow> string \<Rightarrow> string \<Rightarrow> policy_cache \<Rightarrow> (resolve_error + tls_policy) \<times> policy_cache" where
  "Resolve cfg net now destinationDomain mxHost cache =
     (let sts =
        (if \<not> mtaStsEnabled cfg then (Inr (NewTLSPolicy False False), cache)
         else case mtaStsPolicy net now destinationDomain cache of
             ((policy, found), cache') \<Rightarrow> (Inr (if found then policy else NewTLSPolicy False False), cache'))
      in if daneEnabled cfg then
           (case LookupTLSA (net_query net) mxHost 25 of
              Inl _ \<Rightarrow> (Inl TlsaLookupFailed, cache)
            | Inr (records, authenticated) \<Rightarrow>
                if records = [] then sts
                else if \<not> authenticated then (Inl TlsaNotValidated, cache)
                else (Inr (NewDanePolicy records), cache))
         else sts)"

section \<open>Mail exchangers\<close>

text \<open>The hosts of the MX records by preference; \<^verbatim>\<open>sort.Slice\<close> leaves the order of equals open, here the given one.\<close>

definition mx_hosts :: "string \<Rightarrow> (nat \<times> string) list \<Rightarrow> string list" where
  "mx_hosts domain mxs =
     (let hosts = filter (\<lambda>h. h \<noteq> []) (map (\<lambda>(_, h). TrimSuffix h ''.'') (sort_key fst mxs))
      in if hosts = [] then [domain] else hosts)"

definition LookupMX :: "(string \<Rightarrow> unit + (nat \<times> string) list) \<Rightarrow> string \<Rightarrow> unit + string list" where
  "LookupMX dns domain = (case dns domain of Inl e \<Rightarrow> Inl e | Inr mxs \<Rightarrow> Inr (mx_hosts domain mxs))"

end
