(* ===== verification/TLS_Policy_Properties.thy ===== *)
theory TLS_Policy_Properties
  imports TLS_Policy
begin

text \<open>
  What the transport policies promise: the wildcard of an MTA-STS pattern stands for exactly one
  label, the policy file this server publishes is read back by its own resolver, and a fetched
  policy cannot be taken away again before it expires.
\<close>

section \<open>Patterns\<close>

definition host_labels :: "string \<Rightarrow> string list" where
  "host_labels h = Split (ToLower (TrimSuffix h ''.'')) CHR ''.''"

definition labels_match :: "string list \<Rightarrow> string list \<Rightarrow> bool" where
  "labels_match ps hs \<longleftrightarrow>
     (if 2 \<le> length ps \<and> hd ps = ''*'' then hs \<noteq> [] \<and> hd hs \<noteq> [] \<and> tl hs = tl ps else hs = ps)"

lemma Split_inject: "Split a sep = Split b sep \<longleftrightarrow> a = b"
  by (metis Join_Split)

lemma Split_star: "2 \<le> length (Split p CHR ''.'') \<and> hd (Split p CHR ''.'') = ''*'' \<longleftrightarrow> HasPrefix p ''*.''"
proof
  assume "2 \<le> length (Split p CHR ''.'') \<and> hd (Split p CHR ''.'') = ''*''"
  then obtain w ws where "Split p CHR ''.'' = ''*'' # w # ws"
    by (cases "Split p CHR ''.''"; cases "tl (Split p CHR ''.'')") auto
  then have "p = ''*'' @ ''.'' @ Join (w # ws) ''.''" using Join_Split [of p "CHR ''.''"] by simp
  then show "HasPrefix p ''*.''" by (simp add: HasPrefix_def)
next
  assume "HasPrefix p ''*.''"
  then obtain t where "p = ''*.'' @ t" by (auto simp: HasPrefix_iff)
  then have "Split p CHR ''.'' = ''*'' # Split t CHR ''.''" by simp
  then show "2 \<le> length (Split p CHR ''.'') \<and> hd (Split p CHR ''.'') = ''*''"
    by (cases "Split t CHR ''.''") auto
qed

lemma Contains_char: "Contains s [c] \<longleftrightarrow> c \<in> set s"
  unfolding Contains_def
  by (induction s) (subst Index.simps; force simp: HasPrefix_def)+

lemma suffix_label:
  "(HasSuffix h (CHR ''.'' # t) \<and> TrimSuffix h (CHR ''.'' # t) \<noteq> [] \<and> CHR ''.'' \<notin> set (TrimSuffix h (CHR ''.'' # t)))
   \<longleftrightarrow> (let hs = Split h CHR ''.'' in hd hs \<noteq> [] \<and> tl hs = Split t CHR ''.'')"
proof
  assume l: "HasSuffix h (CHR ''.'' # t) \<and> TrimSuffix h (CHR ''.'' # t) \<noteq> [] \<and> CHR ''.'' \<notin> set (TrimSuffix h (CHR ''.'' # t))"
  then obtain w where h: "h = w @ CHR ''.'' # t" by (auto simp: HasSuffix_iff)
  then have "TrimSuffix h (CHR ''.'' # t) = w" by (simp add: TrimSuffix_def)
  with l h show "let hs = Split h CHR ''.'' in hd hs \<noteq> [] \<and> tl hs = Split t CHR ''.''" by (simp add: Split_at Let_def)
next
  assume r: "let hs = Split h CHR ''.'' in hd hs \<noteq> [] \<and> tl hs = Split t CHR ''.''"
  define w where "w = hd (Split h CHR ''.'')"
  have hs: "Split h CHR ''.'' = w # Split t CHR ''.''"
    using r by (cases "Split h CHR ''.''") (auto simp: w_def Let_def)
  have "h = w @ CHR ''.'' # t"
    using Join_Split [of h "CHR ''.''"] Join_Split [of t "CHR ''.''"] by (simp add: hs Join_Cons)
  moreover from this have "TrimSuffix h (CHR ''.'' # t) = w" by (simp add: TrimSuffix_def)
  moreover have "CHR ''.'' \<notin> set w" by (rule Split_no_sep [of _ h]) (simp add: hs)
  moreover have "w \<noteq> []" using r by (simp add: w_def Let_def)
  ultimately show "HasSuffix h (CHR ''.'' # t) \<and> TrimSuffix h (CHR ''.'' # t) \<noteq> []
      \<and> CHR ''.'' \<notin> set (TrimSuffix h (CHR ''.'' # t))" by simp
qed

text \<open>
  C25. An MTA-STS pattern matches a host as RFC 8461 section 4.1 says: a pattern that begins with the
  label \<^verbatim>\<open>*\<close> matches the hosts that have any one non-empty label in its place and the same
  labels after it, every other pattern matches only the same labels; case and one final dot do not
  count.
\<close>

theorem matchMxPattern_labels:
  "matchMxPattern pattern host \<longleftrightarrow> labels_match (host_labels pattern) (host_labels host)"
proof -
  define p where "p = ToLower (TrimSuffix pattern ''.'')"
  define h where "h = ToLower (TrimSuffix host ''.'')"
  show ?thesis
  proof (cases "HasPrefix p ''*.''")
    case False
    then show ?thesis
      using Split_star [of p] Split_inject [of h "CHR ''.''" p]
      by (auto simp: matchMxPattern_def labels_match_def host_labels_def p_def h_def Let_def)
  next
    case True
    then obtain t where p: "p = CHR ''*'' # CHR ''.'' # t" by (auto simp: HasPrefix_iff)
    have "matchMxPattern pattern host \<longleftrightarrow>
        HasSuffix h (CHR ''.'' # t) \<and> TrimSuffix h (CHR ''.'' # t) \<noteq> [] \<and> CHR ''.'' \<notin> set (TrimSuffix h (CHR ''.'' # t))"
      using True unfolding matchMxPattern_def Let_def p_def [symmetric] h_def [symmetric]
      by (auto simp: p Contains_char)
    also have "\<dots> \<longleftrightarrow> hd (Split h CHR ''.'') \<noteq> [] \<and> tl (Split h CHR ''.'') = Split t CHR ''.''"
      by (simp add: suffix_label Let_def)
    also have "\<dots> \<longleftrightarrow> labels_match (Split p CHR ''.'') (Split h CHR ''.'')"
      using True Split_star [of p] by (simp add: labels_match_def p)
    finally show ?thesis by (simp add: host_labels_def p_def h_def)
  qed
qed

section \<open>Publishing and reading a policy\<close>

lemma TrimRightFunc_keep: "\<not> P c \<Longrightarrow> TrimRightFunc P (a @ c # w) = a @ c # TrimRightFunc P w"
  by (simp add: TrimRightFunc_def dropWhile_append3)

lemma TrimFunc_pad: "(\<And>x. x \<in> set s \<Longrightarrow> P x) \<Longrightarrow> TrimFunc P (s @ v) = TrimFunc P v"
  by (simp add: TrimFunc_def dropWhile_append2)

lemma TrimRightFunc_pad: "(\<And>x. x \<in> set t \<Longrightarrow> P x) \<Longrightarrow> TrimRightFunc P (v @ t) = TrimRightFunc P v"
proof -
  assume "\<And>x. x \<in> set t \<Longrightarrow> P x"
  then have "dropWhile P (rev t @ rev v) = dropWhile P (rev v)" by (intro dropWhile_append2) simp
  then show ?thesis by (simp add: TrimRightFunc_def)
qed

lemma TrimSpace_value:
  assumes "TrimSpace v = v"
  shows "TrimSpace (TrimRightFunc IsSpace (CHR '' '' # v @ [CR])) = v"
proof -
  have cr: "TrimRightFunc IsSpace (CHR '' '' # v @ [CR]) = TrimRightFunc IsSpace (CHR '' '' # v)"
    using TrimRightFunc_pad [of "[CR]" IsSpace "CHR '' '' # v"] by (simp add: IsSpace_def)
  show ?thesis
  proof (cases "v = []")
    case True
    then show ?thesis using cr by (simp add: TrimRightFunc_def TrimSpace_def TrimFunc_def IsSpace_def)
  next
    case False
    then have last: "\<not> IsSpace (last v)" using assms last_TrimFunc [of IsSpace v] by (simp add: TrimSpace_def)
    obtain u where v: "v = u @ [last v]" using False by (metis append_butlast_last_id)
    have "TrimRightFunc IsSpace (CHR '' '' # v) = CHR '' '' # v"
      using TrimRightFunc_keep [of IsSpace "last v" "CHR '' '' # u" "[]"] last v by (simp add: TrimRightFunc_def)
    moreover have "TrimSpace (CHR '' '' # v) = v"
      using TrimFunc_pad [of "[CHR '' '']" IsSpace v] assms by (simp add: TrimSpace_def IsSpace_def)
    ultimately show ?thesis using cr by simp
  qed
qed

lemma policy_line_entry:
  assumes "key \<noteq> []" "\<not> IsSpace (hd key)" "\<not> IsSpace (last key)" "CHR '':'' \<notin> set key" "TrimSpace v = v"
  shows "policy_line (md, mx, age) (key @ '': '' @ v @ [CR]) =
    (if ToLower key = ''mode'' then (ToLower v, mx, age)
     else if ToLower key = ''mx'' then (md, mx @ [v], age)
     else if ToLower key = ''max_age'' then (md, mx, case Atoi v of None \<Rightarrow> 0 | Some n \<Rightarrow> n)
     else (md, mx, age))"
proof -
  have "dropWhile IsSpace (key @ '': '' @ v @ [CR]) = key @ '': '' @ v @ [CR]"
    using assms(1,2) by (cases key) auto
  then have trim: "TrimSpace (key @ '': '' @ v @ [CR]) = key @ CHR '':'' # TrimRightFunc IsSpace (CHR '' '' # v @ [CR])"
    using TrimRightFunc_keep [of IsSpace "CHR '':''" key "CHR '' '' # v @ [CR]"]
    by (simp add: TrimSpace_def TrimFunc_def IsSpace_def)
  have key: "TrimSpace key = key" using assms(2,3) unfolding TrimSpace_def by (rule TrimFunc_fixed)
  show ?thesis
    unfolding policy_line_def trim Cut_append [OF assms(4)]
    by (simp add: key TrimSpace_value [OF assms(5)])
qed

text \<open>A host as it may stand in a policy file: no line break, no space around it.\<close>

definition clean_value :: "string \<Rightarrow> bool" where
  "clean_value v \<longleftrightarrow> TrimSpace v = v \<and> LF \<notin> set v"

lemma policy_mx_lines:
  assumes "list_all clean_value mx"
  shows "foldl policy_line (md, mx0, age) (Split (concat (map (\<lambda>h. ''mx: '' @ h @ CRLF) mx) @ t) LF)
    = foldl policy_line (md, mx0 @ mx, age) (Split t LF)"
  using assms
proof (induction mx arbitrary: mx0)
  case (Cons h mx)
  then have h: "TrimSpace h = h" "LF \<notin> set (''mx: '' @ h @ [CR])" by (simp_all add: clean_value_def)
  have "Split (concat (map (\<lambda>h. ''mx: '' @ h @ CRLF) (h # mx)) @ t) LF
      = (''mx: '' @ h @ [CR]) # Split (concat (map (\<lambda>h. ''mx: '' @ h @ CRLF) mx) @ t) LF"
    using Split_at [OF h(2), of "concat (map (\<lambda>h. ''mx: '' @ h @ CRLF) mx) @ t"] by simp
  moreover have "policy_line (md, mx0, age) (''mx'' @ '': '' @ h @ [CR]) = (md, mx0 @ [h], age)"
    by (subst policy_line_entry) (simp_all add: h IsSpace_def ToLower_def ToLowerChar_def)
  ultimately show ?case using Cons by simp
qed simp

lemma TrimSpace_ItoaNat: "TrimSpace (ItoaNat n) = ItoaNat n"
proof -
  have "digit_value c = None" if "IsSpace c" for c using that by (auto simp: IsSpace_def digit_value_def)
  then have "\<not> IsSpace c" if "c \<in> set (ItoaNat n)" for c using that not_in_ItoaNat by blast
  then show ?thesis unfolding TrimSpace_def by (intro TrimFunc_fixed) simp_all
qed

text \<open>
  C26. The MTA-STS policy file that this server publishes is read back by the resolver as it was
  meant: for a lower-case mode, mail exchangers without line breaks or surrounding spaces and a
  lifetime within the limit of RFC 8461, parsing the formatted policy gives the same mode, the same
  exchangers in the same order and the same lifetime.
\<close>

theorem parsePolicy_Format:
  assumes "clean_value md" "ToLower md = md" "list_all clean_value mx" "0 < age" "age \<le> 31557600"
  shows "parsePolicy (sts_Format (NewMtaStsPolicy md mx age)) = (md, mx, age)"
proof -
  define n where "n = nat age"
  have age: "Itoa age = ItoaNat n" "int n = age" "n < 2 ^ 63" using assms(4,5) by (simp_all add: Itoa_def n_def)
  let ?tail = "''max_age: '' @ ItoaNat n @ CRLF"
  have md: "TrimSpace md = md" "LF \<notin> set md" using assms(1) by (simp_all add: clean_value_def)
  have body: "sts_Format (NewMtaStsPolicy md mx age) = (''version: STSv1'' @ [CR]) @ LF # (''mode: '' @ md @ [CR]) @ LF #
      concat (map (\<lambda>h. ''mx: '' @ h @ CRLF) mx) @ ?tail"
    using assms(4) age(1) by (simp add: sts_Format_def NewMtaStsPolicy_def)
  have "Split (sts_Format (NewMtaStsPolicy md mx age)) LF = (''version'' @ '': '' @ ''STSv1'' @ [CR]) # (''mode'' @ '': '' @ md @ [CR]) #
      Split (concat (map (\<lambda>h. ''mx: '' @ h @ CRLF) mx) @ ?tail) LF"
    unfolding body using md(2) by (subst Split_at, simp, subst Split_at) simp_all
  moreover have "policy_line ([], [], 0) (''version'' @ '': '' @ ''STSv1'' @ [CR]) = ([], [], 0)"
    by (subst policy_line_entry) (simp_all add: IsSpace_def ToLower_def ToLowerChar_def TrimSpace_def TrimFunc_def TrimRightFunc_def)
  moreover have "policy_line ([], [], 0) (''mode'' @ '': '' @ md @ [CR]) = (md, [], 0)"
    by (subst policy_line_entry) (simp_all add: IsSpace_def md assms(2), simp_all add: ToLower_def ToLowerChar_def)
  moreover have "Split ?tail LF = [''max_age'' @ '': '' @ ItoaNat n @ [CR], []]"
    using Split_at [of LF "''max_age: '' @ ItoaNat n @ [CR]" "[]"] not_in_ItoaNat [of LF n] by (simp add: digit_value_def)
  moreover have "policy_line (md, mx, 0) (''max_age'' @ '': '' @ ItoaNat n @ [CR]) = (md, mx, age)"
    by (subst policy_line_entry)
       (simp_all add: IsSpace_def TrimSpace_ItoaNat Atoi_ItoaNat [OF age(3)] age(2) ToLower_def ToLowerChar_def)
  moreover have "policy_line acc [] = acc" for acc by (simp add: policy_line_def Cut_def)
  ultimately have "foldl policy_line ([], [], 0) (Split (sts_Format (NewMtaStsPolicy md mx age)) LF) = (md, mx, age)"
    using policy_mx_lines [OF assms(3)] by simp
  then show ?thesis using assms(4,5) by (simp add: parsePolicy_def)
qed

theorem parsePolicy_Format_witness:
  "parsePolicy (sts_Format (NewMtaStsPolicy ''enforce'' [''mx1.example.com'', ''*.example.net''] 604800))
     = (''enforce'', [''mx1.example.com'', ''*.example.net''], 604800)"
  by (rule parsePolicy_Format) (simp_all add: clean_value_def TrimSpace_def TrimFunc_def TrimRightFunc_def IsSpace_def
      ToLower_def ToLowerChar_def)

section \<open>A policy stays until it expires\<close>

text \<open>A lookup: what the network answers, when, and for which domain and host.\<close>

type_synonym policy_lookup = "policy_net \<times> int \<times> string \<times> string"

definition lookup_step :: "resolver_config \<Rightarrow> policy_cache \<Rightarrow> policy_lookup \<Rightarrow> policy_cache" where
  "lookup_step cfg cache l = (case l of (net, now, domain, host) \<Rightarrow> snd (Resolve cfg net now domain host cache))"

definition policy_key :: "string \<Rightarrow> string" where
  "policy_key domain = ToLower (TrimSuffix domain ''.'')"

lemma mtaStsPolicy_keeps:
  assumes "cache k = Some e" "now \<le> cp_expiresAt e"
  shows "snd (mtaStsPolicy net now domain cache) k = Some e"
  using assms by (auto simp: mtaStsPolicy_def policy_cached_def Let_def split: option.splits prod.splits)

lemma Resolve_keeps:
  assumes "cache k = Some e" "now \<le> cp_expiresAt e"
  shows "snd (Resolve cfg net now domain host cache) k = Some e"
  using mtaStsPolicy_keeps [of cache k e now net domain] assms
  by (cases "mtaStsPolicy net now domain cache") (auto simp: Resolve_def Let_def split: sum.splits)

lemma lookups_keep:
  assumes "cache k = Some e" "\<forall>l \<in> set ls. fst (snd l) \<le> cp_expiresAt e"
  shows "foldl (lookup_step cfg) cache ls k = Some e"
  using assms
proof (induction ls arbitrary: cache)
  case (Cons l ls)
  obtain net now domain host where l: "l = (net, now, domain, host)" by (cases l) auto
  have "lookup_step cfg cache l k = Some e"
    using Cons.prems Resolve_keeps [of cache k e now cfg net domain host] by (simp add: lookup_step_def l)
  with Cons show ?case by simp
qed simp

text \<open>When the answer of a lookup expires: with the cached entry, or a lifetime after it is fetched.\<close>

definition policy_expiry :: "policy_net \<Rightarrow> int \<Rightarrow> string \<Rightarrow> policy_cache \<Rightarrow> int" where
  "policy_expiry net now domain cache =
     (case policy_cached cache now (policy_key domain) of
        Some e \<Rightarrow> cp_expiresAt e
      | None \<Rightarrow> now + fst (snd (fetchPolicy net (policy_key domain))) * Second)"

lemma mtaStsPolicy_stored:
  assumes "mtaStsPolicy net now domain cache = ((p, True), cache')"
  obtains e where "cache' (policy_key domain) = Some e" "cp_policy e = p" "\<not> cp_absent e"
    "cp_expiresAt e = policy_expiry net now domain cache" "now \<le> cp_expiresAt e"
proof (cases "policy_cached cache now (policy_key domain)")
  case (Some e)
  with assms that [of e] show ?thesis
    by (auto simp: mtaStsPolicy_def policy_key_def policy_cached_def policy_expiry_def Let_def split: option.splits if_splits)
next
  case None
  obtain q age found where f: "fetchPolicy net (policy_key domain) = (q, age, found)" by (metis prod.exhaust)
  define e where "e = \<lparr>cp_policy = p, cp_expiresAt = now + age * Second, cp_absent = False\<rparr>"
  from f None assms have "cache' (policy_key domain) = Some e"
    by (auto simp: mtaStsPolicy_def policy_key_def e_def Let_def)
  moreover have "0 \<le> age"
    using f by (auto simp: fetchPolicy_def parsePolicy_def split: option.splits prod.splits if_splits)
  ultimately show ?thesis
    using f None by (intro that [of e]) (simp_all add: e_def Second_def policy_expiry_def)
qed

text \<open>
  C27. A fetched MTA-STS policy is not taken away before it expires: once the resolver has answered with a
  policy for a domain, every later lookup of that domain up to the expiry (its lifetime after it was
  fetched) gives the same policy, whatever the network answers by then (also nothing, or a policy
  withdrawn or weakened by an attacker who controls HTTPS or DNS) and whatever other lookups came
  between.
\<close>

theorem policy_stays_until_expiry:
  assumes "mtaStsPolicy net now domain cache = ((p, True), cache')"
    and "\<forall>l \<in> set ls. fst (snd l) \<le> policy_expiry net now domain cache"
    and "now' \<le> policy_expiry net now domain cache"
  shows "fst (mtaStsPolicy net' now' domain (foldl (lookup_step cfg) cache' ls)) = (p, True)"
proof -
  obtain e where e: "cache' (policy_key domain) = Some e" "cp_policy e = p" "\<not> cp_absent e"
    "cp_expiresAt e = policy_expiry net now domain cache"
    using assms(1) by (rule mtaStsPolicy_stored)
  from e assms(2,3) show ?thesis
    using lookups_keep [of cache' "policy_key domain" e ls cfg]
    by (simp add: mtaStsPolicy_def policy_cached_def policy_key_def Let_def)
qed

definition demo_policy_net :: policy_net where
  "demo_policy_net = \<lparr>net_query = (\<lambda>_. None), net_policy_body = (\<lambda>_. Some (''mode:enforce'' @ [LF] @ ''mx:m''))\<rparr>"

lemma demo_fetch: "fetchPolicy demo_policy_net ''a'' = (entity_NewMtaStsPolicy [''m''] True, 86400, True)"
  by (simp add: fetchPolicy_def demo_policy_net_def parsePolicy_def policyFetchLimit_def policy_line_def Cut_def
      TrimSpace_def TrimFunc_def TrimRightFunc_def IsSpace_def ToLower_def ToLowerChar_def)

theorem policy_stays_until_expiry_witness:
  "fst (mtaStsPolicy \<lparr>net_query = (\<lambda>_. None), net_policy_body = (\<lambda>_. None)\<rparr> 1000 ''a''
     (foldl (lookup_step \<lparr>daneEnabled = False, mtaStsEnabled = True\<rparr>)
        (snd (mtaStsPolicy demo_policy_net 7 ''a'' Map.empty)) [(demo_policy_net, 9, ''a'', ''m''), (demo_policy_net, 10, ''b'', ''m'')]))
   = (entity_NewMtaStsPolicy [''m''] True, True)"
proof (rule policy_stays_until_expiry [where net = demo_policy_net and now = 7 and cache = Map.empty])
  have key: "policy_key ''a'' = ''a''" by (simp add: policy_key_def TrimSuffix_def HasSuffix_def ToLower_def ToLowerChar_def)
  show "mtaStsPolicy demo_policy_net 7 ''a'' Map.empty =
      ((entity_NewMtaStsPolicy [''m''] True, True), snd (mtaStsPolicy demo_policy_net 7 ''a'' Map.empty))"
    using demo_fetch key by (simp add: mtaStsPolicy_def policy_cached_def policy_key_def Let_def)
  show "\<forall>l \<in> set [(demo_policy_net, 9, ''a'', ''m''), (demo_policy_net, 10, ''b'', ''m'')].
      fst (snd l) \<le> policy_expiry demo_policy_net 7 ''a'' Map.empty"
    "1000 \<le> policy_expiry demo_policy_net 7 ''a'' Map.empty"
    using demo_fetch key by (simp_all add: policy_expiry_def policy_cached_def Second_def)
qed

end
