(* ===== verification/Blob_Storage.thy ===== *)
theory Blob_Storage
  imports TLS_Policy
begin

text \<open>
  \<^verbatim>\<open>infrastructure/diskstorage\<close>: message bodies as files named by the SHA-256 of their content,
  with a row of \<^verbatim>\<open>message_blobs\<close> for each. SHA-256 is a parameter, of which two things are
  used: it gives 32 bytes, and no two of the contents that are ever stored have the same hash.

  \<open>fault\<close> says which system call or statement of \<^verbatim>\<open>Store\<close> fails, if any. The
  contract of the storage is the locale \<open>blob_store\<close>: what is stored stays readable.
\<close>

section \<open>The storage\<close>

datatype store_fault = NoFault | TempFault | MkdirFault | StatFault | RenameFault | InsertFault | SelectFault

record blob_meta =
  bm_id :: nat
  bm_sha256 :: string
  bm_path :: string
  bm_size :: nat

record blob_disk =
  disk_files :: "string \<Rightarrow> string option"
  disk_rows :: "blob_meta list"
  disk_next :: nat

record BlobRef =
  ref_ID :: nat
  ref_SHA256 :: string
  ref_SizeBytes :: nat

definition blob_path :: "string \<Rightarrow> string \<Rightarrow> string" where
  "blob_path baseDir hash = baseDir @ ''/'' @ take 2 hash @ ''/'' @ hash @ ''.eml''"

text \<open>Moving the file into place: \<^const>\<open>None\<close> when a call fails.\<close>

definition place_file :: "store_fault \<Rightarrow> string \<Rightarrow> string \<Rightarrow> (string \<Rightarrow> string option) \<Rightarrow> (string \<Rightarrow> string option) option" where
  "place_file fault finalPath content fs =
     (if fault = TempFault \<or> fault = MkdirFault then None
      else if fault = StatFault then None
      else if fs finalPath \<noteq> None then Some fs
      else if fault = RenameFault then None
      else Some (fs(finalPath \<mapsto> content)))"

definition Store :: "(string \<Rightarrow> string) \<Rightarrow> string \<Rightarrow> store_fault \<Rightarrow> string \<Rightarrow> blob_disk \<Rightarrow> (unit + BlobRef) \<times> blob_disk" where
  "Store sha256 baseDir fault content d =
     (let hash = hex_EncodeToString (sha256 content); finalPath = blob_path baseDir hash
      in case place_file fault finalPath content (disk_files d) of
           None \<Rightarrow> (Inl (), d)
         | Some fs \<Rightarrow>
             let d1 = d\<lparr>disk_files := fs\<rparr>; ref = (\<lambda>i. \<lparr>ref_ID = i, ref_SHA256 = hash, ref_SizeBytes = length content\<rparr>)
             in if fault = InsertFault then (Inl (), d1)
                else case find (\<lambda>r. bm_sha256 r = hash) (disk_rows d) of
                    Some r \<Rightarrow> if fault = SelectFault then (Inl (), d1) else (Inr (ref (bm_id r)), d1)
                  | None \<Rightarrow>
                      (Inr (ref (disk_next d)),
                       d1\<lparr>disk_rows := disk_rows d @
                            [\<lparr>bm_id = disk_next d, bm_sha256 = hash, bm_path = finalPath, bm_size = length content\<rparr>],
                          disk_next := disk_next d + 1\<rparr>))"

definition ReadByID :: "blob_disk \<Rightarrow> nat \<Rightarrow> string option" where
  "ReadByID d blobID = (case find (\<lambda>r. bm_id r = blobID) (disk_rows d) of None \<Rightarrow> None | Some r \<Rightarrow> disk_files d (bm_path r))"

section \<open>The contract\<close>

locale blob_store =
  fixes inv :: "'s \<Rightarrow> bool"
    and store :: "'f \<Rightarrow> 'c \<Rightarrow> 's \<Rightarrow> (unit + 'r) \<times> 's"
    and read :: "'s \<Rightarrow> 'r \<Rightarrow> 'c option"
    and fits :: "'c \<Rightarrow> bool"
  assumes store_inv: "inv s \<Longrightarrow> fits c \<Longrightarrow> inv (snd (store f c s))"
    and read_stored: "inv s \<Longrightarrow> fits c \<Longrightarrow> fst (store f c s) = Inr r \<Longrightarrow> read (snd (store f c s)) r = Some c"
    and read_kept: "inv s \<Longrightarrow> fits c \<Longrightarrow> read s r = Some c' \<Longrightarrow> read (snd (store f c s)) r = Some c'"
begin

definition stores :: "'s \<Rightarrow> ('f \<times> 'c) list \<Rightarrow> 's" where
  "stores s ops = foldl (\<lambda>s (f, c). snd (store f c s)) s ops"

lemma stores_keep:
  assumes "inv s" "read s r = Some c" "\<forall>op \<in> set ops. fits (snd op)"
  shows "inv (stores s ops) \<and> read (stores s ops) r = Some c"
  using assms unfolding stores_def
  by (induction ops arbitrary: s) (auto simp: store_inv read_kept)

lemma stored_stays:
  assumes "inv s" "fits c" "fst (store f c s) = Inr r" "\<forall>op \<in> set ops. fits (snd op)"
  shows "read (stores (snd (store f c s)) ops) r = Some c"
  using stores_keep [OF store_inv [OF assms(1,2)] read_stored [OF assms(1-3)] assms(4)] by simp

end

section \<open>The storage satisfies it\<close>

text \<open>Every row has its file, every file is the content that its name is the hash of, and rows are unique.\<close>

definition good_hash :: "(string \<Rightarrow> string) \<Rightarrow> string set \<Rightarrow> bool" where
  "good_hash sha256 C \<longleftrightarrow> inj_on sha256 C \<and> (\<forall>c. length (sha256 c) = 32)"

definition disk_inv :: "(string \<Rightarrow> string) \<Rightarrow> string set \<Rightarrow> string \<Rightarrow> blob_disk \<Rightarrow> bool" where
  "disk_inv sha256 C baseDir d \<longleftrightarrow>
     (\<forall>c \<in> C. \<forall>c'. disk_files d (blob_path baseDir (hex_EncodeToString (sha256 c))) = Some c' \<longrightarrow> c' = c)
     \<and> (\<forall>r \<in> set (disk_rows d). disk_files d (bm_path r) \<noteq> None \<and> bm_path r = blob_path baseDir (bm_sha256 r)
          \<and> (\<exists>c. bm_sha256 r = hex_EncodeToString (sha256 c)) \<and> bm_id r < disk_next d)
     \<and> distinct (map bm_id (disk_rows d)) \<and> distinct (map bm_sha256 (disk_rows d))"

lemma hex_digits_inj: "hex_digits a = hex_digits b \<Longrightarrow> a = b"
proof -
  assume eq: "hex_digits a = hex_digits b"
  define d where "d k = (if k < 10 then char_of (48 + k) else char_of (87 + k) :: char)" for k :: nat
  have inj: "x = y" if "d x = d y" "x < 16" "y < 16" for x y
  proof -
    have "(of_char (d x) :: nat) = of_char (d y)" using that(1) by simp
    with that(2,3) show ?thesis by (auto simp: d_def of_char_of split: if_splits)
  qed
  have small: "(of_char c :: nat) < 256" for c :: char
    using range_nat_of_char by (metis atLeastLessThan_iff rangeI)
  have "(of_char a :: nat) div 16 = of_char b div 16" "(of_char a :: nat) mod 16 = of_char b mod 16"
    using eq inj [of "of_char a div 16" "of_char b div 16"] inj [of "of_char a mod 16" "of_char b mod 16"] small [of a] small [of b]
    by (auto simp: hex_digits_def d_def Let_def less_mult_imp_div_less)
  then have "(of_char a :: nat) = of_char b" by (metis div_mult_mod_eq)
  then show ?thesis by simp
qed

lemma hex_inj: "hex_EncodeToString a = hex_EncodeToString b \<Longrightarrow> a = b"
proof (induction a arbitrary: b)
  case Nil
  then show ?case by (cases b) (auto simp: hex_EncodeToString_def hex_digits_def Let_def)
next
  case (Cons x a)
  then obtain y b' where b: "b = y # b'" by (cases b) (auto simp: hex_EncodeToString_def hex_digits_def Let_def)
  have len: "length (hex_digits x) = length (hex_digits y)" by (simp add: hex_digits_def Let_def)
  have "hex_digits x @ hex_EncodeToString a = hex_digits y @ hex_EncodeToString b'"
    using Cons.prems by (simp add: b hex_EncodeToString_def)
  with len have "hex_digits x = hex_digits y" "hex_EncodeToString a = hex_EncodeToString b'" by simp_all
  with Cons.IH hex_digits_inj b show ?case by blast
qed

lemma length_hex: "length (hex_EncodeToString s) = 2 * length s"
  by (induction s) (simp_all add: hex_EncodeToString_def hex_digits_def Let_def)

lemma blob_path_inj:
  assumes "good_hash sha256 C" "a \<in> C" "b \<in> C"
    "blob_path baseDir (hex_EncodeToString (sha256 a)) = blob_path baseDir (hex_EncodeToString (sha256 b))"
  shows "a = b"
proof -
  have len: "length (hex_EncodeToString (sha256 c)) = 64" for c using assms(1) by (simp add: length_hex good_hash_def)
  have "hex_EncodeToString (sha256 a) = hex_EncodeToString (sha256 b)"
    using assms(4) len [of a] len [of b] by (simp add: blob_path_def)
  then have "sha256 a = sha256 b" by (rule hex_inj)
  with assms(1-3) show ?thesis by (auto simp: good_hash_def dest: inj_onD)
qed

lemma place_file_cases:
  assumes "place_file fault p content fs = Some fs'"
  shows "fs' = fs \<and> fs p \<noteq> None \<or> fs p = None \<and> fs' = fs(p \<mapsto> content)"
  using assms by (auto simp: place_file_def split: if_splits)

lemma place_file_inv:
  assumes hash: "good_hash sha256 C" and fits: "content \<in> C" and inv: "disk_inv sha256 C baseDir d"
    and placed: "place_file fault (blob_path baseDir (hex_EncodeToString (sha256 content))) content (disk_files d) = Some fs"
  shows "disk_inv sha256 C baseDir (d\<lparr>disk_files := fs\<rparr>) \<and> fs (blob_path baseDir (hex_EncodeToString (sha256 content))) = Some content"
  using place_file_cases [OF placed]
proof
  assume same: "fs = disk_files d \<and> disk_files d (blob_path baseDir (hex_EncodeToString (sha256 content))) \<noteq> None"
  with inv fits have "disk_files d (blob_path baseDir (hex_EncodeToString (sha256 content))) = Some content"
    by (auto simp: disk_inv_def)
  with same inv show ?thesis by simp
next
  assume new: "disk_files d (blob_path baseDir (hex_EncodeToString (sha256 content))) = None
    \<and> fs = (disk_files d)(blob_path baseDir (hex_EncodeToString (sha256 content)) \<mapsto> content)"
  with inv blob_path_inj [OF hash _ fits] show ?thesis by (auto simp: disk_inv_def split: if_splits)
qed

lemma Store_cases [consumes 1, case_names failed reused fresh]:
  assumes "Store sha256 baseDir fault content d = (res, d')"
  obtains "res = Inl ()" "d' = d \<or> (\<exists>fs. d' = d\<lparr>disk_files := fs\<rparr>
        \<and> place_file fault (blob_path baseDir (hex_EncodeToString (sha256 content))) content (disk_files d) = Some fs)"
    | fs r where "place_file fault (blob_path baseDir (hex_EncodeToString (sha256 content))) content (disk_files d) = Some fs"
        "r \<in> set (disk_rows d)" "bm_sha256 r = hex_EncodeToString (sha256 content)"
        "res = Inr \<lparr>ref_ID = bm_id r, ref_SHA256 = bm_sha256 r, ref_SizeBytes = length content\<rparr>" "d' = d\<lparr>disk_files := fs\<rparr>"
    | fs where "place_file fault (blob_path baseDir (hex_EncodeToString (sha256 content))) content (disk_files d) = Some fs"
        "res = Inr \<lparr>ref_ID = disk_next d, ref_SHA256 = hex_EncodeToString (sha256 content), ref_SizeBytes = length content\<rparr>"
        "d' = d\<lparr>disk_files := fs, disk_rows := disk_rows d @ [\<lparr>bm_id = disk_next d, bm_sha256 = hex_EncodeToString (sha256 content),
            bm_path = blob_path baseDir (hex_EncodeToString (sha256 content)), bm_size = length content\<rparr>], disk_next := disk_next d + 1\<rparr>"
        "hex_EncodeToString (sha256 content) \<notin> bm_sha256 ` set (disk_rows d)"
proof (cases "place_file fault (blob_path baseDir (hex_EncodeToString (sha256 content))) content (disk_files d)")
  case None
  with assms show ?thesis by (intro that(1)) (auto simp: Store_def Let_def)
next
  case (Some fs)
  show ?thesis
  proof (cases "fault = InsertFault")
    case True
    with assms Some show ?thesis by (intro that(1)) (auto simp: Store_def Let_def)
  next
    case ok: False
    show ?thesis
    proof (cases "find (\<lambda>r. bm_sha256 r = hex_EncodeToString (sha256 content)) (disk_rows d)")
      case None
      with assms Some ok show ?thesis by (intro that(3) [of fs]) (auto simp: Store_def find_None_iff Let_def)
    next
      case (Some r)
      then have r: "r \<in> set (disk_rows d)" "bm_sha256 r = hex_EncodeToString (sha256 content)" by (auto dest: find_SomeD)
      show ?thesis
      proof (cases "fault = SelectFault")
        case True
        with assms Some \<open>place_file _ _ _ _ = Some fs\<close> show ?thesis by (intro that(1)) (auto simp: Store_def Let_def)
      next
        case False
        with assms ok Some r \<open>place_file _ _ _ _ = Some fs\<close> show ?thesis
          by (intro that(2) [of fs r]) (auto simp: Store_def Let_def)
      qed
    qed
  qed
qed

lemma Store_inv:
  assumes "good_hash sha256 C" "content \<in> C" "disk_inv sha256 C baseDir d" "Store sha256 baseDir fault content d = (res, d')"
  shows "disk_inv sha256 C baseDir d'"
  using assms(4)
proof (cases rule: Store_cases)
  case failed
  then show ?thesis using assms(3) place_file_inv [OF assms(1-3)] by blast
next
  case (reused fs r)
  then show ?thesis using place_file_inv [OF assms(1-3) reused(1)] by simp
next
  case (fresh fs)
  have inv: "disk_inv sha256 C baseDir (d\<lparr>disk_files := fs\<rparr>)"
    and here: "fs (blob_path baseDir (hex_EncodeToString (sha256 content))) = Some content"
    using place_file_inv [OF assms(1-3) fresh(1)] by auto
  have "\<And>r. r \<in> set (disk_rows d) \<Longrightarrow> bm_id r \<noteq> disk_next d" using assms(3) by (auto simp: disk_inv_def)
  with inv here fresh(4) show ?thesis unfolding fresh(3) by (auto simp: disk_inv_def less_Suc_eq)
qed

lemma find_id: "distinct (map bm_id rows) \<Longrightarrow> r \<in> set rows \<Longrightarrow> find (\<lambda>x. bm_id x = bm_id r) rows = Some r"
  by (rule find_unique) (auto dest: distinct_key_eq)

lemma find_snoc: "find P (xs @ [x]) = (case find P xs of None \<Rightarrow> if P x then Some x else None | Some y \<Rightarrow> Some y)"
  by (induction xs) auto

lemma Store_read:
  assumes "good_hash sha256 C" "content \<in> C" "disk_inv sha256 C baseDir d" "Store sha256 baseDir fault content d = (Inr r, d')"
  shows "ReadByID d' (ref_ID r) = Some content"
  using assms(4)
proof (cases rule: Store_cases)
  case (reused fs x)
  then have "ReadByID d' (ref_ID r) = fs (bm_path x)" "bm_path x = blob_path baseDir (hex_EncodeToString (sha256 content))"
    using assms(3) find_id [of "disk_rows d" x] by (auto simp: ReadByID_def disk_inv_def)
  then show ?thesis using place_file_inv [OF assms(1-3) reused(1)] by simp
next
  case (fresh fs)
  have none: "find (\<lambda>x. bm_id x = disk_next d) (disk_rows d) = None"
    using assms(3) by (auto simp: find_None_iff disk_inv_def)
  from fresh have "ReadByID d' (ref_ID r) = fs (blob_path baseDir (hex_EncodeToString (sha256 content)))"
    by (simp add: ReadByID_def find_snoc none)
  then show ?thesis using place_file_inv [OF assms(1-3) fresh(1)] by simp
qed simp

lemma Store_keeps:
  assumes "ReadByID d i = Some c" "Store sha256 baseDir fault content d = (res, d')"
  shows "ReadByID d' i = Some c"
proof -
  obtain r where r: "find (\<lambda>x. bm_id x = i) (disk_rows d) = Some r" "disk_files d (bm_path r) = Some c"
    using assms(1) by (auto simp: ReadByID_def split: option.splits)
  have kept: "fs (bm_path r) = Some c"
    if "place_file fault (blob_path baseDir (hex_EncodeToString (sha256 content))) content (disk_files d) = Some fs" for fs
    using place_file_cases [OF that] r(2) by auto
  from assms(2) show ?thesis
  proof (cases rule: Store_cases)
    case failed
    then show ?thesis using assms(1) r kept by (auto simp: ReadByID_def)
  next
    case (reused fs x)
    then show ?thesis using r kept by (simp add: ReadByID_def)
  next
    case (fresh fs)
    then show ?thesis using r kept by (simp add: ReadByID_def find_snoc)
  qed
qed

interpretation disk: blob_store "\<lambda>d. good_hash sha256 C \<and> disk_inv sha256 C baseDir d" "Store sha256 baseDir"
  "\<lambda>d r. ReadByID d (ref_ID r)" "\<lambda>c. c \<in> C"
  for sha256 C baseDir
proof (unfold_locales, goal_cases)
  case (1 d c f)
  then show ?case using Store_inv [of sha256 C c baseDir d f "fst (Store sha256 baseDir f c d)"] by simp
next
  case (2 d c f r)
  then show ?case using Store_read [of sha256 C c baseDir d f r "snd (Store sha256 baseDir f c d)"] by (simp add: prod_eq_iff)
next
  case (3 d c r c' f)
  then show ?case using Store_keeps [of d "ref_ID r" c' sha256 baseDir f c "fst (Store sha256 baseDir f c d)"] by simp
qed

text \<open>
  C28. A message body that was stored can be read back byte for byte, for ever: after a successful
  \<^verbatim>\<open>Store\<close>, \<^verbatim>\<open>ReadByID\<close> of its reference gives the content, also after any number of
  further stores, whichever of their system calls and statements fail; and storing the same content
  again gives the same reference. The hypothesis on SHA-256 is that no two of the stored
  contents have the same hash.
\<close>

theorem blob_stays_readable:
  assumes "good_hash sha256 C" "content \<in> C" "disk_inv sha256 C baseDir d"
    "Store sha256 baseDir fault content d = (Inr r, d')" "\<forall>op \<in> set ops. snd op \<in> C"
  shows "ReadByID (foldl (\<lambda>d (f, c). snd (Store sha256 baseDir f c d)) d' ops) (ref_ID r) = Some content
    \<and> fst (Store sha256 baseDir NoFault content d') = Inr r"
proof
  show "ReadByID (foldl (\<lambda>d (f, c). snd (Store sha256 baseDir f c d)) d' ops) (ref_ID r) = Some content"
    using disk.stored_stays [of sha256 C baseDir d content fault r ops] assms unfolding disk.stores_def by simp
  have inv': "disk_inv sha256 C baseDir d'" using assms(1-4) by (rule Store_inv)
  from assms(4) obtain x where x: "x \<in> set (disk_rows d')" "bm_sha256 x = hex_EncodeToString (sha256 content)"
      "disk_files d' (blob_path baseDir (hex_EncodeToString (sha256 content))) \<noteq> None"
      "r = \<lparr>ref_ID = bm_id x, ref_SHA256 = hex_EncodeToString (sha256 content), ref_SizeBytes = length content\<rparr>"
  proof (cases rule: Store_cases)
    case (reused fs x)
    then show ?thesis using place_file_inv [OF assms(1-3) reused(1)] by (intro that [of x]) auto
  next
    case (fresh fs)
    then show ?thesis using place_file_inv [OF assms(1-3) fresh(1)] by (intro that [of "last (disk_rows d')"]) auto
  qed simp
  have "find (\<lambda>y. bm_sha256 y = hex_EncodeToString (sha256 content)) (disk_rows d') = Some x"
    using inv' x(1,2) by (intro find_unique) (auto simp: disk_inv_def dest: distinct_key_eq)
  with x show "fst (Store sha256 baseDir NoFault content d') = Inr r" by (simp add: Store_def place_file_def Let_def)
qed

definition demo_hash :: "string \<Rightarrow> string" where
  "demo_hash c = replicate 32 (if c = ''one'' then CHR ''a'' else CHR ''b'')"

definition empty_disk :: blob_disk where
  "empty_disk = \<lparr>disk_files = Map.empty, disk_rows = [], disk_next = 0\<rparr>"

theorem blob_stays_readable_witness:
  "\<exists>r d'. Store demo_hash ''/blobs'' NoFault ''one'' empty_disk = (Inr r, d')
    \<and> ReadByID (foldl (\<lambda>d (f, c). snd (Store demo_hash ''/blobs'' f c d)) d' [(InsertFault, ''two''), (NoFault, ''two'')]) (ref_ID r)
        = Some ''one''"
proof -
  have hash: "good_hash demo_hash {''one'', ''two''}" by (simp add: good_hash_def demo_hash_def)
  have inv: "disk_inv demo_hash {''one'', ''two''} ''/blobs'' empty_disk" by (simp add: disk_inv_def empty_disk_def)
  obtain r d' where res: "Store demo_hash ''/blobs'' NoFault ''one'' empty_disk = (Inr r, d')"
    by (auto simp: Store_def place_file_def empty_disk_def Let_def)
  then show ?thesis
    using blob_stays_readable [OF hash _ inv res, of "[(InsertFault, ''two''), (NoFault, ''two'')]"] by auto
qed

end
