(* ===== verification/Net_Mail.thy ===== *)
theory Net_Mail
  imports Prelude
begin

text \<open>
  What the program uses of Go's \<^verbatim>\<open>net/mail\<close>: \<^verbatim>\<open>mail.ReadMessage\<close>, which splits a message
  into its header fields and its body, with \<^verbatim>\<open>textproto.ReadContinuedLine\<close> for folded lines
  and the canonical form of field names. A header is the list of its names, in the order they first
  appear, each with its values.
\<close>

section \<open>Lines\<close>

definition isBlank :: "char \<Rightarrow> bool" where "isBlank c \<longleftrightarrow> c = CHR '' '' \<or> c = TAB"

definition trimBlank :: "string \<Rightarrow> string" where "trimBlank s = TrimFunc isBlank s"

definition chopCR :: "string \<Rightarrow> string" where
  "chopCR s = (if s \<noteq> [] \<and> last s = CR then butlast s else s)"

definition next_line :: "string \<Rightarrow> (string \<times> string) option" where
  "next_line s =
     (if s = [] then None
      else case IndexFunc (\<lambda>c. c = LF) s of
          None \<Rightarrow> Some (s, [])
        | Some i \<Rightarrow> Some (chopCR (take i s), drop (Suc i) s))"

lemma next_line_shorter: "next_line s = Some (l, r) \<Longrightarrow> length r < length s"
  by (auto simp: next_line_def split: if_splits option.splits dest: IndexFunc_Some)

text \<open>The lines that continue a field, each one blank and its trimmed text.\<close>

function continued :: "string \<Rightarrow> string \<Rightarrow> string \<times> string" where
  "continued buf s =
     (if s = [] \<or> \<not> isBlank (hd s) then (buf, s)
      else case next_line (dropWhile isBlank s) of
          None \<Rightarrow> (buf @ '' '', [])
        | Some (l, r) \<Rightarrow> continued (buf @ '' '' @ trimBlank l) r)"
  by pat_completeness auto
termination
proof (relation "measure (\<lambda>(buf, s). length s)", goal_cases)
  case (2 buf s x l r)
  then have "length r < length (dropWhile isBlank s)" by (auto intro: next_line_shorter)
  with length_dropWhile_le [of isBlank s] show ?case by simp
qed simp

declare continued.simps [simp del]

lemma continued_shorter: "continued buf s = (kv, r) \<Longrightarrow> length r \<le> length s"
proof (induction buf s arbitrary: kv r rule: continued.induct)
  case (1 buf s)
  show ?case
  proof (cases "s = [] \<or> \<not> isBlank (hd s)")
    case True
    with 1 show ?thesis by (simp add: continued.simps [of buf s] split: if_splits)
  next
    case False
    show ?thesis
    proof (cases "next_line (dropWhile isBlank s)")
      case None
      with 1 False show ?thesis by (simp add: continued.simps [of buf s])
    next
      case (Some lr)
      obtain l r' where lr: "lr = (l, r')" by fastforce
      from 1(2) False Some lr have "continued (buf @ '' '' @ trimBlank l) r' = (kv, r)"
        by (simp add: continued.simps [of buf s])
      from 1(1) [OF False Some lr [symmetric] this] have "length r \<le> length r'" .
      moreover have "length r' < length (dropWhile isBlank s)" using Some lr by (simp add: next_line_shorter)
      ultimately show ?thesis using length_dropWhile_le [of isBlank s] by simp
    qed
  qed
qed

section \<open>Fields\<close>

definition validHeaderFieldByte :: "char \<Rightarrow> bool" where
  "validHeaderFieldByte c \<longleftrightarrow>
     (let n = (of_char c :: nat) in 48 \<le> n \<and> n \<le> 57 \<or> 65 \<le> n \<and> n \<le> 90 \<or> 97 \<le> n \<and> n \<le> 122) \<or> c \<in> set ''!#$%&*+-.^_|~'' \<or> c = CHR 0x27 \<or> c = CHR 0x60"

fun canonical_from :: "bool \<Rightarrow> string \<Rightarrow> string" where
  "canonical_from upper [] = []"
| "canonical_from upper (c # s) = (if upper then ToUpperChar c else ToLowerChar c) # canonical_from (c = CHR ''-'') s"

definition CanonicalMIMEHeaderKey :: "string \<Rightarrow> string" where
  "CanonicalMIMEHeaderKey k = (if list_all validHeaderFieldByte k then canonical_from True k else k)"

type_synonym mail_header = "(string \<times> string list) list"

fun add_field :: "string \<Rightarrow> string \<Rightarrow> mail_header \<Rightarrow> mail_header" where
  "add_field k v [] = [(k, [v])]"
| "add_field k v ((k', vs) # h) = (if k' = k then (k', vs @ [v]) # h else (k', vs) # add_field k v h)"

text \<open>\<^const>\<open>None\<close>: a malformed line. The boolean says that the header ended with a blank line, not with the input.\<close>

function readHeader :: "mail_header \<Rightarrow> string \<Rightarrow> (mail_header \<times> bool \<times> string) option" where
  "readHeader m s =
     (case next_line s of
        None \<Rightarrow> Some (m, False, [])
      | Some (line, rest) \<Rightarrow>
          if line = [] then Some (m, True, rest)
          else case continued (trimBlank line) rest of (kv, rest') \<Rightarrow>
            if kv = [] then Some (m, True, rest')
            else case Cut kv CHR '':'' of
                (_, None) \<Rightarrow> None
              | (k, Some v) \<Rightarrow>
                  readHeader (if k = [] then m else add_field (CanonicalMIMEHeaderKey k) (dropWhile isBlank v) m) rest')"
  by pat_completeness auto
termination
  by (relation "measure (\<lambda>(m, s). length s)")
     (auto dest!: next_line_shorter continued_shorter [OF sym])

declare readHeader.simps [simp del]

definition ReadMessage :: "string \<Rightarrow> (mail_header \<times> string) option" where
  "ReadMessage s =
     (if s \<noteq> [] \<and> isBlank (hd s) then None
      else case readHeader [] s of
          None \<Rightarrow> None
        | Some (m, ended, body) \<Rightarrow> if \<not> ended \<and> m = [] then None else Some (m, body))"

definition header_Get :: "mail_header \<Rightarrow> string \<Rightarrow> string" where
  "header_Get h name =
     (case map_of h (CanonicalMIMEHeaderKey name) of Some (v # _) \<Rightarrow> v | _ \<Rightarrow> [])"

section \<open>Reading fields that were written\<close>

definition field_line :: "string \<times> string \<Rightarrow> string" where
  "field_line f = fst f @ '': '' @ snd f @ CRLF"

definition good_field :: "string \<times> string \<Rightarrow> bool" where
  "good_field f \<longleftrightarrow> fst f \<noteq> [] \<and> list_all validHeaderFieldByte (fst f) \<and> LF \<notin> set (snd f)"

lemma valid_byte_not: "validHeaderFieldByte c \<Longrightarrow> c \<noteq> CHR '':'' \<and> c \<noteq> LF \<and> c \<noteq> CR \<and> \<not> isBlank c"
  by (auto simp: validHeaderFieldByte_def isBlank_def)

lemma good_field_key: "good_field f \<Longrightarrow> CHR '':'' \<notin> set (fst f) \<and> LF \<notin> set (fst f) \<and> \<not> isBlank (hd (fst f))"
  using valid_byte_not by (auto simp: good_field_def list_all_iff)

lemma TrimRight_keep: "\<not> P c \<Longrightarrow> TrimRightFunc P (a @ c # w) = a @ c # TrimRightFunc P w"
  by (simp add: TrimRightFunc_def dropWhile_append3)

lemma next_line_CRLF: "LF \<notin> set l \<Longrightarrow> next_line (l @ CR # LF # rest) = Some (l, rest)"
proof -
  assume l: "LF \<notin> set l"
  have "IndexFunc (\<lambda>c. c = LF) ((l @ [CR]) @ LF # rest) = Some (length (l @ [CR]))"
    using l by (intro IndexFunc_append) auto
  then show ?thesis by (simp add: next_line_def chopCR_def)
qed

text \<open>The value as it is read: without the blanks around it.\<close>

definition field_value :: "string \<Rightarrow> string" where
  "field_value v = dropWhile isBlank (TrimRightFunc isBlank (CHR '' '' # v))"

lemma readHeader_field:
  assumes "good_field f" "rest \<noteq> []" "\<not> isBlank (hd rest)"
  shows "readHeader m (field_line f @ rest) = readHeader (add_field (CanonicalMIMEHeaderKey (fst f)) (field_value (snd f)) m) rest"
proof -
  obtain k v where f: "f = (k, v)" by fastforce
  have k: "k \<noteq> []" "CHR '':'' \<notin> set k" "LF \<notin> set (k @ '': '' @ v)" "\<not> isBlank (hd k)"
    using assms(1) good_field_key [OF assms(1)] by (auto simp: good_field_def f)
  have line: "next_line (field_line f @ rest) = Some (k @ '': '' @ v, rest)"
    using next_line_CRLF [OF k(3), of rest] by (simp add: field_line_def f)
  have "dropWhile isBlank (k @ '': '' @ v) = k @ '': '' @ v" using k(1,4) by (cases k) auto
  then have trim: "trimBlank (k @ '': '' @ v) = k @ CHR '':'' # TrimRightFunc isBlank (CHR '' '' # v)"
    using TrimRight_keep [of isBlank "CHR '':''" k "CHR '' '' # v"] by (simp add: trimBlank_def TrimFunc_def isBlank_def)
  have cont: "continued buf rest = (buf, rest)" for buf
    using assms(2,3) by (simp add: continued.simps)
  show ?thesis
    by (subst readHeader.simps) (simp add: line [unfolded f] trim [simplified] cont Cut_append [OF k(2)] k(1) f field_value_def)
qed

lemma readHeader_fields:
  assumes "list_all good_field fs"
  shows "readHeader m (concat (map field_line fs) @ CRLF @ body) =
    Some (foldl (\<lambda>m f. add_field (CanonicalMIMEHeaderKey (fst f)) (field_value (snd f)) m) m fs, True, body)"
  using assms
proof (induction fs arbitrary: m)
  case Nil
  have "next_line (CRLF @ body) = Some ([], body)" using next_line_CRLF [of "[]" body] by simp
  then show ?case by (subst readHeader.simps) simp
next
  case (Cons f fs)
  let ?rest = "concat (map field_line fs) @ CRLF @ body"
  have "\<not> isBlank (hd ?rest)"
  proof (cases fs)
    case Nil
    then show ?thesis by (simp add: isBlank_def)
  next
    case (Cons g gs)
    with \<open>list_all good_field (f # fs)\<close> have "good_field g" by simp
    then have "fst g \<noteq> []" "\<not> isBlank (hd (fst g))" using good_field_key by (auto simp: good_field_def)
    with Cons show ?thesis by (simp add: field_line_def)
  qed
  with readHeader_field [of f ?rest m] Cons show ?case by simp
qed

lemma add_field_value: "map_of (add_field k v h) k' =
    (if k' = k then Some ((case map_of h k of None \<Rightarrow> [] | Some vs \<Rightarrow> vs) @ [v]) else map_of h k')"
  by (induction k v h rule: add_field.induct) auto

lemma fields_kept:
  assumes "map_of m k = Some vs" "x \<in> set vs"
  shows "\<exists>vs'. map_of (foldl (\<lambda>m f. add_field (CanonicalMIMEHeaderKey (fst f)) (field_value (snd f)) m) m fs) k = Some vs' \<and> x \<in> set vs'"
  using assms
proof (induction fs arbitrary: m vs)
  case (Cons f fs)
  let ?m = "add_field (CanonicalMIMEHeaderKey (fst f)) (field_value (snd f)) m"
  have "\<exists>vs1. map_of ?m k = Some vs1 \<and> x \<in> set vs1" using Cons.prems by (auto simp: add_field_value)
  then obtain vs1 where "map_of ?m k = Some vs1" "x \<in> set vs1" by blast
  with Cons.IH [of ?m vs1] show ?case by simp
qed auto

text \<open>Every field that was written is read.\<close>

lemma field_read:
  assumes "list_all good_field fs" "(k, v) \<in> set fs"
  shows "\<exists>h vs. readHeader [] (concat (map field_line fs) @ CRLF @ body) = Some (h, True, body)
    \<and> map_of h (CanonicalMIMEHeaderKey k) = Some vs \<and> field_value v \<in> set vs"
proof -
  obtain fs1 fs2 where fs: "fs = fs1 @ (k, v) # fs2" using assms(2) by (meson split_list)
  let ?step = "\<lambda>m f. add_field (CanonicalMIMEHeaderKey (fst f)) (field_value (snd f)) m"
  have "\<exists>vs. map_of (?step (foldl ?step [] fs1) (k, v)) (CanonicalMIMEHeaderKey k) = Some vs \<and> field_value v \<in> set vs"
    by (simp add: add_field_value)
  then obtain vs where vs: "map_of (?step (foldl ?step [] fs1) (k, v)) (CanonicalMIMEHeaderKey k) = Some vs" "field_value v \<in> set vs"
    by blast
  from fields_kept [OF vs, of fs2] readHeader_fields [OF assms(1), of "[]" body] show ?thesis by (auto simp: fs)
qed

end
