(* ===== verification/Vacation.thy ===== *)
theory Vacation
  imports Net_Mail Sieve_Engine
begin

text \<open>
  Out-of-office replies: \<^verbatim>\<open>usecase/vacation_reply.go\<close> (the message), \<^verbatim>\<open>vacation_suppression.go\<close>
  and \<^verbatim>\<open>postgres/vacation_log.go\<close> (who has been told already), with the headers of
  \<^verbatim>\<open>apply_rules.go\<close>. The encoder and decoder of RFC 2047 words of package
  \<^verbatim>\<open>mime\<close>, the current date and the random message identifier are arguments.
\<close>

section \<open>Headers of a message\<close>

definition headersOf :: "string \<Rightarrow> mail_header" where
  "headersOf payload =
     (case ReadMessage payload of None \<Rightarrow> [] | Some (h, _) \<Rightarrow> map (\<lambda>(name, values). (ToLower name, values)) h)"

definition firstHeader :: "mail_header \<Rightarrow> string \<Rightarrow> string" where
  "firstHeader headers name = (case map_of headers name of Some (v # _) \<Rightarrow> v | _ \<Rightarrow> [])"

definition no_line_breaks :: "string \<Rightarrow> string" where
  "no_line_breaks value = map (\<lambda>c. if c = CR \<or> c = LF then CHR '' '' else c) value"

definition mimeEncode :: "(string \<Rightarrow> string) \<Rightarrow> string \<Rightarrow> string" where
  "mimeEncode bEncode value = bEncode (no_line_breaks value)"

definition encodeHeaderValue :: "(string \<Rightarrow> string) \<Rightarrow> string \<Rightarrow> string" where
  "encodeHeaderValue bEncode value =
     (if list_ex (\<lambda>c. (of_char c :: nat) > 127) value then mimeEncode bEncode value else no_line_breaks value)"

definition normaliseEOL :: "string \<Rightarrow> string" where
  "normaliseEOL s0 =
     (let s = ReplaceAll (ReplaceAll s0 CRLF [LF]) [LF] CRLF in if \<not> HasSuffix s CRLF then s @ CRLF else s)"

section \<open>The reply\<close>

record pendingVacation =
  pv_To :: string
  pv_From :: string
  pv_Subject :: string
  pv_Body :: string
  pv_OriginalMessageID :: string
  pv_OriginalReferences :: string
  pv_OriginalSubject :: string
  pv_MailboxID :: nat

definition decodeHeaderValue :: "(string \<Rightarrow> string option) \<Rightarrow> string \<Rightarrow> string" where
  "decodeHeaderValue decode val =
     (let raw = TrimSpace val
      in if raw = [] then []
         else case decode raw of None \<Rightarrow> raw | Some decoded \<Rightarrow> TrimSpace decoded)"

function strip_prefixes :: "string \<Rightarrow> string" where
  "strip_prefixes out =
     (let lower = ToLower out
      in if HasPrefix lower ''re:'' then strip_prefixes (TrimSpace (drop 3 out))
         else if HasPrefix lower ''fwd:'' then strip_prefixes (TrimSpace (drop 4 out))
         else if HasPrefix lower ''fw:'' then strip_prefixes (TrimSpace (drop 3 out))
         else out)"
  by pat_completeness auto
termination
proof (relation "measure length", goal_cases)
  case (2 out lower)
  then have "3 \<le> length out" using HasPrefix_length [of out "''re:''"] by simp
  with length_TrimSpace [of "drop 3 out"] show ?case by simp
next
  case (3 out lower)
  then have "4 \<le> length out" using HasPrefix_length [of out "''fwd:''"] by simp
  with length_TrimSpace [of "drop 4 out"] show ?case by simp
next
  case (4 out lower)
  then have "3 \<le> length out" using HasPrefix_length [of out "''fw:''"] by simp
  with length_TrimSpace [of "drop 3 out"] show ?case by simp
qed simp

declare strip_prefixes.simps [simp del]

definition stripReplyPrefixes :: "string \<Rightarrow> string" where
  "stripReplyPrefixes subject = strip_prefixes (TrimSpace subject)"

definition vacationSubject :: "(string \<Rightarrow> string option) \<Rightarrow> pendingVacation \<Rightarrow> string" where
  "vacationSubject decode reply =
     (let configured0 = TrimSpace (pv_Subject reply);
          configured = (if configured0 = [] then ''Out of office'' else configured0);
          original = stripReplyPrefixes (decodeHeaderValue decode (pv_OriginalSubject reply))
      in if original = [] then configured
         else if EqualFold original configured then configured
         else configured @ '': Re: '' @ original)"

definition messageIDRef :: "string \<Rightarrow> string" where
  "messageIDRef raw =
     (let i = TrimSpace raw
      in if i = [] \<or> ContainsAny i CRLF then []
         else let i1 = (if \<not> HasPrefix i ''<'' then ''<'' @ i else i) in if \<not> HasSuffix i1 ''>'' then i1 @ ''>'' else i1)"

definition maxRefs :: nat where "maxRefs = 20"

definition reference_chain :: "string \<Rightarrow> string \<Rightarrow> string list" where
  "reference_chain existing original =
     (let chain = Fields (ReplaceAll (TrimSpace existing) CRLF '' '');
          out = filter (\<lambda>r. r \<noteq> original \<and> HasPrefix r ''<'') chain @ [original]
      in if length out > maxRefs then hd out # drop (length out - (maxRefs - 1)) out else out)"

definition buildReferences :: "string \<Rightarrow> string \<Rightarrow> string" where
  "buildReferences existing original = Join (reference_chain existing original) '' ''"

definition buildVacationMessage ::
  "(string \<Rightarrow> string) \<Rightarrow> (string \<Rightarrow> string option) \<Rightarrow> string \<Rightarrow> string \<Rightarrow> pendingVacation \<Rightarrow> string \<Rightarrow> string" where
  "buildVacationMessage bEncode decode date uuid reply host0 =
     (let host = (if host0 = [] then ''localhost'' else host0); original = messageIDRef (pv_OriginalMessageID reply)
      in ''From: '' @ pv_From reply @ CRLF
         @ ''To: '' @ pv_To reply @ CRLF
         @ ''Subject: '' @ encodeHeaderValue bEncode (vacationSubject decode reply) @ CRLF
         @ ''Date: '' @ date @ CRLF
         @ ''Message-ID: <'' @ uuid @ ''@'' @ host @ ''>'' @ CRLF
         @ (if original \<noteq> [] then
              ''In-Reply-To: '' @ original @ CRLF
              @ ''References: '' @ buildReferences (pv_OriginalReferences reply) original @ CRLF
            else [])
         @ ''Auto-Submitted: auto-replied'' @ CRLF
         @ ''X-Auto-Response-Suppress: All'' @ CRLF
         @ ''Precedence: bulk'' @ CRLF
         @ ''MIME-Version: 1.0'' @ CRLF
         @ ''Content-Type: text/plain; charset=utf-8'' @ CRLF
         @ ''Content-Transfer-Encoding: 8bit'' @ CRLF @ CRLF
         @ normaliseEOL (pv_Body reply))"

section \<open>Who has been told\<close>

record vacation_row =
  vr_mailbox :: nat
  vr_recipient :: string
  vr_last_sent_at :: int

definition LastRepliedAt :: "vacation_row list \<Rightarrow> nat \<Rightarrow> string \<Rightarrow> int option" where
  "LastRepliedAt rows mb to' =
     map_option vr_last_sent_at (find (\<lambda>r. vr_mailbox r = mb \<and> vr_recipient r = to') rows)"

definition RecordReply :: "int \<Rightarrow> nat \<Rightarrow> string \<Rightarrow> vacation_row list \<Rightarrow> vacation_row list" where
  "RecordReply now mb to' rows =
     (if list_ex (\<lambda>r. vr_mailbox r = mb \<and> vr_recipient r = to') rows
      then update_where (\<lambda>r. vr_mailbox r = mb \<and> vr_recipient r = to') (\<lambda>r. r\<lparr>vr_last_sent_at := now\<rparr>) rows
      else rows @ [\<lparr>vr_mailbox = mb, vr_recipient = to', vr_last_sent_at = now\<rparr>])"

definition normaliseAddress :: "string \<Rightarrow> string" where
  "normaliseAddress raw =
     (let address = TrimSpace (ToLower raw)
      in TrimSpace
           (case LastIndexFunc (\<lambda>c. c = CHR ''<'') address of
              None \<Rightarrow> address
            | Some angled \<Rightarrow>
                (case IndexFunc (\<lambda>c. c = CHR ''>'') (drop angled address) of
                   Some close \<Rightarrow> if close > 0 then take (close - 1) (drop (angled + 1) address) else address
                 | None \<Rightarrow> address)))"

text \<open>\<open>supp\<close>: the period, \<^const>\<open>None\<close> without suppression. \<open>rd\<close>, \<open>wr\<close>: whether the log can be read and written.\<close>

definition DefaultVacationPeriod :: int where "DefaultVacationPeriod = 7 * 24 * Hour"

definition NewVacationSuppression :: "int \<Rightarrow> int" where
  "NewVacationSuppression period = (if period \<le> 0 then DefaultVacationPeriod else period)"

definition ShouldReply :: "int option \<Rightarrow> bool \<Rightarrow> int \<Rightarrow> nat \<Rightarrow> string \<Rightarrow> vacation_row list \<Rightarrow> bool" where
  "ShouldReply supp rd now mb to' rows =
     (case supp of
        None \<Rightarrow> True
      | Some period \<Rightarrow>
          let address = normaliseAddress to'
          in if address = [] then False
             else if \<not> rd then True
             else case LastRepliedAt rows mb address of None \<Rightarrow> True | Some told \<Rightarrow> period \<le> now - told)"

definition suppression_Record :: "int option \<Rightarrow> bool \<Rightarrow> int \<Rightarrow> nat \<Rightarrow> string \<Rightarrow> vacation_row list \<Rightarrow> vacation_row list" where
  "suppression_Record supp wr now mb to' rows =
     (case supp of
        None \<Rightarrow> rows
      | Some _ \<Rightarrow>
          let address = normaliseAddress to'
          in if address = [] \<or> \<not> wr then rows else RecordReply now mb address rows)"

end
