(* ===== verification/Vacation_Properties.thy ===== *)
theory Vacation_Properties
  imports Vacation
begin

text \<open>
  Two servers on holiday do not answer each other: the reply this server writes is a message that no
  responder of this server answers. What the log of replies holds after a reply is recorded is used by
  \<open>Vacation_Spacing\<close>.
\<close>

section \<open>Field names\<close>

lemma ToUpper_ToLowerChar: "ToUpperChar (ToLowerChar c) = ToUpperChar c"
proof (cases "65 \<le> (of_char c :: nat) \<and> (of_char c :: nat) \<le> 90")
  case True
  then have "ToLowerChar c = char_of ((of_char c :: nat) + 32)" by (simp add: ToLowerChar_def Let_def)
  moreover have "(of_char (char_of ((of_char c :: nat) + 32) :: char) :: nat) = of_char c + 32" using True by (simp add: of_char_of)
  ultimately show ?thesis using True by (auto simp: ToUpperChar_def Let_def)
next
  case False
  then have "ToLowerChar c = c" by (auto simp: ToLowerChar_def Let_def)
  then show ?thesis by simp
qed

lemma ToLower_ToUpperChar: "ToLowerChar (ToUpperChar c) = ToLowerChar c"
proof (cases "97 \<le> (of_char c :: nat) \<and> (of_char c :: nat) \<le> 122")
  case True
  then have "ToUpperChar c = char_of ((of_char c :: nat) - 32)" by (simp add: ToUpperChar_def Let_def)
  moreover have "(of_char (char_of ((of_char c :: nat) - 32) :: char) :: nat) = of_char c - 32"
    using True by (auto simp: of_char_of intro!: mod_less)
  ultimately show ?thesis using True by (auto simp: ToLowerChar_def Let_def)
next
  case False
  then have "ToUpperChar c = c" by (auto simp: ToUpperChar_def Let_def)
  then show ?thesis by simp
qed

lemma ToLowerChar_dash: "ToLowerChar c = CHR ''-'' \<longleftrightarrow> c = CHR ''-''"
proof
  assume eq: "ToLowerChar c = CHR ''-''"
  have "ToUpperChar (ToLowerChar c) = ToUpperChar c" by (rule ToUpper_ToLowerChar)
  with eq have up: "ToUpperChar c = CHR ''-''" by (simp add: ToUpperChar_def)
  show "c = CHR ''-''"
  proof (cases "97 \<le> (of_char c :: nat) \<and> (of_char c :: nat) \<le> 122")
    case True
    then have "(of_char (ToUpperChar c) :: nat) = of_char c - 32"
      by (auto simp: ToUpperChar_def of_char_of Let_def intro!: mod_less)
    with up True show ?thesis by auto
  next
    case False
    with up show ?thesis by (auto simp: ToUpperChar_def Let_def split: if_splits)
  qed
qed (simp add: ToLowerChar_def)

lemma ToLower_canonical: "ToLower (canonical_from b k) = ToLower k"
  by (induction k arbitrary: b) (simp_all add: ToLower_Cons ToLower_ToUpperChar)

lemma canonical_ToLower: "canonical_from b (ToLower k) = canonical_from b k"
  by (induction k arbitrary: b) (simp_all add: ToLower_Cons ToUpper_ToLowerChar ToLowerChar_dash)

lemma canonical_idem: "canonical_from b (canonical_from b k) = canonical_from b k"
  by (metis ToLower_canonical canonical_ToLower)

text \<open>A name in canonical form is the canonical form of its lower-case form.\<close>

definition canonical_keys :: "mail_header \<Rightarrow> bool" where
  "canonical_keys h \<longleftrightarrow> list_all (\<lambda>(k, _). canonical_from True (ToLower k) = k) h"

lemma canonical_keys_add: "canonical_keys h \<Longrightarrow> list_all validHeaderFieldByte k \<Longrightarrow> canonical_keys (add_field (CanonicalMIMEHeaderKey k) v h)"
  by (induction "CanonicalMIMEHeaderKey k" v h rule: add_field.induct)
     (auto simp: canonical_keys_def CanonicalMIMEHeaderKey_def ToLower_canonical canonical_ToLower canonical_idem)

lemma canonical_keys_fields:
  assumes "canonical_keys m" "list_all good_field fs"
  shows "canonical_keys (foldl (\<lambda>m f. add_field (CanonicalMIMEHeaderKey (fst f)) (field_value (snd f)) m) m fs)"
  using assms by (induction fs arbitrary: m) (auto simp: canonical_keys_add good_field_def)

lemma map_of_lowered:
  assumes "canonical_keys h"
  shows "map_of (map (\<lambda>(name, values). (ToLower name, values)) h) (ToLower k) = map_of h (canonical_from True k)"
  using assms
proof (induction h)
  case (Cons e h)
  obtain k' vs where e: "e = (k', vs)" by fastforce
  have can: "canonical_from True (ToLower k') = k'" using Cons.prems by (simp add: canonical_keys_def e)
  have "ToLower k' = ToLower k \<longleftrightarrow> k' = canonical_from True k"
    by (metis can ToLower_canonical canonical_ToLower)
  with Cons e show ?case by (auto simp: canonical_keys_def)
qed simp

section \<open>An automatic message is not answered\<close>

lemma written_header:
  assumes "list_all good_field fs" "fs \<noteq> []" "(k, v) \<in> set fs"
  shows "\<exists>vs. map_of (headersOf (concat (map field_line fs) @ CRLF @ body)) (ToLower k) = Some vs \<and> field_value v \<in> set vs"
proof -
  let ?msg = "concat (map field_line fs) @ CRLF @ body"
  obtain h vs where h: "readHeader [] ?msg = Some (h, True, body)" "map_of h (CanonicalMIMEHeaderKey k) = Some vs" "field_value v \<in> set vs"
    using field_read [OF assms(1,3)] by blast
  have key: "list_all validHeaderFieldByte k" using assms(1,3) by (auto simp: list_all_iff good_field_def)
  have can: "canonical_keys h"
    using h(1) readHeader_fields [OF assms(1), of "[]" body] canonical_keys_fields [of "[]" fs] assms(1) by (simp add: canonical_keys_def)
  obtain f fs' where fs: "fs = f # fs'" using assms(2) by (cases fs) auto
  then have "good_field f" using assms(1) by simp
  then have "?msg \<noteq> []" "\<not> isBlank (hd ?msg)"
    using good_field_key [of f] by (auto simp: fs field_line_def good_field_def)
  then have "ReadMessage ?msg = Some (h, body)" using h(1) by (simp add: ReadMessage_def)
  then have "headersOf ?msg = map (\<lambda>(name, values). (ToLower name, values)) h" by (simp add: headersOf_def)
  with h(2,3) key map_of_lowered [OF can, of k] show ?thesis by (simp add: CanonicalMIMEHeaderKey_def)
qed

lemma auto_submitted_not_answered:
  "list_ex (\<lambda>v. \<not> EqualFold (TrimSpace v) ''no'') (header_values msg ''auto-submitted'') \<Longrightarrow> \<not> shouldAutoReply msg"
  by (simp add: shouldAutoReply_def)

lemma automatic_not_answered:
  assumes "list_all good_field fs" "fs \<noteq> []" "(''Auto-Submitted'', v) \<in> set fs" "\<not> EqualFold (TrimSpace (field_value v)) ''no''"
  shows "\<not> shouldAutoReply \<lparr>Headers = headersOf (concat (map field_line fs) @ CRLF @ body), Sender = s, Recipient = r\<rparr>"
proof -
  let ?msg = "\<lparr>Headers = headersOf (concat (map field_line fs) @ CRLF @ body), Sender = s, Recipient = r\<rparr>"
  have lower: "ToLower ''Auto-Submitted'' = ''auto-submitted''" by code_simp
  have name: "ToLower (TrimSpace ''auto-submitted'') = ''auto-submitted''" by code_simp
  obtain vs where "map_of (Headers ?msg) ''auto-submitted'' = Some vs" "field_value v \<in> set vs"
    using written_header [OF assms(1-3), of body] lower by auto
  then have "list_ex (\<lambda>v. \<not> EqualFold (TrimSpace v) ''no'') (header_values ?msg ''auto-submitted'')"
    using assms(4) name by (auto simp: header_values_def list_ex_iff)
  then show ?thesis by (rule auto_submitted_not_answered)
qed

section \<open>The reply\<close>

definition vacation_fields ::
  "(string \<Rightarrow> string) \<Rightarrow> (string \<Rightarrow> string option) \<Rightarrow> string \<Rightarrow> string \<Rightarrow> pendingVacation \<Rightarrow> string \<Rightarrow> (string \<times> string) list" where
  "vacation_fields bEncode decode date uuid reply host =
     [(''From'', pv_From reply), (''To'', pv_To reply),
      (''Subject'', encodeHeaderValue bEncode (vacationSubject decode reply)), (''Date'', date),
      (''Message-ID'', ''<'' @ uuid @ ''@'' @ host @ ''>'')]
     @ (let original = messageIDRef (pv_OriginalMessageID reply)
        in if original \<noteq> [] then [(''In-Reply-To'', original), (''References'', buildReferences (pv_OriginalReferences reply) original)]
           else [])
     @ [(''Auto-Submitted'', ''auto-replied''), (''X-Auto-Response-Suppress'', ''All''), (''Precedence'', ''bulk''),
        (''MIME-Version'', ''1.0''), (''Content-Type'', ''text/plain; charset=utf-8''), (''Content-Transfer-Encoding'', ''8bit'')]"

lemma buildVacationMessage_fields:
  "buildVacationMessage bEncode decode date uuid reply host =
     concat (map field_line (vacation_fields bEncode decode date uuid reply (if host = [] then ''localhost'' else host)))
     @ CRLF @ normaliseEOL (pv_Body reply)"
  by (simp add: buildVacationMessage_def vacation_fields_def field_line_def Let_def)

lemma no_line_breaks_LF: "LF \<notin> set (no_line_breaks v)"
  by (auto simp: no_line_breaks_def)

lemma encodeHeaderValue_LF: "(\<And>s. LF \<notin> set (bEncode s)) \<Longrightarrow> LF \<notin> set (encodeHeaderValue bEncode v)"
  by (simp add: encodeHeaderValue_def mimeEncode_def no_line_breaks_LF)

lemma messageIDRef_LF: "LF \<notin> set (messageIDRef raw)"
  by (auto simp: messageIDRef_def ContainsAny_def list_ex_iff Let_def)

lemma FieldsFunc_clean: "w \<in> set (FieldsFunc P s) \<Longrightarrow> c \<in> set w \<Longrightarrow> \<not> P c"
proof (induction P s arbitrary: w rule: FieldsFunc.induct)
  case (2 P x s)
  show ?case
  proof (cases "P x \<or> s = [] \<or> P (hd s)")
    case True
    with 2 show ?thesis by (auto split: if_splits)
  next
    case False
    then show ?thesis
      using 2 by (cases "FieldsFunc P s") (auto, blast+)
  qed
qed simp

lemma set_Join: "set (Join ws sep) \<subseteq> (\<Union>w \<in> set ws. set w) \<union> set sep"
  by (induction ws sep rule: Join.induct) auto

lemma reference_chain_members:
  assumes "r \<in> set (reference_chain existing original)"
  shows "r = original \<or> r \<in> set (Fields (ReplaceAll (TrimSpace existing) CRLF '' ''))"
proof -
  define out where "out = filter (\<lambda>r. r \<noteq> original \<and> HasPrefix r ''<'') (Fields (ReplaceAll (TrimSpace existing) CRLF '' '')) @ [original]"
  have "reference_chain existing original = (if length out > maxRefs then hd out # drop (length out - (maxRefs - 1)) out else out)"
    by (simp add: reference_chain_def out_def Let_def)
  moreover have "out \<noteq> []" by (simp add: out_def)
  then have "hd out \<in> set out" by (rule hd_in_set)
  ultimately have "r \<in> set out" using assms by (auto split: if_splits dest: in_set_dropD)
  then show ?thesis by (auto simp: out_def)
qed

lemma buildReferences_LF: "LF \<notin> set original \<Longrightarrow> LF \<notin> set (buildReferences existing original)"
proof -
  assume orig: "LF \<notin> set original"
  have "LF \<notin> set r" if "r \<in> set (reference_chain existing original)" for r
    using reference_chain_members [OF that] orig FieldsFunc_clean [of r IsSpace _ LF] by (auto simp: Fields_def IsSpace_def)
  then show ?thesis using set_Join [of "reference_chain existing original" "'' ''"] by (auto simp: buildReferences_def)
qed

lemma vacation_fields_good:
  assumes "LF \<notin> set (pv_From reply)" "LF \<notin> set (pv_To reply)" "LF \<notin> set date" "LF \<notin> set uuid" "LF \<notin> set host"
    and "\<And>s. LF \<notin> set (bEncode s)"
  shows "list_all good_field (vacation_fields bEncode decode date uuid reply host)"
  using assms encodeHeaderValue_LF [OF assms(6)] messageIDRef_LF buildReferences_LF [OF messageIDRef_LF]
  by (simp add: vacation_fields_def good_field_def validHeaderFieldByte_def Let_def)

text \<open>
  C29. Two responders never answer each other: the out-of-office reply that this server writes is a
  message to which its own rules send no automatic reply, whatever the addresses, the subject, the
  references and the text of the reply are and whoever receives it, as long as the envelope
  addresses, the host, the date and the identifier have no line feed. The encoder of non-ASCII
  subjects is assumed to write no line feed.
\<close>

theorem vacation_reply_not_answered:
  assumes "LF \<notin> set (pv_From reply)" "LF \<notin> set (pv_To reply)" "LF \<notin> set date" "LF \<notin> set uuid" "LF \<notin> set host"
    and "\<And>s. LF \<notin> set (bEncode s)"
  shows "\<not> shouldAutoReply \<lparr>Headers = headersOf (buildVacationMessage bEncode decode date uuid reply host), Sender = s, Recipient = r\<rparr>"
proof -
  let ?fs = "vacation_fields bEncode decode date uuid reply (if host = [] then ''localhost'' else host)"
  have good: "list_all good_field ?fs" by (rule vacation_fields_good) (use assms in auto)
  have "(''Auto-Submitted'', ''auto-replied'') \<in> set ?fs" by (simp add: vacation_fields_def)
  moreover have "\<not> EqualFold (TrimSpace (field_value ''auto-replied'')) ''no''" by code_simp
  moreover have "?fs \<noteq> []" by (simp add: vacation_fields_def)
  ultimately show ?thesis
    unfolding buildVacationMessage_fields using automatic_not_answered [OF good] by blast
qed

theorem vacation_reply_not_answered_witness:
  "\<not> shouldAutoReply \<lparr>Headers = headersOf (buildVacationMessage (\<lambda>s. ''=?utf-8?b??='') (\<lambda>s. None) ''Mon'' ''1''
       \<lparr>pv_To = ''bob@b.org'', pv_From = ''ann@a.org'', pv_Subject = ''Away'', pv_Body = ''Back on Monday.'',
        pv_OriginalMessageID = ''<7@b.org>'', pv_OriginalReferences = [], pv_OriginalSubject = ''Hello'', pv_MailboxID = 1\<rparr> ''a.org''),
     Sender = ''ann@a.org'', Recipient = ''bob@b.org''\<rparr>"
  by (rule vacation_reply_not_answered) simp_all

section \<open>The log of replies\<close>

lemma find_map_same: "(\<And>x. P (f x) = P x) \<Longrightarrow> find P (map f xs) = map_option f (find P xs)"
  by (induction xs) auto

lemma find_at_end: "find P (xs @ [x]) = (case find P xs of None \<Rightarrow> if P x then Some x else None | Some y \<Rightarrow> Some y)"
  by (induction xs) auto

lemma LastRepliedAt_Record:
  "LastRepliedAt (RecordReply now mb a rows) mb' b = (if mb' = mb \<and> b = a then Some now else LastRepliedAt rows mb' b)"
proof (cases "list_ex (\<lambda>r. vr_mailbox r = mb \<and> vr_recipient r = a) rows")
  case True
  define u where "u = (\<lambda>r::vacation_row. if vr_mailbox r = mb \<and> vr_recipient r = a then r\<lparr>vr_last_sent_at := now\<rparr> else r)"
  have rec: "RecordReply now mb a rows = map u rows" using True by (simp add: RecordReply_def update_where_def u_def)
  have key: "vr_mailbox (u r) = vr_mailbox r" "vr_recipient (u r) = vr_recipient r" for r by (simp_all add: u_def)
  have eq: "find (\<lambda>r. vr_mailbox r = mb' \<and> vr_recipient r = b) (map u rows)
      = map_option u (find (\<lambda>r. vr_mailbox r = mb' \<and> vr_recipient r = b) rows)"
    by (rule find_map_same) (simp add: key)
  show ?thesis
  proof (cases "find (\<lambda>r. vr_mailbox r = mb' \<and> vr_recipient r = b) rows")
    case None
    with True have "\<not> (mb' = mb \<and> b = a)" by (auto simp: list_ex_iff find_None_iff)
    with None show ?thesis unfolding LastRepliedAt_def rec eq by simp
  next
    case (Some r)
    then have "vr_mailbox r = mb' \<and> vr_recipient r = b" by (auto dest: find_SomeD)
    with Some show ?thesis unfolding LastRepliedAt_def rec eq by (simp add: u_def)
  qed
next
  case False
  then have rec: "RecordReply now mb a rows = rows @ [\<lparr>vr_mailbox = mb, vr_recipient = a, vr_last_sent_at = now\<rparr>]"
    by (simp add: RecordReply_def)
  have none: "find (\<lambda>r. vr_mailbox r = mb \<and> vr_recipient r = a) rows = None" using False by (auto simp: list_ex_iff find_None_iff)
  show ?thesis unfolding LastRepliedAt_def rec find_at_end using none by (auto split: option.split)
qed

end
