(* ===== verification/Outbound_Queue.thy ===== *)
theory Outbound_Queue
  imports Prelude
begin

text \<open>
  The queue of outgoing mail: \<^verbatim>\<open>domain/entity/outbound_job.go\<close> (a delivery job and when it is
  tried again) and \<^verbatim>\<open>postgres/outbound_repository.go\<close> (the table of jobs).

  Times are nanoseconds. The random factor of the retry delay is an argument, a number between 4/5 and
  6/5; the float arithmetic of the source is exact up to the truncation for the delays it is
  applied to.
\<close>

section \<open>Jobs\<close>

datatype job_status = Queued | Sending | Deferred | Delivered | Bounced | Cancelled

record outbound_job =
  job_id :: nat
  MailboxID :: "nat option"
  BlobID :: nat
  EnvelopeFrom :: string
  EnvelopeTo :: string
  DestinationDomain :: string
  Status :: job_status
  Attempt :: int
  NextAttemptAt :: int
  ExpiresAt :: "int option"
  LastSmtpCode :: string
  LastError :: string
  TlsPolicyUsed :: string
  DelayDsnSent :: bool
  CreatedAt :: int

text \<open>\<^const>\<open>None\<close> is the zero time. The result: when to try again, whether the delay notice is due, whether to give up.\<close>

definition baseDelay :: "int \<Rightarrow> int" where
  "baseDelay nextAttempt =
     (if nextAttempt = 1 then 0
      else if nextAttempt = 2 then 5 * Minute
      else if nextAttempt = 3 then 15 * Minute
      else if nextAttempt = 4 then 1 * Hour
      else if nextAttempt = 5 then 2 * Hour
      else if nextAttempt = 6 then 4 * Hour
      else if nextAttempt = 7 then 8 * Hour
      else 12 * Hour)"

definition retry_delay :: "rat \<Rightarrow> int \<Rightarrow> int" where
  "retry_delay factor nextAttempt =
     (if baseDelay nextAttempt > 0 \<and> nextAttempt \<ge> 5 then \<lfloor>of_int (baseDelay nextAttempt) * factor\<rfloor> else baseDelay nextAttempt)"

definition CalculateNextBackoff :: "rat \<Rightarrow> int \<Rightarrow> int \<Rightarrow> int option \<Rightarrow> int \<times> bool \<times> bool" where
  "CalculateNextBackoff factor now failedAttempt expiresAt =
     (case expiresAt of
        Some e \<Rightarrow>
          if now \<ge> e then (now, False, True)
          else
            let nextAttempt = failedAttempt + 1; nextAttemptAt = now + retry_delay factor nextAttempt;
                sendDelayDsn = (nextAttempt = 4)
            in if nextAttemptAt > e then (e, sendDelayDsn, True) else (nextAttemptAt, sendDelayDsn, False)
      | None \<Rightarrow>
          let nextAttempt = failedAttempt + 1
          in (now + retry_delay factor nextAttempt, nextAttempt = 4, False))"

section \<open>The table\<close>

record job_row =
  jr_job :: outbound_job
  locked_by :: "string option"
  locked_until :: "int option"

record job_table =
  jt_rows :: "job_row list"
  jt_next_id :: nat

definition Enqueue :: "bool \<Rightarrow> int \<Rightarrow> outbound_job \<Rightarrow> job_table \<Rightarrow> (unit + outbound_job) \<times> job_table" where
  "Enqueue ok now job t =
     (if \<not> ok then (Inl (), t)
      else
        let job' = job\<lparr>job_id := jt_next_id t, CreatedAt := now\<rparr>;
            row = \<lparr>jr_job = job'\<lparr>LastSmtpCode := [], LastError := [], TlsPolicyUsed := [], DelayDsnSent := False\<rparr>,
                   locked_by = None, locked_until = None\<rparr>
        in (Inr job', t\<lparr>jt_rows := jt_rows t @ [row], jt_next_id := jt_next_id t + 1\<rparr>))"

definition job_ready :: "int \<Rightarrow> job_row \<Rightarrow> bool" where
  "job_ready now r \<longleftrightarrow>
     (Status (jr_job r) = Queued \<or> Status (jr_job r) = Deferred) \<and> NextAttemptAt (jr_job r) \<le> now
     \<or> Status (jr_job r) = Sending \<and> (case locked_until r of None \<Rightarrow> False | Some u \<Rightarrow> u \<le> now)"

text \<open>
  \<open>busy\<close> are the rows that another transaction holds locked at that moment (SKIP LOCKED). The jobs
  are returned in the order of their next attempt.
\<close>

definition ready_jobs :: "(nat \<Rightarrow> bool) \<Rightarrow> int \<Rightarrow> nat \<Rightarrow> job_table \<Rightarrow> job_row list" where
  "ready_jobs busy now limit t =
     take limit (sort_key (\<lambda>r. NextAttemptAt (jr_job r))
       (filter (\<lambda>r. job_ready now r \<and> \<not> busy (job_id (jr_job r))) (jt_rows t)))"

definition claim :: "string \<Rightarrow> int \<Rightarrow> job_row \<Rightarrow> job_row" where
  "claim worker now r =
     r\<lparr>jr_job := (jr_job r)\<lparr>Status := Sending\<rparr>, locked_by := Some worker, locked_until := Some (now + 5 * Minute)\<rparr>"

definition FetchNextReady ::
  "bool \<Rightarrow> (nat \<Rightarrow> bool) \<Rightarrow> int \<Rightarrow> string \<Rightarrow> nat \<Rightarrow> job_table \<Rightarrow> (unit + outbound_job list) \<times> job_table" where
  "FetchNextReady ok busy now worker limit t =
     (if \<not> ok then (Inl (), t)
      else
        let ready = ready_jobs busy now limit t; ids = map (\<lambda>r. job_id (jr_job r)) ready
        in (Inr (map (\<lambda>r. jr_job (claim worker now r)) ready),
            t\<lparr>jt_rows := update_where (\<lambda>r. job_id (jr_job r) \<in> set ids) (claim worker now) (jt_rows t)\<rparr>))"

definition CountRecipientsSince :: "bool \<Rightarrow> nat \<Rightarrow> int \<Rightarrow> job_table \<Rightarrow> unit + nat" where
  "CountRecipientsSince ok mailboxID since t =
     (if \<not> ok then Inl ()
      else Inr (length (filter (\<lambda>r. MailboxID (jr_job r) = Some mailboxID \<and> CreatedAt (jr_job r) \<ge> since) (jt_rows t))))"

definition UpdateJob :: "bool \<Rightarrow> outbound_job \<Rightarrow> job_table \<Rightarrow> job_table" where
  "UpdateJob ok job t =
     (if \<not> ok then t
      else t\<lparr>jt_rows := update_where (\<lambda>r. job_id (jr_job r) = job_id job)
               (\<lambda>r. r\<lparr>jr_job := (jr_job r)\<lparr>Status := Status job, Attempt := Attempt job, NextAttemptAt := NextAttemptAt job,
                         LastSmtpCode := LastSmtpCode job, LastError := LastError job, TlsPolicyUsed := TlsPolicyUsed job,
                         DelayDsnSent := DelayDsnSent job\<rparr>,
                      locked_by := None, locked_until := None\<rparr>) (jt_rows t)\<rparr>)"

end
