(* ===== verification/Reports.thy ===== *)
theory Reports
  imports Prelude
begin

text \<open>
  DMARC and TLS-RPT reports: reading a report (\<^verbatim>\<open>entity/dmarc_report.go\<close>,
  \<^verbatim>\<open>entity/tls_rpt_report.go\<close>), storing it (\<^verbatim>\<open>usecase/ingest_reports.go\<close>,
  \<^verbatim>\<open>postgres/report_repository.go\<close>) and finding it in a delivered message
  (\<^verbatim>\<open>usecase/ingest_delivered_reports.go\<close>).

  Decompression, the XML, JSON and time decoders and the MIME reader are parameters: what they make of
  the bytes they are given.
\<close>

section \<open>Reports\<close>

record DmarcRecord =
  dr_SourceIP :: string
  dr_Count :: int
  dr_Disposition :: string
  dr_DKIMResult :: string
  dr_SPFResult :: string
  dr_HeaderFrom :: string

record DmarcReport =
  dm_OrgName :: string
  dm_ReportID :: string
  dm_Domain :: string
  dm_Begin :: int
  dm_End :: int
  dm_Records :: "DmarcRecord list"

record TlsRptPolicy =
  tp_PolicyType :: string
  tp_SuccessCount :: int
  tp_FailureCount :: int

record TlsRptReport =
  tr_OrganizationName :: string
  tr_ReportID :: string
  tr_Domain :: string
  tr_Begin :: int
  tr_End :: int
  tr_Policies :: "TlsRptPolicy list"

text \<open>What the decoders return.\<close>

record dmarcXmlRow =
  xr_SourceIP :: string
  xr_Count :: int
  xr_Disposition :: string
  xr_DKIM :: string
  xr_SPF :: string
  xr_HeaderFrom :: string

record dmarcXmlReport =
  xm_OrgName :: string
  xm_ReportID :: string
  xm_Begin :: int
  xm_End :: int
  xm_Domain :: string
  xm_Record :: "dmarcXmlRow list"

record tlsRptJsonPolicy =
  jp_PolicyType :: string
  jp_Domain :: string
  jp_Successful :: int
  jp_Failure :: int

record tlsRptJsonReport =
  js_OrganizationName :: string
  js_ReportID :: string
  js_StartDatetime :: string
  js_EndDatetime :: string
  js_Policies :: "tlsRptJsonPolicy list"

text \<open>A file of a zip archive: whether it is a directory, and its contents if it can be opened and read.\<close>

record zip_file =
  zf_dir :: bool
  zf_contents :: "string option"

text \<open>A MIME entity: the parts that can be read one after the other, or a decoded body.\<close>

datatype mime_entity = Multipart "mime_entity list" | Leaf "string option"

record report_lib =
  rl_gunzip :: "string \<Rightarrow> string option"
  rl_unzip :: "string \<Rightarrow> zip_file list option"
  rl_xml :: "string \<Rightarrow> dmarcXmlReport option"
  rl_json :: "string \<Rightarrow> tlsRptJsonReport option"
  rl_unix :: "int \<Rightarrow> int"
  rl_time :: "string \<Rightarrow> int"
  rl_message :: "string \<Rightarrow> mime_entity option"

definition isGzip :: "string \<Rightarrow> bool" where
  "isGzip p \<longleftrightarrow> length p \<ge> 2 \<and> p ! 0 = CHR 0x1F \<and> p ! 1 = CHR 0x8B"

definition isZip :: "string \<Rightarrow> bool" where
  "isZip p \<longleftrightarrow> length p \<ge> 4 \<and> p ! 0 = CHR ''P'' \<and> p ! 1 = CHR ''K'' \<and> p ! 2 = CHR 0x03 \<and> p ! 3 = CHR 0x04"

definition zipLimit :: nat where "zipLimit = 64 * 1024 * 1024"

definition firstFileInZip :: "report_lib \<Rightarrow> string \<Rightarrow> string option" where
  "firstFileInZip lib p =
     (case rl_unzip lib p of
        None \<Rightarrow> None
      | Some files \<Rightarrow>
          (case find (\<lambda>f. \<not> zf_dir f) files of
             None \<Rightarrow> None
           | Some f \<Rightarrow> map_option (take zipLimit) (zf_contents f)))"

definition ParseDmarcXmlReport :: "report_lib \<Rightarrow> string \<Rightarrow> DmarcReport option" where
  "ParseDmarcXmlReport lib p =
     (case (if isGzip p then rl_gunzip lib p else if isZip p then firstFileInZip lib p else Some p) of
        None \<Rightarrow> None
      | Some xml \<Rightarrow>
          map_option (\<lambda>x. \<lparr>dm_OrgName = xm_OrgName x, dm_ReportID = xm_ReportID x, dm_Domain = xm_Domain x,
            dm_Begin = rl_unix lib (xm_Begin x), dm_End = rl_unix lib (xm_End x),
            dm_Records = map (\<lambda>r. \<lparr>dr_SourceIP = xr_SourceIP r, dr_Count = xr_Count r, dr_Disposition = xr_Disposition r,
              dr_DKIMResult = xr_DKIM r, dr_SPFResult = xr_SPF r, dr_HeaderFrom = xr_HeaderFrom r\<rparr>) (xm_Record x)\<rparr>) (rl_xml lib xml))"

definition ParseTlsRptReport :: "report_lib \<Rightarrow> string \<Rightarrow> TlsRptReport option" where
  "ParseTlsRptReport lib p =
     (case (if isGzip p then rl_gunzip lib p else Some p) of
        None \<Rightarrow> None
      | Some json \<Rightarrow>
          map_option (\<lambda>j. \<lparr>tr_OrganizationName = js_OrganizationName j, tr_ReportID = js_ReportID j,
            tr_Domain = (case js_Policies j of [] \<Rightarrow> [] | q # _ \<Rightarrow> jp_Domain q),
            tr_Begin = rl_time lib (js_StartDatetime j), tr_End = rl_time lib (js_EndDatetime j),
            tr_Policies = map (\<lambda>q. \<lparr>tp_PolicyType = jp_PolicyType q, tp_SuccessCount = jp_Successful q,
              tp_FailureCount = jp_Failure q\<rparr>) (js_Policies j)\<rparr>) (rl_json lib json))"

section \<open>The tables\<close>

text \<open>A stored report with its records: \<open>'r\<close> is the type of the records, the key is reporter and identifier.\<close>

record 'r report_row =
  rp_org :: string
  rp_report_id :: string
  rp_domain :: string
  rp_begin :: int
  rp_end :: int
  rp_records :: "'r list"

record report_db =
  rd_dmarc :: "DmarcRecord report_row list"
  rd_tlsrpt :: "TlsRptPolicy report_row list"

definition same_report :: "'r report_row \<Rightarrow> 'r report_row \<Rightarrow> bool" where
  "same_report a b \<longleftrightarrow> rp_org a = rp_org b \<and> rp_report_id a = rp_report_id b"

text \<open>INSERT ... ON CONFLICT DO UPDATE SET domain, then the records are replaced.\<close>

definition upsert_report :: "'r report_row \<Rightarrow> 'r report_row list \<Rightarrow> 'r report_row list" where
  "upsert_report new rows =
     (if list_ex (same_report new) rows
      then update_where (same_report new) (\<lambda>r. r\<lparr>rp_domain := rp_domain new, rp_records := rp_records new\<rparr>) rows
      else rows @ [new])"

definition dmarc_row :: "DmarcReport \<Rightarrow> DmarcRecord report_row" where
  "dmarc_row r = \<lparr>rp_org = dm_OrgName r, rp_report_id = dm_ReportID r, rp_domain = dm_Domain r, rp_begin = dm_Begin r,
     rp_end = dm_End r, rp_records = dm_Records r\<rparr>"

definition tlsrpt_row :: "TlsRptReport \<Rightarrow> TlsRptPolicy report_row" where
  "tlsrpt_row r = \<lparr>rp_org = tr_OrganizationName r, rp_report_id = tr_ReportID r, rp_domain = tr_Domain r, rp_begin = tr_Begin r,
     rp_end = tr_End r, rp_records = tr_Policies r\<rparr>"

definition SaveDmarcReport :: "bool \<Rightarrow> DmarcReport \<Rightarrow> report_db \<Rightarrow> report_db option" where
  "SaveDmarcReport ok r db = (if \<not> ok then None else Some (db\<lparr>rd_dmarc := upsert_report (dmarc_row r) (rd_dmarc db)\<rparr>))"

definition SaveTlsRptReport :: "bool \<Rightarrow> TlsRptReport \<Rightarrow> report_db \<Rightarrow> report_db option" where
  "SaveTlsRptReport ok r db = (if \<not> ok then None else Some (db\<lparr>rd_tlsrpt := upsert_report (tlsrpt_row r) (rd_tlsrpt db)\<rparr>))"

section \<open>Reports in delivered messages\<close>

datatype ReportKind = ReportKindNone | ReportKindDmarc | ReportKindTlsRpt

definition reportLocalParts :: "string \<Rightarrow> ReportKind" where
  "reportLocalParts local =
     (if local = ''dmarc'' then ReportKindDmarc else if local = ''tlsrpt'' then ReportKindTlsRpt else ReportKindNone)"

definition ReportsFolderName :: string where "ReportsFolderName = ''Reports''"

definition reportKindForAddress :: "string \<Rightarrow> ReportKind" where
  "reportKindForAddress address =
     (case Cut address CHR ''@'' of
        (_, None) \<Rightarrow> ReportKindNone
      | (local, Some _) \<Rightarrow> reportLocalParts (ToLower (TrimSpace local)))"

definition reportKind :: "string list \<Rightarrow> ReportKind" where
  "reportKind recipients =
     (case find (\<lambda>k. k \<noteq> ReportKindNone) (map reportKindForAddress recipients) of None \<Rightarrow> ReportKindNone | Some k \<Rightarrow> k)"

definition maxReportParts :: nat where "maxReportParts = 16"
definition maxReportPartBytes :: nat where "maxReportPartBytes = 32 * 1024 * 1024"

text \<open>
  \<open>out\<close> are the bodies collected so far among the siblings; each part is read with one more level
  of depth, and reading stops once enough are collected.
\<close>

fun collectReportParts :: "nat \<Rightarrow> mime_entity \<Rightarrow> string list"
  and collect_siblings :: "nat \<Rightarrow> string list \<Rightarrow> mime_entity list \<Rightarrow> string list" where
  "collectReportParts depth (Multipart parts) = (if depth > 8 then [] else collect_siblings (Suc depth) [] parts)"
| "collectReportParts depth (Leaf body) =
     (if depth > 8 then []
      else case body of
          None \<Rightarrow> []
        | Some b \<Rightarrow> if take maxReportPartBytes b = [] then [] else [take maxReportPartBytes b])"
| "collect_siblings depth out [] = out"
| "collect_siblings depth out (part # parts) =
     (if length out < maxReportParts then collect_siblings depth (out @ collectReportParts depth part) parts else out)"

definition reportPayloads :: "report_lib \<Rightarrow> string \<Rightarrow> string list" where
  "reportPayloads lib p =
     (case rl_message lib p of None \<Rightarrow> [p] | Some entity \<Rightarrow> collectReportParts 0 entity @ [p])"

definition IngestDmarc :: "report_lib \<Rightarrow> bool \<Rightarrow> string \<Rightarrow> report_db \<Rightarrow> report_db option" where
  "IngestDmarc lib ok p db =
     (case ParseDmarcXmlReport lib p of None \<Rightarrow> None | Some r \<Rightarrow> SaveDmarcReport ok r db)"

definition IngestTlsRpt :: "report_lib \<Rightarrow> bool \<Rightarrow> string \<Rightarrow> report_db \<Rightarrow> report_db option" where
  "IngestTlsRpt lib ok p db =
     (case ParseTlsRptReport lib p of None \<Rightarrow> None | Some r \<Rightarrow> SaveTlsRptReport ok r db)"

record ReportOutcome =
  ro_Kind :: ReportKind
  ro_Stored :: bool

text \<open>\<open>ok i\<close>: whether the \<open>i\<close>-th candidate can be saved.\<close>

fun ingest_first :: "report_lib \<Rightarrow> (nat \<Rightarrow> bool) \<Rightarrow> ReportKind \<Rightarrow> nat \<Rightarrow> string list \<Rightarrow> report_db \<Rightarrow> bool \<times> report_db" where
  "ingest_first lib ok kind i [] db = (False, db)"
| "ingest_first lib ok kind i (candidate # candidates) db =
     (case (if kind = ReportKindDmarc then IngestDmarc lib (ok i) candidate db else IngestTlsRpt lib (ok i) candidate db) of
        Some db' \<Rightarrow> (True, db')
      | None \<Rightarrow> ingest_first lib ok kind (Suc i) candidates db)"

text \<open>\<open>reports\<close>: whether the tables of reports are connected.\<close>

definition Ingest :: "report_lib \<Rightarrow> bool \<Rightarrow> (nat \<Rightarrow> bool) \<Rightarrow> string list \<Rightarrow> string \<Rightarrow> report_db \<Rightarrow> ReportOutcome \<times> report_db" where
  "Ingest lib reports ok recipients p db =
     (let kind = reportKind recipients
      in if kind = ReportKindNone \<or> \<not> reports then (\<lparr>ro_Kind = ReportKindNone, ro_Stored = False\<rparr>, db)
         else case ingest_first lib ok kind 0 (reportPayloads lib p) db of
             (stored, db') \<Rightarrow> (\<lparr>ro_Kind = kind, ro_Stored = stored\<rparr>, db'))"

section \<open>Redelivered reports\<close>

lemma same_report_sym: "same_report a b \<longleftrightarrow> same_report b a"
  by (auto simp: same_report_def)

text \<open>Saving a report again gives the same tables: nothing is counted twice.\<close>

lemma upsert_report_twice: "upsert_report new (upsert_report new rows) = upsert_report new rows"
proof (cases "list_ex (same_report new) rows")
  case True
  let ?u = "\<lambda>r. r\<lparr>rp_domain := rp_domain new, rp_records := rp_records new\<rparr>"
  have key: "same_report new (?u r) = same_report new r" for r by (simp add: same_report_def)
  have "list_ex (same_report new) (update_where (same_report new) ?u rows)"
    using True key by (auto simp: list_ex_iff set_update_where)
  moreover have "update_where (same_report new) ?u (update_where (same_report new) ?u rows) = update_where (same_report new) ?u rows"
    by (simp add: update_where_def key)
  ultimately show ?thesis using True by (simp add: upsert_report_def)
next
  case False
  then have "update_where (same_report new) u (rows @ [new]) = rows @ [u new]" for u
    by (induction rows) (auto simp: update_where_def same_report_def)
  with False show ?thesis by (simp add: upsert_report_def same_report_def)
qed

end
