(* ===== verification/Mail_Server.thy ===== *)
theory Mail_Server
  imports Store_Invariant Manage_Sieve Blob_Storage Outbound_Queue Vacation Credentials Reports
begin

text \<open>
  The state that the delivery of mail works on: one record with the tables of the components (mail store,
  accounts, aliases, rules, outbound jobs, vacation log, reports, message bodies), the lookup of local
  recipients (\<^verbatim>\<open>postgres/mailbox_repository.go\<close>, \<^verbatim>\<open>alias_repository.go\<close>) and the
  headers that are kept of a message (\<^verbatim>\<open>usecase/message_headers.go\<close>).

  The account rows and the mailbox rows of the mail store are columns of one table, as are the blob rows of the mail
  store and of the blob storage.
\<close>

section \<open>State\<close>

record alias_row =
  al_domain :: string
  al_domain_active :: bool
  al_source :: string
  al_destinations :: "string list"
  al_catch_all :: bool
  al_active :: bool
  al_system :: bool

record server =
  sv_mail :: mail_db
  sv_accounts :: "account_row list"
  sv_domains :: "(string \<times> bool) list"
  sv_aliases :: "alias_row list"
  sv_scripts :: "script_row list"
  sv_disk :: blob_disk
  sv_jobs :: job_table
  sv_vacation :: "vacation_row list"
  sv_reports :: report_db

text \<open>Storing a body: a new row of \<^verbatim>\<open>message_blobs\<close> starts without references.\<close>

definition add_blob_row :: "nat \<Rightarrow> mail_db \<Rightarrow> mail_db" where
  "add_blob_row k db =
     (if list_ex (\<lambda>b. blob_id b = k) (blobs db) then db else db\<lparr>blobs := blobs db @ [\<lparr>blob_id = k, ref_count = 0\<rparr>]\<rparr>)"

definition store_blob :: "(string \<Rightarrow> string) \<Rightarrow> string \<Rightarrow> store_fault \<Rightarrow> string \<Rightarrow> server \<Rightarrow> (unit + BlobRef) \<times> server" where
  "store_blob sha256 baseDir fault content sv =
     (case Store sha256 baseDir fault content (sv_disk sv) of
        (Inl e, d) \<Rightarrow> (Inl e, sv\<lparr>sv_disk := d\<rparr>)
      | (Inr ref, d) \<Rightarrow> (Inr ref, sv\<lparr>sv_disk := d, sv_mail := add_blob_row (ref_ID ref) (sv_mail sv)\<rparr>))"

lemma store_blob_jobs: "store_blob sha256 baseDir fault content sv = (r, sv') \<Longrightarrow> sv_jobs sv' = sv_jobs sv"
  by (auto simp: store_blob_def split: prod.splits sum.splits)

section \<open>Local recipients\<close>

record MailboxRecord =
  mr_ID :: uuid
  mr_MaxMessageBytes :: int
  mr_QuotaBytes :: int
  mr_UsedBytes :: int

definition FindActiveByAddress :: "server \<Rightarrow> string \<Rightarrow> MailboxRecord option" where
  "FindActiveByAddress sv address =
     map_option (\<lambda>b. \<lparr>mr_ID = mb_id b, mr_MaxMessageBytes = max_message_bytes b, mr_QuotaBytes = quota_bytes b, mr_UsedBytes = used_bytes b\<rparr>)
       (find (\<lambda>b. EqualFold (email_address b) address \<and> mb_active b) (mailboxes (sv_mail sv)))"

text \<open>\<^verbatim>\<open>split_part(address, '@', 2)\<close> of PostgreSQL.\<close>

definition address_domain :: "string \<Rightarrow> string" where
  "address_domain address = (case Split address CHR ''@'' of _ # d # _ \<Rightarrow> d | _ \<Rightarrow> [])"

text \<open>
  The parameter of the query is text here (it is an argument of \<^verbatim>\<open>split_part\<close>), so the
  columns of type \<^verbatim>\<open>citext\<close> are compared with it as text.
\<close>

definition alias_matches :: "string \<Rightarrow> alias_row \<Rightarrow> bool" where
  "alias_matches address a \<longleftrightarrow>
     al_domain_active a \<and> al_active a \<and> al_domain a = address_domain address
     \<and> (al_source a = address \<or> al_catch_all a \<and> al_source a = ''*@'' @ address_domain address)"

definition alias_destinations :: "server \<Rightarrow> string \<Rightarrow> string list option" where
  "alias_destinations sv address =
     (case sort_key (\<lambda>a. of_bool (al_catch_all a) :: nat) (filter (alias_matches address) (sv_aliases sv)) of
        [] \<Rightarrow> None
      | a # _ \<Rightarrow> Some (al_destinations a))"

text \<open>\<open>rd\<close>: whether the queries succeed.\<close>

definition ResolveDeliveryTargets :: "bool \<Rightarrow> server \<Rightarrow> string \<Rightarrow> unit + MailboxRecord list" where
  "ResolveDeliveryTargets rd sv address =
     (if \<not> rd then Inl ()
      else case FindActiveByAddress sv address of
          Some direct \<Rightarrow> Inr [direct]
        | None \<Rightarrow>
            (case alias_destinations sv address of
               None \<Rightarrow> Inr []
             | Some destinations \<Rightarrow> Inr (List.map_filter (FindActiveByAddress sv) destinations)))"

section \<open>System aliases\<close>

definition systemAliasPrefixes :: "string list" where
  "systemAliasPrefixes = [''postmaster'', ''abuse'', ''dmarc'', ''tlsrpt'']"

definition upsert_alias :: "string \<times> bool \<Rightarrow> string \<Rightarrow> string \<Rightarrow> string \<Rightarrow> alias_row list \<Rightarrow> alias_row list" where
  "upsert_alias domain domainName adminEmail prefix rows =
     (let sourceAddr = prefix @ ''@'' @ domainName; same = (\<lambda>a. al_domain a = fst domain \<and> EqualFold (al_source a) sourceAddr)
      in if list_ex same rows then update_where same (\<lambda>a. a\<lparr>al_destinations := [adminEmail], al_system := True\<rparr>) rows
         else rows @ [\<lparr>al_domain = fst domain, al_domain_active = snd domain, al_source = sourceAddr, al_destinations = [adminEmail],
                       al_catch_all = False, al_active = True, al_system = True\<rparr>])"

definition EnsureSystemAliases :: "bool \<Rightarrow> string \<Rightarrow> string \<Rightarrow> server \<Rightarrow> (unit + unit) \<times> server" where
  "EnsureSystemAliases ok domainName adminEmail sv =
     (case find (\<lambda>d. EqualFold (fst d) domainName) (sv_domains sv) of
        None \<Rightarrow> (Inl (), sv)
      | Some domain \<Rightarrow>
          if \<not> ok then (Inl (), sv)
          else (Inr (), sv\<lparr>sv_aliases := foldl (\<lambda>rows prefix. upsert_alias domain domainName adminEmail prefix rows)
                  (sv_aliases sv) systemAliasPrefixes\<rparr>))"

section \<open>The headers that are kept of a message\<close>

text \<open>
  Parameters, for parts of the standard library: the decoder of RFC 2047 words, the display name of an
  address list entry, the media type of a header value, and how many bytes of the body the first read returns.
\<close>

record mime_lib =
  lib_DecodeHeader :: "string \<Rightarrow> string option"
  lib_ParseAddress :: "string \<Rightarrow> string option"
  lib_ParseMediaType :: "string \<Rightarrow> string option"
  lib_first_read :: "string \<Rightarrow> nat"

record MessageHeaders =
  mh_Subject :: string
  mh_FromDisplayName :: string
  mh_MessageID :: string
  mh_Snippet :: string
  mh_HasAttachments :: bool

definition snippetLength :: nat where "snippetLength = 200"

definition decodeHeader :: "mime_lib \<Rightarrow> string \<Rightarrow> string" where
  "decodeHeader lib value = (case lib_DecodeHeader lib value of None \<Rightarrow> value | Some decoded \<Rightarrow> decoded)"

text \<open>\<^verbatim>\<open>utf8.ValidString\<close>.\<close>

definition byte_in :: "nat \<Rightarrow> nat \<Rightarrow> char \<Rightarrow> bool" where
  "byte_in lo hi c \<longleftrightarrow> lo \<le> (of_char c :: nat) \<and> of_char c \<le> hi"

fun utf8_valid :: "string \<Rightarrow> bool" where
  "utf8_valid [] = True"
| "utf8_valid (a # s) =
     (if byte_in 0 127 a then utf8_valid s
      else case s of
          [] \<Rightarrow> False
        | b # s1 \<Rightarrow>
            if byte_in 194 223 a then byte_in 128 191 b \<and> utf8_valid s1
            else case s1 of
                [] \<Rightarrow> False
              | c # s2 \<Rightarrow>
                  if byte_in 224 239 a then
                    byte_in (if of_char a = (224 :: nat) then 160 else 128) (if of_char a = (237 :: nat) then 159 else 191) b
                    \<and> byte_in 128 191 c \<and> utf8_valid s2
                  else case s2 of
                      [] \<Rightarrow> False
                    | d # s3 \<Rightarrow>
                        byte_in 240 244 a
                        \<and> byte_in (if of_char a = (240 :: nat) then 144 else 128) (if of_char a = (244 :: nat) then 143 else 191) b
                        \<and> byte_in 128 191 c \<and> byte_in 128 191 d \<and> utf8_valid s3)"

function cut_valid :: "string \<Rightarrow> string" where
  "cut_valid s = (if s \<noteq> [] \<and> \<not> utf8_valid s then cut_valid (butlast s) else s)"
  by pat_completeness auto
termination
  by (relation "measure length") auto

declare cut_valid.simps [simp del]

definition truncateUTF8 :: "string \<Rightarrow> nat \<Rightarrow> string" where
  "truncateUTF8 s mx = (if length s \<le> mx then s else cut_valid (take mx s))"

definition carriesAttachment :: "mime_lib \<Rightarrow> string \<Rightarrow> string \<Rightarrow> bool" where
  "carriesAttachment lib mediaType disposition =
     (let disp = map_option ToLower (lib_ParseMediaType lib disposition)
      in if disp = Some ''attachment'' then True
         else if disp = Some ''inline'' then False
         else if HasPrefix mediaType ''multipart/'' then mediaType \<noteq> ''multipart/alternative''
         else if mediaType = [] then False
         else \<not> HasPrefix mediaType ''text/'')"

definition buildSnippet :: "mime_lib \<Rightarrow> string \<Rightarrow> string \<Rightarrow> string \<Rightarrow> string" where
  "buildSnippet lib content body mediaType =
     (if mediaType \<noteq> [] \<and> \<not> HasPrefix mediaType ''text/'' then []
      else
        let got = take (min (8 * 1024) (lib_first_read lib content)) body
        in if got = [] then []
           else truncateUTF8 (Join (Fields (ReplaceAll (ReplaceAll got CRLF '' '') [LF] '' '')) '' '') snippetLength)"

definition from_display_name_of :: "mime_lib \<Rightarrow> string \<Rightarrow> string" where
  "from_display_name_of lib from =
     (if from = [] then []
      else case lib_ParseAddress lib from of
          Some name \<Rightarrow> truncateUTF8 (decodeHeader lib name) 255
        | None \<Rightarrow>
            (case Index from ''<'' of
               Some idx \<Rightarrow>
                 if idx > 0 then truncateUTF8 (decodeHeader lib (TrimSpace (Trim (take idx from) [DQUOTE]))) 255 else []
             | None \<Rightarrow> []))"

definition no_headers :: MessageHeaders where
  "no_headers = \<lparr>mh_Subject = [], mh_FromDisplayName = [], mh_MessageID = [], mh_Snippet = [], mh_HasAttachments = False\<rparr>"

definition ExtractMessageHeaders :: "mime_lib \<Rightarrow> string \<Rightarrow> MessageHeaders" where
  "ExtractMessageHeaders lib content =
     (case ReadMessage content of
        None \<Rightarrow> no_headers
      | Some (h, body) \<Rightarrow>
          let mediaType = (case lib_ParseMediaType lib (header_Get h ''Content-Type'') of None \<Rightarrow> [] | Some mt \<Rightarrow> mt)
          in \<lparr>mh_Subject = truncateUTF8 (decodeHeader lib (header_Get h ''Subject'')) 998,
              mh_FromDisplayName = from_display_name_of lib (header_Get h ''From''),
              mh_MessageID = truncateUTF8 (Trim (header_Get h ''Message-ID'') ''<>'') 998,
              mh_Snippet = buildSnippet lib content body mediaType,
              mh_HasAttachments = carriesAttachment lib mediaType (header_Get h ''Content-Disposition'')\<rparr>)"

end
