(* ===== verification/Submission.thy ===== *)
theory Submission
  imports Mail_Server
begin

text \<open>
  Mail from the users of the server: \<^verbatim>\<open>usecase/process_outbound_email.go\<close> (the checks, signing and
  queueing of a message) and the session of the submission ports, \<^verbatim>\<open>smtp/submission_backend.go\<close> with the
  LOGIN mechanism of \<^verbatim>\<open>smtp/sasl_login.go\<close>.

  The DKIM signature is a parameter. A call takes one reading of the clock. The calls of a session come
  from the library go-smtp, which is not modelled: a session is any sequence of them.
\<close>

section \<open>The use case\<close>

datatype submit_error =
    ErrNoRecipients
  | ErrSendLimitExceeded
  | ErrCountFailed
  | ErrReadBody
  | ErrSign
  | ErrStoreBody
  | ErrEnqueue string

record submit_input =
  si_MailboxID :: uuid
  si_SenderAddr :: string
  si_DomainName :: string
  si_Recipients :: "string list"
  si_Body :: "string option"
  si_MaxRecipientsPerHour :: int
  si_FileSentCopy :: bool

text \<open>What the server is built with, and what a call meets: the clock, the signer and which statements succeed.\<close>

record server_lib =
  lib_sha256 :: "string \<Rightarrow> string"
  lib_baseDir :: string
  lib_mime :: mime_lib

record submit_env =
  se_now :: int
  se_count_ok :: bool
  se_signer :: "(string \<Rightarrow> string \<Rightarrow> string option) option"
  se_store :: store_fault
  se_enqueue_ok :: "nat \<Rightarrow> bool"
  se_sentCopies :: bool
  se_persist_ok :: bool

definition deliveryWindow :: int where "deliveryWindow = 5 * 24 * Hour"
definition sendLimitWindow :: int where "sendLimitWindow = Hour"

definition Authenticate :: "argon2 \<Rightarrow> bool \<Rightarrow> account_row list \<Rightarrow> string \<Rightarrow> string \<Rightarrow> unit + mailbox_auth" where
  "Authenticate cmp rd accounts address password =
     (if \<not> rd then Inl ()
      else case FindByAddress accounts address of
          None \<Rightarrow> Inl ()
        | Some r \<Rightarrow> if fst (verifyCredential cmp r password ScopeSMTP) = Inr True then Inr r else Inl ())"

definition checkSendLimit :: "submit_env \<Rightarrow> submit_input \<Rightarrow> job_table \<Rightarrow> submit_error option" where
  "checkSendLimit env input t =
     (if si_MaxRecipientsPerHour input \<le> 0 then None
      else case CountRecipientsSince (se_count_ok env) (si_MailboxID input) (se_now env - sendLimitWindow) t of
          Inl _ \<Rightarrow> Some ErrCountFailed
        | Inr alreadySent \<Rightarrow>
            if int alreadySent + int (length (si_Recipients input)) > si_MaxRecipientsPerHour input then Some ErrSendLimitExceeded else None)"

definition recipientDomain :: "string \<Rightarrow> string" where
  "recipientDomain address =
     (case LastIndexFunc (\<lambda>c. c = CHR ''@'') address of
        Some idx \<Rightarrow> if idx < length address - 1 then ToLower (drop (idx + 1) address) else []
      | None \<Rightarrow> [])"

definition new_job :: "int \<Rightarrow> submit_input \<Rightarrow> BlobRef \<Rightarrow> string \<Rightarrow> outbound_job" where
  "new_job now input blob recipient =
     \<lparr>job_id = 0, MailboxID = Some (si_MailboxID input), BlobID = ref_ID blob, EnvelopeFrom = si_SenderAddr input,
      EnvelopeTo = recipient, DestinationDomain = recipientDomain recipient, Status = Queued, Attempt = 0, NextAttemptAt = now,
      ExpiresAt = Some (now + deliveryWindow), LastSmtpCode = [], LastError = [], TlsPolicyUsed = [], DelayDsnSent = False, CreatedAt = 0\<rparr>"

fun enqueue_loop ::
  "(nat \<Rightarrow> bool) \<Rightarrow> int \<Rightarrow> submit_input \<Rightarrow> BlobRef \<Rightarrow> nat \<Rightarrow> string list \<Rightarrow> job_table \<Rightarrow> submit_error option \<times> job_table" where
  "enqueue_loop ok now input blob i [] t = (None, t)"
| "enqueue_loop ok now input blob i (recipient # recipients) t =
     (case Enqueue (ok i) now (new_job now input blob recipient) t of
        (Inl _, t') \<Rightarrow> (Some (ErrEnqueue recipient), t')
      | (Inr _, t') \<Rightarrow> enqueue_loop ok now input blob (Suc i) recipients t')"

definition fileSentCopy :: "server_lib \<Rightarrow> submit_env \<Rightarrow> submit_input \<Rightarrow> BlobRef \<Rightarrow> string \<Rightarrow> mail_db \<Rightarrow> mail_db" where
  "fileSentCopy lib env input blob content db =
     (let headers = ExtractMessageHeaders (lib_mime lib) content
      in snd (PersistAll (se_persist_ok env) (se_now env)
           [\<lparr>pi_mailbox = si_MailboxID input, pi_blob = ref_ID blob, pi_blob_size = ref_SizeBytes blob,
             pi_sender = si_SenderAddr input, pi_recipient = si_SenderAddr input, pi_target_folder = ''Sent'',
             pi_subject = mh_Subject headers, pi_snippet = mh_Snippet headers, pi_from_display_name = mh_FromDisplayName headers,
             pi_message_id = mh_MessageID headers, pi_has_attachments = mh_HasAttachments headers, pi_already_seen = True,
             pi_spf = [], pi_dkim = [], pi_dmarc = []\<rparr>] db))"

definition sign_body :: "submit_env \<Rightarrow> string \<Rightarrow> string \<Rightarrow> string option" where
  "sign_body env domain content = (case se_signer env of None \<Rightarrow> Some content | Some sign \<Rightarrow> sign domain content)"

definition Submit :: "server_lib \<Rightarrow> submit_env \<Rightarrow> submit_input \<Rightarrow> server \<Rightarrow> submit_error option \<times> server" where
  "Submit lib env input sv =
     (if si_Recipients input = [] then (Some ErrNoRecipients, sv)
      else case checkSendLimit env input (sv_jobs sv) of
          Some e \<Rightarrow> (Some e, sv)
        | None \<Rightarrow>
            (case si_Body input of
               None \<Rightarrow> (Some ErrReadBody, sv)
             | Some body \<Rightarrow>
                 (case sign_body env (si_DomainName input) body of
                    None \<Rightarrow> (Some ErrSign, sv)
                  | Some content \<Rightarrow>
                      (case store_blob (lib_sha256 lib) (lib_baseDir lib) (se_store env) content sv of
                         (Inl _, sv1) \<Rightarrow> (Some ErrStoreBody, sv1)
                       | (Inr blob, sv1) \<Rightarrow>
                           (case enqueue_loop (se_enqueue_ok env) (se_now env) input blob 0 (si_Recipients input) (sv_jobs sv1) of
                              (Some e, t) \<Rightarrow> (Some e, sv1\<lparr>sv_jobs := t\<rparr>)
                            | (None, t) \<Rightarrow>
                                (None,
                                 if si_FileSentCopy input \<and> se_sentCopies env
                                 then sv1\<lparr>sv_jobs := t, sv_mail := fileSentCopy lib env input blob content (sv_mail sv1)\<rparr>
                                 else sv1\<lparr>sv_jobs := t\<rparr>))))))"

datatype sender_error = ErrSubmissionAuthFailed | ErrSenderNotOwned

definition AuthorizeSender :: "mailbox_auth option \<Rightarrow> string \<Rightarrow> sender_error option" where
  "AuthorizeSender session envelopeFrom =
     (case session of
        None \<Rightarrow> Some ErrSubmissionAuthFailed
      | Some m \<Rightarrow> if \<not> EqualFold (TrimSpace envelopeFrom) (ma_email m) then Some ErrSenderNotOwned else None)"

section \<open>The LOGIN mechanism\<close>

datatype login_state = AwaitingUsername | AwaitingPassword | LoginDone

record loginServer =
  ls_username :: string
  ls_state :: login_state

definition newLoginServer :: loginServer where
  "newLoginServer = \<lparr>ls_username = [], ls_state = AwaitingUsername\<rparr>"

text \<open>An answer: a challenge, the end, or an error; and the credentials to be checked, if it gets there.\<close>

datatype login_answer = Challenge string | LoginOk | LoginError

definition login_Next :: "(string \<Rightarrow> string \<Rightarrow> bool) \<Rightarrow> string option \<Rightarrow> loginServer \<Rightarrow> login_answer \<times> loginServer" where
  "login_Next authenticate response s =
     (case ls_state s of
        AwaitingUsername \<Rightarrow>
          (case response of
             None \<Rightarrow> (Challenge ''Username:'', s)
           | Some r \<Rightarrow> (Challenge ''Password:'', s\<lparr>ls_username := r, ls_state := AwaitingPassword\<rparr>))
      | AwaitingPassword \<Rightarrow>
          (let s1 = s\<lparr>ls_state := LoginDone\<rparr>; password = (case response of None \<Rightarrow> [] | Some r \<Rightarrow> r)
           in if authenticate (ls_username s) password then (LoginOk, s1) else (LoginError, s1))
      | LoginDone \<Rightarrow> (LoginError, s))"

section \<open>The session\<close>

record smtp_reply =
  smtp_Code :: nat
  smtp_EnhancedCode :: "nat \<times> nat \<times> nat"
  smtp_Message :: string

definition errAuthRequired :: smtp_reply where
  "errAuthRequired = \<lparr>smtp_Code = 530, smtp_EnhancedCode = (5, 7, 0), smtp_Message = ''Authentication required''\<rparr>"

definition errCredentials :: smtp_reply where
  "errCredentials = \<lparr>smtp_Code = 535, smtp_EnhancedCode = (5, 7, 8), smtp_Message = ''Authentication credentials invalid''\<rparr>"

definition errNotOwned :: smtp_reply where
  "errNotOwned = \<lparr>smtp_Code = 550, smtp_EnhancedCode = (5, 7, 1), smtp_Message = ''Sender address not owned by the authenticated account''\<rparr>"

definition errNoRcpt :: smtp_reply where
  "errNoRcpt = \<lparr>smtp_Code = 503, smtp_EnhancedCode = (5, 5, 1), smtp_Message = ''RCPT TO required before DATA''\<rparr>"

definition errLimit :: smtp_reply where
  "errLimit = \<lparr>smtp_Code = 451, smtp_EnhancedCode = (4, 7, 0), smtp_Message = ''Hourly recipient limit reached, try again later''\<rparr>"

definition errTemporary :: smtp_reply where
  "errTemporary = \<lparr>smtp_Code = 451, smtp_EnhancedCode = (4, 3, 0), smtp_Message = ''Temporary error accepting message for delivery''\<rparr>"

record submission_session =
  ss_authenticated :: "mailbox_auth option"
  ss_from :: string
  ss_recipients :: "string list"

definition NewSession :: submission_session where
  "NewSession = \<lparr>ss_authenticated = None, ss_from = [], ss_recipients = []\<rparr>"

definition session_authenticate ::
  "argon2 \<Rightarrow> bool \<Rightarrow> account_row list \<Rightarrow> string \<Rightarrow> string \<Rightarrow> submission_session \<Rightarrow> smtp_reply option \<times> submission_session" where
  "session_authenticate cmp rd accounts username password s =
     (case Authenticate cmp rd accounts username password of
        Inl _ \<Rightarrow> (Some errCredentials, s)
      | Inr r \<Rightarrow> (None, s\<lparr>ss_authenticated := Some r\<rparr>))"

definition session_Reset :: "submission_session \<Rightarrow> submission_session" where
  "session_Reset s = s\<lparr>ss_from := [], ss_recipients := []\<rparr>"

definition session_Logout :: "submission_session \<Rightarrow> submission_session" where
  "session_Logout s = s\<lparr>ss_authenticated := None\<rparr>"

definition session_Mail :: "string \<Rightarrow> submission_session \<Rightarrow> smtp_reply option \<times> submission_session" where
  "session_Mail from s =
     (if ss_authenticated s = None then (Some errAuthRequired, s)
      else if AuthorizeSender (ss_authenticated s) from \<noteq> None then (Some errNotOwned, s)
      else (None, s\<lparr>ss_from := from\<rparr>))"

definition session_Rcpt :: "string \<Rightarrow> submission_session \<Rightarrow> smtp_reply option \<times> submission_session" where
  "session_Rcpt to' s =
     (if ss_authenticated s = None then (Some errAuthRequired, s)
      else (None, s\<lparr>ss_recipients := ss_recipients s @ [to']\<rparr>))"

definition session_Data ::
  "server_lib \<Rightarrow> submit_env \<Rightarrow> string option \<Rightarrow> submission_session \<Rightarrow> server \<Rightarrow> smtp_reply option \<times> server" where
  "session_Data lib env body s sv =
     (case ss_authenticated s of
        None \<Rightarrow> (Some errAuthRequired, sv)
      | Some m \<Rightarrow>
          if ss_recipients s = [] then (Some errNoRcpt, sv)
          else
            (case Submit lib env
                \<lparr>si_MailboxID = ma_id m, si_SenderAddr = ss_from s, si_DomainName = ma_domain m, si_Recipients = ss_recipients s,
                 si_Body = body, si_MaxRecipientsPerHour = ma_max_recipients m, si_FileSentCopy = True\<rparr> sv of
               (None, sv') \<Rightarrow> (None, sv')
             | (Some e, sv') \<Rightarrow> (Some (if e = ErrSendLimitExceeded then errLimit else errTemporary), sv')))"

end
