(* ===== verification/Inbound.thy ===== *)
theory Inbound
  imports Submission "HOL-Library.List_Lexorder" "HOL-Library.Char_ord"
begin

text \<open>
  Mail that arrives: \<^verbatim>\<open>usecase/process_inbound_email.go\<close> (recipients and the handling of a
  message), \<^verbatim>\<open>usecase/scanning_pipeline.go\<close>, \<^verbatim>\<open>usecase/smtp_rejection.go\<close>, the sending of
  vacation replies (\<^verbatim>\<open>usecase/vacation_reply.go\<close>) and the session of port 25, \<^verbatim>\<open>smtp/backend.go\<close>.

  The verdicts of SPF, DKIM and DMARC, the ARC seal and the content scanners are arguments. The
  notification of IMAP sessions, which has no effect on the data, is left out.
\<close>

section \<open>Verdicts\<close>

datatype ScanVerdict = ScanVerdictClean | ScanVerdictSpamJunk | ScanVerdictSpamReject | ScanVerdictGreylist | ScanVerdictVirusReject

record ScanResult =
  sr_Verdict :: ScanVerdict
  sr_Score :: rat
  sr_RequiredScore :: rat
  sr_VirusName :: string
  sr_HeadersToAdd :: "(string \<times> string) list"

definition NewCleanScanResult :: ScanResult where
  "NewCleanScanResult = \<lparr>sr_Verdict = ScanVerdictClean, sr_Score = 0, sr_RequiredScore = 0, sr_VirusName = [], sr_HeadersToAdd = []\<rparr>"

record ScanInput =
  sc_Sender :: string
  sc_Recipient :: string
  sc_Payload :: string

text \<open>A scanner answers with an error, with nothing or with a result; a pipeline may hold gaps.\<close>

type_synonym scanner = "ScanInput \<Rightarrow> unit + ScanResult option"

definition put_header :: "string \<times> string \<Rightarrow> (string \<times> string) list \<Rightarrow> (string \<times> string) list" where
  "put_header kv hs = filter (\<lambda>h. fst h \<noteq> fst kv) hs @ [kv]"

definition merge_result :: "ScanResult \<Rightarrow> ScanResult \<Rightarrow> ScanResult" where
  "merge_result final res =
     (let f1 = (if sr_Verdict res = ScanVerdictSpamJunk then final\<lparr>sr_Verdict := ScanVerdictSpamJunk\<rparr> else final);
          f2 = (if sr_Score res \<noteq> 0 then f1\<lparr>sr_Score := sr_Score res, sr_RequiredScore := sr_RequiredScore res\<rparr> else f1)
      in f2\<lparr>sr_HeadersToAdd := fold put_header (sr_HeadersToAdd res) (sr_HeadersToAdd f2)\<rparr>)"

fun pipeline_loop :: "scanner option list \<Rightarrow> ScanInput \<Rightarrow> ScanResult \<Rightarrow> unit + ScanResult" where
  "pipeline_loop [] input final = Inr final"
| "pipeline_loop (None # scanners) input final = pipeline_loop scanners input final"
| "pipeline_loop (Some scan # scanners) input final =
     (case scan input of
        Inl e \<Rightarrow> Inl e
      | Inr None \<Rightarrow> pipeline_loop scanners input final
      | Inr (Some res) \<Rightarrow>
          if sr_Verdict res = ScanVerdictVirusReject \<or> sr_Verdict res = ScanVerdictSpamReject \<or> sr_Verdict res = ScanVerdictGreylist
          then Inr res
          else pipeline_loop scanners input (merge_result final res))"

definition pipeline_Scan :: "scanner option list \<Rightarrow> scanner" where
  "pipeline_Scan scanners input = map_sum id Some (pipeline_loop scanners input NewCleanScanResult)"

record SmtpRejection =
  rej_Code :: nat
  rej_EnhancedCode :: "nat \<times> nat \<times> nat"
  rej_Message :: string

definition IsPermanent :: "SmtpRejection \<Rightarrow> bool" where
  "IsPermanent e \<longleftrightarrow> rej_Code e \<ge> 500 \<and> rej_Code e < 600"

definition rejectDmarc :: SmtpRejection where
  "rejectDmarc = \<lparr>rej_Code = 550, rej_EnhancedCode = (5, 7, 1), rej_Message = ''DMARC policy rejects this message''\<rparr>"

definition rejectVirus :: "string \<Rightarrow> SmtpRejection" where
  "rejectVirus virusName = \<lparr>rej_Code = 554, rej_EnhancedCode = (5, 7, 1), rej_Message = ''Virus detected: '' @ virusName\<rparr>"

definition rejectSpam :: SmtpRejection where
  "rejectSpam = \<lparr>rej_Code = 554, rej_EnhancedCode = (5, 7, 1), rej_Message = ''Spam threshold exceeded''\<rparr>"

definition deferGreylisted :: SmtpRejection where
  "deferGreylisted = \<lparr>rej_Code = 451, rej_EnhancedCode = (4, 7, 1), rej_Message = ''Greylisted, please try again later''\<rparr>"

section \<open>Recipients\<close>

datatype inbound_error =
    ErrRecipientNotFound
  | ErrMailboxQuotaExceeded
  | ErrLookup
  | ErrMismatch
  | ErrReadPayload
  | Rejection SmtpRejection
  | ErrScanner
  | ErrBlob
  | ErrPersist store_error

definition ResolveRecipient :: "bool \<Rightarrow> server \<Rightarrow> string \<Rightarrow> inbound_error + MailboxRecord list" where
  "ResolveRecipient rd sv address =
     (case ResolveDeliveryTargets rd sv address of
        Inl _ \<Rightarrow> Inl ErrLookup
      | Inr targets \<Rightarrow>
          if targets = [] then Inl ErrRecipientNotFound
          else if list_ex (\<lambda>t. mr_UsedBytes t \<ge> mr_QuotaBytes t) targets then Inl ErrMailboxQuotaExceeded
          else Inr targets)"

section \<open>Vacation replies\<close>

text \<open>What sending one reply meets.\<close>

record reply_env =
  re_accounts_ok :: bool
  re_date :: string
  re_uuid :: string
  re_submit :: submit_env
  re_log_ok :: bool

record vacation_env =
  ve_configured :: bool
  ve_replyHost :: string
  ve_bEncode :: "string \<Rightarrow> string"
  ve_decode :: "string \<Rightarrow> string option"
  ve_suppression :: "int option"
  ve_reply :: "nat \<Rightarrow> reply_env"

definition sendVacationReply :: "server_lib \<Rightarrow> vacation_env \<Rightarrow> reply_env \<Rightarrow> pendingVacation \<Rightarrow> server \<Rightarrow> bool \<times> server" where
  "sendVacationReply lib venv env reply sv =
     (if \<not> re_accounts_ok env then (False, sv)
      else case FindByAddress (sv_accounts sv) (pv_From reply) of
          None \<Rightarrow> (False, sv)
        | Some account \<Rightarrow>
            (case Submit lib (re_submit env)
                \<lparr>si_MailboxID = ma_id account, si_SenderAddr = ma_email account, si_DomainName = ma_domain account,
                 si_Recipients = [pv_To reply],
                 si_Body = Some (buildVacationMessage (ve_bEncode venv) (ve_decode venv) (re_date env) (re_uuid env) reply (ve_replyHost venv)),
                 si_MaxRecipientsPerHour = ma_max_recipients account, si_FileSentCopy = False\<rparr> sv of
               (e, sv') \<Rightarrow> (e = None, sv')))"

fun sendVacationReplies :: "server_lib \<Rightarrow> vacation_env \<Rightarrow> nat \<Rightarrow> pendingVacation list \<Rightarrow> server \<Rightarrow> server" where
  "sendVacationReplies lib venv i [] sv = sv"
| "sendVacationReplies lib venv i (reply # replies) sv =
     (if \<not> ve_configured venv then sv
      else
        let env = ve_reply venv i
        in case sendVacationReply lib venv env reply sv of
             (False, sv') \<Rightarrow> sendVacationReplies lib venv (Suc i) replies sv'
           | (True, sv') \<Rightarrow>
               sendVacationReplies lib venv (Suc i) replies
                 (sv'\<lparr>sv_vacation := suppression_Record (ve_suppression venv) (re_log_ok env) (se_now (re_submit env))
                        (pv_MailboxID reply) (pv_To reply) (sv_vacation sv')\<rparr>))"

section \<open>Handling a message\<close>

record InboundAuthResult =
  au_SPF :: string
  au_DKIM :: string
  au_DMARC :: string
  au_DmarcPolicy :: string
  au_AuthenticationResults :: string

record inbound_input =
  in_Sender :: string
  in_Recipients :: "MailboxRecord list"
  in_RecipientAddresses :: "string list"
  in_Body :: "string option"
  in_ClientIP :: "string option"
  in_HeloDomain :: string
  in_SystemGenerated :: bool

record inbound_env =
  ie_now :: int
  ie_authenticator :: "(string option \<Rightarrow> string \<Rightarrow> string \<Rightarrow> string \<Rightarrow> InboundAuthResult) option"
  ie_arcSealer :: "(string \<Rightarrow> InboundAuthResult \<Rightarrow> string option) option"
  ie_scanner :: "scanner option"
  ie_reports :: "report_lib option"
  ie_report_ok :: "nat \<Rightarrow> bool"
  ie_store :: store_fault
  ie_rules :: bool
  ie_script_ok :: "nat \<Rightarrow> bool"
  ie_log_ok :: "nat \<Rightarrow> bool"
  ie_persist_ok :: bool
  ie_vacation :: vacation_env

definition prependHeaders :: "string \<Rightarrow> (string \<times> string) list \<Rightarrow> string" where
  "prependHeaders content headers =
     (if headers = [] then content
      else concat (map (\<lambda>name. name @ '': '' @ (case map_of headers name of None \<Rightarrow> [] | Some v \<Rightarrow> v) @ CRLF)
             (sort (map fst headers))) @ content)"

definition no_auth_result :: InboundAuthResult where
  "no_auth_result = \<lparr>au_SPF = ''none'', au_DKIM = ''none'', au_DMARC = ''none'', au_DmarcPolicy = [], au_AuthenticationResults = []\<rparr>"

text \<open>Authentication: the rejection, or the verdict and the message with its headers.\<close>

definition authenticate_step :: "inbound_env \<Rightarrow> inbound_input \<Rightarrow> string \<Rightarrow> inbound_error + InboundAuthResult \<times> string" where
  "authenticate_step env input content =
     (case ie_authenticator env of
        None \<Rightarrow> Inr (no_auth_result, content)
      | Some authenticate \<Rightarrow>
          let authResult = authenticate (in_ClientIP input) (in_HeloDomain input) (in_Sender input) content
          in if au_DMARC authResult = ''fail'' \<and> au_DmarcPolicy authResult = ''reject'' then Inl (Rejection rejectDmarc)
             else
               let content1 = (if au_AuthenticationResults authResult \<noteq> []
                               then prependHeaders content [(''Authentication-Results'', au_AuthenticationResults authResult)] else content)
               in Inr (authResult,
                    case ie_arcSealer env of
                      None \<Rightarrow> content1
                    | Some seal \<Rightarrow> (case seal content1 authResult of None \<Rightarrow> content1 | Some sealed \<Rightarrow> sealed)))"

text \<open>Scanning: the rejection, or the folder and the message with the scanner's headers.\<close>

definition scan_step :: "inbound_env \<Rightarrow> inbound_input \<Rightarrow> string \<Rightarrow> inbound_error + string \<times> string" where
  "scan_step env input content =
     (case ie_scanner env of
        None \<Rightarrow> Inr (''INBOX'', content)
      | Some scan \<Rightarrow>
          if in_SystemGenerated input then Inr (''INBOX'', content)
          else
            (case scan \<lparr>sc_Sender = in_Sender input,
                        sc_Recipient = (case in_RecipientAddresses input of [] \<Rightarrow> [] | a # _ \<Rightarrow> a), sc_Payload = content\<rparr> of
               Inl _ \<Rightarrow> Inl ErrScanner
             | Inr None \<Rightarrow> Inr (''INBOX'', content)
             | Inr (Some res) \<Rightarrow>
                 (case sr_Verdict res of
                    ScanVerdictVirusReject \<Rightarrow> Inl (Rejection (rejectVirus (sr_VirusName res)))
                  | ScanVerdictSpamReject \<Rightarrow> Inl (Rejection rejectSpam)
                  | ScanVerdictGreylist \<Rightarrow> Inl (Rejection deferGreylisted)
                  | ScanVerdictSpamJunk \<Rightarrow> Inr (''Junk'', prependHeaders content (sr_HeadersToAdd res))
                  | ScanVerdictClean \<Rightarrow> Inr (''INBOX'', prependHeaders content (sr_HeadersToAdd res)))))"

definition ingest_step :: "inbound_env \<Rightarrow> inbound_input \<Rightarrow> string \<Rightarrow> report_db \<Rightarrow> bool \<times> report_db" where
  "ingest_step env input content db =
     (case ie_reports env of
        None \<Rightarrow> (False, db)
      | Some lib \<Rightarrow>
          (case Ingest lib True (ie_report_ok env) (in_RecipientAddresses input) content db of
             (out, db') \<Rightarrow> (ro_Kind out \<noteq> ReportKindNone, db')))"

definition decision_for :: "inbound_env \<Rightarrow> inbound_input \<Rightarrow> server \<Rightarrow> string \<Rightarrow> nat \<Rightarrow> MailboxRecord \<Rightarrow> string \<Rightarrow> outcome" where
  "decision_for env input sv content i recipient address =
     (if ie_rules env
      then rules_For headersOf (if ie_script_ok env i then Inr (ActiveScriptFor (sv_scripts sv) (mr_ID recipient)) else Inl ())
             address (in_Sender input) content
      else no_outcome)"

definition pending_reply :: "inbound_env \<Rightarrow> inbound_input \<Rightarrow> server \<Rightarrow> string \<Rightarrow> nat \<Rightarrow> MailboxRecord \<Rightarrow> string \<Rightarrow> outcome \<Rightarrow> pendingVacation list" where
  "pending_reply env input sv content i recipient address decision =
     (case Vacation decision of
        None \<Rightarrow> []
      | Some (subj, body) \<Rightarrow>
          if ShouldReply (ve_suppression (ie_vacation env)) (ie_log_ok env i) (ie_now env) (mr_ID recipient) (in_Sender input) (sv_vacation sv)
          then let original = headersOf content
               in [\<lparr>pv_To = in_Sender input, pv_From = address, pv_Subject = subj, pv_Body = body,
                    pv_OriginalMessageID = firstHeader original ''message-id'', pv_OriginalReferences = firstHeader original ''references'',
                    pv_OriginalSubject = firstHeader original ''subject'', pv_MailboxID = mr_ID recipient\<rparr>]
          else [])"

definition input_for ::
  "inbound_input \<Rightarrow> BlobRef \<Rightarrow> MessageHeaders \<Rightarrow> InboundAuthResult \<Rightarrow> bool \<Rightarrow> MailboxRecord \<Rightarrow> string \<Rightarrow> string \<Rightarrow> persist_input" where
  "input_for input blob headers authResult alreadySeen recipient address folder =
     \<lparr>pi_mailbox = mr_ID recipient, pi_blob = ref_ID blob, pi_blob_size = ref_SizeBytes blob, pi_sender = in_Sender input,
      pi_recipient = address, pi_target_folder = folder, pi_subject = mh_Subject headers, pi_snippet = mh_Snippet headers,
      pi_from_display_name = mh_FromDisplayName headers, pi_message_id = mh_MessageID headers, pi_has_attachments = mh_HasAttachments headers,
      pi_already_seen = alreadySeen, pi_spf = au_SPF authResult, pi_dkim = au_DKIM authResult, pi_dmarc = au_DMARC authResult\<rparr>"

text \<open>The recipients one by one: the copies to file and the replies to send.\<close>

fun plan_copies ::
  "inbound_env \<Rightarrow> inbound_input \<Rightarrow> server \<Rightarrow> string \<Rightarrow> string \<Rightarrow> (MailboxRecord \<Rightarrow> string \<Rightarrow> string \<Rightarrow> persist_input)
    \<Rightarrow> nat \<Rightarrow> (MailboxRecord \<times> string) list \<Rightarrow> persist_input list \<times> pendingVacation list" where
  "plan_copies env input sv content targetFolder file i [] = ([], [])"
| "plan_copies env input sv content targetFolder file i ((recipient, address) # rest) =
     (let decision = decision_for env input sv content i recipient address
      in case plan_copies env input sv content targetFolder file (Suc i) rest of
           (inputs, replies) \<Rightarrow>
             if Discard decision then (inputs, replies)
             else (file recipient address (if Folder decision \<noteq> [] then Folder decision else targetFolder) # inputs,
                   pending_reply env input sv content i recipient address decision @ replies))"

definition file_copies ::
  "server_lib \<Rightarrow> inbound_env \<Rightarrow> persist_input list \<times> pendingVacation list \<Rightarrow> server \<Rightarrow> inbound_error option \<times> server" where
  "file_copies lib env plan sv =
     (case plan of (inputs, replies) \<Rightarrow>
        if inputs = [] then (None, sendVacationReplies lib (ie_vacation env) 0 replies sv)
        else case PersistAll (ie_persist_ok env) (ie_now env) inputs (sv_mail sv) of
            (Inl e, db) \<Rightarrow> (Some (ErrPersist e), sv\<lparr>sv_mail := db\<rparr>)
          | (Inr _, db) \<Rightarrow> (None, sendVacationReplies lib (ie_vacation env) 0 replies (sv\<lparr>sv_mail := db\<rparr>)))"

definition Handle :: "server_lib \<Rightarrow> inbound_env \<Rightarrow> inbound_input \<Rightarrow> server \<Rightarrow> inbound_error option \<times> server" where
  "Handle lib env input sv =
     (if length (in_Recipients input) \<noteq> length (in_RecipientAddresses input) then (Some ErrMismatch, sv)
      else case in_Body input of
          None \<Rightarrow> (Some ErrReadPayload, sv)
        | Some body \<Rightarrow>
            (case authenticate_step env input body of
               Inl e \<Rightarrow> (Some e, sv)
             | Inr (authResult, content1) \<Rightarrow>
                 (case scan_step env input content1 of
                    Inl e \<Rightarrow> (Some e, sv)
                  | Inr (scannedFolder, content) \<Rightarrow>
                      (case ingest_step env input content (sv_reports sv) of
                         (isReport, reports) \<Rightarrow>
                           let sv1 = sv\<lparr>sv_reports := reports\<rparr>;
                               targetFolder = (if isReport then ReportsFolderName else scannedFolder)
                           in case store_blob (lib_sha256 lib) (lib_baseDir lib) (ie_store env) content sv1 of
                                (Inl _, sv2) \<Rightarrow> (Some ErrBlob, sv2)
                              | (Inr blob, sv2) \<Rightarrow>
                                  let headers = ExtractMessageHeaders (lib_mime lib) content
                                  in file_copies lib env
                                       (plan_copies env input sv2 content targetFolder (input_for input blob headers authResult isReport) 0
                                          (zip (in_Recipients input) (in_RecipientAddresses input))) sv2))))"

section \<open>The session of port 25\<close>

record mx_session =
  mx_from :: string
  mx_recipients :: "MailboxRecord list"
  mx_recipientAddresses :: "string list"

definition mx_new :: mx_session where
  "mx_new = \<lparr>mx_from = [], mx_recipients = [], mx_recipientAddresses = []\<rparr>"

definition mx_Reset :: "mx_session \<Rightarrow> mx_session" where
  "mx_Reset s = s\<lparr>mx_from := [], mx_recipients := [], mx_recipientAddresses := []\<rparr>"

definition mx_Mail :: "string \<Rightarrow> mx_session \<Rightarrow> mx_session" where
  "mx_Mail from s = s\<lparr>mx_from := from\<rparr>"

definition rcpt_reply :: "inbound_error \<Rightarrow> smtp_reply" where
  "rcpt_reply e =
     (if e = ErrRecipientNotFound then \<lparr>smtp_Code = 550, smtp_EnhancedCode = (5, 1, 1), smtp_Message = ''User unknown''\<rparr>
      else if e = ErrMailboxQuotaExceeded then \<lparr>smtp_Code = 452, smtp_EnhancedCode = (4, 2, 2), smtp_Message = ''Mailbox full''\<rparr>
      else \<lparr>smtp_Code = 451, smtp_EnhancedCode = (4, 3, 0), smtp_Message = ''Temporary error resolving recipient''\<rparr>)"

definition mx_Rcpt :: "bool \<Rightarrow> server \<Rightarrow> string \<Rightarrow> mx_session \<Rightarrow> smtp_reply option \<times> mx_session" where
  "mx_Rcpt rd sv to' s =
     (if to' \<in> set (mx_recipientAddresses s) then (None, s)
      else case ResolveRecipient rd sv to' of
          Inl e \<Rightarrow> (Some (rcpt_reply e), s)
        | Inr targets \<Rightarrow>
            (None, s\<lparr>mx_recipients := mx_recipients s @ targets,
                     mx_recipientAddresses := mx_recipientAddresses s @ map (\<lambda>_. to') targets\<rparr>))"

definition data_reply :: "inbound_error \<Rightarrow> smtp_reply" where
  "data_reply e =
     (case e of
        Rejection r \<Rightarrow> \<lparr>smtp_Code = rej_Code r, smtp_EnhancedCode = rej_EnhancedCode r, smtp_Message = rej_Message r\<rparr>
      | _ \<Rightarrow> \<lparr>smtp_Code = 451, smtp_EnhancedCode = (4, 3, 0), smtp_Message = ''Temporary error storing message''\<rparr>)"

definition mx_Data ::
  "server_lib \<Rightarrow> inbound_env \<Rightarrow> string option \<Rightarrow> string \<Rightarrow> string option \<Rightarrow> mx_session \<Rightarrow> server \<Rightarrow> smtp_reply option \<times> server" where
  "mx_Data lib env clientIP heloDomain body s sv =
     (if mx_recipients s = [] then (Some errNoRcpt, sv)
      else case Handle lib env
          \<lparr>in_Sender = mx_from s, in_Recipients = mx_recipients s, in_RecipientAddresses = mx_recipientAddresses s, in_Body = body,
           in_ClientIP = clientIP, in_HeloDomain = heloDomain, in_SystemGenerated = False\<rparr> sv of
          (None, sv') \<Rightarrow> (None, sv')
        | (Some e, sv') \<Rightarrow> (Some (data_reply e), sv'))"

end
