(* ===== verification/Outbound_Delivery.thy ===== *)
theory Outbound_Delivery
  imports TLS_Policy
begin

text \<open>
  How a message leaves the server: the delivery half of \<^verbatim>\<open>usecase/outbound_worker.go\<close>
  (\<^verbatim>\<open>deliverToMX\<close>, \<^verbatim>\<open>tlsConfigFor\<close>, the loop over the mail exchangers) and
  \<^verbatim>\<open>usecase/relay.go\<close>, over a model of the client of Go's \<^verbatim>\<open>net/smtp\<close>.

  The peer is a record of what it answers at each point of the dialogue. The result of a delivery is its error,
  if any, and the transcript: what was sent, to whom and over which kind of channel.
\<close>

section \<open>The SMTP client of the standard library\<close>

datatype reply = Broken | Reply nat

datatype delivery_error =
    NetError
  | ReplyError nat
  | LineError
  | AuthError
  | DowngradeRefused
  | RelayNoTLS
  | PolicyError resolve_error

record smtp_peer =
  p_connects :: bool
  p_greeting :: reply
  p_ehlo :: reply
  p_helo :: reply
  p_starttls_listed :: bool
  p_starttls :: reply
  p_handshake :: bool
  p_chain :: "certificate list"
  p_pkix :: "string option \<Rightarrow> string \<Rightarrow> bool"
  p_tls_ehlo :: reply
  p_auth :: reply
  p_mail :: reply
  p_rcpt :: reply
  p_data :: reply
  p_write :: bool
  p_end :: reply
  p_quit :: reply

text \<open>\<^verbatim>\<open>textproto.Reader.ReadResponse\<close>: the expected code may be a prefix of one or two digits.\<close>

definition code_expected :: "nat \<Rightarrow> nat \<Rightarrow> bool" where
  "code_expected want code \<longleftrightarrow>
     \<not> (1 \<le> want \<and> want < 10 \<and> code div 100 \<noteq> want
        \<or> 10 \<le> want \<and> want < 100 \<and> code div 10 \<noteq> want
        \<or> 100 \<le> want \<and> want < 1000 \<and> code \<noteq> want)"

definition read_response :: "nat \<Rightarrow> reply \<Rightarrow> delivery_error option" where
  "read_response want r =
     (case r of Broken \<Rightarrow> Some NetError | Reply code \<Rightarrow> if code_expected want code then None else Some (ReplyError code))"

definition validateLine :: "string \<Rightarrow> delivery_error option" where
  "validateLine line = (if ContainsAny line CRLF then Some LineError else None)"

text \<open>\<^verbatim>\<open>Client.Hello\<close>: EHLO, and HELO when it fails, which leaves no extensions.\<close>

definition client_hello :: "string \<Rightarrow> smtp_peer \<Rightarrow> delivery_error option" where
  "client_hello localName peer =
     (case validateLine localName of
        Some e \<Rightarrow> Some e
      | None \<Rightarrow> (case read_response 250 (p_ehlo peer) of None \<Rightarrow> None | Some _ \<Rightarrow> read_response 250 (p_helo peer)))"

definition offers_starttls :: "smtp_peer \<Rightarrow> bool" where
  "offers_starttls peer \<longleftrightarrow> read_response 250 (p_ehlo peer) = None \<and> p_starttls_listed peer"

datatype channel = Cleartext | Unverified | DaneVerified | PkixVerified

text \<open>The configuration of a TLS client; the DANE check is the peer verification of the source.\<close>

record tls_config =
  cfg_ServerName :: string
  cfg_InsecureSkipVerify :: bool
  cfg_dane :: "tls_policy option"
  cfg_RootCAs :: "string option"

definition tls_handshake :: "(string \<Rightarrow> string) \<Rightarrow> tls_config \<Rightarrow> smtp_peer \<Rightarrow> delivery_error + channel" where
  "tls_handshake sha256 cfg peer =
     (if \<not> p_handshake peer then Inl NetError
      else if \<not> cfg_InsecureSkipVerify cfg then
        (if p_pkix peer (cfg_RootCAs cfg) (cfg_ServerName cfg) then Inr PkixVerified else Inl NetError)
      else case cfg_dane cfg of
          None \<Rightarrow> Inr Unverified
        | Some policy \<Rightarrow> if MatchesCertificate sha256 policy (p_chain peer) then Inr DaneVerified else Inl DowngradeRefused)"

definition client_StartTLS :: "(string \<Rightarrow> string) \<Rightarrow> tls_config \<Rightarrow> smtp_peer \<Rightarrow> delivery_error + channel" where
  "client_StartTLS sha256 cfg peer =
     (case read_response 220 (p_starttls peer) of
        Some e \<Rightarrow> Inl e
      | None \<Rightarrow>
          (case tls_handshake sha256 cfg peer of
             Inl e \<Rightarrow> Inl e
           | Inr ch \<Rightarrow> (case read_response 250 (p_tls_ehlo peer) of Some e \<Rightarrow> Inl e | None \<Rightarrow> Inr ch)))"

text \<open>What goes over the wire, and in which try.\<close>

datatype wire_item = WireCredentials string string | WireMail string | WireRcpt string | WireData | WirePayload string | WireQuit

record sent =
  s_try :: nat
  s_host :: string
  s_channel :: channel
  s_item :: wire_item

text \<open>A dialogue is a list of steps, each with what it sends and how it ends; the first error ends it.\<close>

fun dialogue :: "('i list \<times> delivery_error option) list \<Rightarrow> delivery_error option \<times> 'i list" where
  "dialogue [] = (None, [])"
| "dialogue ((items, err) # steps) =
     (case err of
        Some e \<Rightarrow> (Some e, items)
      | None \<Rightarrow> (case dialogue steps of (e, rest) \<Rightarrow> (e, items @ rest)))"

text \<open>MAIL, RCPT, DATA, the message and QUIT, as both ways of delivery have them.\<close>

definition transaction :: "smtp_peer \<Rightarrow> string \<Rightarrow> string \<Rightarrow> string \<Rightarrow> (wire_item list \<times> delivery_error option) list" where
  "transaction peer from to' payload =
     [([], validateLine from),
      ([WireMail from], read_response 250 (p_mail peer)),
      ([], validateLine to'),
      ([WireRcpt to'], read_response 25 (p_rcpt peer)),
      ([WireData], read_response 354 (p_data peer)),
      ([WirePayload payload], if p_write peer then None else Some NetError),
      ([], read_response 250 (p_end peer)),
      ([WireQuit], read_response 221 (p_quit peer))]"

definition connect_steps :: "string \<Rightarrow> smtp_peer \<Rightarrow> (wire_item list \<times> delivery_error option) list" where
  "connect_steps localHost peer =
     [([], if p_connects peer then None else Some NetError),
      ([], read_response 220 (p_greeting peer)),
      ([], client_hello localHost peer)]"

section \<open>Delivery to a mail exchanger\<close>

definition tlsConfigFor :: "string \<Rightarrow> tls_policy \<Rightarrow> tls_config" where
  "tlsConfigFor mxHost policy =
     (let config = \<lparr>cfg_ServerName = TrimSuffix mxHost ''.'', cfg_InsecureSkipVerify = False, cfg_dane = None, cfg_RootCAs = None\<rparr>
      in if \<not> RequiresValidation policy then config\<lparr>cfg_InsecureSkipVerify := True\<rparr>
         else if Effective policy = TLSModeDane then config\<lparr>cfg_InsecureSkipVerify := True, cfg_dane := Some policy\<rparr>
         else config)"

definition mx_channel :: "(string \<Rightarrow> string) \<Rightarrow> smtp_peer \<Rightarrow> string \<Rightarrow> tls_policy \<Rightarrow> delivery_error + channel" where
  "mx_channel sha256 peer mxHost policy =
     (if offers_starttls peer then
        (case client_StartTLS sha256 (tlsConfigFor mxHost policy) peer of
           Inl e \<Rightarrow> Inl (if RequiresValidation policy then DowngradeRefused else e)
         | Inr ch \<Rightarrow> Inr ch)
      else if RequiresValidation policy then Inl DowngradeRefused
      else Inr Cleartext)"

text \<open>The result: the error and what was sent over which channel.\<close>

definition deliverToMX ::
  "(string \<Rightarrow> string) \<Rightarrow> string \<Rightarrow> smtp_peer \<Rightarrow> string \<Rightarrow> string \<Rightarrow> string \<Rightarrow> string \<Rightarrow> tls_policy
    \<Rightarrow> delivery_error option \<times> (channel \<times> wire_item) list" where
  "deliverToMX sha256 localHost peer mxHost from to' payload policy =
     (case dialogue (connect_steps localHost peer) of
        (Some e, _) \<Rightarrow> (Some e, [])
      | (None, _) \<Rightarrow>
          (case mx_channel sha256 peer mxHost policy of
             Inl e \<Rightarrow> (Some e, [])
           | Inr ch \<Rightarrow> (case dialogue (transaction peer from to' payload) of (e, items) \<Rightarrow> (e, map (Pair ch) items))))"

section \<open>The loop over the mail exchangers\<close>

text \<open>What a try meets: the peer, the answers of the network about its policy, and the time.\<close>

record mx_env =
  me_peer :: smtp_peer
  me_net :: policy_net
  me_now :: int

definition resolvePolicy ::
  "resolver_config option \<Rightarrow> mx_env \<Rightarrow> string \<Rightarrow> string \<Rightarrow> policy_cache \<Rightarrow> (resolve_error + tls_policy) \<times> policy_cache" where
  "resolvePolicy resolver env domain mxHost cache =
     (case resolver of
        None \<Rightarrow> (Inr (NewTLSPolicy False False), cache)
      | Some cfg \<Rightarrow> Resolve cfg (me_net env) (me_now env) domain mxHost cache)"

definition try_mx ::
  "(string \<Rightarrow> string) \<Rightarrow> string \<Rightarrow> resolver_config option \<Rightarrow> mx_env \<Rightarrow> string \<Rightarrow> string \<Rightarrow> string \<Rightarrow> string \<Rightarrow> string \<Rightarrow> policy_cache
    \<Rightarrow> (delivery_error + string) \<times> (channel \<times> wire_item) list \<times> policy_cache" where
  "try_mx sha256 localHost resolver env domain mxHost from to' payload cache =
     (case resolvePolicy resolver env domain mxHost cache of
        (Inl e, cache') \<Rightarrow> (Inl (PolicyError e), [], cache')
      | (Inr policy, cache') \<Rightarrow>
          if RequiresValidation policy \<and> \<not> CoversHost policy mxHost then (Inl DowngradeRefused, [], cache')
          else
            (case deliverToMX sha256 localHost (me_peer env) mxHost from to' payload policy of
               (Some e, items) \<Rightarrow> (Inl e, items, cache')
             | (None, items) \<Rightarrow> (Inr (Effective policy), items, cache')))"

text \<open>
  \<open>env i\<close> is what the \<open>i\<close>-th try meets. The result is the policy used, or the error of the last try
  (\<^const>\<open>None\<close> when there was none).
\<close>

fun mx_loop ::
  "(string \<Rightarrow> string) \<Rightarrow> string \<Rightarrow> resolver_config option \<Rightarrow> (nat \<Rightarrow> mx_env) \<Rightarrow> string \<Rightarrow> string \<Rightarrow> string \<Rightarrow> string
    \<Rightarrow> nat \<Rightarrow> string list \<Rightarrow> delivery_error option \<Rightarrow> policy_cache
    \<Rightarrow> (delivery_error option + string) \<times> sent list \<times> policy_cache" where
  "mx_loop sha256 localHost resolver env domain from to' payload i [] lastErr cache = (Inl lastErr, [], cache)"
| "mx_loop sha256 localHost resolver env domain from to' payload i (mxHost # hosts) lastErr cache =
     (case try_mx sha256 localHost resolver (env i) domain mxHost from to' payload cache of
        (r, items, cache') \<Rightarrow>
          let log = map (\<lambda>(ch, item). \<lparr>s_try = i, s_host = mxHost, s_channel = ch, s_item = item\<rparr>) items
          in case r of
               Inr policyUsed \<Rightarrow> (Inr policyUsed, log, cache')
             | Inl e \<Rightarrow>
                 (case mx_loop sha256 localHost resolver env domain from to' payload (Suc i) hosts (Some e) cache' of
                    (res, rest, cache'') \<Rightarrow> (res, log @ rest, cache'')))"

section \<open>Delivery through a relay\<close>

record RelayConfig =
  relay_Host :: string
  relay_Port :: int
  relay_Username :: string
  relay_Password :: string
  relay_SpfMechanism :: string
  relay_RootCAs :: "string option"

definition Configured :: "RelayConfig \<Rightarrow> bool" where
  "Configured c \<longleftrightarrow> relay_Host c \<noteq> []"

definition JoinHostPort :: "string \<Rightarrow> string \<Rightarrow> string" where
  "JoinHostPort host port =
     (if CHR '':'' \<in> set host then ''['' @ host @ '']:'' @ port else host @ '':'' @ port)"

definition relay_Address :: "RelayConfig \<Rightarrow> string" where
  "relay_Address c = JoinHostPort (relay_Host c) (Itoa (if relay_Port c = 0 then 587 else relay_Port c))"

definition SpfInclude :: "RelayConfig \<Rightarrow> string" where
  "SpfInclude c =
     (if \<not> Configured c then []
      else
        let mechanism = TrimSpace (relay_SpfMechanism c)
        in if mechanism \<noteq> [] then (if Contains mechanism '':'' then mechanism else ''include:'' @ mechanism)
           else
             let host = TrimSuffix (ToLower (relay_Host c)) ''.''; labels = Split host CHR ''.''
             in ''include:'' @ (if length labels > 2 then Join (drop (length labels - 2) labels) ''.'' else host))"

definition authFor :: "RelayConfig \<Rightarrow> string \<Rightarrow> (string \<times> string \<times> string) option" where
  "authFor c serverName =
     (if relay_Username c = [] then None else Some (relay_Username c, relay_Password c, serverName))"

definition relayTLSConfig :: "RelayConfig \<Rightarrow> tls_config" where
  "relayTLSConfig relay =
     \<lparr>cfg_ServerName = relay_Host relay, cfg_InsecureSkipVerify = False, cfg_dane = None, cfg_RootCAs = relay_RootCAs relay\<rparr>"

definition relay_channel :: "(string \<Rightarrow> string) \<Rightarrow> RelayConfig \<Rightarrow> smtp_peer \<Rightarrow> delivery_error + channel" where
  "relay_channel sha256 relay peer =
     (if offers_starttls peer then client_StartTLS sha256 (relayTLSConfig relay) peer
      else if relay_Username relay \<noteq> [] then Inl RelayNoTLS
      else Inr Cleartext)"

text \<open>
  \<^verbatim>\<open>smtp.PlainAuth\<close> starts only over TLS or to the local host, and only with the server it is
  meant for; \<^verbatim>\<open>Client.Auth\<close> fails on a challenge and on any code but 235.
\<close>

definition isLocalhost :: "string \<Rightarrow> bool" where
  "isLocalhost name \<longleftrightarrow> name = ''localhost'' \<or> name = ''127.0.0.1'' \<or> name = ''::1''"

definition client_Auth :: "channel \<Rightarrow> string \<Rightarrow> smtp_peer \<Rightarrow> string \<times> string \<times> string \<Rightarrow> (wire_item list \<times> delivery_error option) list" where
  "client_Auth ch serverName peer auth =
     (case auth of (username, password, host) \<Rightarrow>
        [([], if ch = Cleartext \<and> \<not> isLocalhost serverName \<or> serverName \<noteq> host then Some AuthError else None),
         ([WireCredentials username password],
          case p_auth peer of
            Broken \<Rightarrow> Some NetError
          | Reply code \<Rightarrow> if code = 235 then None else if code = 334 then Some AuthError else Some (ReplyError code))])"

definition deliverViaRelay ::
  "(string \<Rightarrow> string) \<Rightarrow> string \<Rightarrow> RelayConfig \<Rightarrow> smtp_peer \<Rightarrow> string \<Rightarrow> string \<Rightarrow> string
    \<Rightarrow> delivery_error option \<times> (channel \<times> wire_item) list" where
  "deliverViaRelay sha256 localHost relay peer from to' payload =
     (case dialogue (connect_steps localHost peer) of
        (Some e, _) \<Rightarrow> (Some e, [])
      | (None, _) \<Rightarrow>
          (case relay_channel sha256 relay peer of
             Inl e \<Rightarrow> (Some e, [])
           | Inr ch \<Rightarrow>
               let login = (case authFor relay (relay_Host relay) of None \<Rightarrow> [] | Some auth \<Rightarrow> client_Auth ch (relay_Host relay) peer auth)
               in case dialogue (login @ transaction peer from to' payload) of (e, items) \<Rightarrow> (e, map (Pair ch) items)))"

end
