(* ===== verification/Outbound_Worker.thy ===== *)
theory Outbound_Worker
  imports Inbound Outbound_Delivery
begin

text \<open>
  The worker that empties the queue, \<^verbatim>\<open>usecase/outbound_worker.go\<close>, and the notifications it
  sends, \<^verbatim>\<open>valueobject/dsn_bounce.go\<close>. A job is delivered to a local mailbox, through a relay or to
  a mail exchanger; a failure defers it or bounces it.

  What a job meets (clock, peers, statements that fail, the texts of errors, dates and identifiers) is its
  \<open>worker_env\<close>. The job itself is the copy that was fetched, as in the source.
\<close>

section \<open>Delivery status notifications\<close>

datatype DsnAction = DsnActionFailed | DsnActionDelayed

definition defaultReportingMTA :: string where "defaultReportingMTA = ''mail.lambdamail.local''"

definition dsn_header :: "DsnAction \<Rightarrow> string \<Rightarrow> string \<Rightarrow> string \<Rightarrow> string \<Rightarrow> string \<Rightarrow> string" where
  "dsn_header action reportingMTA cleanFrom messageID nowStr boundary =
     ''From: Mail Delivery Subsystem <postmaster@'' @ reportingMTA @ ''>'' @ CRLF
     @ ''To: <'' @ cleanFrom @ ''>'' @ CRLF
     @ ''Subject: '' @ (if action = DsnActionDelayed then ''Delivery Delay Notification'' else ''Undeliverable Mail Notification'') @ CRLF
     @ ''Date: '' @ nowStr @ CRLF
     @ ''Message-ID: <dsn-'' @ messageID @ ''@'' @ reportingMTA @ ''>'' @ CRLF
     @ ''Auto-Submitted: auto-generated'' @ CRLF
     @ ''Content-Type: multipart/report; report-type=delivery-status; boundary='' @ [DQUOTE] @ boundary @ [DQUOTE] @ CRLF @ CRLF"

definition dsn_body :: "DsnAction \<Rightarrow> string \<Rightarrow> string \<Rightarrow> string \<Rightarrow> string \<Rightarrow> string \<Rightarrow> string" where
  "dsn_body action reportingMTA envelopeTo reason nowStr boundary =
     ''--'' @ boundary @ CRLF
     @ ''Content-Type: text/plain; charset=utf-8'' @ CRLF @ CRLF
     @ (if action = DsnActionFailed
        then ''This is an automated message from LambdaMail.'' @ CRLF @ ''Your message to <'' @ envelopeTo @ ''> could not be delivered.'' @ CRLF
             @ ''Reason: '' @ reason @ CRLF @ CRLF
        else ''This is an automated warning message from LambdaMail.'' @ CRLF @ ''Delivery to <'' @ envelopeTo @ ''> has been delayed.'' @ CRLF
             @ ''LambdaMail will continue attempting delivery.'' @ CRLF @ ''Reason: '' @ reason @ CRLF @ CRLF)
     @ ''--'' @ boundary @ CRLF
     @ ''Content-Type: message/delivery-status'' @ CRLF @ CRLF
     @ ''Reporting-MTA: dns; '' @ reportingMTA @ CRLF
     @ ''Arrival-Date: '' @ nowStr @ CRLF @ CRLF
     @ ''Final-Recipient: rfc822; '' @ envelopeTo @ CRLF
     @ ''Action: '' @ (if action = DsnActionFailed then ''failed'' else ''delayed'') @ CRLF
     @ ''Status: '' @ (if action = DsnActionDelayed then ''4.4.1'' else ''5.0.0'') @ CRLF
     @ ''Diagnostic-Code: smtp; '' @ reason @ CRLF @ CRLF
     @ ''--'' @ boundary @ ''--'' @ CRLF"

text \<open>\<^const>\<open>None\<close> when a notification would start a loop.\<close>

definition BuildDsnReport :: "DsnAction \<Rightarrow> string \<Rightarrow> string \<Rightarrow> string \<Rightarrow> string \<Rightarrow> string \<Rightarrow> string \<Rightarrow> nat \<Rightarrow> string option" where
  "BuildDsnReport action mta envelopeFrom envelopeTo messageID reason nowStr nano =
     (let cleanFrom = Trim (TrimSpace envelopeFrom) ''<>''
      in if cleanFrom = [] then None
         else
           let reportingMTA = (if TrimSpace mta = [] then defaultReportingMTA else TrimSpace mta);
               boundary = ''=_Boundary_DSN_'' @ ItoaNat nano
           in Some (dsn_header action reportingMTA cleanFrom messageID nowStr boundary
                    @ dsn_body action reportingMTA envelopeTo reason nowStr boundary))"

section \<open>The worker\<close>

record worker_config =
  wc_lib :: server_lib
  wc_local :: bool
  wc_relay :: RelayConfig
  wc_resolver :: "resolver_config option"
  wc_localHost :: string
  wc_id_text :: "nat \<Rightarrow> string"
  wc_error_text :: "delivery_error \<Rightarrow> string"
  wc_store_text :: "inbound_error \<Rightarrow> string"

text \<open>\<^verbatim>\<open>NewOutboundWorkerUseCase\<close> gives an unnamed host a name.\<close>

definition worker_host :: "string \<Rightarrow> string" where
  "worker_host localHost = (if localHost = [] then ''mail.lambdamail.local'' else localHost)"

record worker_env =
  we_now :: int
  we_factor :: rat
  we_read_ok :: bool
  we_read_text :: string
  we_lookup_ok :: bool
  we_inbound :: inbound_env
  we_mx :: "string \<Rightarrow> unit + (nat \<times> string) list"
  we_try :: "nat \<Rightarrow> mx_env"
  we_relay_peer :: smtp_peer
  we_update_ok :: bool
  we_dsn_lookup_ok :: bool
  we_dsn_inbound :: inbound_env
  we_date :: string
  we_nano :: nat

definition smtpReplyCode :: "delivery_error option \<Rightarrow> nat" where
  "smtpReplyCode e = (case e of Some (ReplyError code) \<Rightarrow> code | _ \<Rightarrow> 0)"

definition dsn_input :: "worker_config \<Rightarrow> outbound_job \<Rightarrow> MailboxRecord list \<Rightarrow> string \<Rightarrow> inbound_input" where
  "dsn_input cfg job targets dsn =
     \<lparr>in_Sender = ''postmaster@'' @ wc_localHost cfg, in_Recipients = targets,
      in_RecipientAddresses = map (\<lambda>_. EnvelopeFrom job) targets, in_Body = Some dsn, in_ClientIP = None, in_HeloDomain = [],
      in_SystemGenerated = True\<rparr>"

definition sendDsn :: "worker_config \<Rightarrow> worker_env \<Rightarrow> DsnAction \<Rightarrow> outbound_job \<Rightarrow> string \<Rightarrow> server \<Rightarrow> server" where
  "sendDsn cfg env action job reason sv =
     (if \<not> wc_local cfg \<or> MailboxID job = None then sv
      else case BuildDsnReport action (wc_localHost cfg) (EnvelopeFrom job) (EnvelopeTo job) (wc_id_text cfg (job_id job)) reason (we_date env) (we_nano env) of
          None \<Rightarrow> sv
        | Some dsn \<Rightarrow>
            (case ResolveDeliveryTargets (we_dsn_lookup_ok env) sv (EnvelopeFrom job) of
               Inl _ \<Rightarrow> sv
             | Inr targets \<Rightarrow>
                 if targets = [] then sv
                 else snd (Handle (wc_lib cfg) (we_dsn_inbound env) (dsn_input cfg job targets dsn) sv)))"

definition update_job :: "worker_env \<Rightarrow> outbound_job \<Rightarrow> server \<Rightarrow> server" where
  "update_job env job sv = sv\<lparr>sv_jobs := UpdateJob (we_update_ok env) job (sv_jobs sv)\<rparr>"

text \<open>What becomes of a failed job, and the notification that is due.\<close>

definition failed_job :: "worker_env \<Rightarrow> outbound_job \<Rightarrow> string \<Rightarrow> bool \<Rightarrow> outbound_job \<times> DsnAction option" where
  "failed_job env job errStr isPermanent =
     (case CalculateNextBackoff (we_factor env) (we_now env) (Attempt job) (ExpiresAt job) of
        (nextAttemptAt, sendDelayDsn, maxExceeded) \<Rightarrow>
          if isPermanent \<or> maxExceeded then (job\<lparr>Status := Bounced, LastError := errStr\<rparr>, Some DsnActionFailed)
          else
            let job1 = job\<lparr>Status := Deferred, NextAttemptAt := nextAttemptAt, LastError := errStr\<rparr>
            in if sendDelayDsn \<and> \<not> DelayDsnSent job then (job1\<lparr>DelayDsnSent := True\<rparr>, Some DsnActionDelayed) else (job1, None))"

definition handleFailure :: "worker_config \<Rightarrow> worker_env \<Rightarrow> outbound_job \<Rightarrow> string \<Rightarrow> bool \<Rightarrow> server \<Rightarrow> server" where
  "handleFailure cfg env job errStr isPermanent sv =
     (case failed_job env job errStr isPermanent of
        (job', Some DsnActionFailed) \<Rightarrow> sendDsn cfg env DsnActionFailed job' errStr (update_job env job' sv)
      | (job', Some DsnActionDelayed) \<Rightarrow> update_job env job' (sendDsn cfg env DsnActionDelayed job' errStr sv)
      | (job', None) \<Rightarrow> update_job env job' sv)"

definition finishFailed :: "worker_config \<Rightarrow> worker_env \<Rightarrow> outbound_job \<Rightarrow> delivery_error option \<Rightarrow> server \<Rightarrow> server" where
  "finishFailed cfg env job lastErr sv =
     (let errStr = (case lastErr of None \<Rightarrow> ''delivery failed'' | Some e \<Rightarrow> wc_error_text cfg e);
          code = smtpReplyCode lastErr;
          job1 = (if code > 0 then job\<lparr>LastSmtpCode := ItoaNat code\<rparr> else job)
      in if lastErr = Some DowngradeRefused
         then handleFailure cfg env (job1\<lparr>LastSmtpCode := ''451'', TlsPolicyUsed := ''none''\<rparr>) (''4.7.5 '' @ errStr) False sv
         else handleFailure cfg env job1 errStr (code \<ge> 500 \<and> code < 600) sv)"

definition deliverLocally :: "worker_config \<Rightarrow> worker_env \<Rightarrow> outbound_job \<Rightarrow> string \<Rightarrow> server \<Rightarrow> (bool \<times> inbound_error option) \<times> server" where
  "deliverLocally cfg env job content sv =
     (if \<not> wc_local cfg then ((False, None), sv)
      else case ResolveDeliveryTargets (we_lookup_ok env) sv (EnvelopeTo job) of
          Inl _ \<Rightarrow> ((True, Some ErrLookup), sv)
        | Inr targets \<Rightarrow>
            if targets = [] then ((False, None), sv)
            else case Handle (wc_lib cfg) (we_inbound env)
                \<lparr>in_Sender = EnvelopeFrom job, in_Recipients = targets, in_RecipientAddresses = map (\<lambda>_. EnvelopeTo job) targets,
                 in_Body = Some content, in_ClientIP = None, in_HeloDomain = [], in_SystemGenerated = False\<rparr> sv of
                (e, sv') \<Rightarrow> ((True, e), sv'))"

definition delivered_job :: "outbound_job \<Rightarrow> string \<Rightarrow> outbound_job" where
  "delivered_job job policyUsed = job\<lparr>Status := Delivered, LastError := [], LastSmtpCode := [], TlsPolicyUsed := policyUsed\<rparr>"

definition job_mx_hosts :: "worker_env \<Rightarrow> outbound_job \<Rightarrow> string list" where
  "job_mx_hosts env job =
     (case LookupMX (we_mx env) (DestinationDomain job) of
        Inl _ \<Rightarrow> [DestinationDomain job]
      | Inr hosts \<Rightarrow> if hosts = [] then [DestinationDomain job] else hosts)"

definition deliverRemotely ::
  "worker_config \<Rightarrow> worker_env \<Rightarrow> outbound_job \<Rightarrow> string \<Rightarrow> policy_cache \<Rightarrow> (delivery_error option + string) \<times> sent list \<times> policy_cache" where
  "deliverRemotely cfg env job content cache =
     (if Configured (wc_relay cfg) then
        (case deliverViaRelay (lib_sha256 (wc_lib cfg)) (wc_localHost cfg) (wc_relay cfg) (we_relay_peer env) (EnvelopeFrom job) (EnvelopeTo job) content of
           (e, items) \<Rightarrow>
             (case e of None \<Rightarrow> Inr TLSModeRelay | Some x \<Rightarrow> Inl (Some x),
              map (\<lambda>(ch, item). \<lparr>s_try = 0, s_host = relay_Host (wc_relay cfg), s_channel = ch, s_item = item\<rparr>) items, cache))
      else mx_loop (lib_sha256 (wc_lib cfg)) (wc_localHost cfg) (wc_resolver cfg) (we_try env) (DestinationDomain job)
             (EnvelopeFrom job) (EnvelopeTo job) content 0 (job_mx_hosts env job) None cache)"

definition processSingleJob ::
  "worker_config \<Rightarrow> worker_env \<Rightarrow> outbound_job \<Rightarrow> server \<Rightarrow> policy_cache \<Rightarrow> server \<times> sent list \<times> policy_cache" where
  "processSingleJob cfg env job0 sv cache =
     (let job = job0\<lparr>Attempt := Attempt job0 + 1\<rparr>
      in case (if we_read_ok env then ReadByID (sv_disk sv) (BlobID job) else None) of
           None \<Rightarrow> (handleFailure cfg env job (''read blob '' @ wc_id_text cfg (BlobID job) @ '': '' @ we_read_text env) True sv, [], cache)
         | Some content \<Rightarrow>
             (case deliverLocally cfg env job content sv of
                ((True, Some e), sv1) \<Rightarrow> (handleFailure cfg env job (''local delivery: '' @ wc_store_text cfg e) True sv1, [], cache)
              | ((True, None), sv1) \<Rightarrow> (update_job env (delivered_job job TLSModeLocal) sv1, [], cache)
              | ((False, _), sv1) \<Rightarrow>
                  (case deliverRemotely cfg env job content cache of
                     (Inr policyUsed, trace, cache') \<Rightarrow> (update_job env (delivered_job job policyUsed) sv1, trace, cache')
                   | (Inl lastErr, trace, cache') \<Rightarrow> (finishFailed cfg env job lastErr sv1, trace, cache'))))"

fun process_jobs ::
  "worker_config \<Rightarrow> (nat \<Rightarrow> worker_env) \<Rightarrow> nat \<Rightarrow> outbound_job list \<Rightarrow> server \<Rightarrow> policy_cache \<Rightarrow> server \<times> policy_cache" where
  "process_jobs cfg env i [] sv cache = (sv, cache)"
| "process_jobs cfg env i (job # jobs) sv cache =
     (case processSingleJob cfg (env i) job sv cache of (sv', _, cache') \<Rightarrow> process_jobs cfg env (Suc i) jobs sv' cache')"

text \<open>\<open>ok\<close>, \<open>busy\<close> and \<open>now\<close> are what fetching the jobs meets.\<close>

definition ProcessBatch ::
  "worker_config \<Rightarrow> bool \<Rightarrow> (nat \<Rightarrow> bool) \<Rightarrow> int \<Rightarrow> (nat \<Rightarrow> worker_env) \<Rightarrow> string \<Rightarrow> int \<Rightarrow> server \<Rightarrow> policy_cache
    \<Rightarrow> (unit + nat) \<times> server \<times> policy_cache" where
  "ProcessBatch cfg ok busy now env workerID limit sv cache =
     (case FetchNextReady ok busy now workerID (nat (if limit \<le> 0 then 10 else limit)) (sv_jobs sv) of
        (Inl _, t) \<Rightarrow> (Inl (), sv\<lparr>sv_jobs := t\<rparr>, cache)
      | (Inr jobs, t) \<Rightarrow>
          (case process_jobs cfg env 0 jobs (sv\<lparr>sv_jobs := t\<rparr>) cache of
             (sv', cache') \<Rightarrow> (Inr (length jobs), sv', cache')))"

end
