(* ===== verification/Submission_Properties.thy ===== *)
theory Submission_Properties
  imports Submission
begin

text \<open>
  What the submission ports guarantee: a job in the queue belongs to a mailbox whose credentials were
  presented in its session and carries that mailbox's own address, and no mailbox queues more recipients in an hour
  than its limit.
\<close>

section \<open>The queue after a submission\<close>

text \<open>Who queued a job, as whom and when; nothing else of a job matters here.\<close>

definition sent_entry :: "job_row \<Rightarrow> uuid option \<times> string \<times> int" where
  "sent_entry r = (MailboxID (jr_job r), EnvelopeFrom (jr_job r), CreatedAt (jr_job r))"

definition sent_log :: "job_table \<Rightarrow> (uuid option \<times> string \<times> int) list" where
  "sent_log t = map sent_entry (jt_rows t)"

lemma Enqueue_log:
  "sent_log (snd (Enqueue ok now (new_job now input blob recipient) t)) =
     (if ok then sent_log t @ [(Some (si_MailboxID input), si_SenderAddr input, now)] else sent_log t)"
  by (simp add: Enqueue_def new_job_def sent_log_def sent_entry_def Let_def)

lemma enqueue_loop_log:
  "\<exists>k \<le> length recipients. sent_log (snd (enqueue_loop ok now input blob i recipients t)) =
     sent_log t @ replicate k (Some (si_MailboxID input), si_SenderAddr input, now)"
proof (induction recipients arbitrary: i t)
  case (Cons recipient recipients)
  obtain e t' where en: "Enqueue (ok i) now (new_job now input blob recipient) t = (e, t')" by fastforce
  let ?entry = "(Some (si_MailboxID input), si_SenderAddr input, now)"
  show ?case
  proof (cases e)
    case (Inl u)
    with en have "\<not> ok i" by (auto simp: Enqueue_def Let_def split: if_splits)
    with en Enqueue_log [of "ok i" now input blob recipient t] Inl show ?thesis by (auto intro: exI [of _ 0])
  next
    case (Inr j)
    with en have "ok i" by (auto simp: Enqueue_def split: if_splits)
    with en Enqueue_log [of "ok i" now input blob recipient t] have t': "sent_log t' = sent_log t @ [?entry]" by simp
    from Cons.IH [of "Suc i" t'] obtain k where k: "k \<le> length recipients"
      "sent_log (snd (enqueue_loop ok now input blob (Suc i) recipients t')) = sent_log t' @ replicate k ?entry" by blast
    with en Inr t' show ?thesis by (intro exI [of _ "Suc k"]) simp
  qed
qed auto

text \<open>A submission either leaves the queue alone or passed the check of the limit and adds jobs of its mailbox.\<close>

lemma Submit_log:
  "sent_log (sv_jobs (snd (Submit lib env input sv))) = sent_log (sv_jobs sv)
   \<or> checkSendLimit env input (sv_jobs sv) = None
     \<and> (\<exists>k \<le> length (si_Recipients input). sent_log (sv_jobs (snd (Submit lib env input sv))) =
          sent_log (sv_jobs sv) @ replicate k (Some (si_MailboxID input), si_SenderAddr input, se_now env))"
proof (cases "checkSendLimit env input (sv_jobs sv)")
  case None
  show ?thesis
  proof (cases "\<exists>body content blob sv1. si_Body input = Some body \<and> sign_body env (si_DomainName input) body = Some content
      \<and> store_blob (lib_sha256 lib) (lib_baseDir lib) (se_store env) content sv = (Inr blob, sv1)")
    case True
    then obtain body content blob sv1 where st: "si_Body input = Some body" "sign_body env (si_DomainName input) body = Some content"
      "store_blob (lib_sha256 lib) (lib_baseDir lib) (se_store env) content sv = (Inr blob, sv1)" by blast
    have "sent_log (sv_jobs (snd (Submit lib env input sv))) =
        sent_log (snd (enqueue_loop (se_enqueue_ok env) (se_now env) input blob 0 (si_Recipients input) (sv_jobs sv)))
      \<or> snd (Submit lib env input sv) = sv"
      using st None store_blob_jobs [OF st(3)] by (auto simp: Submit_def split: prod.splits option.splits)
    with enqueue_loop_log [of "si_Recipients input" "se_enqueue_ok env" "se_now env" input blob 0 "sv_jobs sv"] None
    show ?thesis by auto
  next
    case False
    then have "sv_jobs (snd (Submit lib env input sv)) = sv_jobs sv"
      using None by (fastforce simp: Submit_def dest: store_blob_jobs split: option.splits prod.splits sum.splits)
    then show ?thesis by simp
  qed
qed (simp add: Submit_def)

section \<open>The hourly limit\<close>

text \<open>What happens to the queue: submissions, and the workers that fetch and update jobs.\<close>

datatype queue_event =
    QSubmit submit_env submit_input
  | QFetch bool "nat \<Rightarrow> bool" int string nat
  | QUpdate bool outbound_job

definition queue_step :: "server_lib \<Rightarrow> server \<Rightarrow> queue_event \<Rightarrow> server" where
  "queue_step lib sv ev =
     (case ev of
        QSubmit env input \<Rightarrow> snd (Submit lib env input sv)
      | QFetch ok busy now worker limit \<Rightarrow> sv\<lparr>sv_jobs := snd (FetchNextReady ok busy now worker limit (sv_jobs sv))\<rparr>
      | QUpdate ok job \<Rightarrow> sv\<lparr>sv_jobs := UpdateJob ok job (sv_jobs sv)\<rparr>)"

definition in_window :: "uuid \<Rightarrow> int \<Rightarrow> int \<Rightarrow> uuid option \<times> string \<times> int \<Rightarrow> bool" where
  "in_window mb lo hi e \<longleftrightarrow> fst e = Some mb \<and> lo \<le> snd (snd e) \<and> snd (snd e) \<le> hi"

lemma Fetch_log: "sent_log (snd (FetchNextReady ok busy now worker limit t)) = sent_log t"
  unfolding sent_log_def FetchNextReady_def Let_def
  by (cases ok) (simp_all add: map_update_where [where key = sent_entry] sent_entry_def claim_def)

lemma Update_log: "sent_log (UpdateJob ok job t) = sent_log t"
  unfolding sent_log_def UpdateJob_def
  by (cases ok) (simp_all add: map_update_where [where key = sent_entry] sent_entry_def)

lemma Count_log:
  assumes "CountRecipientsSince ok mb since t = Inr n" "\<forall>e \<in> set (sent_log t). snd (snd e) \<le> now"
  shows "n = length (filter (in_window mb since now) (sent_log t))"
proof -
  have "filter (\<lambda>r. MailboxID (jr_job r) = Some mb \<and> since \<le> CreatedAt (jr_job r)) (jt_rows t)
      = filter (in_window mb since now \<circ> sent_entry) (jt_rows t)"
    by (rule filter_cong) (use assms(2) in \<open>auto simp: in_window_def sent_log_def sent_entry_def\<close>)
  with assms(1) show ?thesis
    by (auto simp: CountRecipientsSince_def sent_log_def filter_map split: if_splits)
qed

definition event_time :: "queue_event \<Rightarrow> int option" where
  "event_time ev = (case ev of QSubmit env _ \<Rightarrow> Some (se_now env) | _ \<Rightarrow> None)"

definition limited_to :: "uuid \<Rightarrow> int \<Rightarrow> queue_event \<Rightarrow> bool" where
  "limited_to mb limit ev =
     (case ev of QSubmit _ input \<Rightarrow> si_MailboxID input = mb \<longrightarrow> si_MaxRecipientsPerHour input = limit | _ \<Rightarrow> True)"

text \<open>The invariant: no window of an hour holds more than the limit, and no job is from the future.\<close>

definition windows_ok :: "uuid \<Rightarrow> int \<Rightarrow> int \<Rightarrow> server \<Rightarrow> bool" where
  "windows_ok mb limit now sv \<longleftrightarrow>
     (\<forall>t. int (length (filter (in_window mb t (t + Hour)) (sent_log (sv_jobs sv)))) \<le> limit)
     \<and> (\<forall>e \<in> set (sent_log (sv_jobs sv)). snd (snd e) \<le> now)"

lemma windows_ok_later: "windows_ok mb limit now sv \<Longrightarrow> now \<le> now' \<Longrightarrow> windows_ok mb limit now' sv"
  by (force simp: windows_ok_def)

lemma windows_ok_submit:
  assumes ok: "windows_ok mb limit (se_now env) sv" and limit: "limited_to mb limit (QSubmit env input)" "0 < limit"
  shows "windows_ok mb limit (se_now env) (snd (Submit lib env input sv))"
proof -
  let ?log = "sent_log (sv_jobs sv)" and ?now = "se_now env" and ?entry = "(Some (si_MailboxID input), si_SenderAddr input, se_now env)"
  consider (same) "sent_log (sv_jobs (snd (Submit lib env input sv))) = ?log"
    | (more) k where "checkSendLimit env input (sv_jobs sv) = None" "k \<le> length (si_Recipients input)"
        "sent_log (sv_jobs (snd (Submit lib env input sv))) = ?log @ replicate k ?entry"
    using Submit_log [of lib env input sv] by blast
  then show ?thesis
  proof cases
    case same
    with ok show ?thesis by (simp add: windows_ok_def)
  next
    case more
    have "int (length (filter (in_window mb t (t + Hour)) (?log @ replicate k ?entry))) \<le> limit" for t
    proof (cases "in_window mb t (t + Hour) ?entry")
      case False
      with ok show ?thesis by (simp add: windows_ok_def)
    next
      case True
      then have mine: "si_MailboxID input = mb" "t \<le> ?now" "?now \<le> t + Hour" by (auto simp: in_window_def)
      with limit more(1) obtain n where n: "CountRecipientsSince (se_count_ok env) mb (?now - Hour) (sv_jobs sv) = Inr n"
        "int n + int (length (si_Recipients input)) \<le> limit"
        by (auto simp: checkSendLimit_def limited_to_def sendLimitWindow_def split: if_splits sum.splits)
      have "n = length (filter (in_window mb (?now - Hour) ?now) ?log)"
        using Count_log [OF n(1)] ok by (simp add: windows_ok_def)
      moreover have "length (filter (in_window mb t (t + Hour)) ?log) \<le> length (filter (in_window mb (?now - Hour) ?now) ?log)"
        using mine ok by (intro length_filter_conv_card [THEN ord_eq_le_trans]) 
          (auto simp: length_filter_conv_card windows_ok_def in_window_def intro!: card_mono)
      ultimately show ?thesis using n(2) more(2) True by simp
    qed
    with more(3) ok show ?thesis by (auto simp: windows_ok_def)
  qed
qed

lemma windows_ok_step:
  assumes "windows_ok mb limit now sv" "limited_to mb limit ev" "0 < limit" "\<And>u. event_time ev = Some u \<Longrightarrow> now \<le> u"
  shows "windows_ok mb limit (case event_time ev of None \<Rightarrow> now | Some u \<Rightarrow> u) (queue_step lib sv ev)"
proof (cases ev)
  case (QSubmit env input)
  with assms windows_ok_submit [OF windows_ok_later [OF assms(1)]] show ?thesis
    by (simp add: queue_step_def event_time_def)
qed (use assms in \<open>simp_all add: queue_step_def event_time_def windows_ok_def Fetch_log Update_log\<close>)

lemma windows_ok_run:
  assumes "windows_ok mb limit now sv" "\<forall>ev \<in> set evs. limited_to mb limit ev" "0 < limit"
    and "sorted (now # List.map_filter event_time evs)"
  shows "\<exists>now'. windows_ok mb limit now' (foldl (queue_step lib) sv evs)"
  using assms
proof (induction evs arbitrary: now sv)
  case (Cons ev evs)
  let ?now = "case event_time ev of None \<Rightarrow> now | Some u \<Rightarrow> u"
  have "windows_ok mb limit ?now (queue_step lib sv ev)"
    using Cons.prems by (intro windows_ok_step) (auto simp: map_filter_simps split: option.splits)
  moreover have "sorted (?now # List.map_filter event_time evs)"
    using Cons.prems(4) by (auto simp: map_filter_simps split: option.splits)
  ultimately show ?case using Cons.IH [of ?now "queue_step lib sv ev"] Cons.prems(2,3) by simp
qed auto

text \<open>
  C33. The send limit bounds what an account can queue: for any sequence of submissions (of any
  accounts, in order of time, with the workers fetching and updating jobs between them), no window
  of one hour holds more jobs of a mailbox than its hourly limit, also when an enqueue fails halfway through a
  message.
\<close>

theorem send_limit_per_hour:
  assumes "0 < limit" "\<forall>ev \<in> set evs. limited_to mb limit ev" "sorted (List.map_filter event_time evs)"
    and "jt_rows (sv_jobs sv) = []"
  shows "int (length (filter (in_window mb t (t + Hour)) (sent_log (sv_jobs (foldl (queue_step lib) sv evs))))) \<le> limit"
proof -
  define start where "start = (case List.map_filter event_time evs of [] \<Rightarrow> 0 | u # _ \<Rightarrow> u)"
  have "sorted (start # List.map_filter event_time evs)"
    using assms(3) by (auto simp: start_def split: list.splits)
  moreover have "windows_ok mb limit start sv" using assms(1,4) by (simp add: windows_ok_def sent_log_def)
  ultimately obtain now where "windows_ok mb limit now (foldl (queue_step lib) sv evs)"
    using windows_ok_run assms(1,2) by blast
  then show ?thesis by (simp add: windows_ok_def)
qed

text \<open>A small server for the witnesses: one mailbox, an empty queue and an empty disk.\<close>

definition demo_account :: mailbox_auth where
  "demo_account = \<lparr>ma_id = 7, ma_password_hash = ''h'', ma_email = ''u@d'', ma_domain = ''d'', ma_max_recipients = 2, ma_app_passwords = []\<rparr>"

definition demo_server :: server where
  "demo_server = \<lparr>sv_mail = \<lparr>folders = [], messages = [], mailboxes = [], blobs = [], outbox = [], next_uuid = 0\<rparr>,
     sv_accounts = [\<lparr>ac_auth = demo_account, ac_active = True, ac_domain_active = True\<rparr>], sv_domains = [], sv_aliases = [], sv_scripts = [],
     sv_disk = \<lparr>disk_files = Map.empty, disk_rows = [], disk_next = 0\<rparr>, sv_jobs = \<lparr>jt_rows = [], jt_next_id = 0\<rparr>, sv_vacation = [],
     sv_reports = \<lparr>rd_dmarc = [], rd_tlsrpt = []\<rparr>\<rparr>"

definition demo_submit_env :: "int \<Rightarrow> submit_env" where
  "demo_submit_env now = \<lparr>se_now = now, se_count_ok = True, se_signer = None, se_store = NoFault, se_enqueue_ok = (\<lambda>_. True),
     se_sentCopies = False, se_persist_ok = True\<rparr>"

definition demo_lib :: server_lib where
  "demo_lib = \<lparr>lib_sha256 = (\<lambda>s. s), lib_baseDir = ''b'',
     lib_mime = \<lparr>lib_DecodeHeader = Some, lib_ParseAddress = (\<lambda>_. None), lib_ParseMediaType = (\<lambda>_. None), lib_first_read = length\<rparr>\<rparr>"

definition demo_submit :: "string list \<Rightarrow> submit_input" where
  "demo_submit recipients = \<lparr>si_MailboxID = 7, si_SenderAddr = ''u@d'', si_DomainName = ''d'', si_Recipients = recipients,
     si_Body = Some ''m'', si_MaxRecipientsPerHour = 2, si_FileSentCopy = False\<rparr>"

lemmas demo_submit_defs = demo_server_def demo_submit_env_def demo_lib_def demo_submit_def Submit_def checkSendLimit_def
  CountRecipientsSince_def sign_body_def store_blob_def Store_def place_file_def add_blob_row_def Enqueue_def new_job_def sendLimitWindow_def

theorem send_limit_per_hour_witness:
  "let sv = foldl (queue_step demo_lib) demo_server
       [QSubmit (demo_submit_env 0) (demo_submit [''x@y'', ''z@y'']), QSubmit (demo_submit_env 5) (demo_submit [''x@y''])]
   in int (length (filter (in_window 7 0 (0 + Hour)) (sent_log (sv_jobs sv)))) \<le> 2 \<and> length (jt_rows (sv_jobs sv)) = 2"
proof -
  let ?evs = "[QSubmit (demo_submit_env 0) (demo_submit [''x@y'', ''z@y'']), QSubmit (demo_submit_env 5) (demo_submit [''x@y''])]"
  have "int (length (filter (in_window 7 0 (0 + Hour)) (sent_log (sv_jobs (foldl (queue_step demo_lib) demo_server ?evs))))) \<le> 2"
    by (rule send_limit_per_hour)
      (simp_all add: limited_to_def demo_submit_def event_time_def map_filter_simps demo_submit_env_def demo_server_def)
  moreover have "length (jt_rows (sv_jobs (foldl (queue_step demo_lib) demo_server ?evs))) = 2"
    by (simp add: queue_step_def demo_submit_defs Let_def Hour_def Minute_def Second_def)
  ultimately show ?thesis by (simp add: Let_def)
qed

section \<open>Nobody sends as somebody else\<close>

datatype sub_call =
    CallPlain string string string
  | CallLoginStart
  | CallLoginNext "string option"
  | CallMail string
  | CallRcpt string
  | CallData submit_env "string option"
  | CallReset
  | CallLogout

text \<open>A connection: its session, a LOGIN exchange under way, and whether MAIL was accepted since the last reset.\<close>

record sub_conn =
  cn_session :: submission_session
  cn_login :: "loginServer option"
  cn_mailed :: bool

definition new_conn :: sub_conn where
  "new_conn = \<lparr>cn_session = NewSession, cn_login = None, cn_mailed = False\<rparr>"

text \<open>A call comes with the server state it meets and whether that can be read: other sessions change it in between.\<close>

definition sub_step :: "argon2 \<Rightarrow> sub_conn \<Rightarrow> server \<times> bool \<times> sub_call \<Rightarrow> sub_conn" where
  "sub_step cmp c call =
     (case call of (sv, rd, op) \<Rightarrow>
        let s = cn_session c; check = (\<lambda>user password. session_authenticate cmp rd (sv_accounts sv) user password s)
        in case op of
             CallPlain identity user password \<Rightarrow> c\<lparr>cn_session := snd (check user password)\<rparr>
           | CallLoginStart \<Rightarrow> c\<lparr>cn_login := Some newLoginServer\<rparr>
           | CallLoginNext response \<Rightarrow>
               (case cn_login c of
                  None \<Rightarrow> c
                | Some l \<Rightarrow>
                    (case login_Next (\<lambda>user password. fst (check user password) = None) response l of
                       (LoginOk, l') \<Rightarrow> c\<lparr>cn_login := Some l', cn_session := snd (check (ls_username l) (case response of None \<Rightarrow> [] | Some r \<Rightarrow> r))\<rparr>
                     | (_, l') \<Rightarrow> c\<lparr>cn_login := Some l'\<rparr>))
           | CallMail from \<Rightarrow>
               (case session_Mail from s of (r, s') \<Rightarrow> c\<lparr>cn_session := s', cn_mailed := cn_mailed c \<or> r = None\<rparr>)
           | CallRcpt to' \<Rightarrow> c\<lparr>cn_session := snd (session_Rcpt to' s)\<rparr>
           | CallData env body \<Rightarrow> c
           | CallReset \<Rightarrow> c\<lparr>cn_session := session_Reset s, cn_mailed := False\<rparr>
           | CallLogout \<Rightarrow> c\<lparr>cn_session := session_Logout s\<rparr>)"

text \<open>
  The order of calls that SMTP prescribes to the library (RFC 5321, RFC 4954): no AUTH after a
  successful one, DATA only after an accepted MAIL, and nothing after the end of the session.
\<close>

definition call_allowed :: "sub_conn \<Rightarrow> sub_call \<Rightarrow> bool" where
  "call_allowed c op =
     (case op of
        CallPlain _ _ _ \<Rightarrow> ss_authenticated (cn_session c) = None
      | CallLoginStart \<Rightarrow> ss_authenticated (cn_session c) = None
      | CallLoginNext _ \<Rightarrow> ss_authenticated (cn_session c) = None
      | CallData _ _ \<Rightarrow> cn_mailed c
      | _ \<Rightarrow> True)"

fun orderly :: "argon2 \<Rightarrow> sub_conn \<Rightarrow> (server \<times> bool \<times> sub_call) list \<Rightarrow> bool" where
  "orderly cmp c [] = True"
| "orderly cmp c (call # calls) =
     (call_allowed c (snd (snd call)) \<and> (snd (snd call) = CallLogout \<longrightarrow> calls = []) \<and> orderly cmp (sub_step cmp c call) calls)"

text \<open>Credentials that were presented in a session, in one PLAIN message or in the two steps of LOGIN.\<close>

definition presented :: "(server \<times> bool \<times> sub_call) list \<Rightarrow> server \<Rightarrow> string \<Rightarrow> string \<Rightarrow> bool" where
  "presented calls sv user password \<longleftrightarrow>
     (\<exists>identity. (sv, True, CallPlain identity user password) \<in> set calls)
     \<or> (\<exists>sv1 rd1 p. (sv1, rd1, CallLoginNext (Some user)) \<in> set calls \<and> (sv, True, CallLoginNext p) \<in> set calls
           \<and> password = (case p of None \<Rightarrow> [] | Some r \<Rightarrow> r))"

definition entitled :: "argon2 \<Rightarrow> (server \<times> bool \<times> sub_call) list \<Rightarrow> mailbox_auth \<Rightarrow> bool" where
  "entitled cmp calls m \<longleftrightarrow>
     (\<exists>sv user password. presented calls sv user password \<and> FindByAddress (sv_accounts sv) user = Some m
        \<and> fst (verifyCredential cmp m password ScopeSMTP) = Inr True)"

definition conn_ok :: "argon2 \<Rightarrow> (server \<times> bool \<times> sub_call) list \<Rightarrow> sub_conn \<Rightarrow> bool" where
  "conn_ok cmp calls c \<longleftrightarrow>
     (cn_mailed c \<longrightarrow> (\<exists>m. ss_authenticated (cn_session c) = Some m \<and> EqualFold (TrimSpace (ss_from (cn_session c))) (ma_email m)))
     \<and> (\<forall>m. ss_authenticated (cn_session c) = Some m \<longrightarrow> entitled cmp calls m)
     \<and> (\<forall>l. cn_login c = Some l \<longrightarrow> ls_state l = AwaitingPassword \<longrightarrow>
           (\<exists>sv rd. (sv, rd, CallLoginNext (Some (ls_username l))) \<in> set calls))"

lemma entitled_more: "entitled cmp calls m \<Longrightarrow> entitled cmp (calls @ others) m"
  unfolding entitled_def presented_def by fastforce

lemma session_authenticate_ok:
  "session_authenticate cmp rd accounts user password s = (None, s') \<Longrightarrow>
   \<exists>m. rd \<and> FindByAddress accounts user = Some m \<and> fst (verifyCredential cmp m password ScopeSMTP) = Inr True
     \<and> s' = s\<lparr>ss_authenticated := Some m\<rparr>"
  by (auto simp: session_authenticate_def Authenticate_def split: sum.splits option.splits if_splits)

lemma session_authenticate_failed:
  "session_authenticate cmp rd accounts user password s = (Some e, s') \<Longrightarrow> s' = s"
  by (auto simp: session_authenticate_def split: sum.splits)

lemma conn_ok_more:
  assumes "conn_ok cmp h c"
  shows "conn_ok cmp (h @ [call]) c"
proof -
  have "\<exists>sv rd. (sv, rd, CallLoginNext (Some (ls_username l))) \<in> set (h @ [call])"
    if "cn_login c = Some l" "ls_state l = AwaitingPassword" for l
    using assms that unfolding conn_ok_def by (metis Un_iff set_append)
  with assms entitled_more show ?thesis unfolding conn_ok_def by blast
qed

lemma conn_ok_login:
  assumes ok: "conn_ok cmp h c" and no: "ss_authenticated (cn_session c) = None"
    and l: "cn_login c = Some l"
  shows "conn_ok cmp (h @ [(sv, rd, CallLoginNext response)]) (sub_step cmp c (sv, rd, CallLoginNext response))"
proof -
  let ?check = "\<lambda>user password. session_authenticate cmp rd (sv_accounts sv) user password (cn_session c)"
  let ?pw = "case response of None \<Rightarrow> [] | Some r \<Rightarrow> r"
  note ok' = conn_ok_more [OF ok, of "(sv, rd, CallLoginNext response)"]
  have unmailed: "\<not> cn_mailed c" using ok no by (auto simp: conn_ok_def)
  show ?thesis
  proof (cases "ls_state l")
    case AwaitingUsername
    with l no unmailed ok' show ?thesis
      by (cases response) (auto simp: sub_step_def login_Next_def conn_ok_def)
  next
    case AwaitingPassword
    show ?thesis
    proof (cases "fst (?check (ls_username l) ?pw) = None")
      case False
      with AwaitingPassword l no unmailed show ?thesis
        by (auto simp: sub_step_def login_Next_def conn_ok_def Let_def)
    next
      case True
      then obtain m s' where m: "?check (ls_username l) ?pw = (None, s')" "rd" "FindByAddress (sv_accounts sv) (ls_username l) = Some m"
        "fst (verifyCredential cmp m ?pw ScopeSMTP) = Inr True" "s' = (cn_session c)\<lparr>ss_authenticated := Some m\<rparr>"
        using session_authenticate_ok by (metis prod.collapse)
      from ok AwaitingPassword l obtain sv1 rd1 where first: "(sv1, rd1, CallLoginNext (Some (ls_username l))) \<in> set h"
        by (auto simp: conn_ok_def)
      have "presented (h @ [(sv, rd, CallLoginNext response)]) sv (ls_username l) ?pw"
        unfolding presented_def using first m(2) by (intro disjI2 exI [of _ sv1] exI [of _ rd1] exI [of _ response]) simp
      with m(3,4) have "entitled cmp (h @ [(sv, rd, CallLoginNext response)]) m" unfolding entitled_def by blast
      with True m AwaitingPassword l unmailed show ?thesis
        by (simp add: sub_step_def login_Next_def conn_ok_def Let_def)
    qed
  next
    case LoginDone
    with l no unmailed ok' show ?thesis by (auto simp: sub_step_def login_Next_def conn_ok_def Let_def)
  qed
qed

lemma conn_ok_plain:
  assumes ok: "conn_ok cmp h c" and no: "ss_authenticated (cn_session c) = None"
  shows "conn_ok cmp (h @ [(sv, rd, CallPlain identity user password)]) (sub_step cmp c (sv, rd, CallPlain identity user password))"
proof -
  let ?h = "h @ [(sv, rd, CallPlain identity user password)]"
  obtain e s' where a: "session_authenticate cmp rd (sv_accounts sv) user password (cn_session c) = (e, s')" by fastforce
  show ?thesis
  proof (cases e)
    case (Some x)
    with a have "s' = cn_session c" using session_authenticate_failed by blast
    with a conn_ok_more [OF ok] show ?thesis by (simp add: sub_step_def)
  next
    case None
    with a obtain m where m: "rd" "FindByAddress (sv_accounts sv) user = Some m" "fst (verifyCredential cmp m password ScopeSMTP) = Inr True"
      "s' = (cn_session c)\<lparr>ss_authenticated := Some m\<rparr>"
      using session_authenticate_ok by blast
    have "presented ?h sv user password" using m(1) by (auto simp: presented_def)
    with m have "entitled cmp ?h m" unfolding entitled_def by blast
    with a m no conn_ok_more [OF ok, of "(sv, rd, CallPlain identity user password)"] show ?thesis
      by (simp add: sub_step_def conn_ok_def)
  qed
qed

lemma conn_ok_step:
  assumes ok: "conn_ok cmp h c" and allowed: "call_allowed c (snd (snd call))" "snd (snd call) \<noteq> CallLogout"
  shows "conn_ok cmp (h @ [call]) (sub_step cmp c call)"
proof -
  obtain sv rd op where call: "call = (sv, rd, op)" by (cases call) auto
  note ok' = conn_ok_more [OF ok, of call]
  show ?thesis
  proof (cases op)
    case (CallPlain identity user password)
    with conn_ok_plain ok allowed(1) call show ?thesis by (simp add: call_allowed_def)
  next
    case (CallLoginNext response)
    then have no: "ss_authenticated (cn_session c) = None" using allowed(1) call by (simp add: call_allowed_def)
    show ?thesis
    proof (cases "cn_login c")
      case None
      with ok' CallLoginNext call show ?thesis by (simp add: sub_step_def)
    next
      case (Some l)
      with conn_ok_login [OF ok no Some] CallLoginNext call show ?thesis by simp
    qed
  next
    case (CallMail sender)
    with ok' call show ?thesis
      by (auto simp: sub_step_def session_Mail_def AuthorizeSender_def conn_ok_def Let_def split: option.splits if_splits)
  next
    case (CallRcpt recipient)
    with ok' call show ?thesis by (auto simp: sub_step_def session_Rcpt_def conn_ok_def Let_def)
  qed (use ok' call allowed in \<open>simp_all add: sub_step_def conn_ok_def newLoginServer_def session_Rcpt_def session_Reset_def Let_def\<close>)
qed

lemma conn_ok_run:
  assumes "conn_ok cmp h c" "orderly cmp c (calls @ [final])"
  shows "conn_ok cmp (h @ calls) (foldl (sub_step cmp) c calls) \<and> call_allowed (foldl (sub_step cmp) c calls) (snd (snd final))"
  using assms
proof (induction calls arbitrary: h c)
  case (Cons call calls)
  then have "conn_ok cmp (h @ [call]) (sub_step cmp c call)" by (intro conn_ok_step) auto
  with Cons.IH [of "h @ [call]" "sub_step cmp c call"] Cons.prems(2) show ?case by simp
qed simp

text \<open>
  C6. Nobody sends as somebody else: in any session that follows the order of SMTP, whatever the
  other sessions change meanwhile, every job that a DATA command adds to the queue belongs to a mailbox whose
  credentials for SMTP were presented earlier in the same session (by PLAIN or by LOGIN), and its
  envelope sender is that mailbox's own address, up to case and surrounding space.
\<close>

theorem submission_sends_as_owner:
  assumes "orderly cmp new_conn (calls @ [(sv, rd, CallData env body)])"
    and "e \<in> set (drop (length (sent_log (sv_jobs sv)))
          (sent_log (sv_jobs (snd (session_Data lib env body (cn_session (foldl (sub_step cmp) new_conn calls)) sv)))))"
  shows "\<exists>m. entitled cmp calls m \<and> fst e = Some (ma_id m) \<and> EqualFold (TrimSpace (fst (snd e))) (ma_email m)"
proof -
  let ?s = "cn_session (foldl (sub_step cmp) new_conn calls)"
  have "conn_ok cmp [] new_conn" by (simp add: conn_ok_def new_conn_def NewSession_def)
  from conn_ok_run [OF this assms(1)] obtain m where m: "ss_authenticated ?s = Some m" "entitled cmp calls m"
    "EqualFold (TrimSpace (ss_from ?s)) (ma_email m)"
    by (auto simp: conn_ok_def call_allowed_def)
  show ?thesis
  proof (cases "ss_recipients ?s = []")
    case True
    with assms(2) m(1) show ?thesis by (simp add: session_Data_def)
  next
    case False
    define input where "input = \<lparr>si_MailboxID = ma_id m, si_SenderAddr = ss_from ?s, si_DomainName = ma_domain m,
      si_Recipients = ss_recipients ?s, si_Body = body, si_MaxRecipientsPerHour = ma_max_recipients m, si_FileSentCopy = True\<rparr>"
    have "snd (session_Data lib env body ?s sv) = snd (Submit lib env input sv)"
      using False m(1) by (auto simp: session_Data_def input_def split: prod.splits option.splits)
    with assms(2) Submit_log [of lib env input sv] have "e = (Some (si_MailboxID input), si_SenderAddr input, se_now env)"
      by auto
    with m show ?thesis by (auto simp: input_def)
  qed
qed

theorem submission_sends_as_owner_witness:
  "let cmp = (\<lambda>pw h. Inr (pw = ''pw'')); calls = [(demo_server, True, CallLoginStart), (demo_server, True, CallLoginNext (Some ''u@d'')),
         (demo_server, True, CallLoginNext (Some ''pw'')), (demo_server, True, CallMail ''U@d''), (demo_server, True, CallRcpt ''x@y'')];
     log = sent_log (sv_jobs (snd (session_Data demo_lib (demo_submit_env 3) (Some ''m'') (cn_session (foldl (sub_step cmp) new_conn calls)) demo_server)))
   in log = [(Some 7, ''U@d'', 3)] \<and> (\<exists>m. entitled cmp calls m \<and> fst (log ! 0) = Some (ma_id m))"
proof -
  let ?cmp = "\<lambda>pw h. Inr (pw = ''pw'')"
  let ?calls = "[(demo_server, True, CallLoginStart), (demo_server, True, CallLoginNext (Some ''u@d'')),
         (demo_server, True, CallLoginNext (Some ''pw'')), (demo_server, True, CallMail ''U@d''), (demo_server, True, CallRcpt ''x@y'')]"
  let ?log = "sent_log (sv_jobs (snd (session_Data demo_lib (demo_submit_env 3) (Some ''m'') (cn_session (foldl (sub_step ?cmp) new_conn ?calls)) demo_server)))"
  have auth: "Authenticate ?cmp True (sv_accounts demo_server) ''u@d'' ''pw'' = Inr demo_account"
    by (simp add: Authenticate_def demo_server_def FindByAddress_def demo_account_def verifyCredential_def)
  have own: "AuthorizeSender (Some demo_account) ''U@d'' = None"
    by code_simp
  note steps = sub_step_def new_conn_def NewSession_def newLoginServer_def login_Next_def session_authenticate_def auth
    session_Mail_def own session_Rcpt_def call_allowed_def Let_def
  have order: "orderly ?cmp new_conn (?calls @ [(demo_server, True, CallData (demo_submit_env 3) (Some ''m''))])"
    by (simp add: steps)
  have "cn_session (foldl (sub_step ?cmp) new_conn ?calls) = \<lparr>ss_authenticated = Some demo_account, ss_from = ''U@d'', ss_recipients = [''x@y'']\<rparr>"
    by (simp add: steps)
  then have log: "?log = [(Some 7, ''U@d'', 3)]"
    by (simp add: session_Data_def demo_submit_defs demo_account_def sent_log_def sent_entry_def fileSentCopy_def Let_def)
  have "\<exists>m. entitled ?cmp ?calls m \<and> fst (?log ! 0) = Some (ma_id m) \<and> EqualFold (TrimSpace (fst (snd (?log ! 0)))) (ma_email m)"
  proof (rule submission_sends_as_owner [OF order, of _ demo_lib])
    have "sent_log (sv_jobs demo_server) = []" by (simp add: demo_server_def sent_log_def)
    then show "?log ! 0 \<in> set (drop (length (sent_log (sv_jobs demo_server))) ?log)" unfolding log by simp
  qed
  with log show ?thesis by (simp only: Let_def) blast
qed

end
