(* ===== verification/Inbound_Properties.thy ===== *)
theory Inbound_Properties
  imports Inbound Store_Properties
begin

text \<open>
  What port 25 guarantees: it accepts mail for local mailboxes only, a message is filed for every recipient or
  for none, the bytes that arrived are kept, and refused messages leave nothing behind.
\<close>

section \<open>Parts of a delivery\<close>

text \<open>What the mail store shows to its users.\<close>

definition mail_view :: "mail_db \<Rightarrow> message_row list \<times> folder_row list \<times> mailbox_row list \<times> outbox_row list" where
  "mail_view db = (messages db, folders db, mailboxes db, outbox db)"

lemma mail_view_add_blob [simp]: "mail_view (add_blob_row k db) = mail_view db"
  by (simp add: mail_view_def add_blob_row_def)

lemma store_blob_view:
  "store_blob sha256 baseDir fault content sv = (r, sv') \<Longrightarrow>
   mail_view (sv_mail sv') = mail_view (sv_mail sv) \<and> sv_jobs sv' = sv_jobs sv \<and> sv_vacation sv' = sv_vacation sv
   \<and> sv_scripts sv' = sv_scripts sv \<and> sv_accounts sv' = sv_accounts sv"
  by (auto simp: store_blob_def split: prod.splits sum.splits)

lemma Submit_view:
  "\<not> si_FileSentCopy input \<Longrightarrow> mail_view (sv_mail (snd (Submit lib env input sv))) = mail_view (sv_mail sv)"
  by (auto simp: Submit_def dest: store_blob_view split: option.splits prod.splits sum.splits)

lemma sendVacationReply_view: "mail_view (sv_mail (snd (sendVacationReply lib venv env reply sv))) = mail_view (sv_mail sv)"
proof (cases "FindByAddress (sv_accounts sv) (pv_From reply)")
  case (Some account)
  define input where "input = \<lparr>si_MailboxID = ma_id account, si_SenderAddr = ma_email account, si_DomainName = ma_domain account,
      si_Recipients = [pv_To reply],
      si_Body = Some (buildVacationMessage (ve_bEncode venv) (ve_decode venv) (re_date env) (re_uuid env) reply (ve_replyHost venv)),
      si_MaxRecipientsPerHour = ma_max_recipients account, si_FileSentCopy = False\<rparr>"
  have "snd (sendVacationReply lib venv env reply sv) = (if re_accounts_ok env then snd (Submit lib (re_submit env) input sv) else sv)"
    using Some by (simp add: sendVacationReply_def input_def split: prod.splits)
  with Submit_view [of input lib "re_submit env" sv] show ?thesis by (simp add: input_def)
qed (simp add: sendVacationReply_def)

lemma sendVacationReplies_view: "mail_view (sv_mail (sendVacationReplies lib venv i replies sv)) = mail_view (sv_mail sv)"
proof (induction replies arbitrary: i sv)
  case (Cons reply replies)
  have "mail_view (sv_mail sv') = mail_view (sv_mail sv)"
    if "sendVacationReply lib venv (ve_reply venv i) reply sv = (ok, sv')" for ok sv'
    using sendVacationReply_view [of lib venv "ve_reply venv i" reply sv] that by simp
  with Cons.IH show ?case by (auto simp: Let_def split: prod.splits bool.splits)
qed simp

text \<open>What is stored stays readable: nothing in a delivery takes a body away.\<close>

definition keeps_bodies :: "server \<Rightarrow> server \<Rightarrow> bool" where
  "keeps_bodies sv sv' \<longleftrightarrow> (\<forall>i c. ReadByID (sv_disk sv) i = Some c \<longrightarrow> ReadByID (sv_disk sv') i = Some c)"

lemma keeps_bodies_same [simp]: "sv_disk sv' = sv_disk sv \<Longrightarrow> keeps_bodies sv sv'"
  by (simp add: keeps_bodies_def)

lemma keeps_bodies_trans: "keeps_bodies sv sv1 \<Longrightarrow> keeps_bodies sv1 sv2 \<Longrightarrow> keeps_bodies sv sv2"
  by (simp add: keeps_bodies_def)

lemma store_blob_keeps: "store_blob sha256 baseDir fault content sv = (r, sv') \<Longrightarrow> keeps_bodies sv sv'"
proof -
  assume st: "store_blob sha256 baseDir fault content sv = (r, sv')"
  then have "sv_disk sv' = snd (Store sha256 baseDir fault content (sv_disk sv))"
    by (auto simp: store_blob_def split: prod.splits sum.splits)
  then show ?thesis
    using Store_keeps [of "sv_disk sv" _ _ sha256 baseDir fault content] by (simp add: keeps_bodies_def prod_eq_iff)
qed

lemma Submit_keeps: "keeps_bodies sv (snd (Submit lib env input sv))"
  by (auto simp: Submit_def keeps_bodies_def split: option.splits prod.splits sum.splits
      dest!: store_blob_keeps [unfolded keeps_bodies_def])

lemma sendVacationReply_keeps: "keeps_bodies sv (snd (sendVacationReply lib venv env reply sv))"
  using Submit_keeps [of sv lib "re_submit env"]
  by (auto simp: sendVacationReply_def split: option.splits prod.splits) (metis snd_conv)+

lemma sendVacationReplies_keeps: "keeps_bodies sv (sendVacationReplies lib venv i replies sv)"
proof (induction replies arbitrary: i sv)
  case (Cons reply replies)
  obtain ok sv1 where r: "sendVacationReply lib venv (ve_reply venv i) reply sv = (ok, sv1)" by fastforce
  then have sent: "keeps_bodies sv sv1"
    using sendVacationReply_keeps [of sv lib venv "ve_reply venv i" reply] by simp
  have rest: "keeps_bodies sv (sendVacationReplies lib venv (Suc i) replies sv2)" if "sv_disk sv2 = sv_disk sv1" for sv2
    using keeps_bodies_trans [OF sent keeps_bodies_trans [OF keeps_bodies_same [OF that] Cons.IH]] .
  show ?case
    by (cases ok) (simp_all add: r rest Let_def)
qed simp

lemma file_copies_keeps: "keeps_bodies sv (snd (file_copies lib env plan sv))"
  using sendVacationReplies_keeps [of sv lib "ie_vacation env" 0 "snd plan"]
    keeps_bodies_trans [OF keeps_bodies_same sendVacationReplies_keeps, of "sv\<lparr>sv_mail := db\<rparr>" sv lib "ie_vacation env" 0 "snd plan" for db]
  by (auto simp: file_copies_def split: prod.splits sum.splits)

lemma store_blob_read:
  assumes "good_hash sha256 C" "content \<in> C" "disk_inv sha256 C baseDir (sv_disk sv)"
    "store_blob sha256 baseDir fault content sv = (Inr blob, sv')"
  shows "ReadByID (sv_disk sv') (ref_ID blob) = Some content"
proof -
  have "Store sha256 baseDir fault content (sv_disk sv) = (Inr blob, sv_disk sv')"
    using assms(4) by (auto simp: store_blob_def split: prod.splits sum.splits)
  with Store_read assms(1-3) show ?thesis by blast
qed

lemma prependHeaders_suffix: "\<exists>added. prependHeaders content headers = added @ content"
  by (auto simp: prependHeaders_def)

lemma authenticate_step_suffix:
  assumes "authenticate_step env input body = Inr (authResult, content)" "ie_arcSealer env = None"
  shows "\<exists>added. content = added @ body"
  using assms prependHeaders_suffix [of body] by (auto simp: authenticate_step_def Let_def split: option.splits if_splits)

lemma scan_step_suffix:
  assumes "scan_step env input body = Inr (folder, content)"
  shows "\<exists>added. content = added @ body"
  using assms prependHeaders_suffix [of body]
  by (auto simp: scan_step_def split: option.splits if_splits sum.splits ScanVerdict.splits)

text \<open>The recipients whose rules do not discard the message, with their place in the list.\<close>

definition kept ::
  "inbound_env \<Rightarrow> inbound_input \<Rightarrow> server \<Rightarrow> string \<Rightarrow> nat \<Rightarrow> (MailboxRecord \<times> string) list \<Rightarrow> (nat \<times> MailboxRecord \<times> string) list" where
  "kept env input sv content i rs =
     filter (\<lambda>(i, r, a). \<not> Discard (decision_for env input sv content i r a)) (enumerate i rs)"

definition copy_of :: "inbound_input \<Rightarrow> string \<Rightarrow> nat \<Rightarrow> nat \<times> MailboxRecord \<times> string \<Rightarrow> message_row \<Rightarrow> bool" where
  "copy_of input content blobID k n \<longleftrightarrow>
     m_mailbox n = mr_ID (fst (snd k)) \<and> recipient_addresses (m_meta n) = [snd (snd k)] \<and> sender_address (m_meta n) = in_Sender input
     \<and> m_blob n = blobID \<and> m_size n = int (length content) \<and> \<not> m_expunged n"

definition planned :: "inbound_input \<Rightarrow> BlobRef \<Rightarrow> nat \<times> MailboxRecord \<times> string \<Rightarrow> persist_input \<Rightarrow> bool" where
  "planned input blob k p \<longleftrightarrow>
     pi_mailbox p = mr_ID (fst (snd k)) \<and> pi_recipient p = snd (snd k) \<and> pi_sender p = in_Sender input
     \<and> pi_blob p = ref_ID blob \<and> pi_blob_size p = ref_SizeBytes blob"

lemma plan_copies_kept:
  "list_all2 (planned input blob) (kept env input sv content i rs)
     (fst (plan_copies env input sv content folder (input_for input blob headers authResult isReport) i rs))"
proof (induction rs arbitrary: i)
  case (Cons r rs)
  obtain rec address where r: "r = (rec, address)" by fastforce
  from Cons [of "Suc i"] show ?case
    by (auto simp: r kept_def Let_def planned_def input_for_def split: prod.splits)
qed (simp add: kept_def)

lemma kept_scripts: "sv_scripts sv = sv_scripts sv' \<Longrightarrow> kept env input sv content i rs = kept env input sv' content i rs"
  unfolding kept_def decision_for_def by (erule ssubst) (rule refl)

lemma Store_size: "fst (Store sha256 baseDir fault content d) = Inr ref \<Longrightarrow> ref_SizeBytes ref = length content"
  by (auto simp: Store_def Let_def split: option.splits if_splits)

lemma store_blob_size: "store_blob sha256 baseDir fault content sv = (Inr ref, sv') \<Longrightarrow> ref_SizeBytes ref = length content"
  using Store_size [of sha256 baseDir fault content "sv_disk sv"]
  by (auto simp: store_blob_def split: prod.splits sum.splits)

text \<open>Filing the copies: all rows or none, and the replies only afterwards.\<close>

lemma file_copies_cases:
  assumes "file_copies lib env (inputs, replies) sv = (e, sv')"
  shows "case e of
      Some _ \<Rightarrow> sv' = sv
    | None \<Rightarrow> \<exists>ns. messages (sv_mail sv') = messages (sv_mail sv) @ ns \<and> list_all2 delivered inputs ns"
proof (cases "inputs = []")
  case True
  with assms show ?thesis
    using sendVacationReplies_view [of lib "ie_vacation env" 0 replies sv] by (auto simp: file_copies_def mail_view_def)
next
  case False
  obtain r db where p: "PersistAll (ie_persist_ok env) (ie_now env) inputs (sv_mail sv) = (r, db)" by fastforce
  show ?thesis
  proof (cases r)
    case (Inl x)
    then have "db = sv_mail sv" using p False by (auto simp: PersistAll_def split: if_splits prod.splits sum.splits)
    with Inl False p assms show ?thesis by (auto simp: file_copies_def)
  next
    case (Inr uids)
    then have "persist_loop (ie_now env) inputs [] (sv_mail sv) = (Inr uids, db)"
      using p False by (auto simp: PersistAll_def split: if_splits prod.splits sum.splits)
    from persist_loop_appends [OF this] obtain ns where
      ns: "messages db = messages (sv_mail sv) @ ns" "list_all2 delivered inputs ns" by blast
    with Inr False p assms sendVacationReplies_view [of lib "ie_vacation env" 0 replies "sv\<lparr>sv_mail := db\<rparr>"]
    show ?thesis by (auto simp: file_copies_def mail_view_def)
  qed
qed

lemma delivered_copies:
  assumes "list_all2 (planned input blob) ks inputs" "list_all2 delivered inputs ns" "ref_SizeBytes blob = length content"
  shows "list_all2 (copy_of input content (ref_ID blob)) ks ns"
proof -
  have "list_all2 (planned input blob OO delivered) ks ns"
    using assms(1,2) by (auto simp: list.rel_compp)
  then show ?thesis
    by (rule list_all2_mono) (use assms(3) in \<open>auto simp: planned_def delivered_def copy_of_def\<close>)
qed

section \<open>All or nothing\<close>

lemma Handle_steps:
  assumes "Handle lib env input sv = (None, sv')"
  obtains body authResult content1 folder content isReport reports blob sv2 where
    "in_Body input = Some body" "authenticate_step env input body = Inr (authResult, content1)"
    "scan_step env input content1 = Inr (folder, content)"
    "ingest_step env input content (sv_reports sv) = (isReport, reports)"
    "store_blob (lib_sha256 lib) (lib_baseDir lib) (ie_store env) content (sv\<lparr>sv_reports := reports\<rparr>) = (Inr blob, sv2)"
    "file_copies lib env (plan_copies env input sv2 content (if isReport then ReportsFolderName else folder)
        (input_for input blob (ExtractMessageHeaders (lib_mime lib) content) authResult isReport) 0
        (zip (in_Recipients input) (in_RecipientAddresses input))) sv2 = (None, sv')"
  using assms by (auto simp: Handle_def Let_def split: if_splits option.splits sum.splits prod.splits)

lemma Handle_failed:
  assumes "Handle lib env input sv = (Some e, sv')"
  shows "mail_view (sv_mail sv') = mail_view (sv_mail sv) \<and> sv_jobs sv' = sv_jobs sv \<and> sv_vacation sv' = sv_vacation sv"
proof -
  have filing: "sv' = sv2" if "file_copies lib env plan sv2 = (Some e, sv')" for plan sv2
    using file_copies_cases [of lib env "fst plan" "snd plan" sv2] that by simp
  have blob: "mail_view (sv_mail sv2) = mail_view (sv_mail sv) \<and> sv_jobs sv2 = sv_jobs sv \<and> sv_vacation sv2 = sv_vacation sv"
    if "store_blob (lib_sha256 lib) (lib_baseDir lib) (ie_store env) content (sv\<lparr>sv_reports := reports\<rparr>) = (r, sv2)"
    for content reports r sv2
    using store_blob_view [OF that] by simp
  show ?thesis
    using assms by (auto simp: Handle_def Let_def split: if_splits option.splits sum.splits prod.splits dest!: filing blob)
qed

text \<open>The message as it is stored: what arrived, with the headers that authentication and scanning put in front.\<close>

definition stored_content :: "inbound_env \<Rightarrow> inbound_input \<Rightarrow> string option" where
  "stored_content env input =
     (case in_Body input of
        None \<Rightarrow> None
      | Some body \<Rightarrow>
          (case authenticate_step env input body of
             Inl _ \<Rightarrow> None
           | Inr (_, content1) \<Rightarrow> (case scan_step env input content1 of Inl _ \<Rightarrow> None | Inr (_, content) \<Rightarrow> Some content)))"

text \<open>
  C7. A message that arrives is filed for every recipient or for none. When handling it fails, for whatever reason
  (a refusal by DMARC or a scanner, a failing disk or database), no message, folder or
  mailbox has changed and no reply is queued. When it succeeds there is exactly one new message for each recipient whose own
  rules do not discard it, in order, with the recipient's mailbox and envelope address, all
  sharing one stored body. Reading that body back gives, byte for byte, the message with the headers that authentication and
  scanning put in front; and unless an ARC sealer is configured it ends with the bytes
  that arrived, so that signatures over them stay valid. The hypotheses on the disk are the invariant of
  the storage and that no two stored contents have the same hash.
\<close>

theorem Handle_atomic:
  assumes "Handle lib env input sv = (e, sv')"
    and "good_hash (lib_sha256 lib) C" "disk_inv (lib_sha256 lib) C (lib_baseDir lib) (sv_disk sv)"
    and "set_option (stored_content env input) \<subseteq> C"
  shows "case e of
      Some _ \<Rightarrow> mail_view (sv_mail sv') = mail_view (sv_mail sv) \<and> sv_jobs sv' = sv_jobs sv \<and> sv_vacation sv' = sv_vacation sv
    | None \<Rightarrow> \<exists>body content blobID ns.
        in_Body input = Some body \<and> stored_content env input = Some content
        \<and> (ie_arcSealer env = None \<longrightarrow> (\<exists>added. content = added @ body))
        \<and> ReadByID (sv_disk sv') blobID = Some content
        \<and> messages (sv_mail sv') = messages (sv_mail sv) @ ns
        \<and> list_all2 (copy_of input content blobID) (kept env input sv content 0 (zip (in_Recipients input) (in_RecipientAddresses input))) ns"
proof (cases e)
  case (Some x)
  with Handle_failed assms(1) show ?thesis by simp
next
  case None
  with assms(1) have "Handle lib env input sv = (None, sv')" by simp
  then show ?thesis
  proof (cases rule: Handle_steps)
    case (1 body authResult content1 folder content isReport reports blob sv2)
    let ?rs = "zip (in_Recipients input) (in_RecipientAddresses input)"
    let ?plan = "plan_copies env input sv2 content (if isReport then ReportsFolderName else folder)
        (input_for input blob (ExtractMessageHeaders (lib_mime lib) content) authResult isReport) 0 ?rs"
    have view: "messages (sv_mail sv2) = messages (sv_mail sv)" "sv_scripts sv2 = sv_scripts sv"
      using store_blob_view [OF 1(5)] by (simp_all add: mail_view_def)
    obtain ns where ns: "messages (sv_mail sv') = messages (sv_mail sv) @ ns" "list_all2 delivered (fst ?plan) ns"
      using file_copies_cases [of lib env "fst ?plan" "snd ?plan" sv2 None sv'] 1(6) view(1) by auto
    have "list_all2 (copy_of input content (ref_ID blob)) (kept env input sv2 content 0 ?rs) ns"
      by (rule delivered_copies [OF plan_copies_kept ns(2) store_blob_size [OF 1(5)]])
    then have "list_all2 (copy_of input content (ref_ID blob)) (kept env input sv content 0 ?rs) ns"
      using kept_scripts [OF view(2)] by metis
    moreover have "\<exists>added. content = added @ body" if "ie_arcSealer env = None"
      using authenticate_step_suffix [OF 1(2) that] scan_step_suffix [OF 1(3)] by auto
    moreover have stored: "stored_content env input = Some content" using 1(1-3) by (simp add: stored_content_def)
    moreover have "ReadByID (sv_disk sv2) (ref_ID blob) = Some content"
      by (rule store_blob_read [OF assms(2) _ _ 1(5)]) (use assms(3,4) stored in auto)
    then have "ReadByID (sv_disk sv') (ref_ID blob) = Some content"
      using file_copies_keeps [of sv2 lib env ?plan] 1(6) by (simp add: keeps_bodies_def)
    ultimately show ?thesis using 1(1) ns(1) None by auto
  qed
qed

definition demo_mx_server :: server where
  "demo_mx_server = \<lparr>sv_mail = demo_db, sv_accounts = [], sv_domains = [], sv_aliases = [], sv_scripts = [],
     sv_disk = \<lparr>disk_files = Map.empty, disk_rows = [], disk_next = 3\<rparr>, sv_jobs = \<lparr>jt_rows = [], jt_next_id = 0\<rparr>, sv_vacation = [],
     sv_reports = \<lparr>rd_dmarc = [], rd_tlsrpt = []\<rparr>\<rparr>"

definition demo_mx_lib :: server_lib where
  "demo_mx_lib = \<lparr>lib_sha256 = (\<lambda>s. s), lib_baseDir = ''b'',
     lib_mime = \<lparr>lib_DecodeHeader = Some, lib_ParseAddress = (\<lambda>_. None), lib_ParseMediaType = (\<lambda>_. None), lib_first_read = length\<rparr>\<rparr>"

definition demo_vacation_env :: vacation_env where
  "demo_vacation_env = \<lparr>ve_configured = False, ve_replyHost = [], ve_bEncode = (\<lambda>s. s), ve_decode = Some, ve_suppression = None,
     ve_reply = (\<lambda>_. \<lparr>re_accounts_ok = True, re_date = [], re_uuid = [], re_submit = \<lparr>se_now = 0, se_count_ok = True, se_signer = None,
       se_store = NoFault, se_enqueue_ok = (\<lambda>_. True), se_sentCopies = False, se_persist_ok = True\<rparr>, re_log_ok = True\<rparr>)\<rparr>"

definition demo_scanner :: scanner where
  "demo_scanner input =
     Inr (Some (NewCleanScanResult\<lparr>sr_Verdict := (if HasSuffix (sc_Payload input) ''virus'' then ScanVerdictVirusReject else ScanVerdictClean),
       sr_HeadersToAdd := [(''X'', ''y'')]\<rparr>))"

definition demo_inbound_env :: inbound_env where
  "demo_inbound_env = \<lparr>ie_now = 5, ie_authenticator = None, ie_arcSealer = None, ie_scanner = Some (pipeline_Scan [None, Some demo_scanner]),
     ie_reports = None, ie_report_ok = (\<lambda>_. True), ie_store = NoFault, ie_rules = False, ie_script_ok = (\<lambda>_. True), ie_log_ok = (\<lambda>_. True),
     ie_persist_ok = True, ie_vacation = demo_vacation_env\<rparr>"

definition demo_inbound :: "string \<Rightarrow> inbound_input" where
  "demo_inbound body = \<lparr>in_Sender = ''a@x'', in_Recipients = [\<lparr>mr_ID = 0, mr_MaxMessageBytes = 9, mr_QuotaBytes = 9, mr_UsedBytes = 0\<rparr>],
     in_RecipientAddresses = [''u@y''], in_Body = Some body, in_ClientIP = None, in_HeloDomain = [], in_SystemGenerated = False\<rparr>"

definition demo_hash_lib :: server_lib where
  "demo_hash_lib = demo_mx_lib\<lparr>lib_sha256 := (\<lambda>_. replicate 32 (CHR 0x00))\<rparr>"

theorem Handle_atomic_witness:
  "messages (sv_mail (snd (Handle demo_hash_lib demo_inbound_env (demo_inbound ''virus'') demo_mx_server))) = messages demo_db
   \<and> (\<exists>n. messages (sv_mail (snd (Handle demo_hash_lib demo_inbound_env (demo_inbound ''hi'') demo_mx_server))) = messages demo_db @ [n]
         \<and> m_mailbox n = 0 \<and> recipient_addresses (m_meta n) = [''u@y'']
         \<and> ReadByID (sv_disk (snd (Handle demo_hash_lib demo_inbound_env (demo_inbound ''hi'') demo_mx_server))) (m_blob n)
             = Some (''X: y'' @ CRLF @ ''hi''))"
proof -
  let ?C = "{''X: y'' @ CRLF @ ''hi''}"
  have bad: "fst (Handle demo_hash_lib demo_inbound_env (demo_inbound ''virus'') demo_mx_server) = Some (Rejection (rejectVirus []))" by code_simp
  have good: "fst (Handle demo_hash_lib demo_inbound_env (demo_inbound ''hi'') demo_mx_server) = None" by code_simp
  have stored: "stored_content demo_inbound_env (demo_inbound ''virus'') = None"
    "stored_content demo_inbound_env (demo_inbound ''hi'') = Some (''X: y'' @ CRLF @ ''hi'')" by code_simp+
  have hash: "good_hash (lib_sha256 demo_hash_lib) ?C" by (simp add: good_hash_def demo_hash_lib_def)
  have disk: "disk_inv (lib_sha256 demo_hash_lib) ?C (lib_baseDir demo_hash_lib) (sv_disk demo_mx_server)"
    by (simp add: disk_inv_def demo_mx_server_def)
  have start: "sv_mail demo_mx_server = demo_db" by (simp add: demo_mx_server_def)
  from Handle_atomic [of demo_hash_lib demo_inbound_env "demo_inbound ''virus''" demo_mx_server, OF surjective_pairing hash disk] bad start stored
  have "messages (sv_mail (snd (Handle demo_hash_lib demo_inbound_env (demo_inbound ''virus'') demo_mx_server))) = messages demo_db"
    by (simp add: mail_view_def)
  moreover from Handle_atomic [of demo_hash_lib demo_inbound_env "demo_inbound ''hi''" demo_mx_server, OF surjective_pairing hash disk] good start stored
  have "\<exists>n. messages (sv_mail (snd (Handle demo_hash_lib demo_inbound_env (demo_inbound ''hi'') demo_mx_server))) = messages demo_db @ [n]
         \<and> m_mailbox n = 0 \<and> recipient_addresses (m_meta n) = [''u@y'']
         \<and> ReadByID (sv_disk (snd (Handle demo_hash_lib demo_inbound_env (demo_inbound ''hi'') demo_mx_server))) (m_blob n)
             = Some (''X: y'' @ CRLF @ ''hi'')"
    by (auto simp: kept_def demo_inbound_def decision_for_def demo_inbound_env_def no_outcome_def list_all2_Cons1 copy_of_def)
  ultimately show ?thesis by simp
qed

section \<open>Refused messages\<close>

text \<open>What a scanner answers that stops the pipeline.\<close>

definition refuses :: "ScanVerdict \<Rightarrow> bool" where
  "refuses v \<longleftrightarrow> v = ScanVerdictVirusReject \<or> v = ScanVerdictSpamReject \<or> v = ScanVerdictGreylist"

definition lets_through :: "ScanInput \<Rightarrow> scanner option \<Rightarrow> bool" where
  "lets_through input s \<longleftrightarrow>
     (case s of None \<Rightarrow> True | Some scan \<Rightarrow> (case scan input of Inl _ \<Rightarrow> False | Inr None \<Rightarrow> True | Inr (Some res) \<Rightarrow> \<not> refuses (sr_Verdict res)))"

lemma pipeline_loop_refused:
  assumes "list_all (lets_through input) before" "scan input = Inr (Some res)" "refuses (sr_Verdict res)"
  shows "pipeline_loop (before @ Some scan # after) input final = Inr res"
  using assms(1)
proof (induction before arbitrary: final)
  case (Cons s before)
  show ?case
  proof (cases s)
    case None
    with Cons show ?thesis by (simp add: lets_through_def)
  next
    case (Some f)
    with Cons show ?thesis by (auto simp: lets_through_def refuses_def split: sum.splits option.splits)
  qed
qed (use assms(2,3) in \<open>auto simp: refuses_def\<close>)

text \<open>
  C34. A message that a scanner refuses is never stored, and the peer hears what to do: if one of the
  scanners finds a virus or spam over the threshold or wants the message greylisted, and the scanners before it let the
  message through, then DATA leaves the whole server as it was and answers 554 (do not try again)
  for a virus and for spam and 451 (try again) for greylisting, whatever the scanners after it would say.
\<close>

theorem refused_never_stored:
  assumes "mx_recipients s \<noteq> []" "length (mx_recipients s) = length (mx_recipientAddresses s)"
    and "ie_scanner env = Some (pipeline_Scan (before @ Some scan # after))"
    and "authenticate_step env
        \<lparr>in_Sender = mx_from s, in_Recipients = mx_recipients s, in_RecipientAddresses = mx_recipientAddresses s, in_Body = Some body,
         in_ClientIP = clientIP, in_HeloDomain = helo, in_SystemGenerated = False\<rparr> body = Inr (authResult, content)"
    and "probe = \<lparr>sc_Sender = mx_from s, sc_Recipient = hd (mx_recipientAddresses s), sc_Payload = content\<rparr>"
    and "list_all (lets_through probe) before" "scan probe = Inr (Some res)" "refuses (sr_Verdict res)"
  shows "\<exists>reply. mx_Data lib env clientIP helo (Some body) s sv = (Some reply, sv)
    \<and> smtp_Code reply = (if sr_Verdict res = ScanVerdictGreylist then 451 else 554)"
proof -
  define input where "input = \<lparr>in_Sender = mx_from s, in_Recipients = mx_recipients s, in_RecipientAddresses = mx_recipientAddresses s,
    in_Body = Some body, in_ClientIP = clientIP, in_HeloDomain = helo, in_SystemGenerated = False\<rparr>"
  obtain a as where addresses: "mx_recipientAddresses s = a # as" using assms(1,2) by (cases "mx_recipientAddresses s") auto
  have "pipeline_Scan (before @ Some scan # after) probe = Inr (Some res)"
    using pipeline_loop_refused [of probe before scan res after NewCleanScanResult, OF assms(6-8)] by (simp add: pipeline_Scan_def)
  then have "scan_step env input content = Inl (Rejection
      (if sr_Verdict res = ScanVerdictVirusReject then rejectVirus (sr_VirusName res)
       else if sr_Verdict res = ScanVerdictSpamReject then rejectSpam else deferGreylisted))"
    using assms(3,5,8) addresses by (auto simp: scan_step_def input_def refuses_def)
  with assms(2,4) have "Handle lib env input sv = (Some (Rejection
      (if sr_Verdict res = ScanVerdictVirusReject then rejectVirus (sr_VirusName res)
       else if sr_Verdict res = ScanVerdictSpamReject then rejectSpam else deferGreylisted)), sv)"
    by (simp add: Handle_def input_def)
  with assms(1,8) show ?thesis
    by (auto simp: mx_Data_def input_def data_reply_def refuses_def rejectVirus_def rejectSpam_def deferGreylisted_def)
qed

theorem refused_never_stored_witness:
  "\<exists>reply. mx_Data demo_mx_lib demo_inbound_env None [] (Some ''virus'')
       \<lparr>mx_from = ''a@x'', mx_recipients = in_Recipients (demo_inbound []), mx_recipientAddresses = [''u@y'']\<rparr> demo_mx_server = (Some reply, demo_mx_server)
     \<and> smtp_Code reply = 554"
proof -
  let ?s = "\<lparr>mx_from = ''a@x'', mx_recipients = in_Recipients (demo_inbound []), mx_recipientAddresses = [''u@y'']\<rparr>"
  let ?res = "NewCleanScanResult\<lparr>sr_Verdict := ScanVerdictVirusReject, sr_HeadersToAdd := [(''X'', ''y'')]\<rparr>"
  let ?probe = "\<lparr>sc_Sender = ''a@x'', sc_Recipient = ''u@y'', sc_Payload = ''virus''\<rparr>"
  have found: "demo_scanner ?probe = Inr (Some ?res)" by code_simp
  have "\<exists>reply. mx_Data demo_mx_lib demo_inbound_env None [] (Some ''virus'') ?s demo_mx_server = (Some reply, demo_mx_server)
     \<and> smtp_Code reply = (if sr_Verdict ?res = ScanVerdictGreylist then 451 else 554)"
    by (rule refused_never_stored [where before = "[None]" and after = "[]" and scan = demo_scanner and content = "''virus''"
          and authResult = no_auth_result and probe = ?probe])
      (simp_all add: demo_inbound_def demo_inbound_env_def authenticate_step_def lets_through_def found refuses_def)
  then show ?thesis by simp
qed

section \<open>Not an open relay\<close>

text \<open>The calls of a session before DATA; each RCPT meets its own state of the server.\<close>

datatype mx_call = MxMail string | MxRcpt server bool string | MxReset

definition mx_step :: "mx_session \<Rightarrow> mx_call \<Rightarrow> mx_session" where
  "mx_step s call =
     (case call of MxMail from \<Rightarrow> mx_Mail from s | MxRcpt sv rd to' \<Rightarrow> snd (mx_Rcpt rd sv to' s) | MxReset \<Rightarrow> mx_Reset s)"

definition local_target :: "server \<Rightarrow> MailboxRecord \<Rightarrow> bool" where
  "local_target sv r \<longleftrightarrow>
     (\<exists>b \<in> set (mailboxes (sv_mail sv)). mb_active b \<and> mb_id b = mr_ID r \<and> used_bytes b < quota_bytes b)"

lemma FindActiveByAddress_local:
  "FindActiveByAddress sv address = Some r \<Longrightarrow> mr_UsedBytes r < mr_QuotaBytes r \<Longrightarrow> local_target sv r"
  by (auto simp: FindActiveByAddress_def local_target_def dest!: find_SomeD)

lemma ResolveRecipient_local:
  assumes "ResolveRecipient rd sv address = Inr targets"
  shows "rd \<and> targets \<noteq> [] \<and> list_all (local_target sv) targets"
proof -
  have targets: "ResolveDeliveryTargets rd sv address = Inr targets" "targets \<noteq> []"
    "list_all (\<lambda>t. mr_UsedBytes t < mr_QuotaBytes t) targets"
    using assms by (auto simp: ResolveRecipient_def list_all_iff list_ex_iff not_le split: sum.splits if_splits)
  then have "rd" "r \<in> set targets \<Longrightarrow> \<exists>a. FindActiveByAddress sv a = Some r" for r
    by (auto simp: ResolveDeliveryTargets_def List.map_filter_def split: if_splits option.splits)
  with targets show ?thesis by (auto simp: list_all_iff intro: FindActiveByAddress_local)
qed

definition mx_ok :: "mx_call list \<Rightarrow> mx_session \<Rightarrow> bool" where
  "mx_ok calls s \<longleftrightarrow>
     list_all2 (\<lambda>r a. \<exists>sv. MxRcpt sv True a \<in> set calls \<and> local_target sv r) (mx_recipients s) (mx_recipientAddresses s)"

lemma mx_ok_step:
  assumes "mx_ok calls s"
  shows "mx_ok (calls @ [call]) (mx_step s call)"
proof -
  have old: "mx_ok (calls @ [call]) s"
    using assms unfolding mx_ok_def by (rule list_all2_mono) auto
  show ?thesis
  proof (cases call)
    case (MxRcpt sv rd to')
    show ?thesis
    proof (cases "to' \<in> set (mx_recipientAddresses s)")
      case True
      with old MxRcpt show ?thesis by (simp add: mx_step_def mx_Rcpt_def)
    next
      case False
      show ?thesis
      proof (cases "ResolveRecipient rd sv to'")
        case (Inl e)
        with old MxRcpt show ?thesis by (simp add: mx_step_def mx_Rcpt_def)
      next
        case (Inr targets)
        then have "rd" "list_all (local_target sv) targets" using ResolveRecipient_local by blast+
        then have "list_all2 (\<lambda>r a. \<exists>sv. MxRcpt sv True a \<in> set (calls @ [call]) \<and> local_target sv r) targets (map (\<lambda>_. to') targets)"
          using MxRcpt by (auto simp: list_all2_conv_all_nth list_all_length)
        with old Inr False MxRcpt show ?thesis
          by (simp add: mx_step_def mx_Rcpt_def mx_ok_def list_all2_appendI)
      qed
    qed
  qed (use old in \<open>simp_all add: mx_step_def mx_Mail_def mx_Reset_def mx_ok_def\<close>)
qed

lemma mx_ok_run: "mx_ok calls (foldl mx_step mx_new calls)"
proof (induction calls rule: rev_induct)
  case (snoc call calls)
  then show ?case using mx_ok_step by simp
qed (simp add: mx_ok_def mx_new_def)

text \<open>
  The session of port 25 is well formed and no open relay: whatever commands a peer sends, the recipients and
  their envelope addresses stay in step (so handling a message never fails on them), and every
  recipient is an active mailbox of this server that had room when its RCPT was answered, for an address that
  was given in a RCPT of this session.
\<close>

lemma mx_session_local:
  "let s = foldl mx_step mx_new calls
   in list_all2 (\<lambda>r a. \<exists>sv. MxRcpt sv True a \<in> set calls
           \<and> (\<exists>b \<in> set (mailboxes (sv_mail sv)). mb_active b \<and> mb_id b = mr_ID r \<and> used_bytes b < quota_bytes b))
        (mx_recipients s) (mx_recipientAddresses s)
      \<and> fst (Handle lib env \<lparr>in_Sender = mx_from s, in_Recipients = mx_recipients s, in_RecipientAddresses = mx_recipientAddresses s,
             in_Body = body, in_ClientIP = clientIP, in_HeloDomain = helo, in_SystemGenerated = False\<rparr> sv) \<noteq> Some ErrMismatch"
proof -
  let ?s = "foldl mx_step mx_new calls"
  have ok: "list_all2 (\<lambda>r a. \<exists>sv. MxRcpt sv True a \<in> set calls \<and> local_target sv r) (mx_recipients ?s) (mx_recipientAddresses ?s)"
    using mx_ok_run [of calls] by (simp add: mx_ok_def)
  have no: "authenticate_step env input content \<noteq> Inl ErrMismatch" "scan_step env input content \<noteq> Inl ErrMismatch" for input content
    by (auto simp: authenticate_step_def scan_step_def Let_def split: option.splits if_splits sum.splits ScanVerdict.splits)
  have "fst (file_copies lib env plan sv') \<noteq> Some ErrMismatch" for plan sv'
    by (auto simp: file_copies_def split: prod.splits sum.splits)
  then have "fst (Handle lib env \<lparr>in_Sender = mx_from ?s, in_Recipients = mx_recipients ?s, in_RecipientAddresses = mx_recipientAddresses ?s,
             in_Body = body, in_ClientIP = clientIP, in_HeloDomain = helo, in_SystemGenerated = False\<rparr> sv) \<noteq> Some ErrMismatch"
    using list_all2_lengthD [OF ok] no
    by (auto simp: Handle_def Let_def split: option.splits sum.splits prod.splits)
  with ok show ?thesis by (simp add: Let_def local_target_def)
qed

end
