(* ===== verification/Outbound_Delivery_Properties.thy ===== *)
theory Outbound_Delivery_Properties
  imports Outbound_Delivery TLS_Policy_Properties
begin

text \<open>
  No downgrade: what a destination demands of the channel (DANE or MTA-STS) is what every byte of its
  mail travels over, and the credentials of a relay only travel over a verified channel.
\<close>

section \<open>The channel of a delivery\<close>

lemma StartTLS_handshake: "client_StartTLS sha256 cfg peer = Inr ch \<Longrightarrow> tls_handshake sha256 cfg peer = Inr ch"
  by (auto simp: client_StartTLS_def split: option.splits sum.splits)

lemma mx_channel_StartTLS:
  assumes "mx_channel sha256 peer mxHost policy = Inr ch" "RequiresValidation policy"
  shows "tls_handshake sha256 (tlsConfigFor mxHost policy) peer = Inr ch"
  using assms by (auto simp: mx_channel_def intro: StartTLS_handshake split: if_splits sum.splits)

lemma mx_channel_dane:
  assumes "mx_channel sha256 peer mxHost policy = Inr ch" "RequiresValidation policy" "daneAvailable policy"
  shows "ch = DaneVerified \<and> MatchesCertificate sha256 policy (p_chain peer)"
  using mx_channel_StartTLS [OF assms(1,2)] assms(2,3)
  by (auto simp: tls_handshake_def tlsConfigFor_def Effective_def Let_def split: if_splits)

lemma mx_channel_pkix:
  assumes "mx_channel sha256 peer mxHost policy = Inr ch" "RequiresValidation policy" "\<not> daneAvailable policy"
  shows "ch = PkixVerified \<and> p_pkix peer None (TrimSuffix mxHost ''.'')"
proof -
  have "Effective policy \<noteq> TLSModeDane"
    using assms(3) by (simp add: Effective_def TLSModeDane_def TLSModeMtaSts_def TLSModeOpportunistic_def)
  with mx_channel_StartTLS [OF assms(1,2)] assms(2) show ?thesis
    by (auto simp: tls_handshake_def tlsConfigFor_def Let_def split: if_splits)
qed

lemma deliverToMX_channel:
  assumes "deliverToMX sha256 localHost peer mxHost from to' payload policy = (e, items)" "(ch, item) \<in> set items"
  shows "mx_channel sha256 peer mxHost policy = Inr ch"
  using assms by (auto simp: deliverToMX_def split: prod.splits option.splits sum.splits)

text \<open>What the policy of a try says of everything the try sends.\<close>

definition channel_ok :: "(string \<Rightarrow> string) \<Rightarrow> tls_policy \<Rightarrow> smtp_peer \<Rightarrow> string \<Rightarrow> channel \<Rightarrow> bool" where
  "channel_ok sha256 policy peer mxHost ch \<longleftrightarrow>
     (RequiresValidation policy \<longrightarrow>
        CoversHost policy mxHost \<and>
        (if daneAvailable policy then ch = DaneVerified \<and> MatchesCertificate sha256 policy (p_chain peer)
         else ch = PkixVerified \<and> p_pkix peer None (TrimSuffix mxHost ''.'')))"

lemma try_mx_sent:
  assumes "try_mx sha256 localHost resolver env domain mxHost from to' payload cache = (r, items, cache')"
    and "(ch, item) \<in> set items"
  obtains policy where "fst (resolvePolicy resolver env domain mxHost cache) = Inr policy"
    "channel_ok sha256 policy (me_peer env) mxHost ch"
proof -
  obtain policy where p: "fst (resolvePolicy resolver env domain mxHost cache) = Inr policy"
    "\<not> (RequiresValidation policy \<and> \<not> CoversHost policy mxHost)"
    "snd (deliverToMX sha256 localHost (me_peer env) mxHost from to' payload policy) = items"
    using assms by (auto simp: try_mx_def split: prod.splits sum.splits if_splits option.splits)
  then have "mx_channel sha256 (me_peer env) mxHost policy = Inr ch"
    using deliverToMX_channel assms(2) by (metis prod.collapse)
  with p(2) have "channel_ok sha256 policy (me_peer env) mxHost ch"
    unfolding channel_ok_def using mx_channel_dane mx_channel_pkix by metis
  with p(1) that show thesis by blast
qed

lemma try_mx_cache: "snd (snd (try_mx sha256 localHost resolver env domain mxHost from to' payload cache))
    = snd (resolvePolicy resolver env domain mxHost cache)"
  by (auto simp: try_mx_def split: prod.splits sum.splits option.splits)

text \<open>An entry of the policy cache that holds for the whole loop answers every try.\<close>

definition cache_has :: "policy_cache \<Rightarrow> string \<Rightarrow> cachedPolicy option \<Rightarrow> bool" where
  "cache_has cache domain e \<longleftrightarrow> (case e of None \<Rightarrow> True | Some e' \<Rightarrow> cache (policy_key domain) = Some e')"

lemma mx_loop_sent:
  assumes "s \<in> set (fst (snd (mx_loop sha256 localHost resolver env domain from to' payload i hosts lastErr cache)))"
    and "cache_has cache domain e" "\<And>j x. e = Some x \<Longrightarrow> me_now (env j) \<le> cp_expiresAt x"
  shows "\<exists>policy cache1. cache_has cache1 domain e
      \<and> fst (resolvePolicy resolver (env (s_try s)) domain (s_host s) cache1) = Inr policy
      \<and> channel_ok sha256 policy (me_peer (env (s_try s))) (s_host s) (s_channel s)"
  using assms
proof (induction hosts arbitrary: i lastErr cache)
  case (Cons mxHost hosts)
  obtain r items cache' where t: "try_mx sha256 localHost resolver (env i) domain mxHost from to' payload cache = (r, items, cache')"
    by (metis prod.exhaust)
  let ?log = "map (\<lambda>(ch, item). \<lparr>s_try = i, s_host = mxHost, s_channel = ch, s_item = item\<rparr>) items"
  let ?rest = "\<lambda>x. set (fst (snd (mx_loop sha256 localHost resolver env domain from to' payload (Suc i) hosts (Some x) cache')))"
  have "s \<in> set ?log \<or> (\<exists>x. s \<in> ?rest x)"
    using Cons.prems(1) t by (cases r) (auto simp: Let_def case_prod_beta)
  then show ?case
  proof
    assume "s \<in> set ?log"
    then obtain ch item where s: "s = \<lparr>s_try = i, s_host = mxHost, s_channel = ch, s_item = item\<rparr>" "(ch, item) \<in> set items"
      by auto
    obtain policy where "fst (resolvePolicy resolver (env i) domain mxHost cache) = Inr policy"
      "channel_ok sha256 policy (me_peer (env i)) mxHost ch"
      using t s(2) by (rule try_mx_sent)
    with s(1) Cons.prems(2) show ?thesis by auto
  next
    assume "\<exists>x. s \<in> ?rest x"
    then obtain x where x: "s \<in> ?rest x" by blast
    have "cache' = snd (resolvePolicy resolver (env i) domain mxHost cache)"
      using try_mx_cache [of sha256 localHost resolver "env i" domain mxHost "from" to' payload cache] t by simp
    then have "cache_has cache' domain e"
      using Cons.prems(2,3) Resolve_keeps [of cache "policy_key domain" _ "me_now (env i)"]
      by (auto simp: cache_has_def resolvePolicy_def split: option.splits)
    with Cons.IH [OF x] Cons.prems(3) show ?thesis by blast
  qed
qed simp

section \<open>Destinations with DANE\<close>

text \<open>
  The records of an answer the program can use: DANE-EE only (usage 3), and of the length SHA-256 has
  when the matching type is SHA-256. \<open>rr_record\<close> is such a record as the program keeps it.
\<close>

definition dane_usable :: "tlsa_rr \<Rightarrow> bool" where
  "dane_usable rr \<longleftrightarrow> rr_Usage rr = 3 \<and> (rr_MatchingType rr = 1 \<longrightarrow> length (rr_Certificate rr) = 64)"

definition usable_answers :: "tlsa_reply \<Rightarrow> tlsa_rr set" where
  "usable_answers reply = {rr. Some rr \<in> set (reply_Answer reply) \<and> dane_usable rr}"

definition rr_record :: "tlsa_rr \<Rightarrow> TLSARecord" where
  "rr_record rr = \<lparr>tlsa_usage = 3, tlsa_selector = rr_Selector rr, tlsa_matchingType = rr_MatchingType rr,
     tlsa_data = ToLower (rr_Certificate rr)\<rparr>"

lemma tlsa_answer_usable: "tlsa_answer (Some rr) = (if dane_usable rr then [rr_record rr] else [])"
  by (simp add: tlsa_answer_def NewTLSARecord_def dane_usable_def rr_record_def)

lemma tlsa_answers_usable: "set (concat (map tlsa_answer (reply_Answer reply))) = rr_record ` usable_answers reply"
proof -
  have "(\<exists>answer \<in> set (reply_Answer reply). r \<in> set (tlsa_answer answer)) \<longleftrightarrow> r \<in> rr_record ` usable_answers reply" for r
  proof
    assume "\<exists>answer \<in> set (reply_Answer reply). r \<in> set (tlsa_answer answer)"
    then obtain answer where answer: "answer \<in> set (reply_Answer reply)" "r \<in> set (tlsa_answer answer)" by blast
    then obtain rr where "answer = Some rr" by (cases answer) (auto simp: tlsa_answer_def)
    with answer show "r \<in> rr_record ` usable_answers reply"
      by (auto simp: tlsa_answer_usable usable_answers_def split: if_splits)
  next
    assume "r \<in> rr_record ` usable_answers reply"
    then obtain rr where "Some rr \<in> set (reply_Answer reply)" "dane_usable rr" "r = rr_record rr"
      by (auto simp: usable_answers_def)
    then show "\<exists>answer \<in> set (reply_Answer reply). r \<in> set (tlsa_answer answer)"
      by (intro bexI [of _ "Some rr"]) (simp_all add: tlsa_answer_usable)
  qed
  then show ?thesis by auto
qed

text \<open>A lookup succeeds only on an answered question, and its records are the usable ones of the answer.\<close>

lemma LookupTLSA_Inr:
  assumes "LookupTLSA query host port = Inr (records, authenticated)"
  obtains reply where "query (tlsa_name host port) = Some reply" "authenticated = reply_AuthenticatedData reply"
    "reply_Rcode reply = RcodeSuccess \<and> set records = rr_record ` usable_answers reply
     \<or> reply_Rcode reply = RcodeNameError \<and> records = []"
proof -
  from assms obtain reply where reply: "query (tlsa_name host port) = Some reply"
    by (auto simp: LookupTLSA_def split: option.splits)
  from assms have "authenticated = reply_AuthenticatedData reply
      \<and> (reply_Rcode reply = RcodeSuccess \<and> records = concat (map tlsa_answer (reply_Answer reply))
         \<or> reply_Rcode reply = RcodeNameError \<and> records = [])"
    using reply by (auto simp: LookupTLSA_def split: rcode.splits)
  with that reply tlsa_answers_usable [of reply] show ?thesis by blast
qed

text \<open>
  C9. DANE is never downgraded for an exchanger that publishes a record the program supports. With DANE
  enabled in the resolver, nothing at all is sent to a mail exchanger unless the TLSA question of its
  port 25 was answered at the time of the try, with success or with the statement that there is no such
  name. When the answer holds a DANE-EE record (usage 3; for SHA-256 with 64 hexadecimal digits),
  whatever the try sends (envelope, message, anything) goes over a TLS connection whose leaf certificate
  matches one of those published records, and the answer was DNSSEC-validated: records that are not
  validated let nothing through. This holds whatever the peer answers, whether or not it offers STARTTLS,
  and whatever the tries before it met. An exchanger that publishes records of usage 0 to 2 only, or
  malformed ones only, is treated as one without DANE.
\<close>

theorem dane_no_downgrade:
  assumes "daneEnabled cfg"
    and "s \<in> set (fst (snd (mx_loop sha256 localHost (Some cfg) env domain from to' payload 0 hosts None cache)))"
  shows "\<exists>reply. net_query (me_net (env (s_try s))) (tlsa_name (s_host s) 25) = Some reply
    \<and> reply_Rcode reply \<in> {RcodeSuccess, RcodeNameError}
    \<and> (reply_Rcode reply = RcodeSuccess \<and> usable_answers reply \<noteq> {} \<longrightarrow>
         reply_AuthenticatedData reply \<and> s_channel s = DaneVerified
         \<and> (\<exists>rr \<in> usable_answers reply. p_chain (me_peer (env (s_try s))) \<noteq> []
              \<and> digestFor sha256 (hd (p_chain (me_peer (env (s_try s))))) (rr_record rr) = ToLower (rr_Certificate rr)))"
proof -
  obtain policy cache1 where p: "fst (resolvePolicy (Some cfg) (env (s_try s)) domain (s_host s) cache1) = Inr policy"
    "channel_ok sha256 policy (me_peer (env (s_try s))) (s_host s) (s_channel s)"
    using mx_loop_sent [OF assms(2), of None] by (auto simp: cache_has_def)
  from p(1) assms(1) obtain records authenticated where
    look: "LookupTLSA (net_query (me_net (env (s_try s)))) (s_host s) 25 = Inr (records, authenticated)"
    by (cases "LookupTLSA (net_query (me_net (env (s_try s)))) (s_host s) 25") (auto simp: resolvePolicy_def Resolve_def)
  then obtain reply where reply: "net_query (me_net (env (s_try s))) (tlsa_name (s_host s) 25) = Some reply"
    "authenticated = reply_AuthenticatedData reply"
    "reply_Rcode reply = RcodeSuccess \<and> set records = rr_record ` usable_answers reply
     \<or> reply_Rcode reply = RcodeNameError \<and> records = []"
    by (rule LookupTLSA_Inr)
  have dane: "authenticated \<and> s_channel s = DaneVerified
      \<and> (\<exists>r \<in> set records. p_chain (me_peer (env (s_try s))) \<noteq> []
           \<and> digestFor sha256 (hd (p_chain (me_peer (env (s_try s))))) r = ToLower (tlsa_data r))" if "set records \<noteq> {}"
  proof -
    from that have "records \<noteq> []" by simp
    with p(1) assms(1) look have "authenticated" "policy = NewDanePolicy records"
      by (auto simp: resolvePolicy_def Resolve_def Let_def split: if_splits)
    with p(2) show ?thesis
      by (auto simp: channel_ok_def NewDanePolicy_def RequiresValidation_def MatchesCertificate_def list_ex_iff)
  qed
  have lower: "ToLower (tlsa_data (rr_record rr)) = ToLower (rr_Certificate rr)" for rr
    by (simp add: rr_record_def)
  have "authenticated \<and> s_channel s = DaneVerified
      \<and> (\<exists>rr \<in> usable_answers reply. p_chain (me_peer (env (s_try s))) \<noteq> []
           \<and> digestFor sha256 (hd (p_chain (me_peer (env (s_try s))))) (rr_record rr) = ToLower (rr_Certificate rr))"
    if "reply_Rcode reply = RcodeSuccess" "usable_answers reply \<noteq> {}"
  proof -
    from that reply(3) have records: "set records = rr_record ` usable_answers reply" by simp
    with that(2) have "set records \<noteq> {}" by simp
    from dane [OF this] show ?thesis unfolding records bex_simps(7) lower .
  qed
  with reply show ?thesis by blast
qed

definition demo_peer :: smtp_peer where
  "demo_peer = \<lparr>p_connects = True, p_greeting = Reply 220, p_ehlo = Reply 250, p_helo = Broken, p_starttls_listed = True,
     p_starttls = Reply 220, p_handshake = True, p_chain = [\<lparr>cert_Raw = ''k'', cert_RawSubjectPublicKeyInfo = ''k''\<rparr>],
     p_pkix = (\<lambda>_ name. name = ''m''), p_tls_ehlo = Reply 250, p_auth = Reply 235, p_mail = Reply 250, p_rcpt = Reply 251, p_data = Reply 354,
     p_write = True, p_end = Reply 250, p_quit = Reply 221\<rparr>"

definition demo_env :: "tlsa_rr list \<Rightarrow> mx_env" where
  "demo_env records = \<lparr>me_peer = demo_peer, me_net = \<lparr>net_query = (\<lambda>_. Some \<lparr>reply_Rcode = RcodeSuccess, reply_Answer = map Some records, reply_AuthenticatedData = True\<rparr>), net_policy_body = (\<lambda>_. None)\<rparr>, me_now = 5\<rparr>"

definition demo_tlsa :: tlsa_rr where
  "demo_tlsa = \<lparr>rr_Usage = 3, rr_Selector = 1, rr_MatchingType = 0, rr_Certificate = ''6b''\<rparr>"

lemmas demo_defs = LookupTLSA_def tlsa_answer_def NewTLSARecord_def demo_peer_def demo_env_def demo_tlsa_def try_mx_def resolvePolicy_def Resolve_def
  NewDanePolicy_def RequiresValidation_def CoversHost_def deliverToMX_def connect_steps_def read_response_def code_expected_def
  client_hello_def validateLine_def ContainsAny_def offers_starttls_def mx_channel_def client_StartTLS_def tls_handshake_def
  tlsConfigFor_def Effective_def TLSModeDane_def TLSModeMtaSts_def TLSModeOpportunistic_def MatchesCertificate_def digestFor_def transaction_def

theorem dane_no_downgrade_witness:
  "let s = \<lparr>s_try = 0, s_host = ''m'', s_channel = DaneVerified, s_item = WirePayload ''hi''\<rparr>
   in s \<in> set (fst (snd (mx_loop (\<lambda>x. x) ''h'' (Some \<lparr>daneEnabled = True, mtaStsEnabled = True\<rparr>) (\<lambda>_. demo_env [demo_tlsa]) ''d'' ''a'' ''b'' ''hi'' 0 [''m''] None Map.empty)))
      \<and> digestFor (\<lambda>x. x) (hd (p_chain demo_peer)) (rr_record demo_tlsa) = ''6b''"
proof -
  let ?s = "\<lparr>s_try = 0, s_host = ''m'', s_channel = DaneVerified, s_item = WirePayload ''hi''\<rparr>"
  let ?cfg = "\<lparr>daneEnabled = True, mtaStsEnabled = True\<rparr>"
  have hex: "hex_EncodeToString ''k'' = ''6b''" by code_simp
  have lower: "ToLower ''6b'' = ''6b''" by (simp add: ToLower_def ToLowerChar_def)
  have sent: "?s \<in> set (fst (snd (mx_loop (\<lambda>x. x) ''h'' (Some ?cfg) (\<lambda>_. demo_env [demo_tlsa]) ''d'' ''a'' ''b'' ''hi'' 0 [''m''] None Map.empty)))"
    by (simp add: demo_defs Let_def lower hex)
  let ?reply = "\<lparr>reply_Rcode = RcodeSuccess, reply_Answer = [Some demo_tlsa], reply_AuthenticatedData = True\<rparr>"
  have usable: "usable_answers ?reply = {demo_tlsa}" by (auto simp: usable_answers_def dane_usable_def demo_tlsa_def)
  have "\<exists>rr \<in> usable_answers ?reply. p_chain demo_peer \<noteq> []
      \<and> digestFor (\<lambda>x. x) (hd (p_chain demo_peer)) (rr_record rr) = ToLower (rr_Certificate rr)"
    using dane_no_downgrade [OF _ sent] usable by (auto simp: demo_env_def)
  then have "digestFor (\<lambda>x. x) (hd (p_chain demo_peer)) (rr_record demo_tlsa) = ''6b''"
    using usable lower by (simp add: demo_tlsa_def)
  with sent show ?thesis by simp
qed

section \<open>Destinations with MTA-STS\<close>

text \<open>
  C31. MTA-STS in enforce mode is never downgraded: while the resolver holds an enforcing policy of the
  destination that has not expired, everything a try sends to an exchanger for which the lookup finds no usable TLSA record
  goes to a host that one of the policy's patterns names, over TLS with a certificate that is
  valid for that host in the public trust store. A peer that stops offering STARTTLS, or shows
  another certificate, gets nothing.
\<close>

theorem mta_sts_no_downgrade:
  assumes "mtaStsEnabled cfg" "cache (policy_key domain) = Some e" "\<not> cp_absent e"
    and "cp_policy e = entity_NewMtaStsPolicy patterns True" "\<forall>j. me_now (env j) \<le> cp_expiresAt e"
    and "s \<in> set (fst (snd (mx_loop sha256 localHost (Some cfg) env domain from to' payload 0 hosts None cache)))"
    and "daneEnabled cfg \<longrightarrow> LookupTLSA (net_query (me_net (env (s_try s)))) (s_host s) 25 = Inr ([], authenticated)"
  shows "(\<exists>pattern \<in> set patterns. matchMxPattern pattern (s_host s))
    \<and> s_channel s = PkixVerified \<and> p_pkix (me_peer (env (s_try s))) None (TrimSuffix (s_host s) ''.'')"
proof -
  have "cache_has cache domain (Some e)" using assms(2) by (simp add: cache_has_def)
  then obtain policy cache1 where p: "cache1 (policy_key domain) = Some e"
    "fst (resolvePolicy (Some cfg) (env (s_try s)) domain (s_host s) cache1) = Inr policy"
    "channel_ok sha256 policy (me_peer (env (s_try s))) (s_host s) (s_channel s)"
    using mx_loop_sent [OF assms(6), of "Some e"] assms(5) by (auto simp: cache_has_def)
  have "mtaStsPolicy (me_net (env (s_try s))) (me_now (env (s_try s))) domain cache1 = ((cp_policy e, True), cache1)"
    using p(1) assms(3) assms(5) [rule_format, of "s_try s"] by (simp add: mtaStsPolicy_def policy_cached_def policy_key_def Let_def)
  with p(2) assms(1,7) have "policy = cp_policy e"
    by (auto simp: resolvePolicy_def Resolve_def Let_def split: if_splits)
  with p(3) assms(4) show ?thesis
    by (auto simp: channel_ok_def entity_NewMtaStsPolicy_def RequiresValidation_def CoversHost_def list_ex_iff)
qed

definition demo_sts_cache :: policy_cache where
  "demo_sts_cache = [''d'' \<mapsto> \<lparr>cp_policy = entity_NewMtaStsPolicy [''m''] True, cp_expiresAt = 9, cp_absent = False\<rparr>]"

theorem mta_sts_no_downgrade_witness:
  "let s = \<lparr>s_try = 0, s_host = ''m'', s_channel = PkixVerified, s_item = WirePayload ''hi''\<rparr>
   in s \<in> set (fst (snd (mx_loop (\<lambda>x. x) ''h'' (Some \<lparr>daneEnabled = True, mtaStsEnabled = True\<rparr>) (\<lambda>_. demo_env []) ''d'' ''a'' ''b'' ''hi'' 0 [''m''] None demo_sts_cache)))
      \<and> (\<exists>pattern \<in> set [''m'']. matchMxPattern pattern ''m'')"
proof -
  let ?s = "\<lparr>s_try = 0, s_host = ''m'', s_channel = PkixVerified, s_item = WirePayload ''hi''\<rparr>"
  let ?cfg = "\<lparr>daneEnabled = True, mtaStsEnabled = True\<rparr>"
  have str: "TrimSuffix ''m'' ''.'' = ''m''" "TrimSuffix ''d'' ''.'' = ''d''" "ToLower ''m'' = ''m''" "ToLower ''d'' = ''d''"
    "\<not> HasPrefix ''m'' ''*.''"
    by code_simp+
  have key: "demo_sts_cache (policy_key ''d'') = Some \<lparr>cp_policy = entity_NewMtaStsPolicy [''m''] True, cp_expiresAt = 9, cp_absent = False\<rparr>"
    by (simp add: demo_sts_cache_def policy_key_def str)
  have sent: "?s \<in> set (fst (snd (mx_loop (\<lambda>x. x) ''h'' (Some ?cfg) (\<lambda>_. demo_env []) ''d'' ''a'' ''b'' ''hi'' 0 [''m''] None demo_sts_cache)))"
    using key by (simp add: demo_defs Let_def str mtaStsPolicy_def policy_cached_def policy_key_def entity_NewMtaStsPolicy_def matchMxPattern_def)
  have "(\<exists>pattern \<in> set [''m'']. matchMxPattern pattern (s_host ?s)) \<and> s_channel ?s = PkixVerified
      \<and> p_pkix (me_peer (demo_env [])) None (TrimSuffix (s_host ?s) ''.'')"
    by (rule mta_sts_no_downgrade [OF _ key _ _ _ sent, where authenticated = True]) (simp_all add: demo_env_def LookupTLSA_def)
  with sent show ?thesis by simp
qed

section \<open>Credentials of a relay\<close>

lemma relay_channel_verified:
  assumes "relay_channel sha256 relay peer = Inr ch" "relay_Username relay \<noteq> [] \<or> offers_starttls peer"
  shows "ch = PkixVerified \<and> p_pkix peer (relay_RootCAs relay) (relay_Host relay)"
  using assms
  by (auto simp: relay_channel_def relayTLSConfig_def tls_handshake_def dest!: StartTLS_handshake split: if_splits)

text \<open>
  C32. With credentials configured, nothing reaches a relay in the clear: whatever the peer answers, everything
  that is sent to it (the credentials, the envelope and the message) goes over TLS with a certificate that is valid for the
  relay's name in the trust store configured for it. In particular a peer in the relay's place that does not
  offer STARTTLS learns neither the password nor the mail.
\<close>

theorem relay_never_in_clear:
  assumes "relay_Username relay \<noteq> []"
    and "(ch, item) \<in> set (snd (deliverViaRelay sha256 localHost relay peer from to' payload))"
  shows "ch = PkixVerified \<and> p_pkix peer (relay_RootCAs relay) (relay_Host relay)"
proof -
  have "relay_channel sha256 relay peer = Inr ch"
    using assms(2) by (auto simp: deliverViaRelay_def Let_def split: prod.splits option.splits sum.splits)
  with relay_channel_verified assms(1) show ?thesis by blast
qed

theorem relay_never_in_clear_witness:
  "let relay = \<lparr>relay_Host = ''m'', relay_Port = 0, relay_Username = ''u'', relay_Password = ''p'', relay_SpfMechanism = [], relay_RootCAs = None\<rparr>
   in (PkixVerified, WireCredentials ''u'' ''p'') \<in> set (snd (deliverViaRelay (\<lambda>x. x) ''h'' relay demo_peer ''a'' ''b'' ''hi''))
      \<and> p_pkix demo_peer None ''m''"
proof -
  let ?relay = "\<lparr>relay_Host = ''m'', relay_Port = 0, relay_Username = ''u'', relay_Password = ''p'', relay_SpfMechanism = [], relay_RootCAs = None\<rparr>"
  have sent: "(PkixVerified, WireCredentials ''u'' ''p'') \<in> set (snd (deliverViaRelay (\<lambda>x. x) ''h'' ?relay demo_peer ''a'' ''b'' ''hi''))"
    by (simp add: deliverViaRelay_def relay_channel_def relayTLSConfig_def authFor_def client_Auth_def demo_defs)
  have "PkixVerified = PkixVerified \<and> p_pkix demo_peer (relay_RootCAs ?relay) (relay_Host ?relay)"
    by (rule relay_never_in_clear [OF _ sent]) simp
  with sent show ?thesis by (simp add: Let_def)
qed

end
