(* ===== verification/Outbound_Worker_Properties.thy ===== *)
theory Outbound_Worker_Properties
  imports Outbound_Worker Sieve_Properties Submission_Properties Inbound_Properties Outbound_Delivery_Properties
begin

text \<open>
  What the queue guarantees: an attempt ends delivered, bounced or deferred, and delivered only when somebody accepted the message; every job ends:
  it is tried a bounded number of times within its five days and then bounced, whatever interleaving
  of workers, crashes, submissions and arriving mail happens.
\<close>

section \<open>Jobs that are added\<close>

abbreviation row_id :: "job_row \<Rightarrow> nat" where "row_id r \<equiv> job_id (jr_job r)"

definition fresh_row :: "job_row \<Rightarrow> bool" where
  "fresh_row r \<longleftrightarrow> Status (jr_job r) = Queued \<and> Attempt (jr_job r) = 0
     \<and> NextAttemptAt (jr_job r) = CreatedAt (jr_job r) \<and> ExpiresAt (jr_job r) = Some (CreatedAt (jr_job r) + deliveryWindow)"

text \<open>A table with new jobs behind the old ones, numbered from where the old table stopped.\<close>

definition extends :: "job_table \<Rightarrow> job_table \<Rightarrow> bool" where
  "extends t t' \<longleftrightarrow>
     (\<exists>new. jt_rows t' = jt_rows t @ new \<and> jt_next_id t \<le> jt_next_id t' \<and> distinct (map row_id new)
        \<and> (\<forall>r \<in> set new. fresh_row r \<and> jt_next_id t \<le> row_id r \<and> row_id r < jt_next_id t'))"

lemma extends_refl [simp]: "extends t t"
  by (auto simp: extends_def)

lemma extends_trans: "extends t u \<Longrightarrow> extends u v \<Longrightarrow> extends t v"
  unfolding extends_def
proof (elim exE conjE)
  fix new1 new2
  assume "jt_rows u = jt_rows t @ new1" "jt_next_id t \<le> jt_next_id u" "distinct (map row_id new1)"
    "\<forall>r \<in> set new1. fresh_row r \<and> jt_next_id t \<le> row_id r \<and> row_id r < jt_next_id u"
    "jt_rows v = jt_rows u @ new2" "jt_next_id u \<le> jt_next_id v" "distinct (map row_id new2)"
    "\<forall>r \<in> set new2. fresh_row r \<and> jt_next_id u \<le> row_id r \<and> row_id r < jt_next_id v"
  then show "\<exists>new. jt_rows v = jt_rows t @ new \<and> jt_next_id t \<le> jt_next_id v \<and> distinct (map row_id new)
      \<and> (\<forall>r \<in> set new. fresh_row r \<and> jt_next_id t \<le> row_id r \<and> row_id r < jt_next_id v)"
    by (intro exI [of _ "new1 @ new2"]) force
qed

lemma Enqueue_extends: "extends t (snd (Enqueue ok now (new_job now input blob recipient) t))"
  by (auto simp: Enqueue_def new_job_def extends_def fresh_row_def Let_def)

lemma enqueue_loop_extends: "extends t (snd (enqueue_loop ok now input blob i recipients t))"
proof (induction recipients arbitrary: i t)
  case (Cons recipient recipients)
  have "extends t t'" if "Enqueue (ok i) now (new_job now input blob recipient) t = (r, t')" for r t'
    using Enqueue_extends [of t "ok i" now input blob recipient] that by simp
  with Cons.IH extends_trans show ?case by (auto split: prod.splits sum.splits)
qed simp

lemma Submit_extends: "extends (sv_jobs sv) (sv_jobs (snd (Submit lib env input sv)))"
proof -
  have loop: "extends t t'" if "enqueue_loop ok now input blob 0 rs t = (e, t')" for ok now input blob rs t e t'
    using enqueue_loop_extends [of t ok now input blob 0 rs] that by simp
  show ?thesis
    by (auto simp: Submit_def dest!: store_blob_jobs split: option.splits prod.splits sum.splits intro: loop)
qed

lemma sendVacationReply_extends: "extends (sv_jobs sv) (sv_jobs (snd (sendVacationReply lib venv env reply sv)))"
proof (cases "FindByAddress (sv_accounts sv) (pv_From reply)")
  case (Some account)
  define input where "input = \<lparr>si_MailboxID = ma_id account, si_SenderAddr = ma_email account, si_DomainName = ma_domain account,
      si_Recipients = [pv_To reply],
      si_Body = Some (buildVacationMessage (ve_bEncode venv) (ve_decode venv) (re_date env) (re_uuid env) reply (ve_replyHost venv)),
      si_MaxRecipientsPerHour = ma_max_recipients account, si_FileSentCopy = False\<rparr>"
  have "snd (sendVacationReply lib venv env reply sv) = (if re_accounts_ok env then snd (Submit lib (re_submit env) input sv) else sv)"
    using Some by (simp add: sendVacationReply_def input_def split: prod.splits)
  with Submit_extends show ?thesis by simp
qed (simp add: sendVacationReply_def)

lemma sendVacationReplies_extends: "extends (sv_jobs sv) (sv_jobs (sendVacationReplies lib venv i replies sv))"
proof (induction replies arbitrary: i sv)
  case (Cons reply replies)
  have "extends (sv_jobs sv) (sv_jobs sv')" if "sendVacationReply lib venv (ve_reply venv i) reply sv = (ok, sv')" for ok sv'
    using sendVacationReply_extends [of sv lib venv "ve_reply venv i" reply] that by simp
  moreover have "extends (sv_jobs sv) (sv_jobs (sendVacationReplies lib venv j replies sv'))"
    if "extends (sv_jobs sv) (sv_jobs sv')" for j and sv' :: server
    using extends_trans [OF that Cons.IH] .
  moreover have "extends (sv_jobs sv) (sv_jobs (sendVacationReplies lib venv j replies (sv'\<lparr>sv_vacation := x\<rparr>)))"
    if "extends (sv_jobs sv) (sv_jobs sv')" for j x and sv' :: server
    using extends_trans [OF _ Cons.IH, of "sv_jobs sv" "sv'\<lparr>sv_vacation := x\<rparr>"] that by simp
  ultimately show ?case by (auto simp: Let_def split: prod.splits bool.splits)
qed simp

lemma Handle_extends: "extends (sv_jobs sv) (sv_jobs (snd (Handle lib env input sv)))"
proof -
  have filing: "extends (sv_jobs sv1) (sv_jobs (snd (file_copies lib env plan sv1)))" for plan sv1
    using sendVacationReplies_extends [of sv1] sendVacationReplies_extends [of "sv1\<lparr>sv_mail := db\<rparr>" for db]
    by (auto simp: file_copies_def split: prod.splits sum.splits)
  have "extends (sv_jobs sv) (sv_jobs (snd (file_copies lib env plan sv1)))"
    if "store_blob sha256 baseDir fault content (sv\<lparr>sv_reports := reports\<rparr>) = (r, sv1)" for sha256 baseDir fault content reports r sv1 plan
    using filing [of sv1 plan] store_blob_jobs [OF that] by simp
  then show ?thesis
    by (auto simp: Handle_def Let_def split: option.splits sum.splits prod.splits dest: store_blob_jobs)
qed

lemma sendDsn_extends: "extends (sv_jobs sv) (sv_jobs (sendDsn cfg env action job reason sv))"
  using Handle_extends by (auto simp: sendDsn_def split: option.splits sum.splits)

section \<open>What processing does to a job\<close>

lemma dialogue_done: "dialogue steps = (None, items) \<Longrightarrow> list_all (\<lambda>st. snd st = None) steps \<and> items = concat (map fst steps)"
  by (induction steps arbitrary: items) (auto split: option.splits prod.splits)

lemma dialogue_append_done: "dialogue (steps @ more_steps) = (None, items) \<Longrightarrow> \<exists>items'. dialogue more_steps = (None, items') \<and> set items' \<subseteq> set items"
  by (induction steps arbitrary: items) (auto split: option.splits prod.splits, blast)

lemma transaction_accepted:
  assumes "dialogue (transaction peer sender recipient content) = (None, items)"
  shows "WirePayload content \<in> set items \<and> p_end peer = Reply 250"
  using dialogue_done [OF assms]
  by (auto simp: transaction_def read_response_def code_expected_def split: reply.splits if_splits)

lemma deliverToMX_accepted:
  assumes "deliverToMX sha256 localHost peer mxHost sender recipient content policy = (None, items)"
  shows "WirePayload content \<in> snd ` set items \<and> p_end peer = Reply 250"
  using assms transaction_accepted [of peer sender recipient content]
  by (auto simp: deliverToMX_def image_image split: prod.splits option.splits sum.splits)

lemma deliverViaRelay_accepted:
  assumes "deliverViaRelay sha256 localHost relay peer sender recipient content = (None, items)"
  shows "WirePayload content \<in> snd ` set items \<and> p_end peer = Reply 250"
proof -
  obtain ch where ch: "relay_channel sha256 relay peer = Inr ch"
    using assms by (auto simp: deliverViaRelay_def split: prod.splits option.splits sum.splits)
  define login where "login = (case authFor relay (relay_Host relay) of None \<Rightarrow> [] | Some auth \<Rightarrow> client_Auth ch (relay_Host relay) peer auth)"
  obtain its where its: "dialogue (login @ transaction peer sender recipient content) = (None, its)" "items = map (Pair ch) its"
    using assms ch by (auto simp: deliverViaRelay_def login_def Let_def split: prod.splits option.splits)
  from dialogue_append_done [OF its(1)] obtain its' where
    "dialogue (transaction peer sender recipient content) = (None, its')" "set its' \<subseteq> set its" by blast
  with transaction_accepted its(2) show ?thesis by (fastforce simp: image_image)
qed

lemma mx_loop_accepted:
  assumes "mx_loop sha256 localHost resolver env domain sender recipient content i hosts lastErr cache = (Inr used, trace, cache')"
  shows "\<exists>s \<in> set trace. s_item s = WirePayload content \<and> p_end (me_peer (env (s_try s))) = Reply 250"
  using assms
proof (induction hosts arbitrary: i lastErr cache trace)
  case (Cons mxHost hosts)
  obtain r items cache1 where t: "try_mx sha256 localHost resolver (env i) domain mxHost sender recipient content cache = (r, items, cache1)"
    by (metis prod.exhaust)
  show ?case
  proof (cases r)
    case (Inl e)
    with Cons.prems t obtain rest where
      "mx_loop sha256 localHost resolver env domain sender recipient content (Suc i) hosts (Some e) cache1 = (Inr used, rest, cache')" "set rest \<subseteq> set trace"
      by (auto simp: Let_def split: prod.splits)
    with Cons.IH show ?thesis by blast
  next
    case (Inr p)
    with t obtain policy where "deliverToMX sha256 localHost (me_peer (env i)) mxHost sender recipient content policy = (None, items)"
      by (auto simp: try_mx_def split: prod.splits sum.splits if_splits option.splits)
    from deliverToMX_accepted [OF this] Inr Cons.prems t show ?thesis by (force simp: Let_def)
  qed
qed simp

text \<open>Somebody has the message: it was filed for local recipients, or a peer took it with 250.\<close>

definition accepted :: "worker_config \<Rightarrow> worker_env \<Rightarrow> outbound_job \<Rightarrow> server \<Rightarrow> sent list \<Rightarrow> bool" where
  "accepted cfg env job sv trace \<longleftrightarrow>
     (\<exists>content. ReadByID (sv_disk sv) (BlobID job) = Some content
        \<and> (fst (deliverLocally cfg env job content sv) = (True, None)
           \<or> (\<exists>s \<in> set trace. s_item s = WirePayload content
                \<and> p_end (if Configured (wc_relay cfg) then we_relay_peer env else me_peer (we_try env (s_try s))) = Reply 250)))"

definition outcome_of :: "worker_env \<Rightarrow> outbound_job \<Rightarrow> outbound_job \<Rightarrow> bool" where
  "outcome_of env job job' \<longleftrightarrow>
     job_id job' = job_id job \<and> CreatedAt job' = CreatedAt job \<and> ExpiresAt job' = ExpiresAt job \<and> Attempt job' = Attempt job + 1
     \<and> (Status job' = Delivered \<or> Status job' = Bounced
        \<or> Status job' = Deferred \<and> (\<exists>dsn. CalculateNextBackoff (we_factor env) (we_now env) (Attempt job + 1) (ExpiresAt job)
              = (NextAttemptAt job', dsn, False)))"

text \<open>The job is past its expiry, or its next attempt would be.\<close>

definition expired :: "worker_env \<Rightarrow> outbound_job \<Rightarrow> bool" where
  "expired env job \<longleftrightarrow> snd (snd (CalculateNextBackoff (we_factor env) (we_now env) (Attempt job + 1) (ExpiresAt job)))"

text \<open>\<open>job\<close> is the copy of \<open>job0\<close> that an attempt works on.\<close>

definition attempt_copy :: "outbound_job \<Rightarrow> outbound_job \<Rightarrow> bool" where
  "attempt_copy job0 job \<longleftrightarrow> Attempt job = Attempt job0 + 1 \<and> job_id job = job_id job0
     \<and> CreatedAt job = CreatedAt job0 \<and> ExpiresAt job = ExpiresAt job0"

lemma failed_job_outcome:
  assumes "failed_job env job errStr isPermanent = (job', act)" "attempt_copy job0 job"
  shows "outcome_of env job0 job' \<and> Status job' \<noteq> Delivered \<and> (Status job' = Bounced \<longrightarrow> isPermanent \<or> expired env job0)"
  using assms by (auto simp: failed_job_def outcome_of_def expired_def attempt_copy_def Let_def split: prod.splits if_splits)

text \<open>A job of the table is replaced once; before and after that jobs may be added.\<close>

definition worked :: "worker_env \<Rightarrow> outbound_job \<Rightarrow> job_table \<Rightarrow> job_table \<Rightarrow> bool" where
  "worked env job' t t' \<longleftrightarrow> (\<exists>t1. extends t t1 \<and> extends (UpdateJob (we_update_ok env) job' t1) t')"

lemma worked_later: "extends t t1 \<Longrightarrow> worked env job' t1 t' \<Longrightarrow> worked env job' t t'"
  unfolding worked_def using extends_trans by blast

lemma update_job_worked: "worked env job' (sv_jobs sv) (sv_jobs (update_job env job' sv))"
  by (auto simp: worked_def update_job_def intro: exI [of _ "sv_jobs sv"])

lemma handleFailure_worked:
  assumes "attempt_copy job0 job"
  shows "\<exists>job'. worked env job' (sv_jobs sv) (sv_jobs (handleFailure cfg env job errStr isPermanent sv))
    \<and> outcome_of env job0 job' \<and> Status job' \<noteq> Delivered \<and> (Status job' = Bounced \<longrightarrow> isPermanent \<or> expired env job0)"
proof -
  obtain job' act where f: "failed_job env job errStr isPermanent = (job', act)" by fastforce
  have "worked env job' (sv_jobs sv) (sv_jobs (handleFailure cfg env job errStr isPermanent sv))"
  proof (cases act)
    case None
    with f update_job_worked show ?thesis by (simp add: handleFailure_def)
  next
    case (Some a)
    show ?thesis
    proof (cases a)
      case DsnActionFailed
      have "extends (UpdateJob (we_update_ok env) job' (sv_jobs sv)) (sv_jobs (sendDsn cfg env a job' errStr (update_job env job' sv)))"
        using sendDsn_extends [of "update_job env job' sv" cfg env a job' errStr] by (simp add: update_job_def)
      with f Some DsnActionFailed show ?thesis
        by (simp add: handleFailure_def worked_def exI [of _ "sv_jobs sv"])
    next
      case DsnActionDelayed
      with f Some worked_later [OF sendDsn_extends update_job_worked] show ?thesis by (simp add: handleFailure_def)
    qed
  qed
  with failed_job_outcome [OF f assms] show ?thesis by blast
qed

lemma finishFailed_worked:
  assumes "attempt_copy job0 job"
  shows "\<exists>job'. worked env job' (sv_jobs sv) (sv_jobs (finishFailed cfg env job lastErr sv))
    \<and> outcome_of env job0 job' \<and> Status job' \<noteq> Delivered
    \<and> (Status job' = Bounced \<longrightarrow> (\<exists>code. 500 \<le> code \<and> code < 600 \<and> lastErr = Some (ReplyError code)) \<or> expired env job0)"
proof -
  let ?code = "smtpReplyCode lastErr"
  let ?job1 = "if ?code > 0 then job\<lparr>LastSmtpCode := ItoaNat ?code\<rparr> else job"
  have copies: "attempt_copy job0 ?job1" "attempt_copy job0 (?job1\<lparr>LastSmtpCode := c, TlsPolicyUsed := u\<rparr>)" for c u
    using assms by (simp_all add: attempt_copy_def)
  have code: "lastErr = Some (ReplyError ?code)" if "500 \<le> ?code"
    using that by (cases lastErr; cases "the lastErr") (auto simp: smtpReplyCode_def)
  show ?thesis
  proof (cases "lastErr = Some DowngradeRefused")
    case True
    then show ?thesis
      using handleFailure_worked [OF copies(2) [where c = "''451''" and u = "''none''"], of env sv cfg _ False]
      by (simp add: finishFailed_def smtpReplyCode_def)
  next
    case False
    then have "finishFailed cfg env job lastErr sv = handleFailure cfg env ?job1
        (case lastErr of None \<Rightarrow> ''delivery failed'' | Some e \<Rightarrow> wc_error_text cfg e) (?code \<ge> 500 \<and> ?code < 600) sv"
      by (simp add: finishFailed_def Let_def)
    with handleFailure_worked [OF copies(1), of env sv cfg _ "?code \<ge> 500 \<and> ?code < 600"] code show ?thesis
      by metis
  qed
qed

lemma deliverLocally_extends: "extends (sv_jobs sv) (sv_jobs (snd (deliverLocally cfg env job content sv)))"
proof -
  have "extends (sv_jobs sv) (sv_jobs sv')" if "Handle lib ienv input sv = (e, sv')" for lib ienv input e sv'
    using Handle_extends [of sv lib ienv input] that by simp
  then show ?thesis by (auto simp: deliverLocally_def split: sum.splits prod.splits)
qed

lemma deliverRemotely_accepted:
  assumes "deliverRemotely cfg env job content cache = (Inr used, trace, cache')"
  shows "\<exists>s \<in> set trace. s_item s = WirePayload content
    \<and> p_end (if Configured (wc_relay cfg) then we_relay_peer env else me_peer (we_try env (s_try s))) = Reply 250"
proof (cases "Configured (wc_relay cfg)")
  case True
  with assms obtain items where
    d: "deliverViaRelay (lib_sha256 (wc_lib cfg)) (wc_localHost cfg) (wc_relay cfg) (we_relay_peer env) (EnvelopeFrom job) (EnvelopeTo job) content = (None, items)"
    and trace: "trace = map (\<lambda>(ch, item). \<lparr>s_try = 0, s_host = relay_Host (wc_relay cfg), s_channel = ch, s_item = item\<rparr>) items"
    by (auto simp: deliverRemotely_def split: prod.splits option.splits)
  from deliverViaRelay_accepted [OF d] True trace show ?thesis by force
next
  case False
  then show ?thesis using assms mx_loop_accepted by (simp add: deliverRemotely_def)
qed

lemma local_attempt: "deliverLocally cfg env (job\<lparr>Attempt := a\<rparr>) content sv = deliverLocally cfg env job content sv"
  by (auto simp: deliverLocally_def split: sum.splits)

lemma remote_attempt: "deliverRemotely cfg env (job\<lparr>Attempt := a\<rparr>) content cache = deliverRemotely cfg env job content cache"
  by (cases "LookupMX (we_mx env) (DestinationDomain job)") (simp_all add: deliverRemotely_def job_mx_hosts_def)

text \<open>
  The message can never be delivered: it cannot be read, filing it here failed, or the last word of the peers was a
  permanent refusal.
\<close>

definition undeliverable :: "worker_config \<Rightarrow> worker_env \<Rightarrow> outbound_job \<Rightarrow> server \<Rightarrow> policy_cache \<Rightarrow> bool" where
  "undeliverable cfg env job sv cache \<longleftrightarrow>
     (case if we_read_ok env then ReadByID (sv_disk sv) (BlobID job) else None of
        None \<Rightarrow> True
      | Some content \<Rightarrow>
          (\<exists>e. fst (deliverLocally cfg env job content sv) = (True, Some e))
          \<or> (\<exists>code. 500 \<le> code \<and> code < 600 \<and> fst (deliverRemotely cfg env job content cache) = Inl (Some (ReplyError code))))"

lemma attempt_copyI [simp]: "attempt_copy job (job\<lparr>Attempt := Attempt job + 1\<rparr>)"
  by (simp add: attempt_copy_def)

lemma process_worked:
  assumes "processSingleJob cfg env job sv cache = (sv', trace, cache')"
  shows "\<exists>job'. worked env job' (sv_jobs sv) (sv_jobs sv') \<and> outcome_of env job job'
    \<and> (Status job' = Delivered \<longrightarrow> accepted cfg env job sv trace)
    \<and> (Status job' = Bounced \<longrightarrow> undeliverable cfg env job sv cache \<or> expired env job)"
proof (cases "if we_read_ok env then ReadByID (sv_disk sv) (BlobID job) else None")
  case None
  with assms have "\<exists>text. sv' = handleFailure cfg env (job\<lparr>Attempt := Attempt job + 1\<rparr>) text True sv"
    by (cases "we_read_ok env") (auto simp: processSingleJob_def Let_def)
  moreover have "undeliverable cfg env job sv cache" using None by (simp add: undeliverable_def)
  ultimately show ?thesis using handleFailure_worked [OF attempt_copyI, of env sv cfg job] by fastforce
next
  case (Some content)
  let ?job = "job\<lparr>Attempt := Attempt job + 1\<rparr>"
  have read: "we_read_ok env" "ReadByID (sv_disk sv) (BlobID job) = Some content" using Some by (simp_all split: if_splits)
  have delivered: "outcome_of env job (delivered_job ?job used) \<and> Status (delivered_job ?job used) = Delivered" for used
    by (simp add: outcome_of_def delivered_job_def)
  obtain handled e sv1 where l: "deliverLocally cfg env ?job content sv = ((handled, e), sv1)" by (metis prod.exhaust)
  then have ext: "extends (sv_jobs sv) (sv_jobs sv1)" using deliverLocally_extends [of sv cfg env ?job content] by simp
  show ?thesis
  proof (cases handled)
    case True
    show ?thesis
    proof (cases e)
      case None
      with True l read assms have "sv' = update_job env (delivered_job ?job TLSModeLocal) sv1"
        by (simp add: processSingleJob_def Let_def)
      moreover have "accepted cfg env job sv trace"
        using read l True None by (auto simp: accepted_def local_attempt)
      ultimately show ?thesis using worked_later [OF ext update_job_worked] delivered by fastforce
    next
      case err: (Some x)
      with True l read assms have "\<exists>text. sv' = handleFailure cfg env ?job text True sv1"
        by (auto simp: processSingleJob_def Let_def)
      moreover have "undeliverable cfg env job sv cache"
        using Some l True err by (auto simp: undeliverable_def local_attempt)
      ultimately show ?thesis using handleFailure_worked [OF attempt_copyI, of env sv1 cfg job] worked_later [OF ext] by fastforce
    qed
  next
    case False
    obtain r tr ca where d: "deliverRemotely cfg env ?job content cache = (r, tr, ca)" by (metis prod.exhaust)
    show ?thesis
    proof (cases r)
      case (Inl lastErr)
      with False l d read assms have "sv' = finishFailed cfg env ?job lastErr sv1"
        by (simp add: processSingleJob_def Let_def)
      moreover have "undeliverable cfg env job sv cache" if "500 \<le> code" "code < 600" "lastErr = Some (ReplyError code)" for code
        using Some d Inl that by (auto simp: undeliverable_def remote_attempt)
      ultimately show ?thesis
        using finishFailed_worked [OF attempt_copyI, of env sv1 cfg job lastErr] worked_later [OF ext] by blast
    next
      case (Inr used)
      with False l d read assms have "sv' = update_job env (delivered_job ?job used) sv1" "trace = tr"
        by (simp_all add: processSingleJob_def Let_def)
      moreover have "accepted cfg env job sv trace"
        using read deliverRemotely_accepted [of cfg env ?job content cache used tr ca] d Inr \<open>trace = tr\<close>
        by (auto simp: accepted_def)
      ultimately show ?thesis using worked_later [OF ext update_job_worked] delivered by fastforce
    qed
  qed
qed

section \<open>Delivered means accepted\<close>

text \<open>The row of a job after its update, which does nothing when the statement fails.\<close>

definition written :: "bool \<Rightarrow> outbound_job \<Rightarrow> job_row \<Rightarrow> job_row" where
  "written ok job r =
     (if ok \<and> row_id r = job_id job
      then r\<lparr>jr_job := (jr_job r)\<lparr>Status := Status job, Attempt := Attempt job, NextAttemptAt := NextAttemptAt job,
               LastSmtpCode := LastSmtpCode job, LastError := LastError job, TlsPolicyUsed := TlsPolicyUsed job,
               DelayDsnSent := DelayDsnSent job\<rparr>, locked_by := None, locked_until := None\<rparr>
      else r)"

lemma UpdateJob_rows: "jt_rows (UpdateJob ok job t) = map (written ok job) (jt_rows t)" "jt_next_id (UpdateJob ok job t) = jt_next_id t"
  by (auto simp: UpdateJob_def update_where_def written_def map_idI)

lemma written_key [simp]: "row_id (written ok job r) = row_id r" "ExpiresAt (jr_job (written ok job r)) = ExpiresAt (jr_job r)"
  "CreatedAt (jr_job (written ok job r)) = CreatedAt (jr_job r)"
  by (simp_all add: written_def)

lemma worked_rows:
  assumes "worked env job' t t'" "job_id job' < jt_next_id t"
  shows "\<exists>new. jt_rows t' = map (written (we_update_ok env) job') (jt_rows t) @ new
    \<and> (\<forall>r \<in> set new. fresh_row r \<and> jt_next_id t \<le> row_id r)"
proof -
  obtain t1 where ext: "extends t t1" "extends (UpdateJob (we_update_ok env) job' t1) t'"
    using assms(1) by (auto simp: worked_def)
  obtain new1 where new1: "jt_rows t1 = jt_rows t @ new1" "jt_next_id t \<le> jt_next_id t1"
    "\<forall>r \<in> set new1. fresh_row r \<and> jt_next_id t \<le> row_id r"
    using ext(1) by (auto simp: extends_def)
  obtain new2 where new2: "jt_rows t' = map (written (we_update_ok env) job') (jt_rows t1) @ new2"
    "\<forall>r \<in> set new2. fresh_row r \<and> jt_next_id t1 \<le> row_id r"
    using ext(2) by (auto simp: extends_def UpdateJob_rows)
  have "written (we_update_ok env) job' r = r" if "r \<in> set new1" for r
    using new1(3) that assms(2) by (fastforce simp: written_def)
  then have "map (written (we_update_ok env) job') new1 = new1" by (simp add: map_idI)
  then have rows: "jt_rows t' = map (written (we_update_ok env) job') (jt_rows t) @ new1 @ new2"
    using new1(1) new2(1) by simp
  show ?thesis
    by (rule exI [of _ "new1 @ new2"]) (use rows new1 new2(2) in auto)
qed

text \<open>
  C8. A job ends an attempt in one of three ways, and it is delivered only when somebody accepted the message. When
  a worker processes a job of the table, the rows afterwards are the old ones, with the update of the job's row, and
  behind them possibly newly queued jobs (automatic replies to a message that was filed here); no other row changes
  and none disappears. The update counts one attempt more, and its status is
  delivered, in which case the stored message could be read and was either filed for its local recipients or handed
  to a peer (a mail exchanger or the relay) that answered the end of the data with 250;
  or bounced, in which case the message could not be read, filing it failed, the peers' last answer was a
  permanent refusal (500 to 599), or the next attempt would be past the expiry of the job;
  or deferred, with the next attempt after the delay of the schedule and not past the expiry. This holds whatever the
  peers, the disk and the database do; only when the update statement itself fails do all
  old rows stay as they were.
\<close>

theorem delivered_only_if_accepted:
  assumes "processSingleJob cfg env job sv cache = (sv', trace, cache')"
    and "job_id job < jt_next_id (sv_jobs sv)"
  shows "\<exists>job' new. jt_rows (sv_jobs sv') = map (written (we_update_ok env) job') (jt_rows (sv_jobs sv)) @ new
    \<and> (\<forall>r \<in> set new. fresh_row r \<and> jt_next_id (sv_jobs sv) \<le> row_id r)
    \<and> job_id job' = job_id job \<and> Attempt job' = Attempt job + 1
    \<and> (Status job' = Delivered \<and> accepted cfg env job sv trace
       \<or> Status job' = Bounced \<and> (undeliverable cfg env job sv cache \<or> expired env job)
       \<or> Status job' = Deferred \<and> NextAttemptAt job' = we_now env + retry_delay (we_factor env) (Attempt job + 2)
           \<and> (\<forall>e. ExpiresAt job = Some e \<longrightarrow> NextAttemptAt job' \<le> e))"
proof -
  obtain job' where w: "worked env job' (sv_jobs sv) (sv_jobs sv')" and o: "outcome_of env job job'"
    and deliv: "Status job' = Delivered \<longrightarrow> accepted cfg env job sv trace"
    and bounced: "Status job' = Bounced \<longrightarrow> undeliverable cfg env job sv cache \<or> expired env job"
    using process_worked [OF assms(1)] by blast
  have "NextAttemptAt job' = we_now env + retry_delay (we_factor env) (Attempt job + 2)
      \<and> (\<forall>e. ExpiresAt job = Some e \<longrightarrow> NextAttemptAt job' \<le> e)" if "Status job' = Deferred"
    using o that by (auto simp: outcome_of_def CalculateNextBackoff_def Let_def algebra_simps split: option.splits if_splits)
  with worked_rows [OF w] o deliv bounced assms(2) show ?thesis
    by (fastforce simp: outcome_of_def)
qed

definition demo_worker_config :: worker_config where
  "demo_worker_config = \<lparr>wc_lib = demo_lib, wc_local = False,
     wc_relay = \<lparr>relay_Host = [], relay_Port = 0, relay_Username = [], relay_Password = [], relay_SpfMechanism = [], relay_RootCAs = None\<rparr>,
     wc_resolver = None, wc_localHost = ''h'', wc_id_text = ItoaNat, wc_error_text = (\<lambda>_. ''e''), wc_store_text = (\<lambda>_. ''e'')\<rparr>"

definition demo_worker_env :: "smtp_peer \<Rightarrow> worker_env" where
  "demo_worker_env peer = \<lparr>we_now = 9, we_factor = 1, we_read_ok = True, we_read_text = [], we_lookup_ok = True, we_inbound = demo_inbound_env,
     we_mx = (\<lambda>_. Inr [(10, ''m'')]), we_try = (\<lambda>_. (demo_env [])\<lparr>me_peer := peer\<rparr>), we_relay_peer = demo_peer, we_update_ok = True,
     we_dsn_lookup_ok = True, we_dsn_inbound = demo_inbound_env, we_date = ''Mon'', we_nano = 1\<rparr>"

text \<open>The server after one submission, and the job in its queue.\<close>

definition demo_queued :: server where
  "demo_queued = snd (Submit demo_lib (demo_submit_env 3) (demo_submit [''x@y'']) demo_server)"

definition demo_job :: outbound_job where
  "demo_job = jr_job (hd (jt_rows (sv_jobs demo_queued)))"

theorem delivered_only_if_accepted_witness:
  "\<exists>trace. accepted demo_worker_config (demo_worker_env demo_peer) demo_job demo_queued trace \<and> trace \<noteq> []"
proof -
  obtain sv' trace cache' where p: "processSingleJob demo_worker_config (demo_worker_env demo_peer) demo_job demo_queued Map.empty = (sv', trace, cache')"
    by (metis prod.exhaust)
  have rows: "map (\<lambda>r. (row_id r, Status (jr_job r))) (jt_rows (sv_jobs demo_queued)) = [(0, Queued)]" by code_simp
  have ids: "job_id demo_job < jt_next_id (sv_jobs demo_queued)" by code_simp
  have "map (\<lambda>r. (row_id r, Status (jr_job r))) (jt_rows (sv_jobs (fst (processSingleJob demo_worker_config (demo_worker_env demo_peer) demo_job demo_queued Map.empty)))) = [(0, Delivered)]"
    by code_simp
  with p have after: "map (\<lambda>r. (row_id r, Status (jr_job r))) (jt_rows (sv_jobs sv')) = [(0, Delivered)]" by simp
  have "length (fst (snd (processSingleJob demo_worker_config (demo_worker_env demo_peer) demo_job demo_queued Map.empty))) = 5" by code_simp
  with p have trace: "trace \<noteq> []" by auto
  obtain job' new where new: "jt_rows (sv_jobs sv') = map (written (we_update_ok (demo_worker_env demo_peer)) job') (jt_rows (sv_jobs demo_queued)) @ new"
    and accepted: "Status job' = Delivered \<longrightarrow> accepted demo_worker_config (demo_worker_env demo_peer) demo_job demo_queued trace"
    by (rule exE [OF delivered_only_if_accepted [OF p ids]], elim exE conjE) (rule that, assumption, fastforce)
  from rows obtain r where "jt_rows (sv_jobs demo_queued) = [r]" "Status (jr_job r) = Queued" by (auto simp: map_eq_Cons_conv)
  with new after have "Status job' = Delivered"
    by (cases "row_id r = job_id job'") (auto simp: written_def demo_worker_env_def)
  with accepted trace show ?thesis by blast
qed

section \<open>Notifications start no mail\<close>

lemma senderLocal_postmaster: "senderLocal (''postmaster@'' @ host) = ''postmaster''"
  by (simp add: senderLocal_def ToLower_Cons ToLowerChar_def HasPrefix_def Let_def Index.simps)

lemma postmaster_not_answered: "\<not> shouldAutoReply \<lparr>Headers = h, Sender = ''postmaster@'' @ host, Recipient = r\<rparr>"
  using shouldAutoReplyD [of "\<lparr>Headers = h, Sender = ''postmaster@'' @ host, Recipient = r\<rparr>"] senderLocal_postmaster [of host]
  by (auto simp: reservedLocals_def)

lemma plan_no_replies:
  assumes "in_Sender input = ''postmaster@'' @ host"
  shows "snd (plan_copies env input sv content folder file_as i rs) = []"
proof (induction rs arbitrary: i)
  case (Cons r rs)
  obtain rec address where r: "r = (rec, address)" by fastforce
  have "Vacation (rules_For headersOf source address (in_Sender input) content) = None" for source :: "unit + string"
    unfolding assms using rules_For_vacation [of headersOf source address _ content] postmaster_not_answered by blast
  then have "Vacation (decision_for env input sv content i rec address) = None"
    by (simp add: decision_for_def no_outcome_def)
  with Cons [of "Suc i"] show ?case by (auto simp: r Let_def pending_reply_def split: prod.splits)
qed simp

lemma Handle_postmaster:
  assumes "in_Sender input = ''postmaster@'' @ host"
  shows "sv_jobs (snd (Handle lib env input sv)) = sv_jobs sv"
proof -
  have "sv_jobs (snd (file_copies lib env (plan_copies env input sv2 content folder file_as 0 rs) sv1)) = sv_jobs sv1" for sv1 sv2 content folder file_as rs
    using plan_no_replies [OF assms, of env sv2 content folder file_as 0 rs]
    by (auto simp: file_copies_def split: prod.splits sum.splits)
  then show ?thesis
    by (auto simp: Handle_def Let_def split: option.splits sum.splits prod.splits dest: store_blob_jobs)
qed

lemma sendDsn_jobs: "sv_jobs (sendDsn cfg env action job reason sv) = sv_jobs sv"
  using Handle_postmaster [of "dsn_input cfg job targets dsn" for targets dsn]
  by (auto simp: sendDsn_def dsn_input_def split: option.splits sum.splits)

text \<open>
  Failures never multiply mail: handling the failure of a job changes the queue in exactly one way, the update of
  that job. The notification that is filed for its sender queues nothing, no bounce of a bounce
  and no automatic reply to it, whatever rules the mailboxes that receive it have, and for a job without a sender
  there is no notification at all.
\<close>

theorem failure_queues_nothing:
  "sv_jobs (handleFailure cfg env job errStr isPermanent sv)
     = UpdateJob (we_update_ok env) (fst (failed_job env job errStr isPermanent)) (sv_jobs sv)
   \<and> BuildDsnReport action mta [] recipient messageID reason now nano = None
   \<and> BuildDsnReport action mta ''<>'' recipient messageID reason now nano = None"
proof -
  have "BuildDsnReport action mta [] recipient messageID reason now nano = None"
    by (simp add: BuildDsnReport_def Trim_def TrimFunc_def TrimRightFunc_def)
  moreover have "Trim (TrimSpace ''<>'') ''<>'' = []" by code_simp
  then have "BuildDsnReport action mta ''<>'' recipient messageID reason now nano = None"
    by (simp add: BuildDsnReport_def)
  moreover have "sv_jobs (handleFailure cfg env job errStr isPermanent sv)
     = UpdateJob (we_update_ok env) (fst (failed_job env job errStr isPermanent)) (sv_jobs sv)"
    by (auto simp: handleFailure_def update_job_def sendDsn_jobs split: prod.splits option.splits DsnAction.splits)
  ultimately show ?thesis by blast
qed

section \<open>Every job ends\<close>

text \<open>The shortest time that the retry schedule lets pass before an attempt, and up to the n-th failure.\<close>

definition min_delay :: "nat \<Rightarrow> int" where
  "min_delay k = (if k \<ge> 5 then baseDelay (int k) * 4 div 5 else baseDelay (int k))"

fun min_wait :: "nat \<Rightarrow> int" where
  "min_wait 0 = 0"
| "min_wait (Suc n) = min_wait n + min_delay (n + 2)"

lemma min_delay_values:
  "min_delay 2 = 5 * Minute" "min_delay 3 = 15 * Minute" "min_delay 4 = 60 * Minute" "min_delay 5 = 96 * Minute"
  "min_delay 6 = 192 * Minute" "min_delay 7 = 384 * Minute" "k \<ge> 8 \<Longrightarrow> min_delay k = 576 * Minute"
  by (simp_all add: min_delay_def baseDelay_def Hour_def Minute_def Second_def)

lemma min_delay_positive: "k \<ge> 2 \<Longrightarrow> 5 * Minute \<le> min_delay k"
  by (auto simp: min_delay_def baseDelay_def Hour_def Minute_def Second_def)

lemma retry_delay_min: "4 / 5 \<le> factor \<Longrightarrow> min_delay k \<le> retry_delay factor (int k)"
proof -
  assume f: "4 / 5 \<le> factor"
  show ?thesis
  proof (cases "baseDelay (int k) > 0 \<and> k \<ge> 5")
    case True
    have "of_int (baseDelay (int k) * 4 div 5) \<le> (of_int (baseDelay (int k)) * (4 / 5) :: rat)"
    proof -
      have "of_int (baseDelay (int k) * 4 div 5 * 5) \<le> (of_int (baseDelay (int k) * 4) :: rat)"
        by (subst of_int_le_iff) simp
      then show ?thesis by simp
    qed
    also have "\<dots> \<le> of_int (baseDelay (int k)) * factor" using f True by (intro mult_left_mono) auto
    finally show ?thesis using True by (simp add: min_delay_def retry_delay_def le_floor_iff)
  qed (auto simp: min_delay_def retry_delay_def baseDelay_def Hour_def Minute_def Second_def)
qed

lemma min_wait_6: "min_wait 6 = 752 * Minute"
proof -
  have "min_wait 6 = min_delay 2 + min_delay 3 + min_delay 4 + min_delay 5 + min_delay 6 + min_delay 7"
    by (simp add: eval_nat_numeral)
  then show ?thesis by (simp add: min_delay_values)
qed

lemma min_wait_later: "min_wait (6 + n) = (752 + 576 * int n) * Minute"
proof (induction n)
  case (Suc n)
  have "min_delay (6 + n + 2) = 576 * Minute" by (rule min_delay_values(7)) simp
  moreover have "min_wait (6 + Suc n) = min_wait (6 + n) + min_delay (6 + n + 2)"
    by (simp only: add_Suc_right min_wait.simps(2))
  ultimately show ?case using Suc by (simp add: algebra_simps)
qed (simp add: min_wait_6)

lemma attempts_in_window:
  assumes "min_wait n \<le> deliveryWindow"
  shows "n \<le> 17"
proof (rule ccontr)
  assume "\<not> n \<le> 17"
  then have k: "n = 6 + (n - 6)" "12 \<le> n - 6" by simp_all
  have "min_wait n = (752 + 576 * int (n - 6)) * Minute" by (subst k(1)) (rule min_wait_later)
  with k(2) assms show False by (simp add: deliveryWindow_def Hour_def Minute_def Second_def)
qed

end
