(* ===== verification/Vacation_Spacing.thy ===== *)
theory Vacation_Spacing
  imports Outbound_Worker_Properties Vacation_Properties
begin

text \<open>
  Nobody is told twice within the period: what the log of \<^verbatim>\<open>vacation_suppression.go\<close> achieves for the replies that
  \<^verbatim>\<open>process_inbound_email.go\<close> and \<^verbatim>\<open>vacation_reply.go\<close> really queue. A message is checked against the log for all
  its recipients before anything is recorded, so two messages are kept apart and two recipients of one message are not.
\<close>

section \<open>Runs\<close>

datatype mail_event = Arrives inbound_env inbound_input | Sends submit_env submit_input

definition mail_step :: "server_lib \<Rightarrow> server \<Rightarrow> mail_event \<Rightarrow> server" where
  "mail_step lib sv ev =
     (case ev of Arrives env input \<Rightarrow> snd (Handle lib env input sv) | Sends env input \<Rightarrow> snd (Submit lib env input sv))"

fun arrival_times :: "mail_event list \<Rightarrow> int list" where
  "arrival_times [] = []"
| "arrival_times (Arrives env input # evs) = ie_now env # arrival_times evs"
| "arrival_times (Sends env input # evs) = arrival_times evs"

text \<open>The replies that a message queues: the jobs that handling it adds.\<close>

definition queued_replies :: "server_lib \<Rightarrow> server \<Rightarrow> inbound_env \<Rightarrow> inbound_input \<Rightarrow> outbound_job list" where
  "queued_replies lib sv env input =
     map jr_job (drop (length (jt_rows (sv_jobs sv))) (jt_rows (sv_jobs (snd (Handle lib env input sv)))))"

text \<open>
  Suppression is configured, the log can be read and written, replies are sent no earlier than their message arrives, and an
  address that has an account is the account of the mailbox it was resolved to.
\<close>

definition log_works :: "int \<Rightarrow> account_row list \<Rightarrow> mail_event \<Rightarrow> bool" where
  "log_works period accounts ev \<longleftrightarrow>
     (case ev of
        Sends _ _ \<Rightarrow> True
      | Arrives env input \<Rightarrow>
          ve_suppression (ie_vacation env) = Some period \<and> (\<forall>i. ie_log_ok env i)
          \<and> (\<forall>i. re_log_ok (ve_reply (ie_vacation env) i) \<and> ie_now env \<le> se_now (re_submit (ve_reply (ie_vacation env) i)))
          \<and> (\<forall>(rec, address) \<in> set (zip (in_Recipients input) (in_RecipientAddresses input)). \<forall>account.
               FindByAddress accounts address = Some account \<longrightarrow> ma_id account = mr_ID rec))"

section \<open>One reply\<close>

text \<open>The log has a time for this mailbox and address that is not before \<open>t\<close>.\<close>

definition told_since :: "int \<Rightarrow> nat \<Rightarrow> string \<Rightarrow> vacation_row list \<Rightarrow> bool" where
  "told_since t mb a rows \<longleftrightarrow> (\<exists>\<tau>. LastRepliedAt rows mb a = Some \<tau> \<and> t \<le> \<tau>)"

lemma told_since_Record:
  "t \<le> now \<Longrightarrow> told_since t mb a rows \<Longrightarrow> told_since t mb a (suppression_Record supp wr now mb' to' rows)"
  by (auto simp: told_since_def suppression_Record_def LastRepliedAt_Record Let_def split: option.split)

lemma told_since_recorded:
  "t \<le> now \<Longrightarrow> normaliseAddress to' \<noteq> [] \<Longrightarrow> told_since t mb (normaliseAddress to') (suppression_Record (Some period) True now mb to' rows)"
  by (auto simp: told_since_def suppression_Record_def LastRepliedAt_Record Let_def)

lemma told_since_ShouldReply:
  "told_since t mb (normaliseAddress to') rows \<Longrightarrow> ShouldReply (Some period) True now mb to' rows \<Longrightarrow> period \<le> now - t"
  by (auto simp: told_since_def ShouldReply_def Let_def split: if_splits)

lemma Submit_keeps_log:
  "sv_vacation (snd (Submit lib env input sv)) = sv_vacation sv \<and> sv_accounts (snd (Submit lib env input sv)) = sv_accounts sv"
  by (auto simp: Submit_def dest: store_blob_view split: option.splits prod.splits sum.splits)

text \<open>A submission to one recipient adds one job when it succeeds and none when it fails.\<close>

lemma Enqueue_one:
  "Enqueue ok now (new_job now input blob to') t = (Inr j, t') \<Longrightarrow>
     \<exists>row. jt_rows t' = jt_rows t @ [row] \<and> MailboxID (jr_job row) = Some (si_MailboxID input) \<and> EnvelopeTo (jr_job row) = to'"
  "Enqueue ok now (new_job now input blob to') t = (Inl u, t') \<Longrightarrow> t' = t"
  by (auto simp: Enqueue_def new_job_def Let_def split: if_splits)

lemma Submit_one:
  assumes "Submit lib env input sv = (e, sv')" "si_Recipients input = [to']"
  shows "\<exists>new. jt_rows (sv_jobs sv') = jt_rows (sv_jobs sv) @ new
    \<and> (\<forall>r \<in> set new. e = None \<and> MailboxID (jr_job r) = Some (si_MailboxID input) \<and> EnvelopeTo (jr_job r) = to')"
  using assms
  by (auto simp: Submit_def dest!: store_blob_jobs Enqueue_one split: option.splits prod.splits sum.splits if_splits)

definition answers :: "account_row list \<Rightarrow> pendingVacation \<Rightarrow> outbound_job \<Rightarrow> bool" where
  "answers accounts reply j \<longleftrightarrow> EnvelopeTo j = pv_To reply
     \<and> (\<exists>account. FindByAddress accounts (pv_From reply) = Some account \<and> MailboxID j = Some (ma_id account))"

lemma sendVacationReply_one:
  assumes "sendVacationReply lib venv env reply sv = (ok, sv')"
  shows "sv_vacation sv' = sv_vacation sv \<and> sv_accounts sv' = sv_accounts sv
    \<and> (\<exists>new. jt_rows (sv_jobs sv') = jt_rows (sv_jobs sv) @ new \<and> (\<forall>r \<in> set new. ok \<and> answers (sv_accounts sv) reply (jr_job r)))"
proof (cases "re_accounts_ok env \<and> FindByAddress (sv_accounts sv) (pv_From reply) \<noteq> None")
  case False
  with assms show ?thesis by (auto simp: sendVacationReply_def split: if_splits option.splits)
next
  case True
  then obtain account where account: "FindByAddress (sv_accounts sv) (pv_From reply) = Some account" by blast
  define input where "input = \<lparr>si_MailboxID = ma_id account, si_SenderAddr = ma_email account, si_DomainName = ma_domain account,
      si_Recipients = [pv_To reply],
      si_Body = Some (buildVacationMessage (ve_bEncode venv) (ve_decode venv) (re_date env) (re_uuid env) reply (ve_replyHost venv)),
      si_MaxRecipientsPerHour = ma_max_recipients account, si_FileSentCopy = False\<rparr>"
  obtain e where e: "Submit lib (re_submit env) input sv = (e, sv')" "ok = (e = None)"
    using assms True account by (auto simp: sendVacationReply_def input_def split: prod.splits)
  have "si_Recipients input = [pv_To reply]" "si_MailboxID input = ma_id account" by (simp_all add: input_def)
  with Submit_one [OF e(1)] Submit_keeps_log [of lib "re_submit env" input sv] e account show ?thesis
    by (fastforce simp: answers_def)
qed

section \<open>The replies to a message\<close>

definition replies_log_works :: "int \<Rightarrow> int \<Rightarrow> vacation_env \<Rightarrow> bool" where
  "replies_log_works period t venv \<longleftrightarrow>
     ve_suppression venv = Some period \<and> (\<forall>i. re_log_ok (ve_reply venv i) \<and> t \<le> se_now (re_submit (ve_reply venv i)))"

lemma sendVacationReplies_log:
  assumes "replies_log_works period t venv"
  shows "(told_since t mb a (sv_vacation sv) \<longrightarrow> told_since t mb a (sv_vacation (sendVacationReplies lib venv i replies sv)))
    \<and> sv_accounts (sendVacationReplies lib venv i replies sv) = sv_accounts sv"
proof (induction replies arbitrary: i sv)
  case (Cons reply replies)
  obtain ok sv1 where r: "sendVacationReply lib venv (ve_reply venv i) reply sv = (ok, sv1)" by fastforce
  have same: "sv_vacation sv1 = sv_vacation sv" "sv_accounts sv1 = sv_accounts sv" using sendVacationReply_one [OF r] by simp_all
  have "t \<le> se_now (re_submit (ve_reply venv i))" using assms by (simp add: replies_log_works_def)
  with Cons.IH [where i = "Suc i"] same told_since_Record show ?case by (cases ok) (simp_all add: r Let_def)
qed simp

lemma sendVacationReplies_recorded:
  assumes works: "replies_log_works period t venv" and addressed: "\<forall>reply \<in> set replies. normaliseAddress (pv_To reply) \<noteq> []"
  shows "\<exists>new. jt_rows (sv_jobs (sendVacationReplies lib venv i replies sv)) = jt_rows (sv_jobs sv) @ new
    \<and> (\<forall>r \<in> set new. \<exists>reply \<in> set replies. answers (sv_accounts sv) reply (jr_job r)
         \<and> told_since t (pv_MailboxID reply) (normaliseAddress (pv_To reply)) (sv_vacation (sendVacationReplies lib venv i replies sv)))"
  using addressed
proof (induction replies arbitrary: i sv)
  case (Cons reply replies)
  show ?case
  proof (cases "ve_configured venv")
    case False
    then show ?thesis by simp
  next
    case True
    obtain ok sv1 where r: "sendVacationReply lib venv (ve_reply venv i) reply sv = (ok, sv1)" by fastforce
    obtain new where new: "jt_rows (sv_jobs sv1) = jt_rows (sv_jobs sv) @ new" "\<forall>r \<in> set new. ok \<and> answers (sv_accounts sv) reply (jr_job r)"
      and accounts: "sv_accounts sv1 = sv_accounts sv"
      using sendVacationReply_one [OF r] by blast
    define sv2 where "sv2 = (if ok then sv1\<lparr>sv_vacation := suppression_Record (Some period) True (se_now (re_submit (ve_reply venv i)))
        (pv_MailboxID reply) (pv_To reply) (sv_vacation sv1)\<rparr> else sv1)"
    let ?final = "sendVacationReplies lib venv (Suc i) replies sv2"
    have all: "sendVacationReplies lib venv i (reply # replies) sv = ?final"
      using True r works by (cases ok) (simp_all add: sv2_def replies_log_works_def Let_def)
    have same: "sv_jobs sv2 = sv_jobs sv1" "sv_accounts sv2 = sv_accounts sv" using accounts by (simp_all add: sv2_def)
    have "told_since t (pv_MailboxID reply) (normaliseAddress (pv_To reply)) (sv_vacation sv2)" if ok
      using that works Cons.prems told_since_recorded by (simp add: sv2_def replies_log_works_def)
    then have told: "told_since t (pv_MailboxID reply) (normaliseAddress (pv_To reply)) (sv_vacation ?final)" if ok
      using that sendVacationReplies_log [OF works] by blast
    obtain rest where rest: "jt_rows (sv_jobs ?final) = jt_rows (sv_jobs sv2) @ rest"
      "\<forall>r \<in> set rest. \<exists>reply \<in> set replies. answers (sv_accounts sv2) reply (jr_job r)
         \<and> told_since t (pv_MailboxID reply) (normaliseAddress (pv_To reply)) (sv_vacation ?final)"
      using Cons.IH [of "Suc i" sv2] Cons.prems by auto
    show ?thesis
      unfolding all by (rule exI [of _ "new @ rest"]) (use new rest same told in auto)
  qed
qed simp

text \<open>A reply is pending only for a recipient whose mailbox the log allows to answer.\<close>

lemma plan_pending:
  assumes "reply \<in> set (snd (plan_copies env input sv content folder file_as i rs))"
  shows "\<exists>k rec address. (rec, address) \<in> set rs \<and> pv_To reply = in_Sender input \<and> pv_From reply = address \<and> pv_MailboxID reply = mr_ID rec
    \<and> ShouldReply (ve_suppression (ie_vacation env)) (ie_log_ok env k) (ie_now env) (mr_ID rec) (in_Sender input) (sv_vacation sv)"
  using assms
proof (induction rs arbitrary: i)
  case (Cons r rs)
  obtain rec address where r: "r = (rec, address)" by fastforce
  let ?decision = "decision_for env input sv content i rec address"
  from Cons.prems consider "reply \<in> set (pending_reply env input sv content i rec address ?decision)"
    | "reply \<in> set (snd (plan_copies env input sv content folder file_as (Suc i) rs))"
    by (auto simp: r Let_def split: prod.splits if_splits)
  then show ?case
  proof cases
    case 1
    then show ?thesis
      by (intro exI [of _ i] exI [of _ rec] exI [of _ address])
        (auto simp: r pending_reply_def Let_def split: option.splits if_splits)
  next
    case 2
    from Cons.IH [OF this] show ?thesis by (auto simp: r)
  qed
qed simp

lemma file_copies_sends:
  assumes "file_copies lib env (inputs, replies) sv = (None, sv')"
  obtains sv1 where "sv' = sendVacationReplies lib (ie_vacation env) 0 replies sv1" "sv_jobs sv1 = sv_jobs sv"
    "sv_vacation sv1 = sv_vacation sv" "sv_accounts sv1 = sv_accounts sv"
proof (cases "inputs = []")
  case True
  with assms that [of sv] show ?thesis by (simp add: file_copies_def)
next
  case False
  with assms that [of "sv\<lparr>sv_mail := db\<rparr>" for db] show ?thesis
    by (auto simp: file_copies_def split: prod.splits sum.splits)
qed

text \<open>
  Handling a message: each reply it queues goes to the sender, belongs to the mailbox of a recipient whose log allowed it
  before the message, and is in the log afterwards; no entry is lost or set back.
\<close>

lemma sendVacationReplies_accounts: "sv_accounts (sendVacationReplies lib venv i replies sv) = sv_accounts sv"
proof (induction replies arbitrary: i sv)
  case (Cons reply replies)
  obtain ok sv1 where r: "sendVacationReply lib venv (ve_reply venv i) reply sv = (ok, sv1)" by fastforce
  with sendVacationReply_one [OF r] Cons.IH show ?case by (cases ok) (simp_all add: Let_def)
qed simp

lemma Handle_accounts: "sv_accounts (snd (Handle lib env input sv)) = sv_accounts sv"
proof -
  have "sv_accounts (snd (file_copies lib env plan sv1)) = sv_accounts sv1" for plan sv1
    by (auto simp: file_copies_def sendVacationReplies_accounts split: prod.splits sum.splits)
  then show ?thesis
    by (auto simp: Handle_def Let_def dest: store_blob_view split: option.splits prod.splits sum.splits)
qed

lemma Handle_replies:
  assumes works: "log_works period (sv_accounts sv) (Arrives env input)" and r: "Handle lib env input sv = (e, sv')"
  shows "(told_since t mb a (sv_vacation sv) \<longrightarrow> t \<le> ie_now env \<longrightarrow> told_since t mb a (sv_vacation sv'))
    \<and> (\<forall>j \<in> set (queued_replies lib sv env input). \<exists>mb. MailboxID j = Some mb \<and> EnvelopeTo j = in_Sender input
      \<and> ShouldReply (Some period) True (ie_now env) mb (in_Sender input) (sv_vacation sv)
      \<and> told_since (ie_now env) mb (normaliseAddress (in_Sender input)) (sv_vacation sv'))"
proof (cases e)
  case (Some x)
  with Handle_failed r have "sv_jobs sv' = sv_jobs sv" "sv_vacation sv' = sv_vacation sv" by blast+
  then show ?thesis using r by (simp add: queued_replies_def)
next
  case None
  let ?rs = "zip (in_Recipients input) (in_RecipientAddresses input)"
  from r None have "Handle lib env input sv = (None, sv')" by simp
  then obtain content folder file_as sv2 where st: "sv_jobs sv2 = sv_jobs sv" "sv_vacation sv2 = sv_vacation sv" "sv_accounts sv2 = sv_accounts sv"
    "file_copies lib env (plan_copies env input sv2 content folder file_as 0 ?rs) sv2 = (None, sv')"
    by (cases rule: Handle_steps) (auto dest: store_blob_view)
  define replies where "replies = snd (plan_copies env input sv2 content folder file_as 0 ?rs)"
  obtain sv1 where sent: "sv' = sendVacationReplies lib (ie_vacation env) 0 replies sv1" "sv_jobs sv1 = sv_jobs sv"
    "sv_vacation sv1 = sv_vacation sv" "sv_accounts sv1 = sv_accounts sv"
    using file_copies_sends [of lib env "fst (plan_copies env input sv2 content folder file_as 0 ?rs)" replies sv2 sv'] st
    by (auto simp: replies_def)
  have venv: "replies_log_works period u (ie_vacation env)" if "u \<le> ie_now env" for u
    using works that order_trans [OF that] by (simp add: log_works_def replies_log_works_def)
  have pending: "pv_To reply = in_Sender input \<and> ShouldReply (Some period) True (ie_now env) (pv_MailboxID reply) (in_Sender input) (sv_vacation sv)
      \<and> (\<forall>account. FindByAddress (sv_accounts sv) (pv_From reply) = Some account \<longrightarrow> ma_id account = pv_MailboxID reply)"
    if "reply \<in> set replies" for reply
    using plan_pending [OF that [unfolded replies_def]] works st(2) by (fastforce simp: log_works_def)
  then have "\<forall>reply \<in> set replies. normaliseAddress (pv_To reply) \<noteq> []"
    by (auto simp: ShouldReply_def Let_def split: if_splits)
  from sendVacationReplies_recorded [OF venv [OF order_refl] this, of lib 0 sv1] obtain new where
    new: "jt_rows (sv_jobs sv') = jt_rows (sv_jobs sv) @ new"
      "\<forall>r \<in> set new. \<exists>reply \<in> set replies. answers (sv_accounts sv) reply (jr_job r)
         \<and> told_since (ie_now env) (pv_MailboxID reply) (normaliseAddress (pv_To reply)) (sv_vacation sv')"
    using sent by auto
  have "\<exists>mb. MailboxID (jr_job q) = Some mb \<and> EnvelopeTo (jr_job q) = in_Sender input
      \<and> ShouldReply (Some period) True (ie_now env) mb (in_Sender input) (sv_vacation sv)
      \<and> told_since (ie_now env) mb (normaliseAddress (in_Sender input)) (sv_vacation sv')" if "q \<in> set new" for q
    using new(2) that pending by (fastforce simp: answers_def)
  moreover have "queued_replies lib sv env input = map jr_job new" using r new(1) by (simp add: queued_replies_def)
  moreover have "told_since t mb a (sv_vacation sv')" if "told_since t mb a (sv_vacation sv)" "t \<le> ie_now env"
    using sendVacationReplies_log [OF venv [OF that(2)], of mb a sv1 lib 0 replies] that(1) sent(1,3) by simp
  ultimately show ?thesis by auto
qed

section \<open>Two messages\<close>

lemma arrival_times_append: "arrival_times (xs @ ys) = arrival_times xs @ arrival_times ys"
  by (induction xs rule: arrival_times.induct) auto

lemma run_accounts: "sv_accounts (foldl (mail_step lib) sv evs) = sv_accounts sv"
  by (induction evs rule: rev_induct) (auto simp: mail_step_def Handle_accounts Submit_keeps_log split: mail_event.split)

lemma run_told:
  assumes "\<forall>ev \<in> set evs. log_works period (sv_accounts sv) ev" "\<forall>u \<in> set (arrival_times evs). t \<le> u"
    "told_since t mb a (sv_vacation sv)"
  shows "told_since t mb a (sv_vacation (foldl (mail_step lib) sv evs))"
  using assms
proof (induction evs arbitrary: sv)
  case (Cons ev evs)
  let ?sv = "mail_step lib sv ev"
  have "sv_accounts ?sv = sv_accounts sv" using run_accounts [of lib sv "[ev]"] by simp
  moreover have "told_since t mb a (sv_vacation ?sv)"
  proof (cases ev)
    case (Arrives env input)
    obtain e sv' where "Handle lib env input sv = (e, sv')" by fastforce
    with Handle_replies [of period sv env input lib e sv' t mb a] Cons.prems Arrives show ?thesis by (simp add: mail_step_def)
  next
    case (Sends env input)
    with Submit_keeps_log Cons.prems(3) show ?thesis by (simp add: mail_step_def)
  qed
  moreover have "\<forall>u \<in> set (arrival_times evs). t \<le> u" using Cons.prems(2) by (cases ev) auto
  ultimately show ?case using Cons.IH [of ?sv] Cons.prems(1) by simp
qed simp

text \<open>
  C30. Nobody is told twice within the period: in any run of arriving messages (in order of their times) and
  submissions, when two different messages each queue an automatic reply of the same mailbox to the same address, however the
  address is spelled, then the second message arrived at least the period (seven days unless configured
  otherwise) after the first. The replies are the jobs that handling the message really puts in the queue. The
  hypotheses are that suppression is configured, the log of replies can be read and written, the clock does not go back, and an
  address that has an account was resolved to its mailbox. Nothing is claimed of one message: sent to two addresses of the same mailbox it is
  answered twice (\<open>one_message_two_replies\<close>).
\<close>

theorem replies_spaced:
  assumes "\<forall>ev \<in> set (before @ Arrives env1 input1 # between @ [Arrives env2 input2]). log_works period (sv_accounts sv) ev"
    and "sorted (arrival_times (before @ Arrives env1 input1 # between @ [Arrives env2 input2]))"
    and "sv1 = foldl (mail_step lib) sv before" "sv2 = foldl (mail_step lib) sv (before @ Arrives env1 input1 # between)"
    and "j1 \<in> set (queued_replies lib sv1 env1 input1)" "j2 \<in> set (queued_replies lib sv2 env2 input2)"
    and "MailboxID j1 = MailboxID j2" "normaliseAddress (EnvelopeTo j1) = normaliseAddress (EnvelopeTo j2)"
  shows "period \<le> ie_now env2 - ie_now env1"
proof -
  obtain e sv1' where h1: "Handle lib env1 input1 sv1 = (e, sv1')" by fastforce
  obtain e' sv2' where h2: "Handle lib env2 input2 sv2 = (e', sv2')" by fastforce
  have accounts: "sv_accounts sv1 = sv_accounts sv" "sv_accounts sv2 = sv_accounts sv" "sv_accounts sv1' = sv_accounts sv"
    using assms(3,4) run_accounts Handle_accounts [of lib env1 input1 sv1] h1 by (simp_all only: snd_conv)
  have works: "log_works period (sv_accounts sv1) (Arrives env1 input1)" "log_works period (sv_accounts sv2) (Arrives env2 input2)"
    "\<forall>ev \<in> set between. log_works period (sv_accounts sv1') ev"
    using assms(1) accounts by simp_all
  obtain mb where first: "MailboxID j1 = Some mb" "told_since (ie_now env1) mb (normaliseAddress (EnvelopeTo j1)) (sv_vacation sv1')"
    using Handle_replies [OF works(1) h1] assms(5) by force
  obtain mb' where second: "MailboxID j2 = Some mb'" "EnvelopeTo j2 = in_Sender input2"
    "ShouldReply (Some period) True (ie_now env2) mb' (in_Sender input2) (sv_vacation sv2)"
    using Handle_replies [OF works(2) h2] assms(6) by force
  have "sv2 = foldl (mail_step lib) sv1' between" using assms(3,4) h1 by (simp add: mail_step_def)
  moreover have "\<forall>u \<in> set (arrival_times between). ie_now env1 \<le> u"
    using assms(2) by (auto simp: arrival_times_append sorted_append)
  ultimately have "told_since (ie_now env1) mb (normaliseAddress (EnvelopeTo j1)) (sv_vacation sv2)"
    using run_told [OF works(3) _ first(2)] by simp
  then have "told_since (ie_now env1) mb' (normaliseAddress (in_Sender input2)) (sv_vacation sv2)"
    using first(1) second(1,2) assms(7,8) by simp
  from told_since_ShouldReply [OF this second(3)] show ?thesis .
qed

text \<open>A mailbox on holiday with a period of ten: a message at 5 and one at 15 are answered, one at 7 is not.\<close>

definition demo_away_server :: server where
  "demo_away_server = demo_mx_server\<lparr>
     sv_accounts := [\<lparr>ac_auth = \<lparr>ma_id = 0, ma_password_hash = [], ma_email = ''u@y'', ma_domain = ''y'', ma_max_recipients = 0, ma_app_passwords = []\<rparr>,
       ac_active = True, ac_domain_active = True\<rparr>],
     sv_scripts := [\<lparr>sc_mailbox = 0, sc_name = ''v'', sc_script = ''vacation '' @ [DQUOTE] @ ''away'' @ [DQUOTE] @ '';'', sc_active = True\<rparr>]\<rparr>"

definition demo_away :: "int \<Rightarrow> inbound_env" where
  "demo_away t = demo_inbound_env\<lparr>ie_now := t, ie_scanner := None, ie_rules := True,
     ie_vacation := demo_vacation_env\<lparr>ve_configured := True, ve_suppression := Some 10,
       ve_reply := (\<lambda>_. \<lparr>re_accounts_ok = True, re_date = [], re_uuid = [], re_submit = \<lparr>se_now = t, se_count_ok = True, se_signer = None,
         se_store = NoFault, se_enqueue_ok = (\<lambda>_. True), se_sentCopies = False, se_persist_ok = True\<rparr>, re_log_ok = True\<rparr>)\<rparr>\<rparr>"

abbreviation demo_hello :: "int \<Rightarrow> mail_event" where
  "demo_hello t \<equiv> Arrives (demo_away t) (demo_inbound ''hi'')"

theorem replies_spaced_witness:
  "length (queued_replies demo_hash_lib demo_away_server (demo_away 5) (demo_inbound ''hi'')) = 1
   \<and> queued_replies demo_hash_lib (mail_step demo_hash_lib demo_away_server (demo_hello 5)) (demo_away 7) (demo_inbound ''hi'') = []
   \<and> length (queued_replies demo_hash_lib (foldl (mail_step demo_hash_lib) demo_away_server [demo_hello 5, demo_hello 7]) (demo_away 15) (demo_inbound ''hi'')) = 1
   \<and> (10 :: int) \<le> ie_now (demo_away 15) - ie_now (demo_away 5)"
proof -
  let ?sv2 = "foldl (mail_step demo_hash_lib) demo_away_server [demo_hello 5, demo_hello 7]"
  have r1: "map (\<lambda>j. (MailboxID j, EnvelopeTo j)) (queued_replies demo_hash_lib demo_away_server (demo_away 5) (demo_inbound ''hi'')) = [(Some 0, ''a@x'')]"
    by code_simp
  have none: "queued_replies demo_hash_lib (mail_step demo_hash_lib demo_away_server (demo_hello 5)) (demo_away 7) (demo_inbound ''hi'') = []"
    by code_simp
  have r2: "map (\<lambda>j. (MailboxID j, EnvelopeTo j)) (queued_replies demo_hash_lib ?sv2 (demo_away 15) (demo_inbound ''hi'')) = [(Some 0, ''a@x'')]"
    by code_simp
  from r1 r2 obtain j1 j2 where j: "j1 \<in> set (queued_replies demo_hash_lib demo_away_server (demo_away 5) (demo_inbound ''hi''))"
    "j2 \<in> set (queued_replies demo_hash_lib ?sv2 (demo_away 15) (demo_inbound ''hi''))"
    "MailboxID j1 = MailboxID j2" "EnvelopeTo j1 = EnvelopeTo j2"
    by (auto simp: map_eq_Cons_conv)
  have works: "log_works 10 (sv_accounts demo_away_server) (demo_hello t)" for t
    by (simp add: log_works_def demo_away_def demo_inbound_env_def demo_inbound_def demo_away_server_def FindByAddress_def)
  have "10 \<le> ie_now (demo_away 15) - ie_now (demo_away 5)"
  proof (rule replies_spaced [where before = "[]" and between = "[demo_hello 7]" and lib = demo_hash_lib and sv = demo_away_server
        and ?j1.0 = j1 and ?j2.0 = j2])
    show "\<forall>ev \<in> set ([] @ demo_hello 5 # [demo_hello 7] @ [demo_hello 15]). log_works 10 (sv_accounts demo_away_server) ev"
      using works by simp
    show "sorted (arrival_times ([] @ demo_hello 5 # [demo_hello 7] @ [demo_hello 15]))" by (simp add: demo_away_def)
  qed (use j in simp_all)
  with none arg_cong [OF r1, of length] arg_cong [OF r2, of length] show ?thesis by simp
qed

text \<open>
  One message to two spellings of the same address: each is a recipient of its own, both are checked before either is
  recorded, and the sender gets two replies at once.
\<close>

lemma one_message_two_replies:
  "map (\<lambda>j. (MailboxID j, EnvelopeTo j)) (queued_replies demo_hash_lib demo_away_server (demo_away 5)
     ((demo_inbound ''hi'')\<lparr>in_Recipients := in_Recipients (demo_inbound []) @ in_Recipients (demo_inbound []), in_RecipientAddresses := [''u@y'', ''U@y'']\<rparr>))
   = [(Some 0, ''a@x''), (Some 0, ''a@x'')]"
  by code_simp

end
