(* ===== verification/Outbound_Queue_Properties.thy ===== *)
theory Outbound_Queue_Properties
  imports Outbound_Worker_Properties
begin

text \<open>
  The queue as a machine: mail is submitted and received, several workers fetch jobs, hold their own copies, work on
  them one by one and may crash. Its invariant bounds how often and how late a job is tried;
  the history of a run lists the attempts that were really made.
\<close>

section \<open>The machine\<close>

record queue_state =
  qs_server :: server
  qs_cache :: policy_cache
  qs_held :: "outbound_job list"
  qs_now :: int

datatype queue_op =
    OpSubmit submit_env submit_input
  | OpReceive inbound_env inbound_input
  | OpFetch bool "nat \<Rightarrow> bool" string nat
  | OpWork nat worker_env
  | OpCrash nat

text \<open>
  An event is an operation and the time that passes before it (a negative one counts as none). \<open>OpWork i\<close> processes the \<open>i\<close>-th of the
  copies that workers hold, \<open>OpCrash i\<close> loses it.
\<close>

definition remove_at :: "nat \<Rightarrow> 'a list \<Rightarrow> 'a list" where
  "remove_at i xs = take i xs @ drop (Suc i) xs"

definition queue_run_step :: "worker_config \<Rightarrow> queue_state \<Rightarrow> int \<times> queue_op \<Rightarrow> queue_state" where
  "queue_run_step cfg st ev =
     (case ev of (dt, op) \<Rightarrow>
        let now = qs_now st + max 0 dt; sv = qs_server st; st1 = st\<lparr>qs_now := now\<rparr>
        in case op of
             OpSubmit env input \<Rightarrow> st1\<lparr>qs_server := snd (Submit (wc_lib cfg) env input sv)\<rparr>
           | OpReceive env input \<Rightarrow> st1\<lparr>qs_server := snd (Handle (wc_lib cfg) env input sv)\<rparr>
           | OpFetch ok busy worker limit \<Rightarrow>
               (case FetchNextReady ok busy now worker limit (sv_jobs sv) of
                  (Inl _, t) \<Rightarrow> st1\<lparr>qs_server := sv\<lparr>sv_jobs := t\<rparr>\<rparr>
                | (Inr jobs, t) \<Rightarrow> st1\<lparr>qs_server := sv\<lparr>sv_jobs := t\<rparr>, qs_held := qs_held st @ jobs\<rparr>)
           | OpWork i env \<Rightarrow>
               if i < length (qs_held st) then
                 (case processSingleJob cfg (env\<lparr>we_now := now\<rparr>) (qs_held st ! i) sv (qs_cache st) of
                    (sv', _, cache') \<Rightarrow> st1\<lparr>qs_server := sv', qs_cache := cache', qs_held := remove_at i (qs_held st)\<rparr>)
               else st1
           | OpCrash i \<Rightarrow> st1\<lparr>qs_held := remove_at i (qs_held st)\<rparr>)"

section \<open>The invariant\<close>

text \<open>A job that waits was tried at most as often as the schedule allows since it was queued; a finished one once more.\<close>

definition waiting_ok :: "int \<Rightarrow> outbound_job \<Rightarrow> bool" where
  "waiting_ok now j \<longleftrightarrow>
     CreatedAt j + min_wait (nat (Attempt j)) \<le> NextAttemptAt j \<and> NextAttemptAt j \<le> CreatedAt j + deliveryWindow
     \<and> (Status j = Sending \<longrightarrow> NextAttemptAt j \<le> now)"

definition job_ok :: "int \<Rightarrow> outbound_job \<Rightarrow> bool" where
  "job_ok now j \<longleftrightarrow> 0 \<le> Attempt j \<and> ExpiresAt j = Some (CreatedAt j + deliveryWindow)
     \<and> (case Status j of Delivered \<Rightarrow> Attempt j \<le> 18 | Bounced \<Rightarrow> Attempt j \<le> 18 | Cancelled \<Rightarrow> False | _ \<Rightarrow> waiting_ok now j)"

lemma waiting_attempts: "waiting_ok now j \<Longrightarrow> 0 \<le> Attempt j \<Longrightarrow> Attempt j \<le> 17"
proof -
  assume "waiting_ok now j" "0 \<le> Attempt j"
  then have "min_wait (nat (Attempt j)) \<le> deliveryWindow" by (auto simp: waiting_ok_def)
  from attempts_in_window [OF this] show ?thesis by simp
qed

lemma job_ok_later: "job_ok now j \<Longrightarrow> now \<le> now' \<Longrightarrow> job_ok now' j"
  by (auto simp: job_ok_def waiting_ok_def split: job_status.splits)

definition rows_ok :: "int \<Rightarrow> job_table \<Rightarrow> bool" where
  "rows_ok now t \<longleftrightarrow> distinct (map row_id (jt_rows t)) \<and> (\<forall>r \<in> set (jt_rows t). row_id r < jt_next_id t \<and> job_ok now (jr_job r))"

definition held_ok :: "int \<Rightarrow> job_table \<Rightarrow> outbound_job \<Rightarrow> bool" where
  "held_ok now t c \<longleftrightarrow> Status c = Sending \<and> job_ok now c
     \<and> (\<exists>r \<in> set (jt_rows t). row_id r = job_id c \<and> CreatedAt (jr_job r) = CreatedAt c)"

definition queue_inv :: "queue_state \<Rightarrow> bool" where
  "queue_inv st \<longleftrightarrow> rows_ok (qs_now st) (sv_jobs (qs_server st))
     \<and> (\<forall>c \<in> set (qs_held st). held_ok (qs_now st) (sv_jobs (qs_server st)) c)"

lemma fresh_job_ok: "fresh_row r \<Longrightarrow> job_ok now (jr_job r)"
  by (auto simp: fresh_row_def job_ok_def waiting_ok_def deliveryWindow_def Hour_def Minute_def Second_def)

lemma rows_ok_extends:
  assumes "rows_ok now t" "extends t t'"
  shows "rows_ok now t'"
proof -
  obtain new where new: "jt_rows t' = jt_rows t @ new" "jt_next_id t \<le> jt_next_id t'" "distinct (map row_id new)"
    "\<forall>r \<in> set new. fresh_row r \<and> jt_next_id t \<le> row_id r \<and> row_id r < jt_next_id t'"
    using assms(2) by (auto simp: extends_def)
  have "set (map row_id (jt_rows t)) \<inter> set (map row_id new) = {}"
    using assms(1) new(4) by (fastforce simp: rows_ok_def)
  with assms(1) new fresh_job_ok show ?thesis by (auto simp: rows_ok_def)
qed

lemma held_ok_extends: "held_ok now t c \<Longrightarrow> extends t t' \<Longrightarrow> held_ok now t' c"
  by (auto simp: held_ok_def extends_def)

text \<open>What a worker writes back is in order when the copy it worked on was.\<close>

lemma outcome_ok:
  assumes ok: "job_ok now c" "Status c = Sending" and factor: "4 / 5 \<le> we_factor env" and now: "we_now env = now"
    and out: "outcome_of env c job'"
  shows "job_ok now job' \<and> (Status job' = Delivered \<or> Status job' = Bounced \<or> Status job' = Deferred)"
proof -
  have c: "0 \<le> Attempt c" "waiting_ok now c" "Attempt c \<le> 17"
    using ok waiting_attempts by (auto simp: job_ok_def)
  define e where "e = CreatedAt c + deliveryWindow"
  have e: "ExpiresAt c = Some e" "e - deliveryWindow + min_wait (nat (Attempt c)) \<le> NextAttemptAt c" "NextAttemptAt c \<le> now"
    using ok c(2) by (auto simp: waiting_ok_def job_ok_def e_def)
  have att: "Attempt job' = Attempt c + 1" "ExpiresAt job' = Some e" "CreatedAt job' = CreatedAt c"
    using out e(1) by (auto simp: outcome_of_def)
  consider "Status job' = Delivered" | "Status job' = Bounced"
    | dsn where "Status job' = Deferred" "CalculateNextBackoff (we_factor env) now (Attempt c + 1) (Some e) = (NextAttemptAt job', dsn, False)"
    using out now e(1) by (auto simp: outcome_of_def)
  then show ?thesis
  proof cases
    case 3
    have next_try: "NextAttemptAt job' = now + retry_delay (we_factor env) (Attempt c + 2)" "NextAttemptAt job' \<le> e"
      using 3(2) by (auto simp: CalculateNextBackoff_def Let_def algebra_simps split: if_splits)
    have "min_delay (nat (Attempt c) + 2) \<le> retry_delay (we_factor env) (Attempt c + 2)"
      using retry_delay_min [OF factor, of "nat (Attempt c) + 2"] c(1) by (simp add: add.commute)
    moreover have "nat (Attempt c + 1) = Suc (nat (Attempt c))" using c(1) by simp
    then have "min_wait (nat (Attempt c + 1)) = min_wait (nat (Attempt c)) + min_delay (nat (Attempt c) + 2)" by simp
    ultimately have "e - deliveryWindow + min_wait (nat (Attempt c + 1)) \<le> NextAttemptAt job'"
      using next_try(1) e(2,3) by simp
    with 3(1) att c(1) next_try(2) show ?thesis by (simp add: job_ok_def waiting_ok_def e_def)
  qed (use att c in \<open>simp_all add: job_ok_def e_def\<close>)
qed

lemma rows_ok_update:
  assumes rows: "rows_ok now t" and job: "job_ok now job" and same: "\<exists>r \<in> set (jt_rows t). row_id r = job_id job \<and> CreatedAt (jr_job r) = CreatedAt job"
  shows "rows_ok now (UpdateJob ok job t)"
proof -
  have "job_ok now (jr_job (written ok job r))" if "r \<in> set (jt_rows t)" for r
  proof (cases "ok \<and> row_id r = job_id job")
    case False
    with rows that show ?thesis by (auto simp: written_def rows_ok_def)
  next
    case True
    obtain q where "q \<in> set (jt_rows t)" "row_id q = job_id job" "CreatedAt (jr_job q) = CreatedAt job" using same by blast
    moreover from this that True rows have "q = r"
      using distinct_key_eq [of row_id "jt_rows t" q r] by (simp add: rows_ok_def)
    ultimately have "CreatedAt (jr_job r) = CreatedAt job" "job_ok now (jr_job r)" using rows that by (simp_all add: rows_ok_def)
    with job True show ?thesis by (simp add: job_ok_def waiting_ok_def written_def cong: job_status.case_cong)
  qed
  with rows show ?thesis by (simp add: rows_ok_def UpdateJob_rows comp_def)
qed

lemma held_ok_update: "held_ok now t c \<Longrightarrow> held_ok now (UpdateJob ok job t) c"
  by (auto simp: held_ok_def UpdateJob_rows)

text \<open>Fetching: the claimed rows and the copies.\<close>

lemma rows_ok_fetch:
  assumes rows: "rows_ok now t" and fetch: "FetchNextReady ok busy now worker limit t = (r, t')"
  shows "rows_ok now t' \<and> (\<forall>c. held_ok now t c \<longrightarrow> held_ok now t' c)
    \<and> (case r of Inl _ \<Rightarrow> True | Inr jobs \<Rightarrow> \<forall>c \<in> set jobs. held_ok now t' c)"
proof (cases ok)
  case False
  with assms show ?thesis by (auto simp: FetchNextReady_def)
next
  case True
  define ready where "ready = ready_jobs busy now limit t"
  define f where "f = (\<lambda>r. if row_id r \<in> row_id ` set ready then claim worker now r else r)"
  have t': "t' = t\<lparr>jt_rows := map f (jt_rows t)\<rparr>" and r: "r = Inr (map (\<lambda>r. jr_job (claim worker now r)) ready)"
    using fetch True by (auto simp: FetchNextReady_def Let_def update_where_def f_def ready_def image_image)
  have key: "row_id (f r) = row_id r" "CreatedAt (jr_job (f r)) = CreatedAt (jr_job r)" for r
    by (simp_all add: f_def claim_def)
  have ready: "q \<in> set (jt_rows t) \<and> job_ready now q" if "q \<in> set ready" for q
    using that by (auto simp: ready_def ready_jobs_def dest!: in_set_takeD)
  have claimed: "job_ok now (jr_job (claim worker now q))" if "q \<in> set ready" for q
    using ready [OF that] rows
    by (auto simp: rows_ok_def job_ready_def job_ok_def waiting_ok_def claim_def split: option.splits)
  have ok_rows: "job_ok now (jr_job (f q))" if "q \<in> set (jt_rows t)" for q
  proof (cases "row_id q \<in> row_id ` set ready")
    case False
    with that rows show ?thesis by (simp add: f_def rows_ok_def)
  next
    case True
    then obtain q' where q': "q' \<in> set ready" "row_id q' = row_id q" by auto
    then have "q' = q" using ready that rows distinct_key_eq [of row_id "jt_rows t" q' q] by (simp add: rows_ok_def)
    with q' claimed show ?thesis by (auto simp: f_def)
  qed
  have "rows_ok now t'" using rows ok_rows key by (simp add: rows_ok_def t' comp_def)
  moreover have "held_ok now t' c" if "held_ok now t c" for c
    using that key by (auto simp: held_ok_def t')
  moreover have "held_ok now t' (jr_job (claim worker now q))" if "q \<in> set ready" for q
    using ready [OF that] claimed [OF that] key by (auto simp: held_ok_def t' claim_def)
  ultimately show ?thesis using r by auto
qed

lemma set_remove_at: "set (remove_at i xs) \<subseteq> set xs"
  by (auto simp: remove_at_def dest: in_set_takeD in_set_dropD)

definition factor_ok :: "int \<times> queue_op \<Rightarrow> bool" where
  "factor_ok ev = (case snd ev of OpWork _ env \<Rightarrow> 4 / 5 \<le> we_factor env | _ \<Rightarrow> True)"

lemma queue_inv_work:
  assumes rows: "rows_ok now t" and held: "held_ok now t c" and factor: "4 / 5 \<le> we_factor env" "we_now env = now"
    and worked: "worked env job' t t'" "outcome_of env c job'"
  shows "rows_ok now t' \<and> (\<forall>d. held_ok now t d \<longrightarrow> held_ok now t' d)"
proof -
  obtain t1 where ext: "extends t t1" "extends (UpdateJob (we_update_ok env) job' t1) t'" using worked(1) by (auto simp: worked_def)
  have "job_ok now job'" using outcome_ok held factor worked(2) by (auto simp: held_ok_def)
  moreover have "\<exists>r \<in> set (jt_rows t1). row_id r = job_id job' \<and> CreatedAt (jr_job r) = CreatedAt job'"
    using held_ok_extends [OF held ext(1)] worked(2) by (auto simp: held_ok_def outcome_of_def)
  ultimately have "rows_ok now (UpdateJob (we_update_ok env) job' t1)"
    using rows_ok_update rows_ok_extends [OF rows ext(1)] by blast
  then show ?thesis using rows_ok_extends ext held_ok_extends held_ok_update by blast
qed

lemma queue_inv_step:
  assumes inv: "queue_inv st" and factor: "factor_ok ev"
  shows "queue_inv (queue_run_step cfg st ev)"
proof -
  obtain dt op where ev: "ev = (dt, op)" by fastforce
  define now where "now = qs_now st + max 0 dt"
  let ?t = "sv_jobs (qs_server st)"
  have later: "qs_now st \<le> now" by (simp add: now_def)
  have rows: "rows_ok now ?t" using inv job_ok_later [OF _ later] by (auto simp: queue_inv_def rows_ok_def)
  have held: "held_ok now ?t c" if "c \<in> set (qs_held st)" for c
    using inv that job_ok_later [OF _ later] by (auto simp: queue_inv_def held_ok_def)
  show ?thesis
  proof (cases op)
    case (OpSubmit env input)
    have "extends ?t (sv_jobs (snd (Submit (wc_lib cfg) env input (qs_server st))))" by (rule Submit_extends)
    with OpSubmit ev rows held rows_ok_extends held_ok_extends show ?thesis
      by (simp add: queue_run_step_def queue_inv_def flip: now_def) blast
  next
    case (OpReceive env input)
    have "extends ?t (sv_jobs (snd (Handle (wc_lib cfg) env input (qs_server st))))" by (rule Handle_extends)
    with OpReceive ev rows held rows_ok_extends held_ok_extends show ?thesis
      by (simp add: queue_run_step_def queue_inv_def flip: now_def) blast
  next
    case (OpFetch ok busy worker limit)
    obtain r t' where f: "FetchNextReady ok busy now worker limit ?t = (r, t')" by fastforce
    from rows_ok_fetch [OF rows f] held OpFetch ev f show ?thesis
      by (cases r) (auto simp: queue_run_step_def queue_inv_def simp flip: now_def)
  next
    case (OpWork i env)
    show ?thesis
    proof (cases "i < length (qs_held st)")
      case False
      with OpWork ev rows held show ?thesis by (simp add: queue_run_step_def queue_inv_def flip: now_def)
    next
      case True
      define env' where "env' = env\<lparr>we_now := now\<rparr>"
      obtain sv' trace cache' where p: "processSingleJob cfg env' (qs_held st ! i) (qs_server st) (qs_cache st) = (sv', trace, cache')"
        by (metis prod.exhaust)
      obtain job' where w: "worked env' job' ?t (sv_jobs sv')" "outcome_of env' (qs_held st ! i) job'"
        using process_worked [OF p] by blast
      have "4 / 5 \<le> we_factor env'" "we_now env' = now" using factor OpWork ev by (simp_all add: env'_def factor_ok_def)
      from queue_inv_work [OF rows held this w] True have "rows_ok now (sv_jobs sv')" "held_ok now ?t d \<Longrightarrow> held_ok now (sv_jobs sv') d" for d
        by auto
      with OpWork ev True p held show ?thesis
        by (auto simp: queue_run_step_def queue_inv_def env'_def simp flip: now_def dest: subsetD [OF set_remove_at])
    qed
  next
    case (OpCrash i)
    with ev rows held show ?thesis
      by (auto simp: queue_run_step_def queue_inv_def simp flip: now_def dest: subsetD [OF set_remove_at])
  qed
qed

lemma queue_inv_run: "queue_inv st \<Longrightarrow> list_all factor_ok evs \<Longrightarrow> queue_inv (foldl (queue_run_step cfg) st evs)"
  by (induction evs arbitrary: st) (auto intro: queue_inv_step)

section \<open>Counting attempts\<close>

text \<open>
  What an event does to a job: a worker makes an attempt at it (\<^const>\<open>True\<close> when the result is written to the
  table), or the worker crashes with it, during the attempt or before. The list of all of a run is its history.
\<close>

definition attempts_of :: "queue_state \<Rightarrow> int \<times> queue_op \<Rightarrow> (nat \<times> bool) list" where
  "attempts_of st ev =
     (case snd ev of
        OpWork i env \<Rightarrow> if i < length (qs_held st) then [(job_id (qs_held st ! i), we_update_ok env)] else []
      | OpCrash i \<Rightarrow> if i < length (qs_held st) then [(job_id (qs_held st ! i), False)] else []
      | _ \<Rightarrow> [])"

fun history :: "worker_config \<Rightarrow> queue_state \<Rightarrow> (int \<times> queue_op) list \<Rightarrow> (nat \<times> bool) list" where
  "history cfg st [] = []"
| "history cfg st (ev # evs) = attempts_of st ev @ history cfg (queue_run_step cfg st ev) evs"

text \<open>No worker is overtaken: at no time do two workers hold the same job.\<close>

fun not_overtaken :: "worker_config \<Rightarrow> queue_state \<Rightarrow> (int \<times> queue_op) list \<Rightarrow> bool" where
  "not_overtaken cfg st [] = distinct (map job_id (qs_held st))"
| "not_overtaken cfg st (ev # evs) =
     (distinct (map job_id (qs_held st)) \<and> not_overtaken cfg (queue_run_step cfg st ev) evs)"

abbreviation attempts_at :: "nat \<Rightarrow> (nat \<times> bool) list \<Rightarrow> nat" where
  "attempts_at n h \<equiv> length (filter (\<lambda>a. fst a = n) h)"

abbreviation lost_attempts :: "nat \<Rightarrow> (nat \<times> bool) list \<Rightarrow> nat" where
  "lost_attempts n h \<equiv> count_list h (n, False)"

lemma attempts_split: "attempts_at n h = count_list h (n, True) + lost_attempts n h"
  by (induction h) auto

text \<open>The counter of a job's row is the number of attempts that were written, and that of a held copy is the row's.\<close>

definition counted :: "(nat \<times> bool) list \<Rightarrow> queue_state \<Rightarrow> bool" where
  "counted h st \<longleftrightarrow>
     (\<forall>r \<in> set (jt_rows (sv_jobs (qs_server st))). Attempt (jr_job r) = int (count_list h (row_id r, True)))
     \<and> (\<forall>c \<in> set (qs_held st). Attempt c = int (count_list h (job_id c, True)))
     \<and> (\<forall>a \<in> set h. fst a < jt_next_id (sv_jobs (qs_server st)))"

lemma counted_extends:
  assumes "counted h st" "extends (sv_jobs (qs_server st)) (sv_jobs sv')"
  shows "counted h (st\<lparr>qs_now := now, qs_server := sv'\<rparr>)"
proof -
  obtain new where new: "jt_rows (sv_jobs sv') = jt_rows (sv_jobs (qs_server st)) @ new"
    "jt_next_id (sv_jobs (qs_server st)) \<le> jt_next_id (sv_jobs sv')"
    "\<forall>r \<in> set new. fresh_row r \<and> jt_next_id (sv_jobs (qs_server st)) \<le> row_id r"
    using assms(2) by (auto simp: extends_def)
  have "count_list h (row_id r, True) = 0" if "r \<in> set new" for r
    using assms(1) new(3) that by (fastforce simp: counted_def count_list_0_iff)
  with assms(1) new show ?thesis by (auto simp: counted_def fresh_row_def)
qed

lemma counted_fetch:
  assumes "counted h st" "FetchNextReady ok busy now worker limit (sv_jobs (qs_server st)) = (r, t')"
  shows "counted h (st\<lparr>qs_now := later, qs_server := (qs_server st)\<lparr>sv_jobs := t'\<rparr>,
    qs_held := qs_held st @ (case r of Inl _ \<Rightarrow> [] | Inr jobs \<Rightarrow> jobs)\<rparr>)"
proof (cases ok)
  case False
  with assms show ?thesis by (auto simp: FetchNextReady_def counted_def)
next
  case True
  define t where "t = sv_jobs (qs_server st)"
  define ready where "ready = ready_jobs busy now limit t"
  have r: "r = Inr (map (\<lambda>r. jr_job (claim worker now r)) ready)"
    and t': "jt_next_id t' = jt_next_id t" "set (jt_rows t') \<subseteq> set (jt_rows t) \<union> claim worker now ` set (jt_rows t)"
    using assms(2) True by (auto simp: FetchNextReady_def Let_def ready_def t_def set_update_where)
  have ready: "q \<in> set (jt_rows t)" if "q \<in> set ready" for q
    using that by (auto simp: ready_def ready_jobs_def dest!: in_set_takeD)
  have same: "Attempt (jr_job (claim worker now q)) = Attempt (jr_job q)" "row_id (claim worker now q) = row_id q" for q
    by (simp_all add: claim_def)
  have row: "Attempt (jr_job q) = int (count_list h (row_id q, True))" if "q \<in> set (jt_rows t)" for q
    using assms(1) that by (simp add: counted_def t_def)
  have "Attempt (jr_job q) = int (count_list h (row_id q, True))" if "q \<in> set (jt_rows t')" for q
    using subsetD [OF t'(2) that] row same by auto
  moreover have "Attempt c = int (count_list h (job_id c, True))" if "c \<in> (\<lambda>r. jr_job (claim worker now r)) ` set ready" for c
    using that ready row same by auto
  ultimately show ?thesis using assms(1) r t'(1) by (auto simp: counted_def t_def)
qed

lemma nth_not_removed:
  assumes "distinct (map f xs)" "i < length xs" "x \<in> set (remove_at i xs)"
  shows "f x \<noteq> f (xs ! i)"
proof -
  have "map f xs = map f (take i xs) @ f (xs ! i) # map f (drop (Suc i) xs)"
    by (subst id_take_nth_drop [OF assms(2)]) simp
  with assms(1) have "f (xs ! i) \<notin> set (map f (take i xs)) \<union> set (map f (drop (Suc i) xs))" by simp
  moreover have "f x \<in> set (map f (take i xs)) \<union> set (map f (drop (Suc i) xs))"
    using assms(3) by (auto simp: remove_at_def)
  ultimately show ?thesis by (intro notI) simp
qed

lemma counted_work:
  assumes counted: "counted h st" and i: "i < length (qs_held st)" and distinct: "distinct (map job_id (qs_held st))"
    and known: "job_id (qs_held st ! i) < jt_next_id (sv_jobs (qs_server st))"
    and worked: "worked env job' (sv_jobs (qs_server st)) (sv_jobs sv')" "outcome_of env (qs_held st ! i) job'"
  shows "counted (h @ [(job_id (qs_held st ! i), we_update_ok env)])
    (st\<lparr>qs_now := now, qs_server := sv', qs_cache := cache', qs_held := remove_at i (qs_held st)\<rparr>)"
proof -
  let ?c = "qs_held st ! i" and ?t = "sv_jobs (qs_server st)"
  let ?h = "h @ [(job_id ?c, we_update_ok env)]"
  have job': "job_id job' = job_id ?c" "Attempt job' = Attempt ?c + 1" using worked(2) by (simp_all add: outcome_of_def)
  have c: "Attempt ?c = int (count_list h (job_id ?c, True))" using counted i by (simp add: counted_def)
  obtain new where new: "jt_rows (sv_jobs sv') = map (written (we_update_ok env) job') (jt_rows ?t) @ new"
    "\<forall>r \<in> set new. fresh_row r \<and> jt_next_id ?t \<le> row_id r"
    using worked_rows [OF worked(1)] known job' by auto
  have ids: "jt_next_id ?t \<le> jt_next_id (sv_jobs sv')"
    using worked(1) by (auto simp: worked_def extends_def UpdateJob_rows)
  have old: "Attempt (jr_job (written (we_update_ok env) job' r)) = int (count_list ?h (row_id r, True))"
    if "r \<in> set (jt_rows ?t)" for r
    using counted that c job' by (auto simp: counted_def written_def)
  have "Attempt (jr_job r) = int (count_list ?h (row_id r, True))" if "r \<in> set new" for r
  proof -
    have "row_id r \<notin> fst ` set h" "row_id r \<noteq> job_id ?c"
      using counted new(2) that known by (force simp: counted_def)+
    then have "count_list ?h (row_id r, True) = 0" by (force simp: count_list_0_iff)
    with new(2) that show ?thesis by (simp add: fresh_row_def)
  qed
  moreover have "Attempt d = int (count_list ?h (job_id d, True))" if "d \<in> set (remove_at i (qs_held st))" for d
    using counted nth_not_removed [OF distinct i that] subsetD [OF set_remove_at that] by (auto simp: counted_def)
  moreover have "\<forall>a \<in> set ?h. fst a < jt_next_id (sv_jobs sv')"
    using counted known ids by (fastforce simp: counted_def)
  ultimately show ?thesis using old new(1) unfolding counted_def by (auto simp del: count_list_append)
qed

lemma counted_step:
  assumes inv: "queue_inv st" and counted: "counted h st" and distinct: "distinct (map job_id (qs_held st))"
  shows "counted (h @ attempts_of st ev) (queue_run_step cfg st ev)"
proof -
  obtain dt op where ev: "ev = (dt, op)" by fastforce
  have known: "job_id c < jt_next_id (sv_jobs (qs_server st))" if "c \<in> set (qs_held st)" for c
  proof -
    from inv that have "held_ok (qs_now st) (sv_jobs (qs_server st)) c" by (simp add: queue_inv_def)
    then obtain r where "r \<in> set (jt_rows (sv_jobs (qs_server st)))" "row_id r = job_id c" by (auto simp: held_ok_def)
    with inv show ?thesis by (fastforce simp: queue_inv_def rows_ok_def)
  qed
  show ?thesis
  proof (cases op)
    case (OpSubmit env input)
    with ev counted_extends [OF counted Submit_extends] show ?thesis by (simp add: queue_run_step_def attempts_of_def Let_def)
  next
    case (OpReceive env input)
    with ev counted_extends [OF counted Handle_extends] show ?thesis by (simp add: queue_run_step_def attempts_of_def Let_def)
  next
    case (OpFetch ok busy worker limit)
    define now where "now = qs_now st + max 0 dt"
    obtain r t' where f: "FetchNextReady ok busy now worker limit (sv_jobs (qs_server st)) = (r, t')" by fastforce
    from counted_fetch [OF counted f, of now] OpFetch ev f show ?thesis
      by (cases r) (simp_all add: queue_run_step_def attempts_of_def Let_def flip: now_def)
  next
    case (OpWork i env)
    show ?thesis
    proof (cases "i < length (qs_held st)")
      case False
      with OpWork ev counted show ?thesis by (simp add: queue_run_step_def attempts_of_def counted_def Let_def)
    next
      case True
      define env' where "env' = env\<lparr>we_now := qs_now st + max 0 dt\<rparr>"
      obtain sv' trace cache' where p: "processSingleJob cfg env' (qs_held st ! i) (qs_server st) (qs_cache st) = (sv', trace, cache')"
        by (metis prod.exhaust)
      obtain job' where w: "worked env' job' (sv_jobs (qs_server st)) (sv_jobs sv')" "outcome_of env' (qs_held st ! i) job'"
        using process_worked [OF p] by blast
      have "we_update_ok env' = we_update_ok env" by (simp add: env'_def)
      with counted_work [OF counted True distinct _ w] known True OpWork ev p show ?thesis
        by (simp add: queue_run_step_def attempts_of_def Let_def env'_def)
    qed
  next
    case (OpCrash i)
    with ev counted known show ?thesis
      by (auto simp: queue_run_step_def attempts_of_def counted_def Let_def dest: subsetD [OF set_remove_at])
  qed
qed

lemma counted_run:
  "queue_inv st \<Longrightarrow> counted h st \<Longrightarrow> list_all factor_ok evs \<Longrightarrow> not_overtaken cfg st evs \<Longrightarrow>
     counted (h @ history cfg st evs) (foldl (queue_run_step cfg) st evs)"
proof (induction evs arbitrary: h st)
  case (Cons ev evs)
  have "counted (h @ attempts_of st ev) (queue_run_step cfg st ev)"
    using Cons.prems counted_step by simp
  with Cons.IH [of "queue_run_step cfg st ev" "h @ attempts_of st ev"] Cons.prems queue_inv_step show ?case by simp
qed simp

section \<open>Every job ends\<close>

text \<open>
  C35. Delivery is attempted a bounded number of times in a bounded time. Whatever happens to a queue that starts empty
  (submissions, arriving mail, any number of workers that fetch, hold and process jobs in any order,
  overtake each other or crash, peers and statements that fail), as long as the random factor of the delays is
  at least 4/5: the row of a job counts at most 18 attempts, it expires five days after it was created, and a job that
  still waits counts at most 17, is due no later than that expiry, and was given at least the delays
  of the schedule between the attempts it counts. As long as moreover no worker is overtaken (no two hold the
  same job at a time), the counter is right: the attempts that were really made at a job
  are those its row counts, so at most 18, and those that were lost because the worker crashed or
  its update failed. Such a lost attempt leaves no trace in the table: it is made again when the lock ends, so their number
  has no bound.
\<close>

theorem attempts_bounded:
  assumes "jt_rows (sv_jobs sv) = []" "list_all factor_ok evs"
    and "start = \<lparr>qs_server = sv, qs_cache = cache, qs_held = [], qs_now = now\<rparr>"
    and "r \<in> set (jt_rows (sv_jobs (qs_server (foldl (queue_run_step cfg) start evs))))"
  shows "Attempt (jr_job r) \<le> 18 \<and> ExpiresAt (jr_job r) = Some (CreatedAt (jr_job r) + deliveryWindow)
    \<and> (Status (jr_job r) = Queued \<or> Status (jr_job r) = Sending \<or> Status (jr_job r) = Deferred \<longrightarrow>
         Attempt (jr_job r) \<le> 17
         \<and> CreatedAt (jr_job r) + min_wait (nat (Attempt (jr_job r))) \<le> NextAttemptAt (jr_job r)
         \<and> NextAttemptAt (jr_job r) \<le> CreatedAt (jr_job r) + deliveryWindow)
    \<and> (not_overtaken cfg start evs \<longrightarrow>
         int (attempts_at (row_id r) (history cfg start evs))
           = Attempt (jr_job r) + int (lost_attempts (row_id r) (history cfg start evs)))"
proof -
  have inv: "queue_inv start" and none: "counted [] start"
    using assms(1,3) by (simp_all add: queue_inv_def rows_ok_def counted_def)
  from queue_inv_run [OF inv assms(2)] assms(4) obtain now' where ok: "job_ok now' (jr_job r)"
    by (auto simp: queue_inv_def rows_ok_def)
  have "int (attempts_at (row_id r) (history cfg start evs))
      = Attempt (jr_job r) + int (lost_attempts (row_id r) (history cfg start evs))" if "not_overtaken cfg start evs"
  proof -
    from counted_run [OF inv none assms(2) that] assms(4)
    have "Attempt (jr_job r) = int (count_list (history cfg start evs) (row_id r, True))" by (simp add: counted_def)
    then show ?thesis by (simp add: attempts_split)
  qed
  then show ?thesis
    using ok waiting_attempts [of now' "jr_job r"] by (auto simp: job_ok_def waiting_ok_def split: job_status.splits)
qed

text \<open>
  A job that is fetched at once and fails against a peer that refuses connections; the update of that attempt fails.
  After the lock it is fetched and tried again, and deferred: two attempts, of which the row counts one.
\<close>

definition demo_events :: "(int \<times> queue_op) list" where
  "demo_events =
     (let refusing = demo_worker_env (demo_peer\<lparr>p_connects := False\<rparr>)
      in [(0, OpSubmit (demo_submit_env 3) (demo_submit [''x@y''])), (1, OpFetch True (\<lambda>_. False) ''w'' 9),
          (1, OpWork 0 (refusing\<lparr>we_update_ok := False\<rparr>)), (301 * 1000000000, OpFetch True (\<lambda>_. False) ''w'' 9),
          (1, OpWork 0 refusing)])"

definition demo_start :: queue_state where
  "demo_start = \<lparr>qs_server = demo_server, qs_cache = Map.empty, qs_held = [], qs_now = 3\<rparr>"

theorem attempts_bounded_witness:
  "let st = foldl (queue_run_step demo_worker_config) demo_start demo_events; js = map jr_job (jt_rows (sv_jobs (qs_server st)))
   in map Status js = [Deferred] \<and> map Attempt js = [1] \<and> list_all (\<lambda>j. Attempt j \<le> 17) js
      \<and> attempts_at 0 (history demo_worker_config demo_start demo_events) = 2"
proof -
  let ?st = "foldl (queue_run_step demo_worker_config) demo_start demo_events"
  have run: "map (\<lambda>r. (row_id r, Status (jr_job r), Attempt (jr_job r))) (jt_rows (sv_jobs (qs_server ?st))) = [(0, Deferred, 1)]" by code_simp
  have lost: "history demo_worker_config demo_start demo_events = [(0, False), (0, True)]" by code_simp
  have once: "not_overtaken demo_worker_config demo_start demo_events" by code_simp
  have empty: "jt_rows (sv_jobs demo_server) = []" by (simp add: demo_server_def)
  have factors: "list_all factor_ok demo_events" by (simp add: factor_ok_def demo_worker_env_def demo_events_def Let_def)
  from run obtain r where r: "jt_rows (sv_jobs (qs_server ?st)) = [r]" "row_id r = 0" "Status (jr_job r) = Deferred" "Attempt (jr_job r) = 1"
    by (auto simp: map_eq_Cons_conv)
  then have "Attempt (jr_job r) \<le> 17"
    "int (attempts_at 0 (history demo_worker_config demo_start demo_events)) = 1 + int (lost_attempts 0 (history demo_worker_config demo_start demo_events))"
    using attempts_bounded [OF empty factors demo_start_def, of r demo_worker_config] once by simp_all
  with r lost show ?thesis by (simp add: Let_def)
qed

section \<open>A slow worker\<close>

text \<open>
  A lock lasts five minutes from the fetch and \<^verbatim>\<open>UpdateJob\<close> does not ask whose it is: a worker that
  takes longer than that is overtaken by another one, and its late answer then replaces the other's. Here the job
  has been delivered by the second worker and is queued again by the first.
\<close>

lemma late_worker_requeues_delivered_job:
  "let st0 = \<lparr>qs_server = demo_server, qs_cache = Map.empty, qs_held = [], qs_now = 3\<rparr>;
     evs = [(0, OpSubmit (demo_submit_env 3) (demo_submit [''x@y''])), (1, OpFetch True (\<lambda>_. False) ''w1'' 9),
        (301 * 1000000000, OpFetch True (\<lambda>_. False) ''w2'' 9), (1, OpWork 1 (demo_worker_env demo_peer))];
     late = (1, OpWork 0 (demo_worker_env (demo_peer\<lparr>p_connects := False\<rparr>)));
     status = (\<lambda>st. map (\<lambda>r. Status (jr_job r)) (jt_rows (sv_jobs (qs_server st))))
   in status (foldl (queue_run_step demo_worker_config) st0 evs) = [Delivered]
      \<and> status (foldl (queue_run_step demo_worker_config) st0 (evs @ [late])) = [Deferred]"
  by code_simp

end
