(* ===== verification/DNS_Records.thy ===== *)
theory DNS_Records
  imports TLS_Policy
begin

text \<open>
  The DNS records a mail domain needs (\<^verbatim>\<open>domain/entity/dns_record.go\<close>): which records the
  zone of a domain must hold, given the keys, the addresses and the optional features of the server,
  and when a published record counts as the wanted one. SHA-256 is the parameter \<open>sha256\<close>.

  An identifier is the opaque text the DNS provider gives a record; a wanted record has none.
\<close>

record DnsRecord =
  ID :: string
  Type :: string
  Name :: string
  Value :: string
  TTL :: int
  Priority :: "int option"
  Proxied :: bool
  Comment :: string

record DnsRecordSpec =
  DomainName :: string
  MailHost :: string
  ServerIPv4 :: string
  ServerIPv6 :: string
  RsaDkimPubKey :: string
  EdDkimPubKey :: string
  TlsaHashes :: "string list"
  DaneEnabled :: bool
  RelaySpfInclude :: string
  BimiLogoURL :: string
  BimiVmcURL :: string

abbreviation record_of :: "string \<Rightarrow> string \<Rightarrow> string \<Rightarrow> int option \<Rightarrow> bool \<Rightarrow> string \<Rightarrow> DnsRecord" where
  "record_of type name val prio prox comment \<equiv>
     \<lparr>ID = [], Type = type, Name = name, Value = val, TTL = 1, Priority = prio, Proxied = prox, Comment = comment\<rparr>"

text \<open>\<^verbatim>\<open>%016x\<close> of the first eight bytes of the digest, read as a big-endian number, is their hex form.\<close>

definition mtaStsPolicyID :: "(string \<Rightarrow> string) \<Rightarrow> string \<Rightarrow> string \<Rightarrow> string" where
  "mtaStsPolicyID sha256 domainName mailHost =
     hex_EncodeToString (take 8 (sha256 (domainName @ CHR 0x00 # mailHost)))"

definition hostInsideDomain :: "string \<Rightarrow> string \<Rightarrow> bool" where
  "hostInsideDomain host0 domain0 =
     (let host = ToLower (TrimSuffix (TrimSpace host0) ''.''); domain = ToLower (TrimSuffix (TrimSpace domain0) ''.'')
      in if host = [] \<or> domain = [] then False
         else host = domain \<or> HasSuffix host (''.'' @ domain))"

definition buildSpfRecord :: "string \<Rightarrow> string \<Rightarrow> string" where
  "buildSpfRecord mailHost relayInclude =
     (let mechanisms = [''v=spf1'', ''mx'', ''a:'' @ mailHost];
          mechanisms = (if relayInclude \<noteq> [] then mechanisms @ [relayInclude] else mechanisms)
      in Join (mechanisms @ [''-all'']) '' '')"

definition BimiRecordValue :: "string \<Rightarrow> string \<Rightarrow> string" where
  "BimiRecordValue logoURL certificateURL =
     (if logoURL = [] then []
      else if certificateURL \<noteq> [] then ''v=BIMI1; l='' @ logoURL @ ''; a='' @ certificateURL @ '';''
      else ''v=BIMI1; l='' @ logoURL @ '';'')"

text \<open>The records every domain gets, in the order of the code.\<close>

definition base_records :: "(string \<Rightarrow> string) \<Rightarrow> string \<Rightarrow> string \<Rightarrow> string \<Rightarrow> DnsRecord list" where
  "base_records sha256 domain mailHost relay =
     [record_of ''MX'' domain mailHost (Some 10) False ''LambdaMail Primary MX Record'',
      record_of ''TXT'' domain (buildSpfRecord mailHost relay) None False ''LambdaMail SPF Record'',
      record_of ''TXT'' (''_dmarc.'' @ domain)
        (''v=DMARC1; p=quarantine; rua=mailto:dmarc@'' @ domain @ ''; ruf=mailto:dmarc@'' @ domain @ ''; fo=1; adkim=s; aspf=s'')
        None False ''LambdaMail DMARC Policy'',
      record_of ''TXT'' (''_mta-sts.'' @ domain) (''v=STSv1; id='' @ mtaStsPolicyID sha256 domain mailHost)
        None False ''LambdaMail MTA-STS Policy Version'',
      record_of ''CNAME'' (''mta-sts.'' @ domain) mailHost None True ''LambdaMail MTA-STS Endpoint'',
      record_of ''TXT'' (''_smtp._tls.'' @ domain) (''v=TLSRPTv1; rua=mailto:tlsrpt@'' @ domain)
        None False ''LambdaMail TLS Reporting Destination'',
      record_of ''SRV'' (''_imaps._tcp.'' @ domain) (''0 1 993 '' @ mailHost) (Some 0) False ''LambdaMail IMAPS Autoconfig'',
      record_of ''SRV'' (''_submissions._tcp.'' @ domain) (''0 1 465 '' @ mailHost) (Some 0) False ''LambdaMail Submissions Autoconfig'',
      record_of ''SRV'' (''_pop3s._tcp.'' @ domain) (''0 0 995 '' @ mailHost) (Some 0) False ''LambdaMail POP3S Autoconfig'',
      record_of ''CNAME'' (''autoconfig.'' @ domain) mailHost None True ''LambdaMail Thunderbird Autoconfig Endpoint'',
      record_of ''SRV'' (''_autodiscover._tcp.'' @ domain) (''0 0 443 '' @ mailHost) (Some 0) False ''LambdaMail Outlook Autodiscover'']"

definition tlsa_records :: "string \<Rightarrow> string list \<Rightarrow> DnsRecord list" where
  "tlsa_records mailHost hashes =
     map (\<lambda>hash. record_of ''TLSA'' (''_25._tcp.'' @ mailHost) (''3 1 1 '' @ hash) None False ''LambdaMail DANE TLSA Record'')
       (filter (\<lambda>hash. hash \<noteq> []) hashes)"

definition BuildDnsRecordSpecs :: "(string \<Rightarrow> string) \<Rightarrow> DnsRecordSpec \<Rightarrow> DnsRecord list" where
  "BuildDnsRecordSpecs sha256 spec =
     (let domain = DomainName spec;
          mailHost = (if MailHost spec = [] then ''mail.'' @ domain else MailHost spec);
          ownsMailHost = hostInsideDomain mailHost domain
      in base_records sha256 domain mailHost (RelaySpfInclude spec)
         @ (if RsaDkimPubKey spec \<noteq> []
            then [record_of ''TXT'' (''default._domainkey.'' @ domain) (''v=DKIM1; k=rsa; p='' @ RsaDkimPubKey spec) None False ''LambdaMail RSA DKIM Key'']
            else [])
         @ (if EdDkimPubKey spec \<noteq> []
            then [record_of ''TXT'' (''default-ed._domainkey.'' @ domain) (''v=DKIM1; k=ed25519; p='' @ EdDkimPubKey spec) None False ''LambdaMail Ed25519 DKIM Key'']
            else [])
         @ (if ownsMailHost
            then [record_of ''A'' mailHost (ServerIPv4 spec) None False ''LambdaMail Mail Host A Record'']
            else [])
         @ (if BimiLogoURL spec \<noteq> []
            then [record_of ''TXT'' (''default._bimi.'' @ domain) (BimiRecordValue (BimiLogoURL spec) (BimiVmcURL spec)) None False ''LambdaMail BIMI Record'']
            else [])
         @ (if ownsMailHost \<and> ServerIPv6 spec \<noteq> []
            then [record_of ''AAAA'' mailHost (ServerIPv6 spec) None False ''LambdaMail Mail Host AAAA Record'']
            else [])
         @ (if ownsMailHost \<and> DaneEnabled spec then tlsa_records mailHost (TlsaHashes spec) else []))"

definition EqualsNormalized :: "DnsRecord \<Rightarrow> DnsRecord \<Rightarrow> bool" where
  "EqualsNormalized r other \<longleftrightarrow>
     Type r = Type other \<and> EqualFold (Name r) (Name other) \<and> TrimSpace (Value r) = TrimSpace (Value other)
     \<and> Proxied r = Proxied other \<and> Priority r = Priority other"

lemma EqualsNormalized_refl [simp]: "EqualsNormalized r r"
  by (simp add: EqualsNormalized_def)

section \<open>Keys\<close>

text \<open>\<^verbatim>\<open>recordKey\<close> of \<^verbatim>\<open>application/usecase/sync_dns_records.go\<close>: records with one key share a type and a name.\<close>

definition recordKey :: "string \<Rightarrow> string \<Rightarrow> string" where
  "recordKey recType name = ToUpper recType @ '':'' @ ToLower (TrimSuffix name ''.'')"

abbreviation key_of :: "DnsRecord \<Rightarrow> string" where
  "key_of r \<equiv> recordKey (Type r) (Name r)"

lemma TrimSuffix_dot_append: "s \<noteq> [] \<Longrightarrow> TrimSuffix (p @ s) ''.'' = p @ TrimSuffix s ''.''"
  by (cases s rule: rev_cases) (auto simp: TrimSuffix_def HasSuffix_def)

lemma recordKey_eq:
  "recordKey t n = recordKey t' n' \<longleftrightarrow>
     ToUpper t @ '':'' @ ToLower (TrimSuffix n ''.'') = ToUpper t' @ '':'' @ ToLower (TrimSuffix n' ''.'')"
  by (simp add: recordKey_def)

text \<open>The types the records have, in capitals and without a colon, so that a key determines its type.\<close>

definition known_types :: "string set" where
  "known_types = {''MX'', ''TXT'', ''CNAME'', ''SRV'', ''A'', ''AAAA'', ''TLSA''}"

lemma recordKey_known:
  assumes "t \<in> known_types" "t' \<in> known_types"
  shows "recordKey t n = recordKey t' n' \<longleftrightarrow> t = t' \<and> ToLower (TrimSuffix n ''.'') = ToLower (TrimSuffix n' ''.'')"
  using assms by (auto simp: known_types_def recordKey_def ToUpper_def ToUpperChar_def)

text \<open>
  No two records wanted for a domain share a key, as long as at most one TLSA association is wanted:
  the records of one type have names with different prefixes before the domain. The signature of a
  record is its type and that prefix.
\<close>

definition host_types :: "string list" where
  "host_types = [''A'', ''AAAA'', ''TLSA'']"

definition signature :: "string \<Rightarrow> DnsRecord \<Rightarrow> string \<times> string" where
  "signature d r = (Type r, if Type r \<in> set host_types then [] else ToLower (take (length (Name r) - length d) (Name r)))"

definition below_domain :: "string \<Rightarrow> DnsRecord \<Rightarrow> bool" where
  "below_domain d r \<longleftrightarrow> Type r \<in> known_types
     \<and> (Type r \<in> set host_types \<or> drop (length (Name r) - length d) (Name r) = d)"

lemma key_signature:
  assumes "d \<noteq> []" "below_domain d r" "below_domain d r'" "key_of r = key_of r'"
  shows "signature d r = signature d r'"
proof -
  have split: "Name x = take (length (Name x) - length d) (Name x) @ d"
    if "below_domain d x" "Type x \<notin> set host_types" for x
    using that append_take_drop_id [of "length (Name x) - length d" "Name x"] by (simp add: below_domain_def)
  have eq: "Type r = Type r'" "ToLower (TrimSuffix (Name r) ''.'') = ToLower (TrimSuffix (Name r') ''.'')"
    using assms(2-4) recordKey_known by (auto simp: below_domain_def)
  show ?thesis
  proof (cases "Type r \<in> set host_types")
    case False
    then have "ToLower (TrimSuffix (take (length (Name r) - length d) (Name r) @ d) ''.'')
             = ToLower (TrimSuffix (take (length (Name r') - length d) (Name r') @ d) ''.'')"
      using eq split [OF assms(2)] split [OF assms(3)] by simp
    then have "ToLower (take (length (Name r) - length d) (Name r)) = ToLower (take (length (Name r') - length d) (Name r'))"
      using assms(1) by (simp add: TrimSuffix_dot_append)
    then show ?thesis using eq(1) by (simp add: signature_def)
  qed (use eq(1) in \<open>simp add: signature_def\<close>)
qed

lemma distinct_keys_by_signature:
  assumes "d \<noteq> []" "list_all (below_domain d) rs" "distinct (map (signature d) rs)"
  shows "distinct (map key_of rs)"
  using assms(2,3)
proof (induction rs)
  case (Cons r rs)
  have "key_of r \<noteq> key_of x" if "x \<in> set rs" for x
  proof
    assume "key_of r = key_of x"
    then have "signature d r = signature d x"
      using Cons.prems(1) that assms(1) by (intro key_signature) (auto simp: list_all_iff)
    then show False using Cons.prems(2) that by auto
  qed
  then show ?case using Cons by auto
qed simp

lemma drop_stem [simp]: "drop (length s - length s) s = s" by simp

lemma base_below: "list_all (below_domain d) (base_records sha256 d h relay)"
  by (simp add: base_records_def below_domain_def known_types_def)

lemma base_signatures:
  "map (signature d) (base_records sha256 d h relay) =
     [(''MX'', []), (''TXT'', []), (''TXT'', ''_dmarc.''), (''TXT'', ''_mta-sts.''), (''CNAME'', ''mta-sts.''),
      (''TXT'', ''_smtp._tls.''), (''SRV'', ''_imaps._tcp.''), (''SRV'', ''_submissions._tcp.''), (''SRV'', ''_pop3s._tcp.''),
      (''CNAME'', ''autoconfig.''), (''SRV'', ''_autodiscover._tcp.'')]"
  by (simp add: base_records_def signature_def host_types_def ToLower_def ToLowerChar_def)

definition opt :: "bool \<Rightarrow> 'a \<Rightarrow> 'a list" where
  "opt b x = (if b then [x] else [])"

lemma wanted_signatures:
  assumes "filter (\<lambda>h. h \<noteq> []) (TlsaHashes spec) = (if b then [h] else [])"
  shows "\<exists>b1 b2 b3 b4 b5 b6. map (signature (DomainName spec)) (BuildDnsRecordSpecs sha256 spec) =
     map (signature (DomainName spec)) (base_records sha256 (DomainName spec)
       (if MailHost spec = [] then ''mail.'' @ DomainName spec else MailHost spec) (RelaySpfInclude spec))
     @ opt b1 (''TXT'', ''default._domainkey.'') @ opt b2 (''TXT'', ''default-ed._domainkey.'') @ opt b3 (''A'', [])
     @ opt b4 (''TXT'', ''default._bimi.'') @ opt b5 (''AAAA'', []) @ opt b6 (''TLSA'', [])"
proof -
  define h where "h = (if MailHost spec = [] then ''mail.'' @ DomainName spec else MailHost spec)"
  have mh: "(if MailHost spec = [] then ''mail.'' @ DomainName spec else MailHost spec) = h"
    by (simp add: h_def)
  have sig:
    "map (signature (DomainName spec)) (if c then [record_of ''TXT'' (''default._domainkey.'' @ DomainName spec) v None False m] else [])
      = opt c (''TXT'', ''default._domainkey.'')"
    "map (signature (DomainName spec)) (if c then [record_of ''TXT'' (''default-ed._domainkey.'' @ DomainName spec) v None False m] else [])
      = opt c (''TXT'', ''default-ed._domainkey.'')"
    "map (signature (DomainName spec)) (if c then [record_of ''A'' n v None False m] else []) = opt c (''A'', [])"
    "map (signature (DomainName spec)) (if c then [record_of ''TXT'' (''default._bimi.'' @ DomainName spec) v None False m] else [])
      = opt c (''TXT'', ''default._bimi.'')"
    "map (signature (DomainName spec)) (if c then [record_of ''AAAA'' n v None False m] else []) = opt c (''AAAA'', [])"
    "map (signature (DomainName spec)) (if c then tlsa_records n (TlsaHashes spec) else []) = opt (c \<and> b) (''TLSA'', [])"
    for c n v m
    using assms by (simp_all add: signature_def host_types_def ToLower_def ToLowerChar_def opt_def tlsa_records_def)
  show ?thesis
    unfolding BuildDnsRecordSpecs_def Let_def mh map_append sig by blast
qed

lemma distinct_wanted_keys:
  assumes "DomainName spec \<noteq> []" "length (filter (\<lambda>h. h \<noteq> []) (TlsaHashes spec)) \<le> 1"
  shows "distinct (map key_of (BuildDnsRecordSpecs sha256 spec))"
proof (rule distinct_keys_by_signature [OF assms(1)])
  let ?d = "DomainName spec"
  obtain b h where tlsa: "filter (\<lambda>h. h \<noteq> []) (TlsaHashes spec) = (if b then [h] else [])"
  proof (cases "filter (\<lambda>h. h \<noteq> []) (TlsaHashes spec)")
    case Nil
    then show ?thesis using that [of False] by simp
  next
    case (Cons x xs)
    then show ?thesis using assms(2) that [of True x] by simp
  qed
  show "list_all (below_domain ?d) (BuildDnsRecordSpecs sha256 spec)"
    using tlsa base_below [of ?d sha256]
    by (simp add: BuildDnsRecordSpecs_def Let_def tlsa_records_def below_domain_def known_types_def host_types_def)
  obtain b1 b2 b3 b4 b5 b6 where eq: "map (signature ?d) (BuildDnsRecordSpecs sha256 spec) =
     map (signature ?d) (base_records sha256 ?d
       (if MailHost spec = [] then ''mail.'' @ ?d else MailHost spec) (RelaySpfInclude spec))
     @ opt b1 (''TXT'', ''default._domainkey.'') @ opt b2 (''TXT'', ''default-ed._domainkey.'') @ opt b3 (''A'', [])
     @ opt b4 (''TXT'', ''default._bimi.'') @ opt b5 (''AAAA'', []) @ opt b6 (''TLSA'', [])"
    using wanted_signatures [OF tlsa] by blast
  have full: "distinct (map (signature ?d) (base_records sha256 ?d
       (if MailHost spec = [] then ''mail.'' @ ?d else MailHost spec) (RelaySpfInclude spec))
     @ [(''TXT'', ''default._domainkey.''), (''TXT'', ''default-ed._domainkey.''), (''A'', []),
        (''TXT'', ''default._bimi.''), (''AAAA'', []), (''TLSA'', [])])"
    unfolding base_signatures by simp
  show "distinct (map (signature ?d) (BuildDnsRecordSpecs sha256 spec))"
    using full unfolding eq base_signatures by (simp add: opt_def)
qed

end
