(* ===== verification/DNS_Sync.thy ===== *)
theory DNS_Sync
  imports DNS_Records
begin

text \<open>
  The reconciliation of a DNS zone (\<^verbatim>\<open>application/usecase/sync_dns_records.go\<close>): the wanted records are
  compared with the published ones, record by record, and created, updated, left alone or reported
  as a conflict.

  The DNS provider (\<^verbatim>\<open>port.DnsProvider\<close>) is a record of operations on a state \<open>'z\<close>, the world behind the
  provider's API; an operation answers an error text or \<^const>\<open>None\<close>. The independent resolvers and the alias
  repository are parameters. What the reconciliation needs of a provider is the locale \<open>dns_provider\<close>.
\<close>

record 'z DnsProvider =
  GetZoneID :: "string \<Rightarrow> 'z \<Rightarrow> (string + string) \<times> 'z"
  ListRecords :: "string \<Rightarrow> 'z \<Rightarrow> (string + DnsRecord list) \<times> 'z"
  CreateRecord :: "string \<Rightarrow> DnsRecord \<Rightarrow> 'z \<Rightarrow> string option \<times> 'z"
  UpdateRecord :: "string \<Rightarrow> DnsRecord \<Rightarrow> 'z \<Rightarrow> string option \<times> 'z"
  DeleteRecord :: "string \<Rightarrow> string \<Rightarrow> 'z \<Rightarrow> string option \<times> 'z"

datatype SyncStatus = SyncStatusVerified | SyncStatusPartial | SyncStatusDrift

definition ownedRecordCommentPrefix :: string where
  "ownedRecordCommentPrefix = ''LambdaMail''"

record SyncDnsRecordsInput =
  sd_spec :: DnsRecordSpec
  sd_TlsaHash :: string
  sd_AdminEmailAddress :: string

record SyncConflict =
  cf_Type :: string
  cf_Name :: string
  cf_Existing :: string
  cf_Desired :: string

record SyncDnsRecordsOutput =
  so_ZoneID :: string
  so_Status :: SyncStatus
  CreatedCount :: nat
  UpdatedCount :: nat
  UnchangedCount :: nat
  DeletedCount :: nat
  ConflictCount :: nat
  Conflicts :: "SyncConflict list"
  Errors :: "string list"
  Unverified :: "string list"

section \<open>Which published record is ours\<close>

definition txtTag :: "string \<Rightarrow> string" where
  "txtTag val =
     (let trimmed = TrimSpace (Trim val [DQUOTE])
      in if \<not> HasPrefix (ToLower trimmed) ''v='' then []
         else
           let rest = drop 2 trimmed;
               rest = (case IndexFunc (\<lambda>c. c \<in> {CHR '';'', CHR '' '', TAB}) rest of None \<Rightarrow> rest | Some idx \<Rightarrow> take idx rest)
           in ToLower rest)"

definition isOurRecord :: "DnsRecord \<Rightarrow> DnsRecord \<Rightarrow> bool" where
  "isOurRecord spec existing =
     (if HasPrefix (Comment existing) ownedRecordCommentPrefix then True
      else if EqualFold (Type spec) ''TXT''
      then txtTag (Value spec) \<noteq> [] \<and> EqualFold (txtTag (Value existing)) (txtTag (Value spec))
      else TrimSpace (Value spec) = TrimSpace (Value existing))"

definition allowsCoexistence :: "string \<Rightarrow> bool" where
  "allowsCoexistence recType \<longleftrightarrow> ToUpper recType \<in> {''TXT'', ''MX'', ''TLSA''}"

text \<open>The record that is ours, or the one that blocks.\<close>

definition classifyCandidates :: "DnsRecord \<Rightarrow> DnsRecord list \<Rightarrow> DnsRecord option \<times> DnsRecord option" where
  "classifyCandidates spec candidates =
     (case find (isOurRecord spec) candidates of
        Some r \<Rightarrow> (Some r, None)
      | None \<Rightarrow> (case candidates of
            [] \<Rightarrow> (None, None)
          | r # _ \<Rightarrow> if \<not> allowsCoexistence (Type spec) then (None, Some r) else (None, None)))"

section \<open>One pass over the wanted records\<close>

definition with_key :: "string \<Rightarrow> DnsRecord list \<Rightarrow> DnsRecord list" where
  "with_key key rs = filter (\<lambda>r. key_of r = key) rs"

definition add_error :: "string \<Rightarrow> SyncDnsRecordsOutput \<Rightarrow> SyncDnsRecordsOutput" where
  "add_error e out = out\<lparr>Errors := Errors out @ [e]\<rparr>"

definition sync_one ::
  "'z DnsProvider \<Rightarrow> string \<Rightarrow> DnsRecord list \<Rightarrow> DnsRecord \<Rightarrow> SyncDnsRecordsOutput \<times> 'z \<Rightarrow> SyncDnsRecordsOutput \<times> 'z" where
  "sync_one dns zoneID existing spec = (\<lambda>(out, z).
     (case classifyCandidates spec (with_key (key_of spec) existing) of
        (Some m, _) \<Rightarrow>
          if EqualsNormalized spec m then (out\<lparr>UnchangedCount := UnchangedCount out + 1\<rparr>, z)
          else (case UpdateRecord dns zoneID (spec\<lparr>ID := ID m\<rparr>) z of
                  (Some e, z') \<Rightarrow> (add_error (''update '' @ Type spec @ '' '' @ Name spec @ '': '' @ e) out, z')
                | (None, z') \<Rightarrow> (out\<lparr>UpdatedCount := UpdatedCount out + 1\<rparr>, z'))
      | (None, Some foreign) \<Rightarrow>
          (out\<lparr>ConflictCount := ConflictCount out + 1,
               Conflicts := Conflicts out @ [\<lparr>cf_Type = Type spec, cf_Name = Name spec, cf_Existing = Value foreign, cf_Desired = Value spec\<rparr>]\<rparr>, z)
      | (None, None) \<Rightarrow>
          (case CreateRecord dns zoneID spec z of
             (Some e, z') \<Rightarrow> (add_error (''create '' @ Type spec @ '' '' @ Name spec @ '': '' @ e) out, z')
           | (None, z') \<Rightarrow> (out\<lparr>CreatedCount := CreatedCount out + 1\<rparr>, z'))))"

definition sync_all ::
  "'z DnsProvider \<Rightarrow> string \<Rightarrow> DnsRecord list \<Rightarrow> DnsRecord list \<Rightarrow> SyncDnsRecordsOutput \<times> 'z \<Rightarrow> SyncDnsRecordsOutput \<times> 'z" where
  "sync_all dns zoneID existing specs oz = foldl (\<lambda>oz spec. sync_one dns zoneID existing spec oz) oz specs"

definition retire_one ::
  "'z DnsProvider \<Rightarrow> string \<Rightarrow> string \<Rightarrow> SyncDnsRecordsOutput \<times> 'z \<Rightarrow> DnsRecord \<Rightarrow> SyncDnsRecordsOutput \<times> 'z" where
  "retire_one dns zoneID name = (\<lambda>(out, z) r.
     if \<not> HasPrefix (Comment r) ownedRecordCommentPrefix then (out, z)
     else (case DeleteRecord dns zoneID (ID r) z of
             (Some e, z') \<Rightarrow> (add_error (''delete TXT '' @ name @ '': '' @ e) out, z')
           | (None, z') \<Rightarrow> (out\<lparr>DeletedCount := DeletedCount out + 1\<rparr>, z')))"

definition retireBimi ::
  "'z DnsProvider \<Rightarrow> string \<Rightarrow> DnsRecordSpec \<Rightarrow> DnsRecord list \<Rightarrow> SyncDnsRecordsOutput \<times> 'z \<Rightarrow> SyncDnsRecordsOutput \<times> 'z" where
  "retireBimi dns zoneID spec existing oz =
     (if BimiLogoURL spec \<noteq> [] then oz
      else let name = ''default._bimi.'' @ DomainName spec
           in foldl (retire_one dns zoneID name) oz (with_key (recordKey ''TXT'' name) existing))"

definition unverified_entry :: "DnsRecord \<Rightarrow> string \<Rightarrow> string" where
  "unverified_entry spec detail =
     Type spec @ '' '' @ Name spec @ (if detail \<noteq> [] then '': '' @ detail else [])"

definition verifyPublished :: "(DnsRecord \<Rightarrow> bool \<times> string) option \<Rightarrow> DnsRecord list \<Rightarrow> string list" where
  "verifyPublished verifier specs =
     (case verifier of
        None \<Rightarrow> []
      | Some verify \<Rightarrow> map (\<lambda>spec. unverified_entry spec (snd (verify spec))) (filter (\<lambda>spec. \<not> fst (verify spec)) specs))"

definition final_status :: "SyncDnsRecordsOutput \<Rightarrow> SyncStatus" where
  "final_status out =
     (if ConflictCount out > 0 \<or> Errors out \<noteq> [] then SyncStatusPartial
      else if Unverified out \<noteq> [] then SyncStatusDrift
      else SyncStatusVerified)"

section \<open>The whole reconciliation\<close>

record 'a sync_env =
  sy_sha256 :: "string \<Rightarrow> string"
  sy_verifier :: "(DnsRecord \<Rightarrow> bool \<times> string) option"
  sy_aliases :: "(string \<Rightarrow> string \<Rightarrow> 'a \<Rightarrow> (unit + unit) \<times> 'a) option"

datatype sync_error = NoDomainName | ZoneLookup string | ZoneListing string | AliasError

definition wanted_hashes :: "SyncDnsRecordsInput \<Rightarrow> string list" where
  "wanted_hashes input =
     (if TlsaHashes (sd_spec input) = [] \<and> sd_TlsaHash input \<noteq> [] then [sd_TlsaHash input] else TlsaHashes (sd_spec input))"

definition wanted_records :: "(string \<Rightarrow> string) \<Rightarrow> SyncDnsRecordsInput \<Rightarrow> DnsRecord list" where
  "wanted_records sha256 input = BuildDnsRecordSpecs sha256 ((sd_spec input)\<lparr>TlsaHashes := wanted_hashes input\<rparr>)"

definition new_output :: "string \<Rightarrow> SyncDnsRecordsOutput" where
  "new_output zoneID = \<lparr>so_ZoneID = zoneID, so_Status = SyncStatusVerified, CreatedCount = 0, UpdatedCount = 0,
     UnchangedCount = 0, DeletedCount = 0, ConflictCount = 0, Conflicts = [], Errors = [], Unverified = []\<rparr>"

definition ensure_aliases :: "'a sync_env \<Rightarrow> SyncDnsRecordsInput \<Rightarrow> 'a \<Rightarrow> (unit + unit) \<times> 'a" where
  "ensure_aliases env input a =
     (case sy_aliases env of
        None \<Rightarrow> (Inr (), a)
      | Some ensure \<Rightarrow> if sd_AdminEmailAddress input = [] then (Inr (), a)
                      else ensure (DomainName (sd_spec input)) (sd_AdminEmailAddress input) a)"

definition reconcile_zone ::
  "'a sync_env \<Rightarrow> 'z DnsProvider \<Rightarrow> string \<Rightarrow> SyncDnsRecordsInput \<Rightarrow> DnsRecord list \<Rightarrow> 'z \<Rightarrow> SyncDnsRecordsOutput \<times> 'z" where
  "reconcile_zone env dns zoneID input existing z =
     retireBimi dns zoneID (sd_spec input) existing
       (sync_all dns zoneID existing (wanted_records (sy_sha256 env) input) (new_output zoneID, z))"

definition Execute ::
  "'a sync_env \<Rightarrow> 'z DnsProvider \<Rightarrow> SyncDnsRecordsInput \<Rightarrow> 'z \<times> 'a \<Rightarrow> (sync_error + SyncDnsRecordsOutput) \<times> 'z \<times> 'a" where
  "Execute env dns input = (\<lambda>(z, a).
     if DomainName (sd_spec input) = [] then (Inl NoDomainName, z, a)
     else
       (case GetZoneID dns (DomainName (sd_spec input)) z of
          (Inl e, z1) \<Rightarrow> (Inl (ZoneLookup e), z1, a)
        | (Inr zoneID, z1) \<Rightarrow>
            (case ListRecords dns zoneID z1 of
               (Inl e, z2) \<Rightarrow> (Inl (ZoneListing e), z2, a)
             | (Inr existing, z2) \<Rightarrow>
                 let (out, z3) = reconcile_zone env dns zoneID input existing z2
                 in (case ensure_aliases env input a of
                       (Inl _, a') \<Rightarrow> (Inl AliasError, z3, a')
                     | (Inr _, a') \<Rightarrow>
                         let out = out\<lparr>Unverified := verifyPublished (sy_verifier env) (wanted_records (sy_sha256 env) input)\<rparr>
                         in (Inr (out\<lparr>so_Status := final_status out\<rparr>), z3, a')))))"

end
