(* ===== verification/DNS_Provider.thy ===== *)
theory DNS_Provider
  imports DNS_Sync
begin

text \<open>
  What the reconciliation relies on: the contract of a DNS provider, as a locale, and what follows from it
  for every pass over a zone. The provider may refuse or fail any call; a call that reports an error may
  have been carried out or not.
\<close>

text \<open>The record the provider shows for a record it was given: the same one, up to its identifier.\<close>

definition stored_as :: "(DnsRecord \<Rightarrow> bool) \<Rightarrow> DnsRecord \<Rightarrow> DnsRecord \<Rightarrow> bool" where
  "stored_as good r r' \<longleftrightarrow> Type r' = Type r \<and> Name r' = Name r \<and> Comment r' = Comment r \<and> (good r \<longrightarrow> EqualsNormalized r r' \<and> Value r' = Value r)"

text \<open>
  The record a pass takes for ours, whether it is as wanted, and which records of the zone the
  reconciliation takes for its own.
\<close>

definition ours :: "DnsRecord \<Rightarrow> DnsRecord list \<Rightarrow> DnsRecord option" where
  "ours spec rs = find (isOurRecord spec) (with_key (key_of spec) rs)"

definition settled :: "DnsRecord \<Rightarrow> DnsRecord list \<Rightarrow> bool" where
  "settled spec rs \<longleftrightarrow> (\<exists>m. ours spec rs = Some m \<and> EqualsNormalized spec m)"

definition clean :: "SyncDnsRecordsOutput \<Rightarrow> SyncDnsRecordsOutput \<Rightarrow> bool" where
  "clean out out' \<longleftrightarrow> Errors out' = Errors out \<and> ConflictCount out' = ConflictCount out"

definition claimed :: "DnsRecord list \<Rightarrow> DnsRecord \<Rightarrow> bool" where
  "claimed specs x \<longleftrightarrow> (\<exists>spec\<in>set specs. key_of x = key_of spec \<and> isOurRecord spec x)"

definition bimi_key :: "string \<Rightarrow> string" where
  "bimi_key domain = recordKey ''TXT'' (''default._bimi.'' @ domain)"

definition retired_bimi :: "DnsRecordSpec \<Rightarrow> DnsRecord \<Rightarrow> bool" where
  "retired_bimi spec x \<longleftrightarrow> BimiLogoURL spec = [] \<and> key_of x = bimi_key (DomainName spec)
     \<and> HasPrefix (Comment x) ownedRecordCommentPrefix"

lemma EqualsNormalized_ID: "EqualsNormalized (r\<lparr>ID := i\<rparr>) x = EqualsNormalized r x"
  by (simp add: EqualsNormalized_def)

lemma stored_as_ID:
  assumes "good (r\<lparr>ID := i\<rparr>) = good r" "stored_as good (r\<lparr>ID := i\<rparr>) r'"
  shows "stored_as good r r'"
  using assms(2) unfolding stored_as_def EqualsNormalized_ID assms(1) by simp

locale dns_provider =
  fixes dns :: "'z DnsProvider"
    and domain :: string
    and zoneID :: string
    and listing :: "'z \<Rightarrow> DnsRecord list"
    and good :: "DnsRecord \<Rightarrow> bool"
    and inv :: "'z \<Rightarrow> bool"
  assumes good_ID: "good (r\<lparr>ID := i\<rparr>) = good r"
    and ids: "inv z \<Longrightarrow> distinct (map ID (listing z))"
    and zone_call: "inv z \<Longrightarrow> GetZoneID dns domain z = (res, z') \<Longrightarrow>
          inv z' \<and> listing z' = listing z \<and> (\<forall>zid. res = Inr zid \<longrightarrow> zid = zoneID)"
    and list_call: "inv z \<Longrightarrow> ListRecords dns zoneID z = (lres, z') \<Longrightarrow>
          inv z' \<and> listing z' = listing z \<and> (\<forall>rs. lres = Inr rs \<longrightarrow> rs = listing z)"
    and create_call: "inv z \<Longrightarrow> CreateRecord dns zoneID r z = (e, z') \<Longrightarrow>
          inv z' \<and> ((e \<noteq> None \<and> listing z' = listing z) \<or> (\<exists>r'. listing z' = listing z @ [r'] \<and> stored_as good r r'))"
    and update_call: "inv z \<Longrightarrow> ID r \<in> ID ` set (listing z) \<Longrightarrow> UpdateRecord dns zoneID r z = (e, z') \<Longrightarrow>
          inv z' \<and> ((e \<noteq> None \<and> listing z' = listing z)
            \<or> (\<exists>r'. listing z' = map (\<lambda>x. if ID x = ID r then r' else x) (listing z) \<and> ID r' = ID r \<and> stored_as good r r'))"
    and delete_call: "inv z \<Longrightarrow> DeleteRecord dns zoneID i z = (e, z') \<Longrightarrow>
          inv z' \<and> ((e \<noteq> None \<and> listing z' = listing z) \<or> listing z' = filter (\<lambda>x. ID x \<noteq> i) (listing z))"
begin

text \<open>
  The state of a pass: the records it started from are still there, in order, each under its identifier;
  those of a key that has not been treated yet are unchanged, and new ones only come behind.
\<close>

text \<open>What one pass over a record may do to the records that are shown.\<close>

inductive effect :: "DnsRecord \<Rightarrow> DnsRecord list \<Rightarrow> DnsRecord list \<Rightarrow> bool" for spec where
  none: "effect spec rs rs"
| created: "ours spec rs = None \<Longrightarrow> stored_as good spec r' \<Longrightarrow> effect spec rs (rs @ [r'])"
| updated: "ours spec rs = Some m \<Longrightarrow> ID r' = ID m \<Longrightarrow> stored_as good spec r' \<Longrightarrow>
    effect spec rs (map (\<lambda>x. if ID x = ID m then r' else x) rs)"

lemma with_key_cong: "key_of r' \<noteq> k \<Longrightarrow> with_key k (rs @ [r']) = with_key k rs"
  by (simp add: with_key_def)

lemma ours_in: "ours spec rs = Some m \<Longrightarrow> m \<in> set rs \<and> key_of m = key_of spec \<and> isOurRecord spec m"
  by (auto simp: ours_def with_key_def find_Some_iff nth_mem)
     (metis filter_is_subset nth_mem subset_iff, metis (mono_tags, lifting) mem_Collect_eq nth_mem set_filter)

lemma stored_key: "stored_as good spec r' \<Longrightarrow> key_of r' = key_of spec"
  by (simp add: stored_as_def)

lemma with_key_map:
  assumes "distinct (map ID rs)" "m \<in> set rs" "key_of m \<noteq> k" "key_of r' \<noteq> k"
  shows "with_key k (map (\<lambda>x. if ID x = ID m then r' else x) rs) = with_key k rs"
  using assms
proof (induction rs)
  case (Cons a rs)
  show ?case
  proof (cases "a = m")
    case True
    have "ID x \<noteq> ID m" if "x \<in> set rs" for x
      using that Cons.prems(1) True by (metis distinct.simps(2) image_eqI list.map(2) set_map)
    then have "map (\<lambda>x. if ID x = ID m then r' else x) rs = rs"
      by (intro map_idI) auto
    then show ?thesis using True Cons.prems by (simp add: with_key_def)
  next
    case False
    then have "ID a \<noteq> ID m" using Cons.prems(1,2) by auto
    then show ?thesis using Cons False by (simp add: with_key_def)
  qed
qed (simp add: with_key_def)

text \<open>A record of another key is not touched.\<close>

lemma effect_other_key:
  assumes "effect spec rs rs'" "distinct (map ID rs)" "k \<noteq> key_of spec"
  shows "with_key k rs' = with_key k rs"
  using assms
proof cases
  case (created r')
  then show ?thesis using assms(3) stored_key by (simp add: with_key_cong)
next
  case (updated m r')
  from ours_in [OF updated(2)] stored_key [OF updated(4)] assms(2,3) show ?thesis
    unfolding updated(1) by (intro with_key_map) auto
qed simp

text \<open>A record that is not ours for the wanted one keeps its place.\<close>

lemma effect_keeps:
  assumes "effect spec rs rs'" "distinct (map ID rs)" "x \<in> set rs" "\<not> (key_of x = key_of spec \<and> isOurRecord spec x)"
  shows "x \<in> set rs'"
  using assms
proof cases
  case (updated m r')
  from ours_in [OF updated(2)] have "m \<in> set rs" "m \<noteq> x" using assms(4) by auto
  then have "ID x \<noteq> ID m" using assms(2,3) by (metis distinct_map inj_onD)
  then show ?thesis unfolding updated(1) using assms(3) by force
qed auto

section \<open>One record\<close>

text \<open>The candidates of the code are those of the zone, as long as its key has not been treated yet.\<close>

lemma classify_ours:
  "classifyCandidates spec (with_key (key_of spec) rs) = (c, f) \<Longrightarrow> c = ours spec rs"
  by (auto simp: classifyCandidates_def ours_def split: option.splits list.splits if_splits)

lemma settled_created:
  assumes "ours spec rs = None" "stored_as good spec r'" "good spec" "HasPrefix (Comment spec) ownedRecordCommentPrefix"
  shows "settled spec (rs @ [r'])"
proof -
  have "isOurRecord spec r'" using assms(2,4) by (simp add: isOurRecord_def stored_as_def)
  moreover have "find P (xs @ [y]) = Some y" if "find P xs = None" "P y" for P :: "DnsRecord \<Rightarrow> bool" and xs y
    using that by (induction xs) (auto split: if_splits)
  ultimately have "ours spec (rs @ [r']) = Some r'"
    using assms(1) stored_key [OF assms(2)] by (auto simp: ours_def with_key_def)
  then show ?thesis using assms(2,3) by (auto simp: settled_def stored_as_def)
qed

lemma find_append_cases: "\<forall>x\<in>set as. \<not> P x \<Longrightarrow> P m \<Longrightarrow> find P (as @ m # bs) = Some m"
  by (induction as) auto

lemma find_split:
  "find P xs = Some m \<longleftrightarrow> (\<exists>as bs. xs = as @ m # bs \<and> P m \<and> (\<forall>x\<in>set as. \<not> P x))" (is "?l xs = ?r xs")
proof
  show "?l xs \<Longrightarrow> ?r xs"
  proof (induction xs)
    case (Cons a xs)
    show ?case
    proof (cases "P a")
      case True
      then have "a # xs = [] @ m # xs" "P m" using Cons.prems by auto
      then show ?thesis by (metis empty_iff list.set(1))
    next
      case False
      then obtain as bs where "xs = as @ m # bs" "P m" "\<forall>x\<in>set as. \<not> P x" using Cons by auto
      then have "a # xs = (a # as) @ m # bs" "P m" "\<forall>x\<in>set (a # as). \<not> P x" using False by auto
      then show ?thesis by blast
    qed
  qed simp
  show "?r xs \<Longrightarrow> ?l xs" by (auto simp: find_append_cases)
qed

lemma ours_split:
  "ours spec rs = Some m \<longleftrightarrow>
     (\<exists>as bs. rs = as @ m # bs \<and> (key_of m = key_of spec \<and> isOurRecord spec m)
        \<and> (\<forall>x\<in>set as. \<not> (key_of x = key_of spec \<and> isOurRecord spec x)))"
proof -
  have "find P (filter Q xs) = find (\<lambda>x. Q x \<and> P x) xs" for P Q :: "DnsRecord \<Rightarrow> bool" and xs
    by (induction xs) auto
  then show ?thesis unfolding ours_def with_key_def by (simp only: find_split)
qed

lemma settled_updated:
  assumes "ours spec rs = Some m" "distinct (map ID rs)" "ID r' = ID m" "stored_as good spec r'" "good spec"
    "HasPrefix (Comment spec) ownedRecordCommentPrefix"
  shows "settled spec (map (\<lambda>x. if ID x = ID m then r' else x) rs)"
proof -
  from assms(1) obtain as bs where rs: "rs = as @ m # bs" "\<forall>x\<in>set as. \<not> (key_of x = key_of spec \<and> isOurRecord spec x)"
    unfolding ours_split by blast
  have "ID x \<noteq> ID m" if "x \<in> set as" for x
    using that assms(2) unfolding rs(1) by (auto simp: image_iff)
  then have "map (\<lambda>x. if ID x = ID m then r' else x) as = as"
    by (intro map_idI) auto
  moreover have "key_of r' = key_of spec" using assms(4) by (rule stored_key)
  moreover have "isOurRecord spec r'" using assms(4,6) by (simp add: isOurRecord_def stored_as_def)
  moreover have "map (\<lambda>x. if ID x = ID m then r' else x) rs
      = map (\<lambda>x. if ID x = ID m then r' else x) as @ r' # map (\<lambda>x. if ID x = ID m then r' else x) bs"
    using rs(1) by simp
  ultimately have "ours spec (map (\<lambda>x. if ID x = ID m then r' else x) rs) = Some r'"
    unfolding ours_split using rs(2)
    by (intro exI [of _ as] exI [of _ "map (\<lambda>x. if ID x = ID m then r' else x) bs"]) simp
  then show ?thesis using assms(4,5) by (auto simp: settled_def stored_as_def)
qed

lemma sync_one_effect:
  assumes "inv z" "with_key (key_of spec) existing = with_key (key_of spec) (listing z)"
    "sync_one dns zoneID existing spec (out, z) = (out', z')"
  shows "inv z' \<and> effect spec (listing z) (listing z')
    \<and> (clean out out' \<longrightarrow> good spec \<longrightarrow> HasPrefix (Comment spec) ownedRecordCommentPrefix \<longrightarrow> settled spec (listing z'))"
proof -
  obtain c f where cf: "classifyCandidates spec (with_key (key_of spec) existing) = (c, f)" by force
  then have c: "c = ours spec (listing z)" using classify_ours assms(2) by metis
  show ?thesis
  proof (cases c)
    case (Some m)
    with c have m: "ours spec (listing z) = Some m" by simp
    show ?thesis
    proof (cases "EqualsNormalized spec m")
      case True
      then have "z' = z" using assms(3) cf Some by (simp add: sync_one_def)
      moreover have "settled spec (listing z)" unfolding settled_def using m True by blast
      ultimately show ?thesis using assms(1) effect.none [of spec "listing z"] by simp
    next
      case False
      have id: "ID (spec\<lparr>ID := ID m\<rparr>) \<in> ID ` set (listing z)" using ours_in [OF m] by simp
      have stored: "stored_as good spec r'" if "stored_as good (spec\<lparr>ID := ID m\<rparr>) r'" for r'
        using good_ID that by (rule stored_as_ID)
      obtain e z1 where u: "UpdateRecord dns zoneID (spec\<lparr>ID := ID m\<rparr>) z = (e, z1)" by force
      from update_call [OF assms(1) id u] have inv: "inv z1" and
        "(e \<noteq> None \<and> listing z1 = listing z)
         \<or> (\<exists>r'. listing z1 = map (\<lambda>x. if ID x = ID m then r' else x) (listing z) \<and> ID r' = ID m \<and> stored_as good spec r')"
        using stored by auto
      then have eff: "effect spec (listing z) (listing z1)
          \<and> (e = None \<longrightarrow> good spec \<longrightarrow> HasPrefix (Comment spec) ownedRecordCommentPrefix \<longrightarrow> settled spec (listing z1))"
        using m ids [OF assms(1)] by (auto intro: effect.intros settled_updated)
      have "z' = z1" "clean out out' \<longrightarrow> e = None"
        using assms(3) cf Some False u by (auto simp: sync_one_def clean_def add_error_def split: option.splits)
      then show ?thesis using inv eff by simp
    qed
  next
    case None
    with c have n: "ours spec (listing z) = None" by simp
    show ?thesis
    proof (cases f)
      case (Some x)
      with assms(1,3) cf None show ?thesis by (auto simp: sync_one_def clean_def intro: effect.none)
    next
      case f: None
      obtain e z1 where u: "CreateRecord dns zoneID spec z = (e, z1)" by force
      from create_call [OF assms(1) u] have inv: "inv z1" and
        "(e \<noteq> None \<and> listing z1 = listing z) \<or> (\<exists>r'. listing z1 = listing z @ [r'] \<and> stored_as good spec r')"
        by auto
      then have eff: "effect spec (listing z) (listing z1)
          \<and> (e = None \<longrightarrow> good spec \<longrightarrow> HasPrefix (Comment spec) ownedRecordCommentPrefix \<longrightarrow> settled spec (listing z1))"
        using n by (auto intro: effect.intros settled_created)
      have "z' = z1" "clean out out' \<longrightarrow> e = None"
        using assms(3) cf None f u by (auto simp: sync_one_def clean_def add_error_def split: option.splits)
      then show ?thesis using inv eff by simp
    qed
  qed
qed

section \<open>All records\<close>

lemma sync_one_grows:
  assumes "sync_one dns zoneID existing spec (out, z) = (out', z')"
  shows "(\<exists>es. Errors out' = Errors out @ es) \<and> ConflictCount out \<le> ConflictCount out'"
  using assms by (auto simp: sync_one_def add_error_def split: option.splits prod.splits if_splits)

lemma sync_all_Nil [simp]: "sync_all dns zoneID existing [] oz = oz"
  by (simp add: sync_all_def)

lemma sync_all_Cons:
  "sync_all dns zoneID existing (spec # specs) oz = sync_all dns zoneID existing specs (sync_one dns zoneID existing spec oz)"
  by (simp add: sync_all_def)

lemma sync_all_grows:
  assumes "sync_all dns zoneID existing specs (out, z) = (out', z')"
  shows "(\<exists>es. Errors out' = Errors out @ es) \<and> ConflictCount out \<le> ConflictCount out'"
  using assms
proof (induction specs arbitrary: out z)
  case (Cons spec specs)
  obtain out1 z1 where one: "sync_one dns zoneID existing spec (out, z) = (out1, z1)" by force
  then have "sync_all dns zoneID existing specs (out1, z1) = (out', z')" using Cons.prems by (simp add: sync_all_Cons)
  from Cons.IH [OF this] sync_one_grows [OF one] show ?case by auto
qed simp

lemma clean_parts:
  assumes "(\<exists>es. Errors out1 = Errors out @ es) \<and> ConflictCount out \<le> ConflictCount out1"
    "(\<exists>es. Errors out2 = Errors out1 @ es) \<and> ConflictCount out1 \<le> ConflictCount out2" "clean out out2"
  shows "clean out out1 \<and> clean out1 out2"
  using assms by (auto simp: clean_def)

lemma settled_cong: "with_key (key_of spec) rs = with_key (key_of spec) rs' \<Longrightarrow> settled spec rs = settled spec rs'"
  by (simp add: settled_def ours_def)

text \<open>After a pass without errors and conflicts every wanted record is there, and is the one the next pass will find.\<close>

definition proper :: "DnsRecord \<Rightarrow> bool" where
  "proper spec \<longleftrightarrow> good spec \<and> HasPrefix (Comment spec) ownedRecordCommentPrefix"

lemma sync_all_settles:
  assumes "inv z" "\<forall>s\<in>set specs. with_key (key_of s) existing = with_key (key_of s) (listing z)"
    "distinct (map key_of specs)" "sync_all dns zoneID existing specs (out, z) = (out', z')"
  shows "inv z' \<and> (\<forall>k. k \<notin> key_of ` set specs \<longrightarrow> with_key k (listing z') = with_key k (listing z))
    \<and> (clean out out' \<longrightarrow> (\<forall>s\<in>set specs. proper s) \<longrightarrow> (\<forall>s\<in>set specs. settled s (listing z')))"
  using assms
proof (induction specs arbitrary: out z)
  case (Cons spec specs)
  obtain out1 z1 where one: "sync_one dns zoneID existing spec (out, z) = (out1, z1)" by force
  then have rest: "sync_all dns zoneID existing specs (out1, z1) = (out', z')" using Cons.prems(4) by (simp add: sync_all_Cons)
  have "with_key (key_of spec) existing = with_key (key_of spec) (listing z)" using Cons.prems(2) by simp
  note eff = sync_one_effect [OF Cons.prems(1) this one]
  have other: "with_key k (listing z1) = with_key k (listing z)" if "k \<noteq> key_of spec" for k
    using effect_other_key that eff ids [OF Cons.prems(1)] by blast
  have "key_of s \<noteq> key_of spec" if "s \<in> set specs" for s
    using Cons.prems(3) that by (simp add: image_iff) metis
  then have "\<forall>s\<in>set specs. with_key (key_of s) existing = with_key (key_of s) (listing z1)"
    using Cons.prems(2) other by simp
  note IH = Cons.IH [OF conjunct1 [OF eff] this _ rest]
  have cl: "clean out out1 \<and> clean out1 out'" if "clean out out'"
    using clean_parts [OF sync_one_grows [OF one] sync_all_grows [OF rest] that] .
  have "settled spec (listing z') = settled spec (listing z1)"
    using IH Cons.prems(3) by (intro settled_cong) simp
  then show ?case using IH Cons.prems(3) eff other cl by (auto simp: proper_def)
qed simp

section \<open>The next pass\<close>

lemma sync_one_settled:
  assumes "settled spec existing"
  shows "sync_one dns zoneID existing spec (out, z) = (out\<lparr>UnchangedCount := UnchangedCount out + 1\<rparr>, z)"
proof -
  from assms obtain m where m: "ours spec existing = Some m" "EqualsNormalized spec m" by (auto simp: settled_def)
  obtain c f where cf: "classifyCandidates spec (with_key (key_of spec) existing) = (c, f)" by force
  with classify_ours m(1) have "c = Some m" by metis
  with cf m(2) show ?thesis by (simp add: sync_one_def)
qed

lemma sync_all_settled:
  assumes "\<forall>s\<in>set specs. settled s existing"
  shows "sync_all dns zoneID existing specs (out, z) = (out\<lparr>UnchangedCount := UnchangedCount out + length specs\<rparr>, z)"
  using assms by (induction specs arbitrary: out) (simp_all add: sync_all_Cons sync_one_settled)

section \<open>Records of others\<close>

lemma map_keeps:
  assumes "x \<in> set rs" "ID x \<noteq> i"
  shows "x \<in> set (map (\<lambda>y. if ID y = i then r' else y) rs)"
  using assms by force

lemma ids_mono:
  assumes "ID r' = i"
  shows "ID ` set rs \<subseteq> ID ` set (map (\<lambda>y. if ID y = i then r' else y) rs)"
  using assms by (induction rs) auto

lemma sync_one_others:
  assumes "inv z" "distinct (map ID existing)" "ID ` set existing \<subseteq> ID ` set (listing z)"
    "sync_one dns zoneID existing spec (out, z) = (out', z')"
  shows "inv z' \<and> ID ` set existing \<subseteq> ID ` set (listing z')
    \<and> (\<forall>x\<in>set existing. x \<in> set (listing z) \<longrightarrow> \<not> (key_of x = key_of spec \<and> isOurRecord spec x) \<longrightarrow> x \<in> set (listing z'))"
proof -
  obtain c f where cf: "classifyCandidates spec (with_key (key_of spec) existing) = (c, f)" by force
  then have c: "c = ours spec existing" using classify_ours by metis
  consider (same) "z' = z"
    | (update) m e where "ours spec existing = Some m" "UpdateRecord dns zoneID (spec\<lparr>ID := ID m\<rparr>) z = (e, z')"
    | (create) e where "CreateRecord dns zoneID spec z = (e, z')"
    using assms(4) cf c by (auto simp: sync_one_def split: option.splits prod.splits if_splits)
  then show ?thesis
  proof cases
    case (update m e)
    note m = ours_in [OF update(1)]
    then have id: "ID (spec\<lparr>ID := ID m\<rparr>) \<in> ID ` set (listing z)" using assms(3) by auto
    have ne: "ID x \<noteq> ID m" if "x \<in> set existing" "\<not> (key_of x = key_of spec \<and> isOurRecord spec x)" for x
      using that m assms(2) by (metis distinct_map inj_onD)
    from update_call [OF assms(1) id update(2)] show ?thesis
    proof (elim conjE disjE exE)
      fix r' assume "inv z'" and l: "listing z' = map (\<lambda>x. if ID x = ID (spec\<lparr>ID := ID m\<rparr>) then r' else x) (listing z)"
        and r': "ID r' = ID (spec\<lparr>ID := ID m\<rparr>)"
      then show ?thesis using ids_mono [OF r', of "listing z"] assms(3) ne map_keeps [of _ "listing z" "ID m" r'] by auto
    qed (use assms(3) in auto)
  next
    case (create e)
    with create_call [OF assms(1) create] assms(3) show ?thesis by auto
  qed (use assms in auto)
qed

lemma sync_all_others:
  assumes "inv z" "distinct (map ID existing)" "ID ` set existing \<subseteq> ID ` set (listing z)"
    "sync_all dns zoneID existing specs (out, z) = (out', z')"
  shows "inv z' \<and> ID ` set existing \<subseteq> ID ` set (listing z')
    \<and> (\<forall>x\<in>set existing. x \<in> set (listing z) \<longrightarrow> \<not> claimed specs x \<longrightarrow> x \<in> set (listing z'))"
  using assms
proof (induction specs arbitrary: out z)
  case (Cons spec specs)
  obtain out1 z1 where one: "sync_one dns zoneID existing spec (out, z) = (out1, z1)" by force
  then have rest: "sync_all dns zoneID existing specs (out1, z1) = (out', z')" using Cons.prems(4) by (simp add: sync_all_Cons)
  note o = sync_one_others [OF Cons.prems(1-3) one]
  with Cons.IH [OF _ Cons.prems(2) _ rest] show ?case by (auto simp: claimed_def)
qed simp

section \<open>Retired logos\<close>

lemma retire_fold:
  assumes "inv z" "foldl (retire_one dns zoneID name) (out, z) rs = (out', z')"
  shows "inv z' \<and> set (listing z') \<subseteq> set (listing z) \<and> (\<exists>es. Errors out' = Errors out @ es) \<and> ConflictCount out' = ConflictCount out
    \<and> (\<forall>x\<in>set (listing z). x \<notin> set (listing z') \<longrightarrow> (\<exists>r\<in>set rs. ID r = ID x \<and> HasPrefix (Comment r) ownedRecordCommentPrefix))
    \<and> (Errors out' = Errors out \<longrightarrow>
        (\<forall>r\<in>set rs. HasPrefix (Comment r) ownedRecordCommentPrefix \<longrightarrow> ID r \<notin> ID ` set (listing z')))"
  using assms
proof (induction rs arbitrary: out z)
  case (Cons r rs)
  obtain out1 z1 where one: "retire_one dns zoneID name (out, z) r = (out1, z1)" by force
  then have rest: "foldl (retire_one dns zoneID name) (out1, z1) rs = (out', z')" using Cons.prems(2) by simp
  have step: "inv z1 \<and> set (listing z1) \<subseteq> set (listing z) \<and> (\<exists>es. Errors out1 = Errors out @ es) \<and> ConflictCount out1 = ConflictCount out
    \<and> (\<forall>x\<in>set (listing z). x \<notin> set (listing z1) \<longrightarrow> ID r = ID x \<and> HasPrefix (Comment r) ownedRecordCommentPrefix)
    \<and> (Errors out1 = Errors out \<longrightarrow> HasPrefix (Comment r) ownedRecordCommentPrefix \<longrightarrow> ID r \<notin> ID ` set (listing z1))"
  proof (cases "HasPrefix (Comment r) ownedRecordCommentPrefix")
    case True
    obtain e z2 where d: "DeleteRecord dns zoneID (ID r) z = (e, z2)" by force
    have "z1 = z2" using one True d by (auto simp: retire_one_def split: option.splits)
    with delete_call [OF Cons.prems(1) d] one True d show ?thesis
      by (cases e) (auto simp: retire_one_def add_error_def)
  qed (use one Cons.prems(1) in \<open>auto simp: retire_one_def\<close>)
  from Cons.IH [OF conjunct1 [OF step] rest] step show ?case by auto
qed simp

lemma retire_one_listing:
  assumes "inv z" "retire_one dns zoneID name (out, z) r = (out', z')"
  shows "inv z' \<and> (listing z' = listing z
    \<or> HasPrefix (Comment r) ownedRecordCommentPrefix \<and> listing z' = filter (\<lambda>x. ID x \<noteq> ID r) (listing z))"
proof (cases "HasPrefix (Comment r) ownedRecordCommentPrefix")
  case True
  obtain e z2 where d: "DeleteRecord dns zoneID (ID r) z = (e, z2)" by force
  have "z' = z2" using assms(2) True d by (auto simp: retire_one_def split: option.splits)
  with delete_call [OF assms(1) d] True show ?thesis by auto
qed (use assms in \<open>auto simp: retire_one_def\<close>)

lemma with_key_filter: "(\<forall>x\<in>set rs. key_of x = k \<longrightarrow> P x) \<Longrightarrow> with_key k (filter P rs) = with_key k rs"
  by (induction rs) (auto simp: with_key_def)

lemma retire_other_keys:
  assumes "inv z" "foldl (retire_one dns zoneID name) (out, z) rs = (out', z')"
    "\<forall>r\<in>set rs. HasPrefix (Comment r) ownedRecordCommentPrefix \<longrightarrow> (\<forall>x\<in>set (listing z). ID x = ID r \<longrightarrow> key_of x \<noteq> k)"
  shows "with_key k (listing z') = with_key k (listing z)"
  using assms
proof (induction rs arbitrary: out z)
  case (Cons r rs)
  obtain out1 z1 where one: "retire_one dns zoneID name (out, z) r = (out1, z1)" by force
  then have rest: "foldl (retire_one dns zoneID name) (out1, z1) rs = (out', z')" using Cons.prems(2) by simp
  note l = retire_one_listing [OF Cons.prems(1) one]
  then have "set (listing z1) \<subseteq> set (listing z)" by auto
  then have "with_key k (listing z') = with_key k (listing z1)"
    using Cons.prems(3) l by (intro Cons.IH [OF _ rest]) auto
  also have "with_key k (listing z1) = with_key k (listing z)"
    using l Cons.prems(3) by (auto intro!: with_key_filter)
  finally show ?case .
qed simp

end

end
