(* ===== verification/TLSA_Rollover.thy ===== *)
theory TLSA_Rollover
  imports DNS_Provider
begin

text \<open>
  The certificate of the mail host and its DANE associations: the decision of the rollover
  (\<^verbatim>\<open>application/usecase/rollover_tlsa.go\<close>), the manager that carries it out
  (\<^verbatim>\<open>infrastructure/acme/manager.go\<close>), the publication of the associations
  (\<^verbatim>\<open>cmd/lambdamail-protocols/acme_mode.go\<close>) and the rows of the certificate and of the next key
  (\<^verbatim>\<open>infrastructure/postgres/acme_repository.go\<close>, whose vault gives back what it sealed).

  Parameters: SHA-256, the public key of a key or of a certificate as X.509 encodes it, the check that a
  certificate and a key belong together, the random keys and the certificate authority. Times are nanoseconds.
\<close>

section \<open>The decision\<close>

datatype RolloverStage = StageStable | StagePublishNext | StageAwaitPropagation | StageRenew | StageCleanup

record RolloverConfig =
  RenewBefore :: int
  PrepareBefore :: int
  PropagationWait :: int

definition DefaultRolloverConfig :: RolloverConfig where
  "DefaultRolloverConfig = \<lparr>RenewBefore = 30 * 24 * Hour, PrepareBefore = 30 * 24 * Hour, PropagationWait = 24 * Hour\<rparr>"

definition NewRolloverTlsa :: "RolloverConfig \<Rightarrow> RolloverConfig" where
  "NewRolloverTlsa config = (if RenewBefore config = 0 then DefaultRolloverConfig else config)"

text \<open>An expiry of \<^const>\<open>None\<close> is Go's zero time.\<close>

record RolloverState =
  CurrentDigest :: string
  rs_NotAfter :: "int option"
  PendingDigest :: string
  PendingPublishedAt :: "int option"
  CertificateMatchesPending :: bool

fun dedupe_from :: "string list \<Rightarrow> string list \<Rightarrow> string list" where
  "dedupe_from seen [] = []"
| "dedupe_from seen (v # vs) = (if v = [] \<or> v \<in> set seen then dedupe_from seen vs else v # dedupe_from (v # seen) vs)"

definition dedupe :: "string list \<Rightarrow> string list" where
  "dedupe values = dedupe_from [] values"

definition Decide :: "RolloverConfig \<Rightarrow> int \<Rightarrow> RolloverState \<Rightarrow> RolloverStage \<times> string list" where
  "Decide config now st =
     (if CertificateMatchesPending st
      then (case PendingPublishedAt st of
              Some t \<Rightarrow> if now - t < PropagationWait config then (StageCleanup, dedupe [CurrentDigest st, PendingDigest st])
                        else (StageStable, dedupe [PendingDigest st])
            | None \<Rightarrow> (StageStable, dedupe [PendingDigest st]))
      else if PendingDigest st \<noteq> []
      then (case PendingPublishedAt st of
              None \<Rightarrow> (StagePublishNext, dedupe [CurrentDigest st, PendingDigest st])
            | Some t \<Rightarrow>
                if now - t < PropagationWait config then (StageAwaitPropagation, dedupe [CurrentDigest st, PendingDigest st])
                else (StageRenew, dedupe [CurrentDigest st, PendingDigest st]))
      else (case rs_NotAfter st of
              Some e \<Rightarrow> if now > e - PrepareBefore config then (StagePublishNext, dedupe [CurrentDigest st])
                        else (StageStable, dedupe [CurrentDigest st])
            | None \<Rightarrow> (StageStable, dedupe [CurrentDigest st])))"

definition ShouldRenewNow :: "RolloverConfig \<Rightarrow> int \<Rightarrow> int option \<Rightarrow> bool" where
  "ShouldRenewNow config now notAfter = (case notAfter of None \<Rightarrow> True | Some e \<Rightarrow> now > e - RenewBefore config)"

section \<open>Digests\<close>

record pki =
  pk_sha256 :: "string \<Rightarrow> string"
  pk_key_spki :: "string \<Rightarrow> string option"
  pk_cert_spki :: "string \<Rightarrow> string option"
  pk_pair :: "string \<Rightarrow> string \<Rightarrow> bool"

definition TlsaDigestForKey :: "pki \<Rightarrow> string \<Rightarrow> string option" where
  "TlsaDigestForKey pk key = map_option (\<lambda>spki. hex_EncodeToString (pk_sha256 pk spki)) (pk_key_spki pk key)"

definition TlsaDigestForCertificate :: "pki \<Rightarrow> string \<Rightarrow> string option" where
  "TlsaDigestForCertificate pk cert = map_option (\<lambda>spki. hex_EncodeToString (pk_sha256 pk spki)) (pk_cert_spki pk cert)"

section \<open>The publication\<close>

definition entityTlsaRecord :: "string \<Rightarrow> string \<Rightarrow> DnsRecord" where
  "entityTlsaRecord name val = record_of ''TLSA'' name val None False ''LambdaMail DANE TLSA Record''"

definition equalFoldTrim :: "string \<Rightarrow> string \<Rightarrow> bool" where
  "equalFoldTrim a b = EqualFold (TrimSuffix a ''.'') (TrimSuffix b ''.'')"

definition tlsa_value :: "string \<Rightarrow> string" where
  "tlsa_value digest = ''3 1 1 '' @ digest"

definition is_tlsa :: "string \<Rightarrow> DnsRecord \<Rightarrow> bool" where
  "is_tlsa name r \<longleftrightarrow> Type r = ''TLSA'' \<and> equalFoldTrim (Name r) name"

text \<open>The map from published values to identifiers: a later record replaces an earlier one of the same value.\<close>

definition published_map :: "string \<Rightarrow> DnsRecord list \<Rightarrow> string \<rightharpoonup> string" where
  "published_map name existing = foldl (\<lambda>m r. if is_tlsa name r then m(Value r \<mapsto> ID r) else m) Map.empty existing"

text \<open>
  The two loops range over maps, in any order: here over a list each, so that the order is that of the
  digests and of the records. Every function also returns the states the zone went through, newest first.
\<close>

fun create_missing :: "'z DnsProvider \<Rightarrow> string \<Rightarrow> string \<Rightarrow> (string \<rightharpoonup> string) \<Rightarrow> string list \<Rightarrow> 'z \<times> 'z list \<Rightarrow> bool \<times> 'z \<times> 'z list" where
  "create_missing dns zoneID name published [] (z, zs) = (True, z, zs)"
| "create_missing dns zoneID name published (v # vs) (z, zs) =
     (if published v \<noteq> None then create_missing dns zoneID name published vs (z, zs)
      else case CreateRecord dns zoneID (entityTlsaRecord name v) z of
             (Some _, z') \<Rightarrow> (False, z', z' # zs)
           | (None, z') \<Rightarrow> create_missing dns zoneID name published vs (z', z' # zs))"

fun delete_retired :: "'z DnsProvider \<Rightarrow> string \<Rightarrow> (string \<times> string) list \<Rightarrow> string list \<Rightarrow> 'z \<times> 'z list \<Rightarrow> 'z \<times> 'z list" where
  "delete_retired dns zoneID [] desired (z, zs) = (z, zs)"
| "delete_retired dns zoneID ((v, i) # vs) desired (z, zs) =
     (if v \<in> set desired then delete_retired dns zoneID vs desired (z, zs)
      else let (_, z') = DeleteRecord dns zoneID i z in delete_retired dns zoneID vs desired (z', z' # zs))"

definition published_list :: "string \<Rightarrow> DnsRecord list \<Rightarrow> (string \<times> string) list" where
  "published_list name existing =
     map (\<lambda>v. (v, the (published_map name existing v))) (remdups (map Value (filter (is_tlsa name) existing)))"

definition PublishTlsa :: "'z DnsProvider \<Rightarrow> string \<Rightarrow> string \<Rightarrow> string list \<Rightarrow> 'z \<Rightarrow> bool \<times> 'z \<times> 'z list" where
  "PublishTlsa dns domain mailHost digests z =
     (if digests = [] then (True, z, [])
      else
        (case GetZoneID dns domain z of
           (Inl _, z1) \<Rightarrow> (False, z1, [z1])
         | (Inr zoneID, z1) \<Rightarrow>
             (case ListRecords dns zoneID z1 of
                (Inl _, z2) \<Rightarrow> (False, z2, [z2, z1])
              | (Inr existing, z2) \<Rightarrow>
                  let name = ''_25._tcp.'' @ mailHost; desired = remdups (map tlsa_value digests)
                  in (case create_missing dns zoneID name (published_map name existing) desired (z2, [z2, z1]) of
                        (False, z3, zs) \<Rightarrow> (False, z3, zs)
                      | (True, z3, zs) \<Rightarrow>
                          let (z4, zs') = delete_retired dns zoneID (published_list name existing) desired (z3, zs)
                          in (True, z4, zs')))))"

section \<open>The manager\<close>

record StoredCertificate =
  CertificatePEM :: string
  PrivateKeyPEM :: string
  crt_NotAfter :: "int option"
  KeyGeneration :: nat

record pending_row =
  pr_key :: string
  pr_digest :: string
  pr_published_at :: "int option"

record 'z acme_state =
  am_stored :: "StoredCertificate option"
  am_pending :: "pending_row option"
  am_current :: "StoredCertificate option"
  am_zone :: 'z
  am_log :: "(int \<times> 'z) list"

text \<open>
  One pass: when it starts, when it notes the publication, whether each statement and call succeeds, the key it would
  generate and what the certificate authority answers to a request for a key (\<^const>\<open>None\<close>: the issuer chooses one).
\<close>

record acme_env =
  ae_now :: int
  ae_marked :: int
  ae_load_ok :: bool
  ae_pending_ok :: bool
  ae_save_pending_ok :: bool
  ae_mark_ok :: bool
  ae_load_key_ok :: bool
  ae_clear_ok :: bool
  ae_save_ok :: bool
  ae_key :: "string option"
  ae_obtain :: "string option \<Rightarrow> StoredCertificate option"

record 'z acme_config =
  ac_pki :: pki
  ac_rollover :: RolloverConfig
  ac_dns :: "'z DnsProvider"
  ac_domain :: string
  ac_mailHost :: string
  ac_dane :: bool

definition serve :: "'z acme_config \<Rightarrow> StoredCertificate \<Rightarrow> 'z acme_state \<Rightarrow> bool \<times> 'z acme_state" where
  "serve cfg cert st =
     (if pk_pair (ac_pki cfg) (CertificatePEM cert) (PrivateKeyPEM cert) then (True, st\<lparr>am_current := Some cert\<rparr>) else (False, st))"

definition issue :: "'z acme_config \<Rightarrow> acme_env \<Rightarrow> string option \<Rightarrow> nat \<Rightarrow> 'z acme_state \<Rightarrow> bool \<times> 'z acme_state" where
  "issue cfg env key generation st =
     (case ae_obtain env key of
        None \<Rightarrow> (False, st)
      | Some issued \<Rightarrow>
          let issued = issued\<lparr>KeyGeneration := generation\<rparr>
          in if \<not> ae_save_ok env then (False, st) else serve cfg issued (st\<lparr>am_stored := Some issued\<rparr>))"

definition publish :: "'z acme_config \<Rightarrow> acme_env \<Rightarrow> string list \<Rightarrow> 'z acme_state \<Rightarrow> bool \<times> 'z acme_state" where
  "publish cfg env digests st =
     (let (ok, z, zs) = PublishTlsa (ac_dns cfg) (ac_domain cfg) (ac_mailHost cfg) digests (am_zone st)
      in (ok, st\<lparr>am_zone := z, am_log := map (\<lambda>z. (ae_now env, z)) zs @ am_log st\<rparr>))"

definition mark_published :: "acme_env \<Rightarrow> 'z acme_state \<Rightarrow> bool \<times> 'z acme_state" where
  "mark_published env st =
     (if \<not> ae_mark_ok env then (False, st)
      else (True, st\<lparr>am_pending := map_option (\<lambda>p. if pr_published_at p = None then p\<lparr>pr_published_at := Some (ae_marked env)\<rparr> else p) (am_pending st)\<rparr>))"

definition start_rollover :: "'z acme_config \<Rightarrow> acme_env \<Rightarrow> string \<Rightarrow> 'z acme_state \<Rightarrow> bool \<times> 'z acme_state" where
  "start_rollover cfg env currentDigest st =
     (case ae_key env of
        None \<Rightarrow> (False, st)
      | Some key \<Rightarrow>
          (case TlsaDigestForKey (ac_pki cfg) key of
             None \<Rightarrow> (False, st)
           | Some digest \<Rightarrow>
               if \<not> ae_save_pending_ok env then (False, st)
               else
                 let st = st\<lparr>am_pending := Some \<lparr>pr_key = key, pr_digest = digest, pr_published_at = None\<rparr>\<rparr>
                 in publish cfg env [currentDigest, digest] st))"

definition pending_digest :: "'z acme_state \<Rightarrow> string" where
  "pending_digest st = (case am_pending st of None \<Rightarrow> [] | Some p \<Rightarrow> pr_digest p)"

definition rollover_state :: "string \<Rightarrow> StoredCertificate \<Rightarrow> 'z acme_state \<Rightarrow> RolloverState" where
  "rollover_state currentDigest stored st =
     \<lparr>CurrentDigest = currentDigest, rs_NotAfter = crt_NotAfter stored, PendingDigest = pending_digest st,
      PendingPublishedAt = (case am_pending st of None \<Rightarrow> None | Some p \<Rightarrow> pr_published_at p),
      CertificateMatchesPending = (pending_digest st \<noteq> [] \<and> pending_digest st = currentDigest)\<rparr>"

text \<open>What the pass does after the decided set has been published.\<close>

definition carry_stage :: "'z acme_config \<Rightarrow> acme_env \<Rightarrow> RolloverStage \<Rightarrow> string \<Rightarrow> StoredCertificate \<Rightarrow> 'z acme_state \<Rightarrow> bool \<times> 'z acme_state" where
  "carry_stage cfg env stage currentDigest stored st =
     (case stage of
        StagePublishNext \<Rightarrow>
          (case (if pending_digest st = [] then start_rollover cfg env currentDigest st else (True, st)) of
             (False, st') \<Rightarrow> (False, st')
           | (True, st') \<Rightarrow> mark_published env st')
      | StageRenew \<Rightarrow>
          (if \<not> ae_load_key_ok env then (False, st)
           else case am_pending st of
                  None \<Rightarrow> (False, st)
                | Some p \<Rightarrow> issue cfg env (Some (pr_key p)) (KeyGeneration stored + 1) st)
      | StageStable \<Rightarrow>
          (if pending_digest st \<noteq> [] \<and> pending_digest st = currentDigest
           then (if ae_clear_ok env then (True, st\<lparr>am_pending := None\<rparr>) else (False, st))
           else (True, st))
      | StageAwaitPropagation \<Rightarrow> (True, st)
      | StageCleanup \<Rightarrow> (True, st))"

definition first_certificate :: "'z acme_config \<Rightarrow> acme_env \<Rightarrow> 'z acme_state \<Rightarrow> bool \<times> 'z acme_state" where
  "first_certificate cfg env st =
     (case ae_key env of
        None \<Rightarrow> (False, st)
      | Some key \<Rightarrow>
          (case TlsaDigestForKey (ac_pki cfg) key of
             None \<Rightarrow> (False, st)
           | Some digest \<Rightarrow>
               (case publish cfg env [digest] st of
                  (False, st') \<Rightarrow> (False, st')
                | (True, st') \<Rightarrow> issue cfg env (Some key) 1 st')))"

definition reconcileWithDane :: "'z acme_config \<Rightarrow> acme_env \<Rightarrow> StoredCertificate option \<Rightarrow> 'z acme_state \<Rightarrow> bool \<times> 'z acme_state" where
  "reconcileWithDane cfg env stored st =
     (case stored of
        None \<Rightarrow> first_certificate cfg env st
      | Some cert \<Rightarrow>
          (case TlsaDigestForCertificate (ac_pki cfg) (CertificatePEM cert) of
             None \<Rightarrow> (False, st)
           | Some currentDigest \<Rightarrow>
               if \<not> ae_pending_ok env then (False, st)
               else
                 let (stage, wanted) = Decide (ac_rollover cfg) (ae_now env) (rollover_state currentDigest cert st)
                 in (case publish cfg env wanted st of
                       (False, st') \<Rightarrow> (False, st')
                     | (True, st') \<Rightarrow> carry_stage cfg env stage currentDigest cert st')))"

definition reconcile :: "'z acme_config \<Rightarrow> acme_env \<Rightarrow> 'z acme_state \<Rightarrow> bool \<times> 'z acme_state" where
  "reconcile cfg env st =
     (if \<not> ae_load_ok env then (False, st)
      else
        (case (case am_stored st of None \<Rightarrow> (True, st) | Some cert \<Rightarrow> serve cfg cert st) of
           (False, st') \<Rightarrow> (False, st')
         | (True, st') \<Rightarrow>
             if \<not> ac_dane cfg
             then (if (case am_stored st' of None \<Rightarrow> True | Some cert \<Rightarrow> ShouldRenewNow (ac_rollover cfg) (ae_now env) (crt_NotAfter cert))
                   then issue cfg env None 1 st' else (True, st'))
             else reconcileWithDane cfg env (am_stored st') st'))"

end
