(* ===== verification/TLSA_Publication.thy ===== *)
theory TLSA_Publication
  imports TLSA_Rollover
begin

text \<open>
  The publication of a set of associations over any DNS provider: an association that is published and wanted is in the
  zone after every single call, whatever fails, and after a successful publication all the wanted ones are.
\<close>

definition associations :: "string \<Rightarrow> DnsRecord list \<Rightarrow> string set" where
  "associations name rs = Value ` {r \<in> set rs. is_tlsa name r}"

lemma associations_snoc:
  "associations name (rs @ [r]) = (if is_tlsa name r then insert (Value r) (associations name rs) else associations name rs)"
  by (auto simp: associations_def)

lemma published_map_Some:
  "published_map name rs v = Some i \<Longrightarrow> \<exists>r\<in>set rs. is_tlsa name r \<and> Value r = v \<and> ID r = i"
proof (induction rs rule: rev_induct)
  case (snoc r rs)
  then show ?case by (auto simp: published_map_def split: if_splits)
qed (simp add: published_map_def)

lemma published_map_dom: "dom (published_map name rs) = associations name rs"
proof (induction rs rule: rev_induct)
  case (snoc r rs)
  then show ?case by (auto simp: published_map_def associations_def split: if_splits)
qed (simp add: published_map_def associations_def)

lemma published_list_entry:
  assumes "(v, i) \<in> set (published_list name rs)"
  shows "\<exists>r\<in>set rs. is_tlsa name r \<and> Value r = v \<and> ID r = i"
proof -
  have "v \<in> associations name rs" "i = the (published_map name rs v)"
    using assms by (auto simp: published_list_def associations_def)
  then have "published_map name rs v = Some i" using published_map_dom [of name rs] by (metis domD option.sel)
  then show ?thesis by (rule published_map_Some)
qed

context dns_provider
begin

lemma create_missing_keeps:
  assumes "inv z" "list_all (\<lambda>v. good (entityTlsaRecord name v)) vs" "create_missing dns zoneID name published vs (z, zs) = (ok, z', zs')"
    "published = published_map name existing" "\<exists>news. listing z = existing @ news"
  shows "inv z' \<and> (\<exists>new. zs' = new @ zs \<and> (\<forall>y\<in>set new. inv y \<and> associations name (listing z) \<subseteq> associations name (listing y)))
    \<and> (zs' \<noteq> zs \<longrightarrow> zs' \<noteq> [] \<and> hd zs' = z') \<and> (zs' = zs \<longrightarrow> z' = z)
    \<and> associations name (listing z) \<subseteq> associations name (listing z') \<and> (\<exists>news. listing z' = existing @ news)
    \<and> (ok \<longrightarrow> set vs \<subseteq> associations name (listing z'))"
  using assms
proof (induction vs arbitrary: z zs)
  case (Cons v vs)
  show ?case
  proof (cases "published v")
    case (Some i)
    then have "v \<in> associations name existing" using Cons.prems(4) published_map_dom by auto
    then have "v \<in> associations name (listing z)" using Cons.prems(5) by (auto simp: associations_def)
    with Cons.IH [OF Cons.prems(1) _ _ Cons.prems(4,5), of zs] Cons.prems(2,3) Some show ?thesis by auto
  next
    case None
    obtain e z1 where c: "CreateRecord dns zoneID (entityTlsaRecord name v) z = (e, z1)" by force
    have good: "good (entityTlsaRecord name v)" using Cons.prems(2) by simp
    have new: "is_tlsa name r' \<and> Value r' = v" if "stored_as good (entityTlsaRecord name v) r'" for r'
      using that good by (simp add: stored_as_def is_tlsa_def entityTlsaRecord_def equalFoldTrim_def)
    from create_call [OF Cons.prems(1) c] new have one: "inv z1" "associations name (listing z) \<subseteq> associations name (listing z1)"
      "e = None \<longrightarrow> v \<in> associations name (listing z1)" "\<exists>news. listing z1 = listing z @ news"
      by (auto simp: associations_snoc)
    with Cons.prems(5) have ex: "\<exists>news. listing z1 = existing @ news" by auto
    show ?thesis
    proof (cases e)
      case (Some err)
      with Cons.prems(3) None c have "ok = False" "z' = z1" "zs' = z1 # zs" by auto
      with one ex show ?thesis by auto
    next
      case e: None
      then have rest: "create_missing dns zoneID name published vs (z1, z1 # zs) = (ok, z', zs')"
        using Cons.prems(3) None c by simp
      have "list_all (\<lambda>v. good (entityTlsaRecord name v)) vs" using Cons.prems(2) by simp
      note IH = Cons.IH [OF one(1) this rest Cons.prems(4) ex]
      then obtain new where "zs' = new @ z1 # zs" "\<forall>y\<in>set new. inv y \<and> associations name (listing z1) \<subseteq> associations name (listing y)"
        by auto
      then have "zs' = (new @ [z1]) @ zs" "\<forall>y\<in>set (new @ [z1]). inv y \<and> associations name (listing z) \<subseteq> associations name (listing y)"
        using one by auto
      moreover have "zs' \<noteq> zs" using \<open>zs' = (new @ [z1]) @ zs\<close> by auto
      moreover have "hd zs' = z'" using IH \<open>zs' = new @ z1 # zs\<close> by (cases new) auto
      moreover have "inv z'" "\<exists>news. listing z' = existing @ news" "associations name (listing z) \<subseteq> associations name (listing z')"
        using IH one(2) by auto
      moreover have "ok \<longrightarrow> set (v # vs) \<subseteq> associations name (listing z')"
        using IH one(3) e by auto
      ultimately show ?thesis by (intro conjI exI [of _ "new @ [z1]"] impI; (assumption | simp))
    qed
  qed
qed simp

lemma delete_retired_keeps:
  assumes "inv z" "delete_retired dns zoneID vs desired (z, zs) = (z', zs')"
    "set (listing z) \<subseteq> set L" "distinct (map ID L)" "\<forall>(v, i)\<in>set vs. \<exists>r\<in>set L. Value r = v \<and> ID r = i"
  shows "inv z' \<and> (\<exists>new. zs' = new @ zs \<and> (\<forall>y\<in>set new. inv y \<and> associations name (listing z) \<inter> set desired \<subseteq> associations name (listing y)))
    \<and> (zs' \<noteq> zs \<longrightarrow> zs' \<noteq> [] \<and> hd zs' = z') \<and> (zs' = zs \<longrightarrow> z' = z)
    \<and> associations name (listing z) \<inter> set desired \<subseteq> associations name (listing z')"
  using assms
proof (induction vs arbitrary: z zs)
  case (Cons p vs)
  obtain v i where p: "p = (v, i)" by force
  show ?case
  proof (cases "v \<in> set desired")
    case True
    with Cons.IH [OF Cons.prems(1) _ Cons.prems(3,4), of zs] Cons.prems(2,5) p show ?thesis by simp
  next
    case False
    obtain e z1 where d: "DeleteRecord dns zoneID i z = (e, z1)" by force
    then have rest: "delete_retired dns zoneID vs desired (z1, z1 # zs) = (z', zs')"
      using Cons.prems(2) p False by simp
    note del = delete_call [OF Cons.prems(1) d]
    have keep: "ID r \<noteq> i" if "r \<in> set (listing z)" "Value r \<in> set desired" for r
    proof
      assume "ID r = i"
      obtain r0 where r0: "r0 \<in> set L" "Value r0 = v" "ID r0 = i" using Cons.prems(5) p by auto
      have "r \<in> set L" using that(1) Cons.prems(3) by auto
      with r0 \<open>ID r = i\<close> Cons.prems(4) have "r = r0" by (metis distinct_map inj_onD)
      with r0(2) that(2) False show False by simp
    qed
    have one: "inv z1" "associations name (listing z) \<inter> set desired \<subseteq> associations name (listing z1)" "set (listing z1) \<subseteq> set L"
      using del keep Cons.prems(3) by (auto simp: associations_def)
    have "\<forall>(v, i)\<in>set vs. \<exists>r\<in>set L. Value r = v \<and> ID r = i" using Cons.prems(5) by simp
    note IH = Cons.IH [OF one(1) rest one(3) Cons.prems(4) this]
    then obtain new where "zs' = new @ z1 # zs" "\<forall>y\<in>set new. inv y \<and> associations name (listing z1) \<inter> set desired \<subseteq> associations name (listing y)"
      by auto
    then have "zs' = (new @ [z1]) @ zs" "\<forall>y\<in>set (new @ [z1]). inv y \<and> associations name (listing z) \<inter> set desired \<subseteq> associations name (listing y)"
      using one by auto
    moreover have "hd zs' = z'" using IH \<open>zs' = new @ z1 # zs\<close> by (cases new) auto
    moreover have "zs' \<noteq> zs" using \<open>zs' = (new @ [z1]) @ zs\<close> by auto
    moreover have "inv z'" "associations name (listing z) \<inter> set desired \<subseteq> associations name (listing z')"
      using IH one(2) by auto
    ultimately show ?thesis by (intro conjI exI [of _ "new @ [z1]"] impI; (assumption | simp))
  qed
qed simp

theorem publish_keeps:
  assumes "inv z" "PublishTlsa dns domain host digests z = (ok, z', zs)"
    "\<forall>d\<in>set digests. good (entityTlsaRecord (''_25._tcp.'' @ host) (tlsa_value d))"
  defines "name \<equiv> ''_25._tcp.'' @ host"
  shows "inv z' \<and> (\<forall>y\<in>set zs. inv y \<and> associations name (listing z) \<inter> tlsa_value ` set digests \<subseteq> associations name (listing y))
    \<and> (if zs = [] then z' = z else hd zs = z') \<and> (ok \<longrightarrow> tlsa_value ` set digests \<subseteq> associations name (listing z'))"
proof (cases "digests = []")
  case True
  with assms(1,2) show ?thesis by (simp add: PublishTlsa_def)
next
  case False
  obtain g z1 where g: "GetZoneID dns domain z = (g, z1)" by force
  note zc = zone_call [OF assms(1) g]
  show ?thesis
  proof (cases g)
    case (Inl e)
    with assms(2) g False zc show ?thesis by (auto simp: PublishTlsa_def)
  next
    case (Inr zid)
    obtain l z2 where l: "ListRecords dns zoneID z1 = (l, z2)" by force
    have "inv z1" using zc by simp
    note lc = list_call [OF this l]
    have same: "inv z1" "inv z2" "listing z1 = listing z" "listing z2 = listing z" "zid = zoneID"
      using zc lc Inr by auto
    show ?thesis
    proof (cases l)
      case (Inl e)
      with assms(2) g \<open>g = Inr zid\<close> l False same show ?thesis by (auto simp: PublishTlsa_def)
    next
      case (Inr existing)
      let ?desired = "remdups (map tlsa_value digests)"
      have ex: "existing = listing z" using lc Inr same by auto
      obtain c z3 zs3 where c: "create_missing dns zoneID name (published_map name existing) ?desired (z2, [z2, z1]) = (c, z3, zs3)"
        by (metis prod.exhaust)
      have "list_all (\<lambda>v. good (entityTlsaRecord name v)) ?desired"
        using assms(3) unfolding name_def by (auto simp: list_all_iff)
      note cm = create_missing_keeps [OF same(2) this c refl]
      have "\<exists>news. listing z2 = existing @ news" using same(4) ex by simp
      note cm = cm [OF this]
      obtain new where new: "zs3 = new @ [z2, z1]" "\<forall>y\<in>set new. inv y \<and> associations name (listing z2) \<subseteq> associations name (listing y)"
        using cm by auto
      have cm: "inv z3" "zs3 \<noteq> [] \<and> hd zs3 = z3"
        "\<forall>y\<in>set zs3. inv y \<and> associations name (listing z) \<subseteq> associations name (listing y)"
        "associations name (listing z) \<subseteq> associations name (listing z3)"
        "\<exists>news. listing z3 = existing @ news" "c \<longrightarrow> tlsa_value ` set digests \<subseteq> associations name (listing z3)"
      proof -
        show "inv z3" "\<exists>news. listing z3 = existing @ news" using cm by blast+
        show "associations name (listing z) \<subseteq> associations name (listing z3)" using cm same(4) by simp
        show "c \<longrightarrow> tlsa_value ` set digests \<subseteq> associations name (listing z3)" using cm by simp
        show "zs3 \<noteq> [] \<and> hd zs3 = z3" using cm new(1) by (cases new) auto
        show "\<forall>y\<in>set zs3. inv y \<and> associations name (listing z) \<subseteq> associations name (listing y)"
          using new same by auto
      qed
      show ?thesis
      proof (cases c)
        case False
        then have "ok = False" "z' = z3" "zs = zs3"
          using assms(2) \<open>digests \<noteq> []\<close> g \<open>g = Inr zid\<close> l Inr same(5) c unfolding name_def by (auto simp: PublishTlsa_def Let_def)
        with cm show ?thesis by auto
      next
        case True
        obtain z4 zs4 where d: "delete_retired dns zoneID (published_list name existing) ?desired (z3, zs3) = (z4, zs4)" by force
        then have res: "ok = True" "z' = z4" "zs = zs4"
          using assms(2) \<open>digests \<noteq> []\<close> g \<open>g = Inr zid\<close> l Inr same(5) c True unfolding name_def by (auto simp: PublishTlsa_def Let_def)
        have "\<forall>(v, i)\<in>set (published_list name existing). \<exists>r\<in>set (listing z3). Value r = v \<and> ID r = i"
          using published_list_entry cm(5) by fastforce
        from delete_retired_keeps [OF cm(1) d order_refl ids [OF cm(1)] this, of name]
        have dr: "inv z4" "\<exists>new. zs4 = new @ zs3 \<and> (\<forall>y\<in>set new. inv y \<and> associations name (listing z3) \<inter> set ?desired \<subseteq> associations name (listing y))"
          "if zs4 = zs3 then z4 = z3 else hd zs4 = z4" "zs4 \<noteq> zs3 \<longrightarrow> zs4 \<noteq> []"
          "associations name (listing z3) \<inter> set ?desired \<subseteq> associations name (listing z4)" by auto
        have "zs4 \<noteq> [] \<and> hd zs4 = z4" using dr(3,4) cm(2) by (auto split: if_splits)
        moreover have "inv y \<and> associations name (listing z) \<inter> tlsa_value ` set digests \<subseteq> associations name (listing y)"
          if "y \<in> set zs4" for y
        proof -
          obtain new where new: "zs4 = new @ zs3" "\<forall>y\<in>set new. inv y \<and> associations name (listing z3) \<inter> set ?desired \<subseteq> associations name (listing y)"
            using dr(2) by blast
          consider "y \<in> set new" | "y \<in> set zs3" using \<open>y \<in> set zs4\<close> new(1) by auto
          then show ?thesis
          proof cases
            case 1
            then have "inv y" "associations name (listing z3) \<inter> tlsa_value ` set digests \<subseteq> associations name (listing y)" using new(2) by auto
            with cm(4) show ?thesis by blast
          next
            case 2
            with cm(3) show ?thesis by blast
          qed
        qed
        moreover have "tlsa_value ` set digests \<subseteq> associations name (listing z4)"
          using cm(6) True dr(5) by auto
        ultimately show ?thesis using dr(1) res by simp
      qed
    qed
  qed
qed

end

end
