(* ===== verification/TLSA_Rollover_Invariant.thy ===== *)
theory TLSA_Rollover_Invariant
  imports TLSA_Publication
begin

text \<open>
  The invariant of the rollover: the association of the certificate that is served has been in the zone at
  every moment of the last propagation wait, and the association of the next key ever since its
  publication was noted. Passes may fail at any call.
\<close>

text \<open>The zones of a log (newest first) that could be seen after a given time: those recorded after it and the one it began with.\<close>

fun visible_since :: "int \<Rightarrow> (int \<times> 'z) list \<Rightarrow> 'z list" where
  "visible_since c [] = []"
| "visible_since c ((t, z) # seen) = z # (if t > c then visible_since c seen else [])"

lemma visible_since_mono: "c \<le> c' \<Longrightarrow> set (visible_since c' seen) \<subseteq> set (visible_since c seen)"
proof (induction seen)
  case (Cons p seen)
  then show ?case by (cases p) auto
qed simp

lemma visible_since_append:
  "set (visible_since c (map (\<lambda>z. (t, z)) zs @ seen)) \<subseteq> set zs \<union> set (visible_since c seen)"
  by (induction zs) auto

lemma visible_since_newest: "seen \<noteq> [] \<Longrightarrow> fst (hd seen) \<le> c \<Longrightarrow> visible_since c seen = [snd (hd seen)]"
  by (cases seen) auto

lemma hd_visible: "seen \<noteq> [] \<Longrightarrow> snd (hd seen) \<in> set (visible_since c seen)"
  by (cases seen) auto

text \<open>The passes follow one another; an issuer answers a request for a key with a certificate of that key.\<close>

fun in_order :: "int \<Rightarrow> acme_env list \<Rightarrow> bool" where
  "in_order t [] = True"
| "in_order t (env # envs) = (t \<le> ae_now env \<and> ae_now env \<le> ae_marked env \<and> in_order (ae_marked env) envs)"

definition issuer_ok :: "'z acme_config \<Rightarrow> acme_env \<Rightarrow> bool" where
  "issuer_ok cfg env \<longleftrightarrow> (\<forall>key cert. ae_obtain env (Some key) = Some cert \<longrightarrow>
     TlsaDigestForKey (ac_pki cfg) (PrivateKeyPEM cert) = TlsaDigestForKey (ac_pki cfg) key)"

section \<open>What the decision publishes\<close>

lemma dedupe_from_set: "set (dedupe_from seen vs) = set vs - set seen - {[]}"
  by (induction vs arbitrary: seen) auto

lemma dedupe_set [simp]: "set (dedupe vs) = set vs - {[]}"
  by (simp add: dedupe_def dedupe_from_set)

lemma Decide_wanted:
  assumes "Decide config now st = (stage, wanted)" "CertificateMatchesPending st \<Longrightarrow> PendingDigest st = CurrentDigest st"
    "CurrentDigest st \<noteq> []"
  shows "CurrentDigest st \<in> set wanted \<and> (PendingDigest st \<noteq> [] \<longrightarrow> PendingDigest st \<in> set wanted)
    \<and> set wanted \<subseteq> {CurrentDigest st, PendingDigest st} - {[]}"
proof -
  have "wanted = snd (Decide config now st)" using assms(1) by simp
  then show ?thesis using assms(2,3) by (auto simp: Decide_def split: option.splits if_splits)
qed

lemma Decide_stage:
  assumes "Decide config now st = (stage, wanted)"
  shows "stage = StagePublishNext \<Longrightarrow> PendingDigest st \<noteq> [] \<Longrightarrow> PendingPublishedAt st = None"
    and "stage = StageRenew \<Longrightarrow> \<exists>t. PendingPublishedAt st = Some t \<and> PropagationWait config \<le> now - t \<and> PendingDigest st \<noteq> []"
  using assms by (auto simp: Decide_def split: option.splits if_splits)

section \<open>The invariant\<close>

text \<open>
  The setting: DANE is on, the provider keeps its contract for the TLSA records of this host, every digest is a
  text that such a record can carry, and a certificate and a key that belong together have one public key.
\<close>

locale tlsa_rollover = dns_provider dns domain zoneID listing good inv
  for dns :: "'z DnsProvider" and domain zoneID listing good inv +
  fixes cfg :: "'z acme_config"
  assumes cfg_dns: "ac_dns cfg = dns" "ac_domain cfg = domain"
    and dane: "ac_dane cfg"
    and wait: "PropagationWait (ac_rollover cfg) \<ge> 0"
    and key_digest: "TlsaDigestForKey (ac_pki cfg) key = Some d \<Longrightarrow> d \<noteq> [] \<and> good (entityTlsaRecord (''_25._tcp.'' @ ac_mailHost cfg) (tlsa_value d))"
    and pair_digest: "pk_pair (ac_pki cfg) cert key \<Longrightarrow> TlsaDigestForCertificate (ac_pki cfg) cert = TlsaDigestForKey (ac_pki cfg) key"
begin

definition published :: "string \<Rightarrow> 'z \<Rightarrow> bool" where
  "published d z \<longleftrightarrow> tlsa_value d \<in> associations (''_25._tcp.'' @ ac_mailHost cfg) (listing z)"

abbreviation cert_digest :: "StoredCertificate \<Rightarrow> string option" where
  "cert_digest cert \<equiv> TlsaDigestForCertificate (ac_pki cfg) (CertificatePEM cert)"

abbreviation pair_ok :: "StoredCertificate \<Rightarrow> bool" where
  "pair_ok cert \<equiv> pk_pair (ac_pki cfg) (CertificatePEM cert) (PrivateKeyPEM cert)"

definition log_ok :: "int \<Rightarrow> 'z acme_state \<Rightarrow> bool" where
  "log_ok t st \<longleftrightarrow> am_log st \<noteq> [] \<and> snd (hd (am_log st)) = am_zone st \<and> fst (hd (am_log st)) \<le> t \<and> inv (am_zone st)"

definition covered :: "int \<Rightarrow> string \<Rightarrow> 'z acme_state \<Rightarrow> bool" where
  "covered c d st \<longleftrightarrow> (\<forall>z\<in>set (visible_since c (am_log st)). published d z)"

definition pending_inv :: "int \<Rightarrow> 'z acme_state \<Rightarrow> bool" where
  "pending_inv t st \<longleftrightarrow> (\<forall>p. am_pending st = Some p \<longrightarrow>
     TlsaDigestForKey (ac_pki cfg) (pr_key p) = Some (pr_digest p)
     \<and> (\<forall>\<tau>. pr_published_at p = Some \<tau> \<longrightarrow> \<tau> \<le> t \<and> covered \<tau> (pr_digest p) st))"

definition served_inv :: "int \<Rightarrow> 'z acme_state \<Rightarrow> bool" where
  "served_inv t st \<longleftrightarrow> (\<exists>cert d. am_current st = Some cert \<and> pair_ok cert \<and> cert_digest cert = Some d
     \<and> covered (t - PropagationWait (ac_rollover cfg)) d st
     \<and> (\<exists>c. am_stored st = Some c \<and> (c = cert \<or> \<not> pair_ok c)))"

definition roll_inv :: "int \<Rightarrow> 'z acme_state \<Rightarrow> bool" where
  "roll_inv t st \<longleftrightarrow> log_ok t st \<and> pending_inv t st \<and> served_inv t st"

abbreviation env_ok :: "acme_env \<Rightarrow> bool" where
  "env_ok \<equiv> issuer_ok cfg"

lemma covered_mono: "c \<le> c' \<Longrightarrow> covered c d st \<Longrightarrow> covered c' d st"
  using visible_since_mono [of c c' "am_log st"] unfolding covered_def by (meson subsetD)

lemma served_inv_later:
  assumes "served_inv t st" "t \<le> t'"
  shows "served_inv t' st"
proof -
  from assms(1) obtain cert d where c: "am_current st = Some cert" "pair_ok cert" "cert_digest cert = Some d"
      "covered (t - PropagationWait (ac_rollover cfg)) d st" "\<exists>c. am_stored st = Some c \<and> (c = cert \<or> \<not> pair_ok c)"
    unfolding served_inv_def by blast
  have "covered (t' - PropagationWait (ac_rollover cfg)) d st" using assms(2) by (intro covered_mono [OF _ c(4)]) simp
  with c show ?thesis unfolding served_inv_def by blast
qed

lemma pending_inv_later: "pending_inv t st \<Longrightarrow> t \<le> t' \<Longrightarrow> pending_inv t' st"
  unfolding pending_inv_def by (meson order_trans)

lemma roll_inv_later: "roll_inv t st \<Longrightarrow> t \<le> t' \<Longrightarrow> roll_inv t' st"
  using served_inv_later pending_inv_later unfolding roll_inv_def log_ok_def by auto

lemma covered_now: "log_ok t st \<Longrightarrow> covered c d st \<Longrightarrow> published d (am_zone st)"
  using hd_visible [of "am_log st" c] unfolding log_ok_def covered_def by metis

lemma digest_good: "pair_ok cert \<Longrightarrow> cert_digest cert = Some d \<Longrightarrow> d \<noteq> [] \<and> good (entityTlsaRecord (''_25._tcp.'' @ ac_mailHost cfg) (tlsa_value d))"
  using pair_digest key_digest by metis

section \<open>A publication\<close>

lemma publish_state:
  assumes "publish cfg env ds st = (ok, st')" "log_ok (ae_now env) st"
    "\<forall>d\<in>set ds. good (entityTlsaRecord (''_25._tcp.'' @ ac_mailHost cfg) (tlsa_value d))"
  shows "log_ok (ae_now env) st' \<and> am_stored st' = am_stored st \<and> am_pending st' = am_pending st \<and> am_current st' = am_current st
    \<and> (\<forall>d\<in>set ds. \<forall>c. covered c d st \<longrightarrow> covered c d st') \<and> (ok \<longrightarrow> (\<forall>d\<in>set ds. published d (am_zone st')))"
proof -
  obtain z zs where p: "PublishTlsa dns domain (ac_mailHost cfg) ds (am_zone st) = (ok, z, zs)"
    and st': "st' = st\<lparr>am_zone := z, am_log := map (\<lambda>z. (ae_now env, z)) zs @ am_log st\<rparr>"
    using assms(1) by (auto simp: publish_def cfg_dns split: prod.splits)
  have "inv (am_zone st)" using assms(2) by (simp add: log_ok_def)
  note k = publish_keeps [OF this p assms(3)]
  have seen: "log_ok (ae_now env) st'"
    using k assms(2) st' by (cases zs) (auto simp: log_ok_def)
  have "covered c d st'" if "d \<in> set ds" "covered c d st" for c d
  proof -
    have "published d (am_zone st)" using covered_now [OF assms(2) that(2)] .
    then have "published d y" if "y \<in> set zs" for y
      using k that \<open>d \<in> set ds\<close> unfolding published_def by blast
    moreover have "set (visible_since c (am_log st')) \<subseteq> set zs \<union> set (visible_since c (am_log st))"
      using visible_since_append [of c "ae_now env" zs "am_log st"] unfolding st' by simp
    ultimately show ?thesis using that(2) unfolding covered_def by blast
  qed
  moreover have "ok \<longrightarrow> (\<forall>d\<in>set ds. published d (am_zone st'))" using k st' unfolding published_def by auto
  ultimately show ?thesis using seen st' by simp
qed

text \<open>Publishing a set with the served digest, and with the pending one if there is one, keeps the invariant.\<close>

lemma publish_inv:
  assumes "publish cfg env ds st = (ok, st')" "roll_inv (ae_now env) st"
    "\<forall>d\<in>set ds. good (entityTlsaRecord (''_25._tcp.'' @ ac_mailHost cfg) (tlsa_value d))"
    "\<forall>cert d. am_current st = Some cert \<longrightarrow> cert_digest cert = Some d \<longrightarrow> d \<in> set ds"
    "\<forall>p. am_pending st = Some p \<longrightarrow> pr_published_at p \<noteq> None \<longrightarrow> pr_digest p \<in> set ds"
  shows "roll_inv (ae_now env) st'"
proof -
  have "log_ok (ae_now env) st" using assms(2) by (simp add: roll_inv_def)
  note p = publish_state [OF assms(1) this assms(3)]
  have "served_inv (ae_now env) st'"
    using assms(2,4) p unfolding roll_inv_def served_inv_def by metis
  moreover have "pending_inv (ae_now env) st'"
    using assms(2,5) p unfolding roll_inv_def pending_inv_def by (metis option.distinct(1))
  ultimately show ?thesis using p by (simp add: roll_inv_def)
qed

section \<open>A pass\<close>

text \<open>After the stored certificate has been served, it is the one the invariant speaks of.\<close>

definition serving :: "int \<Rightarrow> StoredCertificate \<Rightarrow> string \<Rightarrow> 'z acme_state \<Rightarrow> bool" where
  "serving t cert d st \<longleftrightarrow> roll_inv t st \<and> am_stored st = Some cert \<and> am_current st = Some cert \<and> pair_ok cert \<and> cert_digest cert = Some d"

lemma start_rollover_inv:
  assumes "start_rollover cfg env d st = (ok, st')" "serving (ae_now env) cert d st"
  shows "roll_inv (ae_now env) st'
    \<and> (ok \<longrightarrow> log_ok (ae_now env) st' \<and> (\<forall>p. am_pending st' = Some p \<longrightarrow> published (pr_digest p) (am_zone st')))"
proof -
  have inv: "roll_inv (ae_now env) st" and cert: "am_current st = Some cert" "pair_ok cert" "cert_digest cert = Some d"
    using assms(2) by (simp_all add: serving_def)
  show ?thesis
  proof (cases "\<exists>key dig. ae_key env = Some key \<and> TlsaDigestForKey (ac_pki cfg) key = Some dig \<and> ae_save_pending_ok env")
    case False
    then have "st' = st" "\<not> ok" using assms(1) by (auto simp: start_rollover_def split: option.splits if_splits)
    with inv show ?thesis by simp
  next
    case True
    then obtain key dig where k: "ae_key env = Some key" "TlsaDigestForKey (ac_pki cfg) key = Some dig" "ae_save_pending_ok env" by blast
    let ?st = "st\<lparr>am_pending := Some \<lparr>pr_key = key, pr_digest = dig, pr_published_at = None\<rparr>\<rparr>"
    have p: "publish cfg env [d, dig] ?st = (ok, st')"
      using assms(1) k by (simp add: start_rollover_def Let_def)
    have same: "covered c x ?st = covered c x st" for c x by (simp add: covered_def)
    have "log_ok (ae_now env) ?st" "served_inv (ae_now env) ?st" using inv by (simp_all add: roll_inv_def log_ok_def served_inv_def same)
    moreover have "pending_inv (ae_now env) ?st" using k(2) by (simp add: pending_inv_def)
    ultimately have inv1: "roll_inv (ae_now env) ?st" by (simp add: roll_inv_def)
    have good: "\<forall>x\<in>set [d, dig]. good (entityTlsaRecord (''_25._tcp.'' @ ac_mailHost cfg) (tlsa_value x))"
      using digest_good [OF cert(2,3)] key_digest [OF k(2)] by simp
    have "roll_inv (ae_now env) st'"
      by (rule publish_inv [OF p inv1 good]) (use cert in auto)
    moreover have "log_ok (ae_now env) ?st" using inv1 by (simp add: roll_inv_def)
    note publish_state [OF p this good]
    ultimately show ?thesis by (auto simp: roll_inv_def)
  qed
qed

lemma mark_published_inv:
  assumes "mark_published env st = (ok, st')" "roll_inv (ae_now env) st" "ae_now env \<le> ae_marked env"
    "\<forall>p. am_pending st = Some p \<longrightarrow> pr_published_at p = None \<longrightarrow> published (pr_digest p) (am_zone st)"
  shows "roll_inv (ae_marked env) st'"
proof (cases "ae_mark_ok env")
  case False
  then show ?thesis using assms roll_inv_later by (auto simp: mark_published_def)
next
  case True
  have inv: "roll_inv (ae_marked env) st" using roll_inv_later assms(2,3) by blast
  define mark where "mark p = (if pr_published_at p = None then p\<lparr>pr_published_at := Some (ae_marked env)\<rparr> else p)" for p :: pending_row
  have st': "st' = st\<lparr>am_pending := map_option mark (am_pending st)\<rparr>"
    using assms(1) True by (simp add: mark_published_def mark_def [abs_def])
  have same: "covered c x st' = covered c x st" for c x by (simp add: covered_def st')
  have log: "am_log st \<noteq> []" "fst (hd (am_log st)) \<le> ae_marked env" "snd (hd (am_log st)) = am_zone st"
    using inv by (auto simp: roll_inv_def log_ok_def)
  have now: "covered (ae_marked env) x st" if "published x (am_zone st)" for x
    unfolding covered_def visible_since_newest [OF log(1,2)] using that log(3) by simp
  have "pending_inv (ae_marked env) st'"
    unfolding pending_inv_def
  proof (intro allI impI)
    fix p assume "am_pending st' = Some p"
    then obtain q where q: "am_pending st = Some q" "p = mark q" using st' by auto
    have old: "TlsaDigestForKey (ac_pki cfg) (pr_key q) = Some (pr_digest q)
        \<and> (\<forall>\<tau>. pr_published_at q = Some \<tau> \<longrightarrow> \<tau> \<le> ae_marked env \<and> covered \<tau> (pr_digest q) st)"
      using inv q(1) by (simp add: roll_inv_def pending_inv_def)
    show "TlsaDigestForKey (ac_pki cfg) (pr_key p) = Some (pr_digest p)
        \<and> (\<forall>\<tau>. pr_published_at p = Some \<tau> \<longrightarrow> \<tau> \<le> ae_marked env \<and> covered \<tau> (pr_digest p) st')"
    proof (cases "pr_published_at q")
      case None
      then have "published (pr_digest q) (am_zone st)" using assms(4) q(1) by blast
      with None old q(2) now show ?thesis by (simp add: mark_def same)
    next
      case (Some \<tau>)
      with old q(2) show ?thesis by (simp add: mark_def same)
    qed
  qed
  moreover have "served_inv (ae_marked env) st'" "log_ok (ae_marked env) st'"
    using inv by (simp_all add: roll_inv_def served_inv_def same log_ok_def) (simp_all add: st')
  ultimately show ?thesis by (simp add: roll_inv_def)
qed

lemma issue_pending_inv:
  assumes "issue cfg env (Some (pr_key p)) generation st = (ok, st')" "serving (ae_now env) cert d st" "env_ok env"
    "am_pending st = Some p" "pr_digest p \<noteq> []" "pr_published_at p = Some \<tau>" "PropagationWait (ac_rollover cfg) \<le> ae_now env - \<tau>"
  shows "roll_inv (ae_now env) st'"
proof (cases "ae_obtain env (Some (pr_key p))")
  case None
  then have "st' = st" using assms(1) by (simp add: issue_def)
  then show ?thesis using assms(2) by (simp add: serving_def)
next
  case (Some issued0)
  let ?issued = "issued0\<lparr>KeyGeneration := generation\<rparr>"
  have inv: "roll_inv (ae_now env) st" using assms(2) by (simp add: serving_def)
  show ?thesis
  proof (cases "ae_save_ok env")
    case False
    then have "st' = st" using assms(1) Some by (simp add: issue_def Let_def)
    then show ?thesis using inv by simp
  next
    case True
    then have s: "serve cfg ?issued (st\<lparr>am_stored := Some ?issued\<rparr>) = (ok, st')" using assms(1) Some by (simp add: issue_def Let_def)
    have pend: "pending_inv (ae_now env) st'" "log_ok (ae_now env) st'"
      using inv s by (auto simp: serve_def roll_inv_def pending_inv_def log_ok_def covered_def split: if_splits)
    have "served_inv (ae_now env) st'"
    proof (cases "pair_ok ?issued")
      case True
      have "cert_digest ?issued = TlsaDigestForKey (ac_pki cfg) (PrivateKeyPEM issued0)"
        using pair_digest [OF True] by simp
      also have "\<dots> = TlsaDigestForKey (ac_pki cfg) (pr_key p)" using assms(3) Some by (simp add: issuer_ok_def)
      also have "\<dots> = Some (pr_digest p)" using inv assms(4,5) by (simp add: roll_inv_def pending_inv_def)
      finally have dig: "cert_digest ?issued = Some (pr_digest p)" .
      have "covered \<tau> (pr_digest p) st" using inv assms(4,6) by (simp add: roll_inv_def pending_inv_def)
      then have "covered (ae_now env - PropagationWait (ac_rollover cfg)) (pr_digest p) st"
        by (rule covered_mono [rotated]) (use assms(7) in linarith)
      moreover have "st' = st\<lparr>am_stored := Some ?issued, am_current := Some ?issued\<rparr>" using s True by (simp add: serve_def)
      ultimately show ?thesis using dig True by (simp add: served_inv_def covered_def)
    next
      case False
      then have "st' = st\<lparr>am_stored := Some ?issued\<rparr>" using s by (simp add: serve_def)
      moreover have "covered (ae_now env - PropagationWait (ac_rollover cfg)) d st" "am_current st = Some cert" "pair_ok cert" "cert_digest cert = Some d"
      proof -
        show c: "am_current st = Some cert" "pair_ok cert" "cert_digest cert = Some d" using assms(2) by (simp_all add: serving_def)
        have "served_inv (ae_now env) st" using inv by (simp add: roll_inv_def)
        then show "covered (ae_now env - PropagationWait (ac_rollover cfg)) d st" unfolding served_inv_def using c by auto
      qed
      ultimately show ?thesis using False unfolding served_inv_def covered_def by simp
    qed
    with pend show ?thesis by (simp add: roll_inv_def)
  qed
qed

lemma serving_inv: "serving t cert d st \<Longrightarrow> roll_inv t st"
  by (simp add: serving_def)

lemma carry_stage_inv:
  assumes "carry_stage cfg env stage d cert st = (ok, st')" "serving (ae_now env) cert d st" "env_ok env" "ae_now env \<le> ae_marked env"
    "stage = StagePublishNext \<Longrightarrow> pending_digest st \<noteq> [] \<Longrightarrow> published (pending_digest st) (am_zone st)"
    "stage = StageRenew \<Longrightarrow> \<exists>p \<tau>. am_pending st = Some p \<and> pr_digest p \<noteq> [] \<and> pr_published_at p = Some \<tau>
        \<and> PropagationWait (ac_rollover cfg) \<le> ae_now env - \<tau>"
  shows "roll_inv (ae_marked env) st'"
proof -
  note inv = serving_inv [OF assms(2)]
  show ?thesis
  proof (cases stage)
    case StagePublishNext
    obtain ok1 st1 where s1: "(if pending_digest st = [] then start_rollover cfg env d st else (True, st)) = (ok1, st1)" by force
    have st1: "roll_inv (ae_now env) st1" "ok1 \<longrightarrow> (\<forall>p. am_pending st1 = Some p \<longrightarrow> published (pr_digest p) (am_zone st1))"
    proof -
      have "roll_inv (ae_now env) st1 \<and> (ok1 \<longrightarrow> (\<forall>p. am_pending st1 = Some p \<longrightarrow> published (pr_digest p) (am_zone st1)))"
      proof (cases "pending_digest st = []")
        case True
        then show ?thesis using s1 start_rollover_inv [OF _ assms(2)] by auto
      next
        case False
        then show ?thesis using s1 inv assms(5) [OF StagePublishNext False] by (auto simp: pending_digest_def)
      qed
      then show "roll_inv (ae_now env) st1" "ok1 \<longrightarrow> (\<forall>p. am_pending st1 = Some p \<longrightarrow> published (pr_digest p) (am_zone st1))" by blast+
    qed
    show ?thesis
    proof (cases ok1)
      case False
      then have "st' = st1" using assms(1) s1 StagePublishNext by (simp add: carry_stage_def)
      then show ?thesis using st1(1) assms(4) roll_inv_later by simp
    next
      case True
      then have "mark_published env st1 = (ok, st')" using assms(1) s1 StagePublishNext by (simp add: carry_stage_def)
      then show ?thesis using mark_published_inv st1 True assms(4) by blast
    qed
  next
    case StageRenew
    then obtain p \<tau> where p: "am_pending st = Some p" "pr_digest p \<noteq> []" "pr_published_at p = Some \<tau>"
      "PropagationWait (ac_rollover cfg) \<le> ae_now env - \<tau>" using assms(6) by blast
    show ?thesis
    proof (cases "ae_load_key_ok env")
      case False
      then have "st' = st" using assms(1) StageRenew by (simp add: carry_stage_def)
      then show ?thesis using inv assms(4) roll_inv_later by simp
    next
      case True
      then have "issue cfg env (Some (pr_key p)) (KeyGeneration cert + 1) st = (ok, st')"
        using assms(1) StageRenew p(1) by (simp add: carry_stage_def)
      from issue_pending_inv [OF this assms(2,3) p] assms(4) roll_inv_later show ?thesis by blast
    qed
  next
    case StageStable
    then have "st' = st \<or> st' = st\<lparr>am_pending := None\<rparr>" using assms(1) by (auto simp: carry_stage_def split: if_splits)
    moreover have "roll_inv (ae_now env) (st\<lparr>am_pending := None\<rparr>)"
      using inv by (simp add: roll_inv_def log_ok_def pending_inv_def served_inv_def covered_def)
    ultimately show ?thesis using inv assms(4) roll_inv_later by blast
  qed (use assms(1,4) inv roll_inv_later in \<open>auto simp: carry_stage_def\<close>)
qed

lemma serve_inv:
  assumes "am_stored st = Some cert" "serve cfg cert st = (ok, st1)" "roll_inv t st"
  shows "if ok then \<exists>d. serving t cert d st1 else st1 = st"
proof (cases "pair_ok cert")
  case False
  with assms(2) show ?thesis by (simp add: serve_def)
next
  case True
  then have st1: "ok" "st1 = st\<lparr>am_current := Some cert\<rparr>" using assms(2) by (auto simp: serve_def)
  from assms(3) obtain c d where c: "am_current st = Some c" "pair_ok c" "cert_digest c = Some d" "am_stored st = Some c"
    unfolding roll_inv_def served_inv_def using assms(1) True by auto
  with assms(1) have "st1 = st" using st1(2) by simp
  then show ?thesis using st1(1) assms(1,3) c True by (auto simp: serving_def)
qed

lemma reconcileWithDane_inv:
  assumes "reconcileWithDane cfg env (Some cert) st = (ok, st')" "serving (ae_now env) cert d st" "env_ok env" "ae_now env \<le> ae_marked env"
  shows "roll_inv (ae_marked env) st'"
proof -
  note inv = serving_inv [OF assms(2)]
  have cert: "am_stored st = Some cert" "am_current st = Some cert" "pair_ok cert" "cert_digest cert = Some d"
    using assms(2) by (simp_all add: serving_def)
  show ?thesis
  proof (cases "ae_pending_ok env")
    case False
    then have "st' = st" using assms(1) cert(4) by (simp add: reconcileWithDane_def)
    then show ?thesis using inv assms(4) roll_inv_later by simp
  next
    case True
    let ?rs = "rollover_state d cert st"
    obtain stage wanted where dec: "Decide (ac_rollover cfg) (ae_now env) ?rs = (stage, wanted)" by force
    obtain ok1 st1 where p: "publish cfg env wanted st = (ok1, st1)" by force
    have d: "d \<noteq> []" "good (entityTlsaRecord (''_25._tcp.'' @ ac_mailHost cfg) (tlsa_value d))" using digest_good [OF cert(3,4)] by auto
    have pend_good: "good (entityTlsaRecord (''_25._tcp.'' @ ac_mailHost cfg) (tlsa_value (pending_digest st)))" if ne: "pending_digest st \<noteq> []"
    proof -
      obtain q where q: "am_pending st = Some q" "pr_digest q = pending_digest st" using ne by (cases "am_pending st") (auto simp: pending_digest_def)
      with ne have "TlsaDigestForKey (ac_pki cfg) (pr_key q) = Some (pending_digest st)"
        using inv by (simp add: roll_inv_def pending_inv_def)
      then show ?thesis using key_digest by blast
    qed
    have w: "d \<in> set wanted" "pending_digest st \<noteq> [] \<longrightarrow> pending_digest st \<in> set wanted" "set wanted \<subseteq> {d, pending_digest st} - {[]}"
      using Decide_wanted [OF dec] d(1) by (auto simp: rollover_state_def)
    then have good: "\<forall>x\<in>set wanted. good (entityTlsaRecord (''_25._tcp.'' @ ac_mailHost cfg) (tlsa_value x))"
      using d(2) pend_good by auto
    have pw: "pr_digest q \<in> set wanted" if "am_pending st = Some q" for q
    proof -
      have "TlsaDigestForKey (ac_pki cfg) (pr_key q) = Some (pr_digest q)"
        using that inv by (simp add: roll_inv_def pending_inv_def)
      then have "pending_digest st \<noteq> []" using key_digest that by (simp add: pending_digest_def)
      then show ?thesis using w(2) that by (simp add: pending_digest_def)
    qed
    have inv1: "roll_inv (ae_now env) st1"
      by (rule publish_inv [OF p inv good]) (use cert w(1) pw in auto)
    have "log_ok (ae_now env) st" using inv by (simp add: roll_inv_def)
    note ps = publish_state [OF p this good]
    have serv: "serving (ae_now env) cert d st1" using inv1 ps cert by (simp add: serving_def)
    show ?thesis
    proof (cases ok1)
      case False
      then have "st' = st1" using assms(1) cert(4) True dec p by (simp add: reconcileWithDane_def)
      then show ?thesis using inv1 assms(4) roll_inv_later by simp
    next
      case okp: True
      then have c: "carry_stage cfg env stage d cert st1 = (ok, st')"
        using assms(1) cert(4) True dec p by (simp add: reconcileWithDane_def)
      have pend: "pending_digest st1 = pending_digest st" "am_pending st1 = am_pending st" using ps by (simp_all add: pending_digest_def)
      show ?thesis
      proof (rule carry_stage_inv [OF c serv assms(3,4)])
        show "published (pending_digest st1) (am_zone st1)" if "pending_digest st1 \<noteq> []"
          using that pend w(2) ps okp by simp
        show "\<exists>p \<tau>. am_pending st1 = Some p \<and> pr_digest p \<noteq> [] \<and> pr_published_at p = Some \<tau>
            \<and> PropagationWait (ac_rollover cfg) \<le> ae_now env - \<tau>" if "stage = StageRenew"
          using Decide_stage(2) [OF dec that] pend(2)
          by (auto simp: rollover_state_def pending_digest_def split: option.splits)
      qed
    qed
  qed
qed

lemma reconcile_inv:
  assumes "roll_inv t st" "t \<le> ae_now env" "ae_now env \<le> ae_marked env" "env_ok env" "reconcile cfg env st = (ok, st')"
  shows "roll_inv (ae_marked env) st'"
proof -
  have now: "roll_inv (ae_now env) st" and later: "roll_inv (ae_marked env) st"
    using assms(1-3) roll_inv_later by (blast, blast intro: order_trans)
  obtain cert where cert: "am_stored st = Some cert"
    using now unfolding roll_inv_def served_inv_def by blast
  obtain ok1 st1 where s: "serve cfg cert st = (ok1, st1)" by force
  show ?thesis
  proof (cases "ae_load_ok env \<and> ok1")
    case False
    then have "st' = st \<or> st' = st1 \<and> \<not> ok1" using assms(5) cert s by (auto simp: reconcile_def split: if_splits)
    then show ?thesis using serve_inv [OF cert s now] later by auto
  next
    case True
    then obtain d where d: "serving (ae_now env) cert d st1" using serve_inv [OF cert s now] by auto
    then have "am_stored st1 = Some cert" by (simp add: serving_def)
    then have "reconcileWithDane cfg env (Some cert) st1 = (ok, st')"
      using assms(5) True cert s dane by (simp add: reconcile_def)
    then show ?thesis using reconcileWithDane_inv d assms(3,4) by blast
  qed
qed

section \<open>Any number of passes\<close>

lemma passes_inv:
  assumes "roll_inv t st" "in_order t envs" "\<forall>env\<in>set envs. env_ok env"
  shows "roll_inv (foldl (\<lambda>_ env. ae_marked env) t envs) (foldl (\<lambda>st env. snd (reconcile cfg env st)) st envs)"
  using assms
proof (induction envs arbitrary: t st)
  case (Cons env envs)
  obtain ok st' where r: "reconcile cfg env st = (ok, st')" by force
  have "roll_inv (ae_marked env) st'" using Cons.prems by (intro reconcile_inv [OF _ _ _ _ r]) auto
  with Cons.IH [OF this] Cons.prems r show ?case by simp
qed simp

end

end
