(* ===== verification/TLSA_Rollover_Progress.thy ===== *)
theory TLSA_Rollover_Progress
  imports TLSA_Rollover_Invariant
begin

text \<open>
  The rollover makes progress: passes that report no error bring the certificate that is due through the
  publication of the next association, the wait and the renewal. What a pass without error does is
  read off the manager stage by stage; nothing about the DNS provider is needed.
\<close>

section \<open>A pass without error\<close>

fun passes_ok :: "'z acme_config \<Rightarrow> 'z acme_state \<Rightarrow> acme_env list \<Rightarrow> bool" where
  "passes_ok cfg st [] = True"
| "passes_ok cfg st (env # envs) = (fst (reconcile cfg env st) \<and> passes_ok cfg (snd (reconcile cfg env st)) envs)"

definition run_passes :: "'z acme_config \<Rightarrow> 'z acme_state \<Rightarrow> acme_env list \<Rightarrow> 'z acme_state" where
  "run_passes cfg st envs = foldl (\<lambda>st env. snd (reconcile cfg env st)) st envs"

lemma publish_same:
  "publish cfg env ds st = (ok, st') \<Longrightarrow> am_stored st' = am_stored st \<and> am_pending st' = am_pending st \<and> am_current st' = am_current st"
  by (auto simp: publish_def split: prod.splits)

lemma serve_ok: "serve cfg cert st = (True, st') \<Longrightarrow> st' = st\<lparr>am_current := Some cert\<rparr>"
  by (auto simp: serve_def split: if_splits)

lemma issue_ok:
  assumes "issue cfg env key generation st = (True, st')"
  obtains issued where "am_stored st' = Some issued" "am_current st' = Some issued" "KeyGeneration issued = generation"
  using assms by (auto simp: issue_def serve_def Let_def split: option.splits if_splits)

lemma start_rollover_ok:
  assumes "start_rollover cfg env d st = (True, st')"
  obtains key dig where "ae_key env = Some key" "TlsaDigestForKey (ac_pki cfg) key = Some dig"
    "am_pending st' = Some \<lparr>pr_key = key, pr_digest = dig, pr_published_at = None\<rparr>"
    "am_stored st' = am_stored st" "am_current st' = am_current st"
  using assms by (auto simp: start_rollover_def Let_def split: option.splits if_splits dest!: publish_same)

text \<open>
  Seen from the rows: a pass without error over a stored certificate with digest \<open>d\<close> follows the decided stage.
\<close>

lemma reconcile_ok_stage:
  assumes "reconcile cfg env st = (True, st')" "ac_dane cfg" "am_stored st = Some cert"
  obtains d stage wanted st1 where "TlsaDigestForCertificate (ac_pki cfg) (CertificatePEM cert) = Some d"
    "Decide (ac_rollover cfg) (ae_now env) (rollover_state d cert st1) = (stage, wanted)"
    "carry_stage cfg env stage d cert st1 = (True, st')"
    "am_stored st1 = Some cert" "am_current st1 = Some cert" "am_pending st1 = am_pending st"
proof -
  obtain ok1 st0 where s: "serve cfg cert st = (ok1, st0)" by force
  have ok1: "ok1" "ae_load_ok env" using assms s by (cases ok1; auto simp: reconcile_def split: if_splits)+
  then have st0: "st0 = st\<lparr>am_current := Some cert\<rparr>" using s serve_ok by auto
  have r: "reconcileWithDane cfg env (Some cert) st0 = (True, st')"
    using assms s ok1 st0 by (simp add: reconcile_def)
  then obtain d where d: "TlsaDigestForCertificate (ac_pki cfg) (CertificatePEM cert) = Some d"
    by (auto simp: reconcileWithDane_def split: option.splits)
  obtain stage wanted where dec: "Decide (ac_rollover cfg) (ae_now env) (rollover_state d cert st0) = (stage, wanted)" by force
  obtain ok2 st1 where p: "publish cfg env wanted st0 = (ok2, st1)" by force
  note same = publish_same [OF p]
  have "rollover_state d cert st1 = rollover_state d cert st0" using same by (simp add: rollover_state_def pending_digest_def)
  moreover have "carry_stage cfg env stage d cert st1 = (True, st')"
    using r d dec p by (auto simp: reconcileWithDane_def split: if_splits bool.splits)
  ultimately show ?thesis using dec same st0 assms(3) by (intro that [OF d, of st1 stage wanted]) simp_all
qed

text \<open>The digest of the next key, if there is one, is a new one; a noted publication is not in the future.\<close>

definition waiting :: "'z acme_config \<Rightarrow> StoredCertificate \<Rightarrow> int \<Rightarrow> 'z acme_state \<Rightarrow> bool" where
  "waiting cfg cert t st \<longleftrightarrow> am_stored st = Some cert \<and>
     (\<forall>p. am_pending st = Some p \<longrightarrow> pr_digest p \<noteq> [] \<and> Some (pr_digest p) \<noteq> TlsaDigestForCertificate (ac_pki cfg) (CertificatePEM cert)
        \<and> (\<forall>\<tau>. pr_published_at p = Some \<tau> \<longrightarrow> \<tau> \<le> t))"

definition noted :: "int \<Rightarrow> 'z acme_state \<Rightarrow> bool" where
  "noted t st \<longleftrightarrow> (\<exists>p \<tau>. am_pending st = Some p \<and> pr_published_at p = Some \<tau> \<and> \<tau> \<le> t)"

definition renewed :: "nat \<Rightarrow> 'z acme_state \<Rightarrow> bool" where
  "renewed g st \<longleftrightarrow> (\<exists>c. am_stored st = Some c \<and> am_current st = Some c \<and> g < KeyGeneration c)"

definition fresh_key :: "'z acme_config \<Rightarrow> StoredCertificate \<Rightarrow> acme_env \<Rightarrow> bool" where
  "fresh_key cfg cert env \<longleftrightarrow> (\<forall>key dig. ae_key env = Some key \<longrightarrow> TlsaDigestForKey (ac_pki cfg) key = Some dig \<longrightarrow>
     dig \<noteq> [] \<and> TlsaDigestForCertificate (ac_pki cfg) (CertificatePEM cert) \<noteq> Some dig)"

lemma mark_published_ok:
  assumes "mark_published env st = (True, st')" "am_pending st = Some p" "pr_published_at p = None"
  shows "am_stored st' = am_stored st \<and> am_pending st' = Some (p\<lparr>pr_published_at := Some (ae_marked env)\<rparr>)"
  using assms by (auto simp: mark_published_def split: if_splits)

lemma waiting_pass:
  assumes "reconcile cfg env st = (True, st')" "ac_dane cfg" "waiting cfg cert t st" "t \<le> ae_now env" "ae_now env \<le> ae_marked env"
    "fresh_key cfg cert env"
  shows "waiting cfg cert (ae_marked env) st'
      \<and> (\<forall>u. noted u st \<longrightarrow> ae_now env < u + PropagationWait (ac_rollover cfg) \<and> noted u st')
      \<and> (\<forall>e. crt_NotAfter cert = Some e \<longrightarrow> e - PrepareBefore (ac_rollover cfg) < ae_now env \<longrightarrow> noted (ae_marked env) st')
    \<or> renewed (KeyGeneration cert) st'"
proof -
  have stored: "am_stored st = Some cert" using assms(3) by (simp add: waiting_def)
  obtain d stage wanted st1 where d: "TlsaDigestForCertificate (ac_pki cfg) (CertificatePEM cert) = Some d"
    and dec: "Decide (ac_rollover cfg) (ae_now env) (rollover_state d cert st1) = (stage, wanted)"
    and c: "carry_stage cfg env stage d cert st1 = (True, st')"
    and st1: "am_stored st1 = Some cert" "am_current st1 = Some cert" "am_pending st1 = am_pending st"
    using reconcile_ok_stage [OF assms(1,2) stored] .
  show ?thesis
  proof (cases "am_pending st")
    case None
    then have pd: "pending_digest st1 = []" by (simp add: pending_digest_def st1)
    show ?thesis
    proof (cases "\<exists>e. crt_NotAfter cert = Some e \<and> e - PrepareBefore (ac_rollover cfg) < ae_now env")
      case False
      then have "stage = StageStable" using dec None by (auto simp: Decide_def rollover_state_def pd st1 split: option.splits if_splits)
      then have "st' = st1" using c pd by (simp add: carry_stage_def)
      with False None show ?thesis by (auto simp: waiting_def noted_def st1)
    next
      case True
      then have "stage = StagePublishNext" using dec None by (auto simp: Decide_def rollover_state_def pd st1 split: option.splits if_splits)
      then obtain st2 where s: "start_rollover cfg env d st1 = (True, st2)" "mark_published env st2 = (True, st')"
        using c pd by (auto simp: carry_stage_def split: prod.splits bool.splits)
      obtain key dig where k: "ae_key env = Some key" "TlsaDigestForKey (ac_pki cfg) key = Some dig"
        "am_pending st2 = Some \<lparr>pr_key = key, pr_digest = dig, pr_published_at = None\<rparr>" "am_stored st2 = am_stored st1"
        using start_rollover_ok [OF s(1)] .
      have "dig \<noteq> []" "dig \<noteq> d" using assms(6) k(1,2) d by (auto simp: fresh_key_def)
      with mark_published_ok [OF s(2) k(3)] k(4) None d st1 show ?thesis by (auto simp: waiting_def noted_def)
    qed
  next
    case (Some p)
    then have p: "pr_digest p \<noteq> []" "pr_digest p \<noteq> d" "\<forall>\<tau>. pr_published_at p = Some \<tau> \<longrightarrow> \<tau> \<le> t"
      using assms(3) d by (auto simp: waiting_def)
    have pd: "pending_digest st1 = pr_digest p" by (simp add: pending_digest_def st1 Some)
    show ?thesis
    proof (cases "pr_published_at p")
      case None
      then have "stage = StagePublishNext" using dec p by (simp add: Decide_def rollover_state_def pd st1 Some)
      then have "mark_published env st1 = (True, st')" using c pd p(1) by (simp add: carry_stage_def)
      from mark_published_ok [OF this _ None] Some None p d st1 show ?thesis by (auto simp: waiting_def noted_def)
    next
      case (Some \<tau>)
      show ?thesis
      proof (cases "ae_now env - \<tau> < PropagationWait (ac_rollover cfg)")
        case True
        then have "stage = StageAwaitPropagation" using dec p Some by (simp add: Decide_def rollover_state_def pd st1 \<open>am_pending st = Some p\<close>)
        then have "st' = st1" using c by (simp add: carry_stage_def)
        have w: "waiting cfg cert (ae_marked env) st1" and n: "noted (ae_marked env) st1"
          using Some \<open>am_pending st = Some p\<close> p d st1 assms(4,5) by (simp_all add: waiting_def noted_def)
        have u: "ae_now env < u + PropagationWait (ac_rollover cfg) \<and> noted u st1" if "noted u st" for u
          using that True Some \<open>am_pending st = Some p\<close> st1(3) by (simp add: noted_def)
        show ?thesis unfolding \<open>st' = st1\<close> by (intro disjI1 conjI allI impI w n conjunct1 [OF u] conjunct2 [OF u])
      next
        case False
        then have "stage = StageRenew" using dec p Some by (simp add: Decide_def rollover_state_def pd st1 \<open>am_pending st = Some p\<close>)
        then have "issue cfg env (Some (pr_key p)) (KeyGeneration cert + 1) st1 = (True, st')"
          using c st1(3) \<open>am_pending st = Some p\<close> by (simp add: carry_stage_def split: if_splits)
        then have "renewed (KeyGeneration cert) st'" by (rule issue_ok) (simp add: renewed_def)
        then show ?thesis by (rule disjI2)
      qed
    qed
  qed
qed

section \<open>Any number of passes\<close>

text \<open>Once renewed, a certificate is never replaced by an older one.\<close>

lemma carry_stage_generation:
  assumes "carry_stage cfg env stage d cert st = (True, st')" "am_stored st = Some cert" "am_current st = Some cert"
  shows "\<exists>c. am_stored st' = Some c \<and> am_current st' = Some c \<and> KeyGeneration cert \<le> KeyGeneration c"
proof (cases stage)
  case StagePublishNext
  then obtain st1 where "(if pending_digest st = [] then start_rollover cfg env d st else (True, st)) = (True, st1)"
      and m: "mark_published env st1 = (True, st')"
    using assms(1) by (auto simp: carry_stage_def split: prod.splits bool.splits if_splits)
  then have "am_stored st1 = am_stored st \<and> am_current st1 = am_current st"
    by (auto split: if_splits elim!: start_rollover_ok)
  with m assms(2,3) show ?thesis by (auto simp: mark_published_def split: if_splits)
next
  case StageRenew
  then obtain p :: pending_row where "issue cfg env (Some (pr_key p)) (Suc (KeyGeneration cert)) st = (True, st')"
    using assms(1) by (cases "am_pending st") (auto simp: carry_stage_def split: if_splits)
  from issue_ok [OF this] show ?thesis by (metis le_SucI le_refl)
qed (use assms in \<open>auto simp: carry_stage_def split: if_splits\<close>)

lemma renewed_pass:
  assumes "reconcile cfg env st = (True, st')" "ac_dane cfg" "renewed g st"
  shows "renewed g st'"
proof -
  obtain c where c: "am_stored st = Some c" "g < KeyGeneration c" using assms(3) by (auto simp: renewed_def)
  obtain d stage wanted st1 where "carry_stage cfg env stage d c st1 = (True, st')" "am_stored st1 = Some c" "am_current st1 = Some c"
    using reconcile_ok_stage [OF assms(1,2) c(1)] .
  from carry_stage_generation [OF this] c(2) show ?thesis by (auto simp: renewed_def)
qed

lemma run_passes_append: "run_passes cfg st (xs @ ys) = run_passes cfg (run_passes cfg st xs) ys"
  by (simp add: run_passes_def)

lemma run_passes_Cons: "run_passes cfg st (x # xs) = run_passes cfg (snd (reconcile cfg x st)) xs"
  by (simp add: run_passes_def)

lemma passes_ok_append: "passes_ok cfg st (xs @ ys) \<longleftrightarrow> passes_ok cfg st xs \<and> passes_ok cfg (run_passes cfg st xs) ys"
  by (induction xs arbitrary: st) (auto simp: run_passes_def)

lemma in_order_append: "in_order t (xs @ ys) \<longleftrightarrow> in_order t xs \<and> in_order (foldl (\<lambda>_ env. ae_marked env) t xs) ys"
  by (induction xs arbitrary: t) auto

lemma renewed_passes:
  "passes_ok cfg st envs \<Longrightarrow> ac_dane cfg \<Longrightarrow> renewed g st \<Longrightarrow> renewed g (run_passes cfg st envs)"
proof (induction envs arbitrary: st)
  case (Cons env envs)
  then have "reconcile cfg env st = (True, snd (reconcile cfg env st))" by (simp add: prod_eq_iff)
  from renewed_pass [OF this Cons.prems(2,3)] Cons show ?case by (simp add: run_passes_Cons)
qed (simp add: run_passes_def)

lemma waiting_passes:
  assumes "passes_ok cfg st envs" "ac_dane cfg" "waiting cfg cert t st" "in_order t envs" "\<forall>env\<in>set envs. fresh_key cfg cert env"
  shows "waiting cfg cert (foldl (\<lambda>_ env. ae_marked env) t envs) (run_passes cfg st envs) \<and> (\<forall>u. noted u st \<longrightarrow> noted u (run_passes cfg st envs))
    \<or> renewed (KeyGeneration cert) (run_passes cfg st envs)"
  using assms
proof (induction envs arbitrary: t st)
  case (Cons env envs)
  let ?st = "snd (reconcile cfg env st)"
  have r: "reconcile cfg env st = (True, ?st)" and rest: "passes_ok cfg ?st envs" using Cons.prems(1) by (simp_all add: prod_eq_iff)
  have pre: "t \<le> ae_now env" "ae_now env \<le> ae_marked env" "fresh_key cfg cert env" "in_order (ae_marked env) envs"
    "\<forall>env\<in>set envs. fresh_key cfg cert env" using Cons.prems(4,5) by simp_all
  consider "waiting cfg cert (ae_marked env) ?st" "\<forall>u. noted u st \<longrightarrow> noted u ?st" | "renewed (KeyGeneration cert) ?st"
    using waiting_pass [OF r Cons.prems(2,3) pre(1-3)] by blast
  then show ?case
  proof cases
    case 1
    from Cons.IH [OF rest Cons.prems(2) 1(1) pre(4,5)] 1(2) show ?thesis by (auto simp: run_passes_Cons)
  next
    case 2
    then show ?thesis using renewed_passes [OF rest Cons.prems(2)] by (simp add: run_passes_Cons)
  qed
qed (simp add: run_passes_def)

end
