(* ===== verification/DNS_Sync_Properties.thy ===== *)
theory DNS_Sync_Properties
  imports DNS_Provider
begin

text \<open>
  What the reconciliation of a zone guarantees with any provider that keeps its contract: it never
  touches a record that is not its own, and a pass that reports neither an error nor a conflict reaches
  a zone on which the next pass does nothing.
\<close>

section \<open>The wanted records\<close>

lemma wanted_comment:
  assumes "spec \<in> set (BuildDnsRecordSpecs sha256 s)"
  shows "HasPrefix (Comment spec) ownedRecordCommentPrefix"
proof -
  have opt: "list_all P (if c then xs else []) \<longleftrightarrow> (c \<longrightarrow> list_all P xs)" for P :: "DnsRecord \<Rightarrow> bool" and c xs
    by simp
  have "list_all (\<lambda>r. HasPrefix (Comment r) ''LambdaMail'') (base_records sha256 d h r)" for d h r
    by (simp add: base_records_def HasPrefix_def)
  moreover have "list_all (\<lambda>r. HasPrefix (Comment r) ''LambdaMail'') (tlsa_records h hs)" for h hs
    by (simp add: tlsa_records_def list_all_iff HasPrefix_def)
  ultimately have "list_all (\<lambda>r. HasPrefix (Comment r) ''LambdaMail'') (BuildDnsRecordSpecs sha256 s)"
    unfolding BuildDnsRecordSpecs_def Let_def list_all_append opt by (simp add: HasPrefix_def)
  with assms show ?thesis by (simp add: list_all_iff ownedRecordCommentPrefix_def)
qed

lemma distinct_mid: "distinct (map f (as @ r # bs)) \<Longrightarrow> f r \<notin> f ` set (as @ bs)"
  by auto

lemma no_logo_no_key:
  assumes "DomainName s \<noteq> []" "length (filter (\<lambda>h. h \<noteq> []) (TlsaHashes s)) \<le> 1" "BimiLogoURL s = []"
    "spec \<in> set (BuildDnsRecordSpecs sha256 s)"
  shows "key_of spec \<noteq> bimi_key (DomainName s)"
proof -
  let ?s = "s\<lparr>BimiLogoURL := ''x''\<rparr>"
  let ?r = "record_of ''TXT'' (''default._bimi.'' @ DomainName s) (BimiRecordValue ''x'' (BimiVmcURL s)) None False ''LambdaMail BIMI Record''"
  have sel: "DomainName ?s = DomainName s" "MailHost ?s = MailHost s" "ServerIPv4 ?s = ServerIPv4 s" "ServerIPv6 ?s = ServerIPv6 s"
    "RsaDkimPubKey ?s = RsaDkimPubKey s" "EdDkimPubKey ?s = EdDkimPubKey s" "TlsaHashes ?s = TlsaHashes s"
    "DaneEnabled ?s = DaneEnabled s" "RelaySpfInclude ?s = RelaySpfInclude s" "BimiVmcURL ?s = BimiVmcURL s" "BimiLogoURL ?s = ''x''"
    by simp_all
  have cuts: "xs @ a @ b @ c @ (if [] \<noteq> ([]::string) then d else []) @ e @ f = (xs @ a @ b @ c) @ (e @ f)"
    "xs @ a @ b @ c @ (if ''x'' \<noteq> [] then [r] else []) @ e @ f = (xs @ a @ b @ c) @ r # (e @ f)"
    for xs a b c d e f :: "DnsRecord list" and r
    by simp_all
  have "\<exists>as bs. BuildDnsRecordSpecs sha256 s = as @ bs
    \<and> BuildDnsRecordSpecs sha256 ?s = as @ ?r # bs"
    unfolding BuildDnsRecordSpecs_def Let_def sel assms(3) cuts
    by (intro exI conjI, rule refl, rule refl)
  then obtain as bs where eq: "BuildDnsRecordSpecs sha256 s = as @ bs"
    "BuildDnsRecordSpecs sha256 ?s = as @ ?r # bs"
    by (elim exE conjE) (rule that)
  have "distinct (map key_of (BuildDnsRecordSpecs sha256 ?s))"
    using assms(1,2) by (intro distinct_wanted_keys) simp_all
  then have no: "key_of ?r \<notin> key_of ` set (as @ bs)" unfolding eq(2) by (rule distinct_mid)
  have yes: "key_of spec \<in> key_of ` set (as @ bs)" using assms(4) unfolding eq(1) by (rule imageI)
  have "key_of spec \<noteq> key_of ?r"
  proof
    assume "key_of spec = key_of ?r"
    from yes [unfolded this] no show False by (rule notE [rotated])
  qed
  then show ?thesis unfolding bimi_key_def DnsRecord.select_convs .
qed

section \<open>One pass\<close>

context dns_provider
begin

lemma Execute_cases:
  assumes "DomainName (sd_spec input) = domain" "inv z" "Execute env dns input (z, a) = (res, z', a')"
  obtains (failed) "listing z' = listing z" "inv z'" "\<exists>e. res = Inl e"
  | (pass) z2 out where "inv z2" "listing z2 = listing z" "DomainName (sd_spec input) \<noteq> []"
      "reconcile_zone env dns zoneID input (listing z) z2 = (out, z')"
      "\<forall>out'. res = Inr out' \<longrightarrow> Errors out' = Errors out \<and> ConflictCount out' = ConflictCount out \<and> CreatedCount out' = CreatedCount out
         \<and> UpdatedCount out' = UpdatedCount out \<and> DeletedCount out' = DeletedCount out"
proof -
  obtain g z1 where g: "GetZoneID dns domain z = (g, z1)" by force
  show ?thesis
  proof (cases "DomainName (sd_spec input) = []")
    case True
    with assms show ?thesis by (intro failed) (auto simp: Execute_def)
  next
    case dom: False
    note zc = zone_call [OF assms(2) g]
    show ?thesis
    proof (cases g)
      case (Inl e)
      with assms g dom zc show ?thesis by (intro failed) (auto simp: Execute_def)
    next
      case (Inr zid)
      obtain l z2 where l: "ListRecords dns zoneID z1 = (l, z2)" by force
      have "inv z1" using zc by simp
      note lc = list_call [OF this l]
      show ?thesis
      proof (cases l)
        case (Inl e)
        with assms g dom zc lc l Inr show ?thesis by (intro failed) (auto simp: Execute_def)
      next
        case (Inr rs)
        obtain out z3 where r: "reconcile_zone env dns zoneID input (listing z) z2 = (out, z3)" by force
        have rs: "rs = listing z" "zid = zoneID" using lc zc Inr \<open>g = Inr zid\<close> by auto
        have "z3 = z'" "\<forall>out'. res = Inr out' \<longrightarrow> Errors out' = Errors out \<and> ConflictCount out' = ConflictCount out \<and> CreatedCount out' = CreatedCount out
         \<and> UpdatedCount out' = UpdatedCount out \<and> DeletedCount out' = DeletedCount out"
          using assms(1,3) g dom \<open>g = Inr zid\<close> l Inr r rs by (auto simp: Execute_def Let_def split: prod.splits sum.splits)
        with lc zc r dom show ?thesis by (intro pass [of z2 out]) auto
      qed
    qed
  qed
qed

lemma reconcile_zone_parts:
  assumes "reconcile_zone env dns zoneID input existing z = (out, z')"
  obtains out1 z1 where
    "sync_all dns zoneID existing (wanted_records (sy_sha256 env) input) (new_output zoneID, z) = (out1, z1)"
    "retireBimi dns zoneID (sd_spec input) existing (out1, z1) = (out, z')"
  using assms by (cases "sync_all dns zoneID existing (wanted_records (sy_sha256 env) input) (new_output zoneID, z)")
    (simp add: reconcile_zone_def)

lemma retireBimi_fold:
  assumes "BimiLogoURL spec = []"
  obtains name where "retireBimi dns zoneID spec existing oz
    = foldl (retire_one dns zoneID name) oz (with_key (bimi_key (DomainName spec)) existing)"
  using assms by (simp add: retireBimi_def bimi_key_def Let_def)

lemma in_with_key: "r \<in> set (with_key k rs) \<longleftrightarrow> r \<in> set rs \<and> key_of r = k"
  by (auto simp: with_key_def)

lemma retireBimi_cases:
  assumes "inv z" "retireBimi dns zoneID spec existing (out, z) = (out', z')"
  shows "inv z' \<and> (\<exists>es. Errors out' = Errors out @ es) \<and> ConflictCount out' = ConflictCount out
    \<and> (\<forall>x\<in>set (listing z). x \<notin> set (listing z') \<longrightarrow> (\<exists>r\<in>set existing. ID r = ID x \<and> retired_bimi spec r))
    \<and> set (listing z') \<subseteq> set (listing z)
    \<and> (Errors out' = Errors out \<longrightarrow> (\<forall>r\<in>set existing. retired_bimi spec r \<longrightarrow> ID r \<notin> ID ` set (listing z')))
    \<and> (\<forall>k. (\<forall>r\<in>set existing. retired_bimi spec r \<longrightarrow> (\<forall>x\<in>set (listing z). ID x = ID r \<longrightarrow> key_of x \<noteq> k))
         \<longrightarrow> with_key k (listing z') = with_key k (listing z))"
proof (cases "BimiLogoURL spec = []")
  case True
  then obtain name where "foldl (retire_one dns zoneID name) (out, z) (with_key (bimi_key (DomainName spec)) existing) = (out', z')"
    using assms(2) retireBimi_fold [of spec existing "(out, z)"] by metis
  note f = retire_fold [OF assms(1) this] and o = retire_other_keys [OF assms(1) this]
  have ret: "retired_bimi spec r \<longleftrightarrow> key_of r = bimi_key (DomainName spec) \<and> HasPrefix (Comment r) ownedRecordCommentPrefix" for r
    using True by (simp add: retired_bimi_def)
  have "with_key k (listing z') = with_key k (listing z)"
    if "\<forall>r\<in>set existing. retired_bimi spec r \<longrightarrow> (\<forall>x\<in>set (listing z). ID x = ID r \<longrightarrow> key_of x \<noteq> k)" for k
    using that unfolding ret by (intro o) (auto simp: in_with_key)
  moreover have "\<forall>x\<in>set (listing z). x \<notin> set (listing z') \<longrightarrow> (\<exists>r\<in>set existing. ID r = ID x \<and> retired_bimi spec r)"
  proof (intro ballI impI)
    fix x assume "x \<in> set (listing z)" "x \<notin> set (listing z')"
    with f obtain r where "r \<in> set (with_key (bimi_key (DomainName spec)) existing)" "ID r = ID x" "HasPrefix (Comment r) ownedRecordCommentPrefix"
      by metis
    then show "\<exists>r\<in>set existing. ID r = ID x \<and> retired_bimi spec r" unfolding ret in_with_key by metis
  qed
  moreover have "Errors out' = Errors out \<longrightarrow> (\<forall>r\<in>set existing. retired_bimi spec r \<longrightarrow> ID r \<notin> ID ` set (listing z'))"
    using f unfolding ret by (simp add: in_with_key)
  ultimately show ?thesis using f by simp
next
  case False
  then have "out' = out" "z' = z" using assms(2) by (auto simp: retireBimi_def)
  with assms(1) False show ?thesis by (simp add: retired_bimi_def)
qed

lemma others_kept:
  assumes "DomainName (sd_spec input) = domain" "inv z" "Execute env dns input (z, a) = (res, z', a')" "x \<in> set (listing z)"
    "\<not> claimed (wanted_records (sy_sha256 env) input) x" "\<not> retired_bimi (sd_spec input) x"
  shows "x \<in> set (listing z')"
  using assms(1,2,3)
proof (cases rule: Execute_cases)
  case (pass z2 out)
  from pass(4) obtain out1 z1 where
    s: "sync_all dns zoneID (listing z) (wanted_records (sy_sha256 env) input) (new_output zoneID, z2) = (out1, z1)" and
    r: "retireBimi dns zoneID (sd_spec input) (listing z) (out1, z1) = (out, z')" by (rule reconcile_zone_parts)
  have "inv z1" "x \<in> set (listing z1)"
    using sync_all_others [OF pass(1) ids [OF assms(2)] _ s] pass(2) assms(4,5) by auto
  with retireBimi_cases [OF this(1) r] have "x \<notin> set (listing z') \<Longrightarrow> \<exists>y\<in>set (listing z). ID y = ID x \<and> retired_bimi (sd_spec input) y"
    by blast
  moreover have "y = x" if "y \<in> set (listing z)" "ID y = ID x" for y
    using that assms(4) ids [OF assms(2)] by (metis distinct_map inj_onD)
  ultimately show ?thesis using assms(6) by blast
qed (use assms(4) in simp)

text \<open>
  After a clean pass the wanted records are settled and nothing is left to retire; the next pass then
  changes nothing.
\<close>

lemma clean_pass:
  assumes "DomainName (sd_spec input) = domain" "inv z" "Execute env dns input (z, a) = (Inr out, z', a')" "Errors out = []" "ConflictCount out = 0"
    "length (filter (\<lambda>h. h \<noteq> []) (wanted_hashes input)) \<le> 1" "\<forall>spec\<in>set (wanted_records (sy_sha256 env) input). good spec"
  shows "inv z' \<and> (\<forall>spec\<in>set (wanted_records (sy_sha256 env) input). settled spec (listing z'))
    \<and> (\<forall>x\<in>set (listing z'). \<not> retired_bimi (sd_spec input) x)"
  using assms(1,2,3)
proof (cases rule: Execute_cases)
  case (pass z2 o1)
  let ?w = "wanted_records (sy_sha256 env) input"
  have o1: "Errors o1 = []" "ConflictCount o1 = 0" using pass(5) assms(4,5) by simp_all
  from pass(4) obtain out1 z1 where
    s: "sync_all dns zoneID (listing z) ?w (new_output zoneID, z2) = (out1, z1)" and
    r: "retireBimi dns zoneID (sd_spec input) (listing z) (out1, z1) = (o1, z')" by (rule reconcile_zone_parts)
  have dist: "distinct (map key_of ?w)"
    using assms(6) pass(3) unfolding wanted_records_def by (intro distinct_wanted_keys) simp_all
  have proper: "\<forall>s\<in>set ?w. proper s" using assms(7) wanted_comment unfolding proper_def wanted_records_def by blast
  note st = sync_all_settles [OF pass(1) _ dist s]
  have st: "inv z1" "\<And>k. k \<notin> key_of ` set ?w \<Longrightarrow> with_key k (listing z1) = with_key k (listing z)"
    "clean (new_output zoneID) out1 \<Longrightarrow> \<forall>s\<in>set ?w. settled s (listing z1)"
    using st pass(2) proper by auto
  note re = retireBimi_cases [OF st(1) r]
  have "clean (new_output zoneID) out1" "Errors o1 = Errors out1"
    using re o1 by (auto simp: clean_def new_output_def)
  then have settled: "\<forall>s\<in>set ?w. settled s (listing z1)" and gone: "\<forall>y\<in>set (listing z). retired_bimi (sd_spec input) y \<longrightarrow> ID y \<notin> ID ` set (listing z')"
    using st(3) re by auto
  let ?s = "(sd_spec input)\<lparr>TlsaHashes := wanted_hashes input\<rparr>"
  have key: "s \<in> set ?w \<Longrightarrow> BimiLogoURL (sd_spec input) = [] \<Longrightarrow> key_of s \<noteq> bimi_key (DomainName (sd_spec input))" for s
    using no_logo_no_key [of ?s s "sy_sha256 env"] assms(6) pass(3) unfolding wanted_records_def by simp
  have bimi: "with_key (bimi_key (DomainName (sd_spec input))) (listing z1) = with_key (bimi_key (DomainName (sd_spec input))) (listing z)"
    if "BimiLogoURL (sd_spec input) = []"
    using key that by (intro st(2)) force
  have same: "x = y" if "y \<in> set (listing z)" "retired_bimi (sd_spec input) y" "x \<in> set (listing z1)" "ID x = ID y" for x y
  proof -
    have "y \<in> set (listing z1)" using bimi that(1,2) in_with_key unfolding retired_bimi_def by metis
    then show ?thesis using that(3,4) ids [OF st(1)] by (metis distinct_map inj_onD)
  qed
  have "settled s (listing z')" if "s \<in> set ?w" for s
  proof -
    have "key_of x \<noteq> key_of s" if "y \<in> set (listing z)" "retired_bimi (sd_spec input) y" "x \<in> set (listing z1)" "ID x = ID y" for x y
      using same [OF that] that(2) key [OF \<open>s \<in> set ?w\<close>] by (auto simp: retired_bimi_def)
    then have "with_key (key_of s) (listing z') = with_key (key_of s) (listing z1)" using re by blast
    then show ?thesis using settled that settled_cong by blast
  qed
  moreover have "\<not> retired_bimi (sd_spec input) x" if "x \<in> set (listing z')" for x
  proof
    assume ret: "retired_bimi (sd_spec input) x"
    have "x \<in> set (listing z1)" using that re by blast
    then have "x \<in> set (listing z)" using ret bimi in_with_key unfolding retired_bimi_def by metis
    then show False using gone ret that by blast
  qed
  ultimately show ?thesis using re by blast
qed simp

lemma settled_pass:
  assumes "DomainName (sd_spec input) = domain" "inv z" "Execute env dns input (z, a) = (Inr out, z', a')"
    "\<forall>spec\<in>set (wanted_records (sy_sha256 env) input). settled spec (listing z)"
    "\<forall>x\<in>set (listing z). \<not> retired_bimi (sd_spec input) x"
  shows "listing z' = listing z \<and> CreatedCount out = 0 \<and> UpdatedCount out = 0 \<and> DeletedCount out = 0
    \<and> ConflictCount out = 0 \<and> Errors out = []"
  using assms(1,2,3)
proof (cases rule: Execute_cases)
  case (pass z2 o1)
  have "retireBimi dns zoneID (sd_spec input) (listing z) oz = oz" for oz
  proof (cases "BimiLogoURL (sd_spec input) = []")
    case True
    obtain name where "retireBimi dns zoneID (sd_spec input) (listing z) oz
        = foldl (retire_one dns zoneID name) oz (with_key (bimi_key (DomainName (sd_spec input))) (listing z))"
      using True by (rule retireBimi_fold)
    moreover have "foldl (retire_one dns zoneID name) oz rs = oz"
      if "\<forall>r\<in>set rs. \<not> HasPrefix (Comment r) ownedRecordCommentPrefix" for rs oz
      using that by (induction rs) (simp_all add: retire_one_def split_beta)
    ultimately show ?thesis using assms(5) True unfolding retired_bimi_def in_with_key by (metis in_with_key)
  qed (simp add: retireBimi_def)
  then have "o1 = new_output zoneID\<lparr>UnchangedCount := UnchangedCount (new_output zoneID) + length (wanted_records (sy_sha256 env) input)\<rparr>" "z' = z2"
    using pass(4) sync_all_settled [OF assms(4)] by (auto simp: reconcile_zone_def)
  then show ?thesis using pass(2,5) by (simp add: new_output_def)
qed simp

end

end
