(* ===== verification/Cloudflare.thy ===== *)
theory Cloudflare
  imports DNS_Sync_Properties "HOL-Library.Word"
begin

text \<open>
  The adapter for Cloudflare's DNS API (\<^verbatim>\<open>infrastructure/cloudflare/cloudflare_adapter.go\<close>): the form a
  record has on the wire, the retries while the API is rate limiting, the pages of a listing, and the five
  operations of a DNS provider.

  The API itself is the parameter \<open>api\<close>: what it answers to a request in a state of the world, and the state
  after it. An answer carries the decoded envelope, or none when it is not JSON. The context of the calls is never
  cancelled.
\<close>

section \<open>Records on the wire\<close>

text \<open>The fields of \<^verbatim>\<open>data\<close>: numbers or texts. The numbers are small, so they survive JSON's floating point.\<close>

datatype json = JNum int | JStr string

record cfRecord =
  cf_ID :: string
  cf_RecType :: string
  cf_RecName :: string
  cf_Content :: string
  cf_TTL :: int
  cf_Priority :: "int option"
  cf_Proxied :: "bool option"
  cf_Data :: "(string \<times> json) list"
  cf_Comment :: string

definition structuredData :: "DnsRecord \<Rightarrow> (string \<times> json) list option" where
  "structuredData r =
     (let t = ToUpper (Type r)
      in if t \<noteq> ''SRV'' \<and> t \<noteq> ''TLSA'' then None
         else (case Fields (Value r) of
                 [a, b, c, d] \<Rightarrow>
                   (case (Atoi a, Atoi b, Atoi c) of
                      (Some x, Some y, Some z) \<Rightarrow>
                        if t = ''SRV''
                        then Some [(''priority'', JNum x), (''weight'', JNum y), (''port'', JNum z), (''target'', JStr (TrimSuffix d ''.''))]
                        else Some [(''usage'', JNum x), (''selector'', JNum y), (''matching_type'', JNum z), (''certificate'', JStr d)]
                    | _ \<Rightarrow> None)
               | _ \<Rightarrow> None))"

definition data_number :: "(string \<times> json) list \<Rightarrow> string \<Rightarrow> string" where
  "data_number data key = (case map_of data key of Some (JNum v) \<Rightarrow> Itoa v | Some (JStr v) \<Rightarrow> v | None \<Rightarrow> [])"

definition data_text :: "(string \<times> json) list \<Rightarrow> string \<Rightarrow> string" where
  "data_text data key = (case map_of data key of Some (JStr v) \<Rightarrow> TrimSuffix v ''.'' | _ \<Rightarrow> [])"

definition renderStructuredValue :: "string \<Rightarrow> (string \<times> json) list \<Rightarrow> string" where
  "renderStructuredValue recordType data =
     (if ToUpper recordType = ''SRV''
      then Join [data_number data ''priority'', data_number data ''weight'', data_number data ''port'', data_text data ''target''] '' ''
      else if ToUpper recordType = ''TLSA''
      then Join [data_number data ''usage'', data_number data ''selector'', data_number data ''matching_type'', data_text data ''certificate''] '' ''
      else [])"

definition toCfRecord :: "DnsRecord \<Rightarrow> cfRecord" where
  "toCfRecord r =
     (let body = \<lparr>cf_ID = ID r, cf_RecType = Type r, cf_RecName = Name r, cf_Content = Value r, cf_TTL = TTL r,
                  cf_Priority = Priority r, cf_Proxied = None, cf_Data = [], cf_Comment = Comment r\<rparr>
      in if ToUpper (Type r) \<in> {''A'', ''AAAA'', ''CNAME''} then body\<lparr>cf_Proxied := Some (Proxied r)\<rparr>
         else if ToUpper (Type r) \<in> {''SRV'', ''TLSA''}
         then (case structuredData r of
                 None \<Rightarrow> body
               | Some data \<Rightarrow> body\<lparr>cf_Data := data, cf_Content := [], cf_Priority := None\<rparr>)
         else body)"

text \<open>The loop body of \<^verbatim>\<open>ListRecords\<close>.\<close>

definition fromCfRecord :: "cfRecord \<Rightarrow> DnsRecord" where
  "fromCfRecord r =
     (let rendered = (if cf_Data r \<noteq> [] then renderStructuredValue (cf_RecType r) (cf_Data r) else [])
      in \<lparr>ID = cf_ID r, Type = cf_RecType r, Name = cf_RecName r,
          Value = (if rendered \<noteq> [] then rendered else cf_Content r), TTL = cf_TTL r, Priority = cf_Priority r,
          Proxied = (case cf_Proxied r of Some b \<Rightarrow> b | None \<Rightarrow> False), Comment = cf_Comment r\<rparr>)"

section \<open>Requests\<close>

record cf_envelope =
  env_success :: bool
  env_zones :: "string list"
  env_records :: "cfRecord list"
  env_total_pages :: int
  env_errors :: "string list"

datatype cf_body = Unreadable string | Readable string "cf_envelope option"

datatype http_answer = TransportError string | HttpAnswer int string cf_body

datatype cf_request =
    ReqZones string
  | ReqList string nat
  | ReqCreate string cfRecord
  | ReqUpdate string string cfRecord
  | ReqDelete string string

type_synonym 'z cf_api = "cf_request \<Rightarrow> 'z \<Rightarrow> http_answer \<times> 'z"

definition rateLimitMaxAttempts :: nat where "rateLimitMaxAttempts = 4"
definition rateLimitMaxBackoff :: int where "rateLimitMaxBackoff = 30 * Second"
definition recordsPerPage :: nat where "recordsPerPage = 100"

text \<open>A duration is a 64-bit number of nanoseconds: the product wraps around.\<close>

definition retryAfter :: "string \<Rightarrow> int \<Rightarrow> int" where
  "retryAfter header fallback =
     (if header = [] then fallback
      else case Atoi (TrimSpace header) of
             None \<Rightarrow> fallback
           | Some seconds \<Rightarrow> if seconds < 0 then fallback else sint (word_of_int (seconds * Second) :: 64 word))"

definition describeErrors :: "string list \<Rightarrow> string \<Rightarrow> string" where
  "describeErrors errs raw = (if errs \<noteq> [] then Join errs ''; '' else TrimSpace (take 200 raw))"

definition judge :: "int \<Rightarrow> cf_body \<Rightarrow> string + cf_envelope" where
  "judge status body =
     (case body of
        Unreadable e \<Rightarrow> Inl (''read response body: '' @ e)
      | Readable raw decoded \<Rightarrow>
          if status < 200 \<or> status \<ge> 300
          then Inl (''cloudflare API returned HTTP '' @ Itoa status @ '': ''
                 @ describeErrors (case decoded of Some env \<Rightarrow> env_errors env | None \<Rightarrow> []) raw)
          else (case decoded of None \<Rightarrow> Inl ''decode json'' | Some env \<Rightarrow> Inr env))"

text \<open>The loop of \<^verbatim>\<open>doJSON\<close>, with the waits it makes between attempts.\<close>

function doJSON_from :: "'z cf_api \<Rightarrow> cf_request \<Rightarrow> nat \<Rightarrow> int \<Rightarrow> 'z \<Rightarrow> (string + cf_envelope) \<times> int list \<times> 'z" where
  "doJSON_from api req attempt backoff z =
     (case api req z of
        (TransportError e, z') \<Rightarrow> (Inl e, [], z')
      | (HttpAnswer status header body, z') \<Rightarrow>
          if status = 429 \<and> attempt < rateLimitMaxAttempts
          then let (res, waits, z2) = doJSON_from api req (attempt + 1) (min (backoff * 2) rateLimitMaxBackoff) z'
               in (res, retryAfter header backoff # waits, z2)
          else (judge status body, [], z'))"
  by pat_completeness auto

termination doJSON_from
  by (relation "measure (\<lambda>(_, _, attempt, _, _). rateLimitMaxAttempts - attempt)") auto

declare doJSON_from.simps [simp del]

definition doJSON :: "'z cf_api \<Rightarrow> cf_request \<Rightarrow> 'z \<Rightarrow> (string + cf_envelope) \<times> 'z" where
  "doJSON api req z = (let (res, _, z') = doJSON_from api req 1 Second z in (res, z'))"

section \<open>The operations\<close>

definition cf_GetZoneID :: "'z cf_api \<Rightarrow> string \<Rightarrow> 'z \<Rightarrow> (string + string) \<times> 'z" where
  "cf_GetZoneID api domainName z =
     (case doJSON api (ReqZones domainName) z of
        (Inl e, z') \<Rightarrow> (Inl e, z')
      | (Inr env, z') \<Rightarrow>
          (case env_zones env of
             zid # _ \<Rightarrow> if env_success env then (Inr zid, z') else (Inl ''cloudflare: zone not found or token lacks Zone:Read on it'', z')
           | [] \<Rightarrow> (Inl ''cloudflare: zone not found or token lacks Zone:Read on it'', z')))"

text \<open>The pages of a listing. The last argument bounds their number; a zone with more pages is an error of the model.\<close>

fun list_pages :: "'z cf_api \<Rightarrow> string \<Rightarrow> nat \<Rightarrow> DnsRecord list \<Rightarrow> 'z \<Rightarrow> nat \<Rightarrow> (string + DnsRecord list) \<times> 'z" where
  "list_pages api zoneID page out z 0 = (Inl ''too many pages'', z)"
| "list_pages api zoneID page out z (Suc pages) =
     (case doJSON api (ReqList zoneID page) z of
        (Inl e, z') \<Rightarrow> (Inl e, z')
      | (Inr env, z') \<Rightarrow>
          if \<not> env_success env then (Inl (''cloudflare: listing records for zone '' @ zoneID @ '' failed''), z')
          else
            let out' = out @ map fromCfRecord (env_records env)
            in if env_total_pages env \<le> int page \<or> env_records env = [] then (Inr out', z')
               else list_pages api zoneID (page + 1) out' z' pages)"

definition cf_ListRecords :: "'z cf_api \<Rightarrow> nat \<Rightarrow> string \<Rightarrow> 'z \<Rightarrow> (string + DnsRecord list) \<times> 'z" where
  "cf_ListRecords api pages zoneID z = list_pages api zoneID 1 [] z pages"

definition single_call :: "'z cf_api \<Rightarrow> cf_request \<Rightarrow> string \<Rightarrow> 'z \<Rightarrow> string option \<times> 'z" where
  "single_call api req what z =
     (case doJSON api req z of
        (Inl e, z') \<Rightarrow> (Some (what @ '': '' @ e), z')
      | (Inr env, z') \<Rightarrow> if \<not> env_success env then (Some (''cloudflare: '' @ what @ '' failed''), z') else (None, z'))"

definition cf_CreateRecord :: "'z cf_api \<Rightarrow> string \<Rightarrow> DnsRecord \<Rightarrow> 'z \<Rightarrow> string option \<times> 'z" where
  "cf_CreateRecord api zoneID r z =
     single_call api (ReqCreate zoneID (toCfRecord r)) (''create '' @ Type r @ '' '' @ Name r) z"

definition cf_UpdateRecord :: "'z cf_api \<Rightarrow> string \<Rightarrow> DnsRecord \<Rightarrow> 'z \<Rightarrow> string option \<times> 'z" where
  "cf_UpdateRecord api zoneID r z =
     single_call api (ReqUpdate zoneID (ID r) (toCfRecord r)) (''update '' @ Type r @ '' '' @ Name r) z"

definition cf_DeleteRecord :: "'z cf_api \<Rightarrow> string \<Rightarrow> string \<Rightarrow> 'z \<Rightarrow> string option \<times> 'z" where
  "cf_DeleteRecord api zoneID recordID z =
     single_call api (ReqDelete zoneID recordID) (''delete record '' @ recordID) z"

definition cloudflare :: "'z cf_api \<Rightarrow> nat \<Rightarrow> 'z DnsProvider" where
  "cloudflare api pages =
     \<lparr>GetZoneID = cf_GetZoneID api, ListRecords = cf_ListRecords api pages, CreateRecord = cf_CreateRecord api,
      UpdateRecord = cf_UpdateRecord api, DeleteRecord = cf_DeleteRecord api\<rparr>"

section \<open>Retries\<close>

lemma doJSON_from_unfold_last:
  "attempt \<ge> rateLimitMaxAttempts \<Longrightarrow> fst (snd (doJSON_from api req attempt backoff z)) = []"
  by (subst doJSON_from.simps) (auto split: prod.splits http_answer.splits)

text \<open>A call waits at most three times, and makes one request more than it waits.\<close>

lemma doJSON_waits: "attempt \<le> rateLimitMaxAttempts \<Longrightarrow>
  length (fst (snd (doJSON_from api req attempt backoff z))) \<le> rateLimitMaxAttempts - attempt"
proof (induction api req attempt backoff z rule: doJSON_from.induct)
  case (1 api req attempt backoff z)
  obtain ans z' where a: "api req z = (ans, z')" by force
  show ?case
  proof (cases ans)
    case (HttpAnswer status header body)
    show ?thesis
    proof (cases "status = 429 \<and> attempt < rateLimitMaxAttempts")
      case True
      obtain res waits z2 where r: "doJSON_from api req (attempt + 1) (min (backoff * 2) rateLimitMaxBackoff) z' = (res, waits, z2)"
        by (metis prod.exhaust)
      have "length waits \<le> rateLimitMaxAttempts - (attempt + 1)"
        using 1(1) [OF a [symmetric] HttpAnswer True] True r by simp
      then have "Suc (length waits) \<le> rateLimitMaxAttempts - attempt" using True by linarith
      then show ?thesis using a HttpAnswer True r by (subst doJSON_from.simps) simp
    qed (use a HttpAnswer in \<open>subst doJSON_from.simps, auto\<close>)
  qed (use a in \<open>subst doJSON_from.simps, simp\<close>)
qed

definition http_outcome :: "http_answer \<Rightarrow> string + cf_envelope" where
  "http_outcome ans = (case ans of TransportError e \<Rightarrow> Inl e | HttpAnswer status _ body \<Rightarrow> judge status body)"

text \<open>
  What the adapter needs of the API. A rate limited request changes nothing; an accepted one is carried
  out; one that fails, or whose answer is lost, is carried out or not; and a record is shown the way it was
  written.
\<close>

definition shown_as :: "cfRecord \<Rightarrow> cfRecord \<Rightarrow> bool" where
  "shown_as body r \<longleftrightarrow> cf_RecType r = cf_RecType body \<and> cf_RecName r = cf_RecName body \<and> cf_Comment r = cf_Comment body
     \<and> cf_Data r = cf_Data body \<and> (cf_Data body = [] \<longrightarrow> cf_Content r = cf_Content body \<and> cf_Priority r = cf_Priority body)
     \<and> (cf_Data body \<noteq> [] \<longrightarrow> cf_Priority r = (case map_of (cf_Data body) ''priority'' of Some (JNum p) \<Rightarrow> Some p | _ \<Rightarrow> None))
     \<and> (case cf_Proxied r of Some b \<Rightarrow> b | None \<Rightarrow> False) = (case cf_Proxied body of Some b \<Rightarrow> b | None \<Rightarrow> False)"

definition accepted_answer :: "http_answer \<Rightarrow> cf_envelope \<Rightarrow> bool" where
  "accepted_answer ans env \<longleftrightarrow> http_outcome ans = Inr env \<and> env_success env"

locale cloudflare_api =
  fixes api :: "'z cf_api"
    and domain :: string
    and zoneID :: string
    and held :: "'z \<Rightarrow> cfRecord list"
    and ok :: "'z \<Rightarrow> bool"
    and pages :: nat
  assumes held_ids: "ok z \<Longrightarrow> distinct (map cf_ID (held z))"
    and held_fit: "ok z \<Longrightarrow> length (held z) \<le> recordsPerPage * pages"
    and answers_ok: "ok z \<Longrightarrow> api req z = (ans, z') \<Longrightarrow> ok z'"
    and limited: "ok z \<Longrightarrow> api req z = (HttpAnswer 429 header payload, z') \<Longrightarrow> held z' = held z"
    and zones: "ok z \<Longrightarrow> api (ReqZones domain) z = (ans, z') \<Longrightarrow> held z' = held z
          \<and> (\<forall>env. accepted_answer ans env \<longrightarrow> env_zones env = [zoneID])"
    and page: "ok z \<Longrightarrow> api (ReqList zoneID (Suc n)) z = (ans, z') \<Longrightarrow> held z' = held z
          \<and> (\<forall>env. accepted_answer ans env \<longrightarrow> env_records env = take recordsPerPage (drop (n * recordsPerPage) (held z))
                 \<and> (int (length (held z)) \<le> int (Suc n) * int recordsPerPage \<longleftrightarrow> env_total_pages env \<le> int (Suc n)))"
    and create: "ok z \<Longrightarrow> api (ReqCreate zoneID body) z = (ans, z') \<Longrightarrow>
          ((\<forall>env. \<not> accepted_answer ans env) \<and> held z' = held z) \<or> (\<exists>r. held z' = held z @ [r] \<and> shown_as body r)"
    and update: "ok z \<Longrightarrow> i \<in> cf_ID ` set (held z) \<Longrightarrow> api (ReqUpdate zoneID i body) z = (ans, z') \<Longrightarrow>
          ((\<forall>env. \<not> accepted_answer ans env) \<and> held z' = held z)
          \<or> (\<exists>r. held z' = map (\<lambda>x. if cf_ID x = i then r else x) (held z) \<and> cf_ID r = i \<and> shown_as body r)"
    and delete: "ok z \<Longrightarrow> api (ReqDelete zoneID i) z = (ans, z') \<Longrightarrow>
          ((\<forall>env. \<not> accepted_answer ans env) \<and> held z' = held z) \<or> held z' = filter (\<lambda>x. cf_ID x \<noteq> i) (held z)"
begin

lemma doJSON_from_last:
  assumes "ok z" "attempt \<le> rateLimitMaxAttempts" "doJSON_from api req attempt backoff z = (res, waits, z')"
  shows "\<exists>z1 ans. ok z1 \<and> held z1 = held z \<and> api req z1 = (ans, z') \<and> res = http_outcome ans"
  using assms
proof (induction "rateLimitMaxAttempts - attempt" arbitrary: attempt backoff z waits)
  case 0
  obtain ans z1 where a: "api req z = (ans, z1)" by force
  have "\<not> attempt < rateLimitMaxAttempts" using 0 by simp
  then have "res = http_outcome ans \<and> z1 = z'"
    using 0(4) a by (subst (asm) doJSON_from.simps) (auto simp: http_outcome_def split: http_answer.splits)
  then show ?case using 0(2) a by blast
next
  case (Suc k)
  obtain ans z1 where a: "api req z = (ans, z1)" by force
  show ?case
  proof (cases "\<exists>header body. ans = HttpAnswer 429 header body")
    case True
    then obtain header body where ans: "ans = HttpAnswer 429 header body" by blast
    obtain res2 waits2 z2 where r: "doJSON_from api req (attempt + 1) (min (backoff * 2) rateLimitMaxBackoff) z1 = (res2, waits2, z2)"
      by (metis prod.exhaust)
    have lt: "attempt < rateLimitMaxAttempts" using Suc(2) by linarith
    with Suc(5) a ans r have "res2 = res" "z2 = z'" by (subst (asm) doJSON_from.simps, simp)+
    with r have r: "doJSON_from api req (attempt + 1) (min (backoff * 2) rateLimitMaxBackoff) z1 = (res, waits2, z')" by simp
    have "ok z1" "held z1 = held z" using answers_ok [OF Suc(3) a] limited Suc(3) a ans by auto
    with Suc(1) [OF _ \<open>ok z1\<close> _ r] Suc(2) lt show ?thesis by auto
  next
    case False
    then have "res = http_outcome ans \<and> z1 = z'"
      using Suc(5) a by (subst (asm) doJSON_from.simps) (auto simp: http_outcome_def split: http_answer.splits if_splits)
    then show ?thesis using Suc(3) a by blast
  qed
qed

lemma doJSON_last:
  assumes "ok z" "doJSON api req z = (res, z')"
  obtains z1 ans where "ok z1" "held z1 = held z" "api req z1 = (ans, z')" "res = http_outcome ans"
proof -
  obtain waits where "doJSON_from api req 1 Second z = (res, waits, z')"
    using assms(2) by (auto simp: doJSON_def Let_def split: prod.splits)
  from doJSON_from_last [OF assms(1) _ this] that show ?thesis by (auto simp: rateLimitMaxAttempts_def)
qed

text \<open>A call that changes one record reports success only for an accepted request.\<close>

lemma single_call_last:
  assumes "ok z" "single_call api req what z = (e, z')"
  obtains z1 ans where "ok z1" "held z1 = held z" "api req z1 = (ans, z')" "e = None \<longleftrightarrow> (\<exists>env. accepted_answer ans env)"
proof -
  obtain res where d: "doJSON api req z = (res, z')"
    using assms(2) by (auto simp: single_call_def split: prod.splits sum.splits if_splits)
  from doJSON_last [OF assms(1) d] obtain z1 ans where z1: "ok z1" "held z1 = held z" "api req z1 = (ans, z')" "res = http_outcome ans" .
  have "e = None \<longleftrightarrow> (\<exists>env. accepted_answer ans env)"
    using assms(2) d z1(4) by (cases "http_outcome ans") (auto simp: single_call_def accepted_answer_def split: if_splits)
  with z1(1-3) show ?thesis by (rule that)
qed

lemma list_pages_result:
  assumes "ok z" "length (held z) \<le> recordsPerPage * (n + k)" "n \<le> n + k"
    "out = map fromCfRecord (take (n * recordsPerPage) (held z))" "n * recordsPerPage < length (held z) \<or> n = 0"
    "list_pages api zoneID (Suc n) out z k = (res, z')"
  shows "ok z' \<and> held z' = held z \<and> (\<forall>rs. res = Inr rs \<longrightarrow> rs = map fromCfRecord (held z))"
  using assms
proof (induction k arbitrary: n out z)
  case (Suc k)
  obtain r1 z1 where d: "doJSON api (ReqList zoneID (Suc n)) z = (r1, z1)" by force
  from doJSON_last [OF Suc.prems(1) d] obtain z0 ans where
    z0: "ok z0" "held z0 = held z" "api (ReqList zoneID (Suc n)) z0 = (ans, z1)" "r1 = http_outcome ans" .
  note p = page [OF z0(1,3)]
  have z1: "ok z1" "held z1 = held z" using answers_ok [OF z0(1,3)] p z0(2) by simp_all
  show ?case
  proof (cases r1)
    case (Inl e)
    with Suc.prems(6) d z1 show ?thesis by auto
  next
    case (Inr env)
    show ?thesis
    proof (cases "env_success env")
      case False
      with Suc.prems(6) d z1 Inr show ?thesis by auto
    next
      case True
      then have acc: "accepted_answer ans env" using z0(4) Inr by (simp add: accepted_answer_def)
      have recs: "env_records env = take recordsPerPage (drop (n * recordsPerPage) (held z))"
        and tot: "int (length (held z)) \<le> int (Suc n) * int recordsPerPage \<longleftrightarrow> env_total_pages env \<le> int (Suc n)"
        using p acc z0(2) by auto
      have out: "out @ map fromCfRecord (env_records env) = map fromCfRecord (take (Suc n * recordsPerPage) (held z))"
        unfolding recs Suc.prems(4) map_append [symmetric] by (simp add: take_add add.commute [of recordsPerPage])
      show ?thesis
      proof (cases "env_total_pages env \<le> int (Suc n) \<or> env_records env = []")
        case True
        have "length (held z) \<le> Suc n * recordsPerPage"
        proof (cases "env_records env = []")
          case True
          then show ?thesis using recs by (auto simp: recordsPerPage_def)
        next
          case False
          with \<open>env_total_pages env \<le> int (Suc n) \<or> env_records env = []\<close> tot show ?thesis
            by (metis of_nat_le_iff of_nat_mult)
        qed
        then have "res = Inr (map fromCfRecord (held z))" "z' = z1"
          using Suc.prems(6) d Inr \<open>env_success env\<close> True out by auto
        with z1 show ?thesis by simp
      next
        case False
        have more: "Suc n * recordsPerPage < length (held z)" using tot False by (metis not_le of_nat_le_iff of_nat_mult)
        have "list_pages api zoneID (Suc (Suc n)) (out @ map fromCfRecord (env_records env)) z1 k = (res, z')"
          using Suc.prems(6) d Inr \<open>env_success env\<close> False by (simp add: Let_def)
        with Suc.IH [OF z1(1), of "Suc n"] z1(2) out more Suc.prems(2) show ?thesis by simp
      qed
    qed
  qed
qed auto

end

end
