(* ===== verification/Cloudflare_Provider.thy ===== *)
theory Cloudflare_Provider
  imports Cloudflare
begin

text \<open>
  The adapter keeps the contract of a DNS provider, for the records whose value survives the structured form
  of the wire, up to the identifier the API gives them.
\<close>

section \<open>Records that survive the wire\<close>

definition wire_priority :: "DnsRecord \<Rightarrow> int option" where
  "wire_priority r = (case structuredData r of
     Some data \<Rightarrow> (case map_of data ''priority'' of Some (JNum p) \<Rightarrow> Some p | _ \<Rightarrow> None) | None \<Rightarrow> None)"

definition cf_good :: "DnsRecord \<Rightarrow> bool" where
  "cf_good r \<longleftrightarrow>
     (if ToUpper (Type r) \<in> {''A'', ''AAAA'', ''CNAME''} then True
      else if ToUpper (Type r) \<in> {''SRV'', ''TLSA''}
      then (case structuredData r of
              None \<Rightarrow> False
            | Some data \<Rightarrow> data \<noteq> [] \<and> Value r \<noteq> [] \<and> renderStructuredValue (Type r) data = Value r \<and> Priority r = wire_priority r \<and> \<not> Proxied r)
      else \<not> Proxied r)"

lemma ID_update:
  "Type (r\<lparr>ID := i\<rparr>) = Type r" "Value (r\<lparr>ID := i\<rparr>) = Value r" "Priority (r\<lparr>ID := i\<rparr>) = Priority r"
  "Proxied (r\<lparr>ID := i\<rparr>) = Proxied r"
  by simp_all

lemma structuredData_ID: "structuredData (r\<lparr>ID := i\<rparr>) = structuredData r"
  by (simp only: structuredData_def ID_update)

lemma cf_good_ID: "cf_good (r\<lparr>ID := i\<rparr>) = cf_good r"
  by (simp only: cf_good_def wire_priority_def structuredData_ID ID_update)

lemma toCfRecord_fields [simp]:
  "cf_RecType (toCfRecord r) = Type r" "cf_RecName (toCfRecord r) = Name r" "cf_Comment (toCfRecord r) = Comment r"
  by (auto simp: toCfRecord_def Let_def split: option.splits)

lemma fromCfRecord_fields [simp]:
  "ID (fromCfRecord x) = cf_ID x" "Type (fromCfRecord x) = cf_RecType x" "Name (fromCfRecord x) = cf_RecName x"
  "Comment (fromCfRecord x) = cf_Comment x" "Priority (fromCfRecord x) = cf_Priority x"
  "Proxied (fromCfRecord x) = (case cf_Proxied x of Some b \<Rightarrow> b | None \<Rightarrow> False)"
  by (simp_all add: fromCfRecord_def Let_def)

lemma wire_roundtrip:
  assumes "shown_as (toCfRecord r) x" "cf_good r"
  shows "EqualsNormalized r (fromCfRecord x) \<and> Value (fromCfRecord x) = Value r"
proof -
  have fields: "Type (fromCfRecord x) = Type r" "Name (fromCfRecord x) = Name r"
    using assms(1) by (simp_all add: shown_as_def)
  consider (plain) "ToUpper (Type r) \<in> {''A'', ''AAAA'', ''CNAME''}"
    | (structured) data where "ToUpper (Type r) \<notin> {''A'', ''AAAA'', ''CNAME''}" "ToUpper (Type r) \<in> {''SRV'', ''TLSA''}" "structuredData r = Some data"
    | (other) "ToUpper (Type r) \<notin> {''A'', ''AAAA'', ''CNAME''}" "ToUpper (Type r) \<notin> {''SRV'', ''TLSA''}"
    using assms(2) unfolding cf_good_def by (cases "structuredData r") (simp split: if_splits, metis)+
  then have "Value (fromCfRecord x) = Value r \<and> Priority (fromCfRecord x) = Priority r \<and> Proxied (fromCfRecord x) = Proxied r"
  proof cases
    case plain
    then show ?thesis using assms(1) by (auto simp: toCfRecord_def shown_as_def fromCfRecord_def Let_def)
  next
    case (structured data)
    with assms(2) have g: "data \<noteq> []" "Value r \<noteq> []" "renderStructuredValue (Type r) data = Value r" "Priority r = wire_priority r" "\<not> Proxied r"
      by (simp_all add: cf_good_def)
    have body: "cf_Data (toCfRecord r) = data" "cf_Proxied (toCfRecord r) = None" "cf_Content (toCfRecord r) = []"
      using structured by (simp_all add: toCfRecord_def Let_def)
    show ?thesis
      using assms(1) g structured(3) body by (simp add: shown_as_def fromCfRecord_def wire_priority_def Let_def)
  next
    case other
    then have "\<not> Proxied r" using assms(2) by (simp add: cf_good_def)
    with other show ?thesis using assms(1) by (simp add: toCfRecord_def shown_as_def fromCfRecord_def Let_def)
  qed
  with fields show ?thesis by (simp add: EqualsNormalized_def)
qed

lemma wire_stored: "shown_as (toCfRecord r) x \<Longrightarrow> stored_as cf_good r (fromCfRecord x)"
  using wire_roundtrip by (simp add: stored_as_def shown_as_def)

section \<open>The adapter is a DNS provider\<close>

lemma map_from_update:
  "map fromCfRecord (map (\<lambda>x. if cf_ID x = i then r else x) xs)
     = map (\<lambda>x. if ID x = i then fromCfRecord r else x) (map fromCfRecord xs)"
  by (induction xs) auto

sublocale cloudflare_api \<subseteq> provider: dns_provider "cloudflare api pages" domain zoneID "\<lambda>z. map fromCfRecord (held z)" cf_good ok
proof
  show "cf_good (r\<lparr>ID := i\<rparr>) = cf_good r" for r i by (rule cf_good_ID)
  show "distinct (map ID (map fromCfRecord (held z)))" if "ok z" for z
    using held_ids [OF that] by (simp add: comp_def)
next
  fix z res z' assume "ok z" and c: "GetZoneID (cloudflare api pages) domain z = (res, z')"
  obtain r1 z1 where d: "doJSON api (ReqZones domain) z = (r1, z1)" by force
  from doJSON_last [OF \<open>ok z\<close> d] obtain z0 ans where
    z0: "ok z0" "held z0 = held z" "api (ReqZones domain) z0 = (ans, z1)" "r1 = http_outcome ans" .
  have "z1 = z'" "\<forall>zid. res = Inr zid \<longrightarrow> (\<exists>env. accepted_answer ans env \<and> hd (env_zones env) = zid)"
    using c d z0(4) by (auto simp: cloudflare_def cf_GetZoneID_def accepted_answer_def split: sum.splits list.splits if_splits)
  with zones [OF z0(1,3)] answers_ok [OF z0(1,3)] z0(2)
  show "ok z' \<and> map fromCfRecord (held z') = map fromCfRecord (held z) \<and> (\<forall>zid. res = Inr zid \<longrightarrow> zid = zoneID)"
    by fastforce
next
  fix z lres z' assume "ok z" and c: "ListRecords (cloudflare api pages) zoneID z = (lres, z')"
  then have "list_pages api zoneID (Suc 0) [] z pages = (lres, z')" by (simp add: cloudflare_def cf_ListRecords_def)
  with list_pages_result [OF \<open>ok z\<close>, of 0 pages "[]"] held_fit [OF \<open>ok z\<close>]
  show "ok z' \<and> map fromCfRecord (held z') = map fromCfRecord (held z) \<and> (\<forall>rs. lres = Inr rs \<longrightarrow> rs = map fromCfRecord (held z))"
    by simp
next
  fix z r e z' assume "ok z" and c: "CreateRecord (cloudflare api pages) zoneID r z = (e, z')"
  then have "single_call api (ReqCreate zoneID (toCfRecord r)) (''create '' @ Type r @ '' '' @ Name r) z = (e, z')"
    by (simp add: cloudflare_def cf_CreateRecord_def)
  from single_call_last [OF \<open>ok z\<close> this] obtain z0 ans where
    z0: "ok z0" "held z0 = held z" "api (ReqCreate zoneID (toCfRecord r)) z0 = (ans, z')" "e = None \<longleftrightarrow> (\<exists>env. accepted_answer ans env)" .
  from create [OF z0(1,3)] answers_ok [OF z0(1,3)] z0(2,4)
  show "ok z' \<and> ((e \<noteq> None \<and> map fromCfRecord (held z') = map fromCfRecord (held z))
      \<or> (\<exists>r'. map fromCfRecord (held z') = map fromCfRecord (held z) @ [r'] \<and> stored_as cf_good r r'))"
    using wire_stored by fastforce
next
  fix z r e z' assume "ok z" and i: "ID r \<in> ID ` set (map fromCfRecord (held z))" and c: "UpdateRecord (cloudflare api pages) zoneID r z = (e, z')"
  then have "single_call api (ReqUpdate zoneID (ID r) (toCfRecord r)) (''update '' @ Type r @ '' '' @ Name r) z = (e, z')"
    by (simp add: cloudflare_def cf_UpdateRecord_def)
  from single_call_last [OF \<open>ok z\<close> this] obtain z0 ans where
    z0: "ok z0" "held z0 = held z" "api (ReqUpdate zoneID (ID r) (toCfRecord r)) z0 = (ans, z')" "e = None \<longleftrightarrow> (\<exists>env. accepted_answer ans env)" .
  have "ID r \<in> cf_ID ` set (held z0)" using i z0(2) by force
  from update [OF z0(1) this z0(3)] z0(2,4)
  have "(e \<noteq> None \<and> held z' = held z) \<or> (\<exists>x. held z' = map (\<lambda>y. if cf_ID y = ID r then x else y) (held z) \<and> cf_ID x = ID r \<and> shown_as (toCfRecord r) x)"
    by auto
  then have "(e \<noteq> None \<and> map fromCfRecord (held z') = map fromCfRecord (held z))
      \<or> (\<exists>r'. map fromCfRecord (held z') = map (\<lambda>x. if ID x = ID r then r' else x) (map fromCfRecord (held z)) \<and> ID r' = ID r \<and> stored_as cf_good r r')"
  proof (elim disjE exE conjE)
    fix x assume "held z' = map (\<lambda>y. if cf_ID y = ID r then x else y) (held z)" "cf_ID x = ID r" "shown_as (toCfRecord r) x"
    then show ?thesis
      by (intro disjI2 exI [of _ "fromCfRecord x"] conjI) (simp_all only: map_from_update fromCfRecord_fields wire_stored)
  qed simp
  with answers_ok [OF z0(1,3)] show "ok z' \<and> ((e \<noteq> None \<and> map fromCfRecord (held z') = map fromCfRecord (held z))
      \<or> (\<exists>r'. map fromCfRecord (held z') = map (\<lambda>x. if ID x = ID r then r' else x) (map fromCfRecord (held z)) \<and> ID r' = ID r \<and> stored_as cf_good r r'))"
    by blast
next
  fix z i e z' assume "ok z" and c: "DeleteRecord (cloudflare api pages) zoneID i z = (e, z')"
  then have "single_call api (ReqDelete zoneID i) (''delete record '' @ i) z = (e, z')"
    by (simp add: cloudflare_def cf_DeleteRecord_def)
  from single_call_last [OF \<open>ok z\<close> this] obtain z0 ans where
    z0: "ok z0" "held z0 = held z" "api (ReqDelete zoneID i) z0 = (ans, z')" "e = None \<longleftrightarrow> (\<exists>env. accepted_answer ans env)" .
  have "map fromCfRecord (filter (\<lambda>x. cf_ID x \<noteq> i) xs) = filter (\<lambda>x. ID x \<noteq> i) (map fromCfRecord xs)" for xs
    by (induction xs) auto
  with delete [OF z0(1,3)] answers_ok [OF z0(1,3)] z0(2,4)
  show "ok z' \<and> ((e \<noteq> None \<and> map fromCfRecord (held z') = map fromCfRecord (held z))
      \<or> map fromCfRecord (held z') = filter (\<lambda>x. ID x \<noteq> i) (map fromCfRecord (held z)))"
    by auto
qed

context cloudflare_api
begin

lemma is_provider: "dns_provider (cloudflare api pages) domain zoneID (\<lambda>z. map fromCfRecord (held z)) cf_good ok"
  by (rule provider.dns_provider_axioms)

end

end
