(* ===== verification/Cloudflare_Properties.thy ===== *)
theory Cloudflare_Properties
  imports Cloudflare_Provider
begin

text \<open>
  The reconciliation of a zone over the adapter: the wanted records survive the wire, a model of the API
  meets its contract, and the two guarantees of the reconciliation on the whole stack.
\<close>

section \<open>The wanted records survive the wire\<close>

lemma FieldsFunc_word:
  assumes "w \<noteq> []" "\<forall>c\<in>set w. \<not> P c" "s = [] \<or> P (hd s)"
  shows "FieldsFunc P (w @ s) = w # FieldsFunc P s"
  using assms
proof (induction w)
  case (Cons c w)
  show ?case
  proof (cases w)
    case Nil
    then show ?thesis using Cons.prems by auto
  next
    case (Cons d v)
    then show ?thesis using Cons.IH Cons.prems by auto
  qed
qed simp

lemma FieldsFunc_space: "P c \<Longrightarrow> FieldsFunc P (c # s) = FieldsFunc P s"
  by simp

definition plain_text :: "string \<Rightarrow> bool" where
  "plain_text s \<longleftrightarrow> s \<noteq> [] \<and> list_all (\<lambda>c. \<not> IsSpace c) s \<and> \<not> HasSuffix s ''.''"

lemma Fields_four:
  assumes "plain_text d" "a \<noteq> []" "b \<noteq> []" "c \<noteq> []" "list_all (\<lambda>c. \<not> IsSpace c) (a @ b @ c)"
  shows "Fields (a @ '' '' @ b @ '' '' @ c @ '' '' @ d) = [a, b, c, d]"
proof -
  have sp: "IsSpace CHR 0x20" by (simp add: IsSpace_def)
  have d: "FieldsFunc IsSpace d = [d]"
    using FieldsFunc_word [of d IsSpace "[]"] assms(1) by (simp add: plain_text_def list_all_iff)
  have w: "FieldsFunc IsSpace (w @ '' '' @ s) = w # FieldsFunc IsSpace s" if "w \<noteq> []" "list_all (\<lambda>c. \<not> IsSpace c) w" for w s
    using FieldsFunc_word [of w IsSpace "'' '' @ s"] that sp by (simp add: list_all_iff)
  have "list_all (\<lambda>c. \<not> IsSpace c) a" "list_all (\<lambda>c. \<not> IsSpace c) b" "list_all (\<lambda>c. \<not> IsSpace c) c"
    using assms(5) by simp_all
  then show ?thesis unfolding Fields_def by (simp only: w [OF assms(2)] w [OF assms(3)] w [OF assms(4)] d)
qed

lemma srv_good:
  assumes "plain_text h" "val = a @ '' '' @ b @ '' '' @ c @ '' '' @ h" "Atoi a = Some x" "Atoi b = Some y" "Atoi c = Some z"
    "a = Itoa x" "b = Itoa y" "c = Itoa z" "a \<noteq> []" "b \<noteq> []" "c \<noteq> []" "list_all (\<lambda>c. \<not> IsSpace c) (a @ b @ c)"
  shows "cf_good (record_of ''SRV'' n val (Some x) False m)" "cf_good (record_of ''TLSA'' n val None False m)"
proof -
  have f: "Fields val = [a, b, c, h]" unfolding assms(2) using assms(1,9-12) by (intro Fields_four)
  have t: "TrimSuffix h ''.'' = h" using assms(1) by (simp add: TrimSuffix_def plain_text_def)
  have up: "ToUpper ''SRV'' = ''SRV''" "ToUpper ''TLSA'' = ''TLSA''" by code_simp+
  show "cf_good (record_of ''SRV'' n val (Some x) False m)"
    using assms(3-8) t by (simp add: cf_good_def structuredData_def f up wire_priority_def renderStructuredValue_def data_number_def data_text_def)
      (simp add: assms(2))
  show "cf_good (record_of ''TLSA'' n val None False m)"
    using assms(3-8) t by (simp add: cf_good_def structuredData_def f up wire_priority_def renderStructuredValue_def data_number_def data_text_def)
      (simp add: assms(2))
qed

definition mail_host :: "DnsRecordSpec \<Rightarrow> string" where
  "mail_host spec = (if MailHost spec = [] then ''mail.'' @ DomainName spec else MailHost spec)"

lemma mail_host_TlsaHashes: "mail_host (spec\<lparr>TlsaHashes := hs\<rparr>) = mail_host spec"
proof -
  have "MailHost (spec\<lparr>TlsaHashes := hs\<rparr>) = MailHost spec" "DomainName (spec\<lparr>TlsaHashes := hs\<rparr>) = DomainName spec"
    by simp_all
  then show ?thesis by (simp only: mail_host_def)
qed

lemma srv_values:
  assumes "plain_text h"
  shows "cf_good (record_of ''SRV'' n (''0 1 993 '' @ h) (Some 0) False m)"
    and "cf_good (record_of ''SRV'' n (''0 1 465 '' @ h) (Some 0) False m)"
    and "cf_good (record_of ''SRV'' n (''0 0 995 '' @ h) (Some 0) False m)"
    and "cf_good (record_of ''SRV'' n (''0 0 443 '' @ h) (Some 0) False m)"
proof -
  note rule = srv_good(1) [OF assms, of _ "''0''" _ _ 0]
  show "cf_good (record_of ''SRV'' n (''0 1 993 '' @ h) (Some 0) False m)"
    by (rule rule [of _ "''1''" "''993''" 1 993], simp, code_simp+)
  show "cf_good (record_of ''SRV'' n (''0 1 465 '' @ h) (Some 0) False m)"
    by (rule rule [of _ "''1''" "''465''" 1 465], simp, code_simp+)
  show "cf_good (record_of ''SRV'' n (''0 0 995 '' @ h) (Some 0) False m)"
    by (rule rule [of _ "''0''" "''995''" 0 995], simp, code_simp+)
  show "cf_good (record_of ''SRV'' n (''0 0 443 '' @ h) (Some 0) False m)"
    by (rule rule [of _ "''0''" "''443''" 0 443], simp, code_simp+)
qed

lemma good_list:
  "list_all cf_good []" "cf_good r \<Longrightarrow> list_all cf_good rs \<Longrightarrow> list_all cf_good (r # rs)"
  by simp_all

lemma base_good:
  assumes "plain_text h"
  shows "list_all cf_good (base_records sha256 d h r)"
proof -
  have up: "ToUpper ''MX'' = ''MX''" "ToUpper ''TXT'' = ''TXT''" "ToUpper ''CNAME'' = ''CNAME''" by code_simp+
  have other: "cf_good (record_of ''MX'' n v p False m)" "cf_good (record_of ''TXT'' n v p False m)" "cf_good (record_of ''CNAME'' n v p b m)" for n v p b m
    by (simp_all add: cf_good_def up)
  show ?thesis unfolding base_records_def by (intro good_list srv_values [OF assms] other)
qed

lemma wanted_good:
  assumes "plain_text (mail_host spec)" "\<forall>hash\<in>set (TlsaHashes spec). hash \<noteq> [] \<longrightarrow> plain_text hash"
    "r \<in> set (BuildDnsRecordSpecs sha256 spec)"
  shows "cf_good r"
proof -
  have up: "ToUpper ''TXT'' = ''TXT''" "ToUpper ''A'' = ''A''" "ToUpper ''AAAA'' = ''AAAA''" by code_simp+
  have opt: "list_all P (if c then xs else []) \<longleftrightarrow> (c \<longrightarrow> list_all P xs)" for P :: "DnsRecord \<Rightarrow> bool" and c xs
    by simp
  have tlsa: "cf_good (record_of ''TLSA'' n (''3 1 1 '' @ hash) None False m)" if "plain_text hash" for hash n m
    by (rule srv_good(2) [OF that, of _ "''3''" "''1''" "''1''" 3 1 1], simp, code_simp+)
  have "list_all cf_good (tlsa_records h (TlsaHashes spec))" for h
    using tlsa assms(2) unfolding tlsa_records_def list_all_iff set_map set_filter by blast
  moreover have "list_all cf_good (base_records sha256 (DomainName spec) (mail_host spec) (RelaySpfInclude spec))"
    using assms(1) by (rule base_good)
  moreover have "cf_good (record_of ''TXT'' n v p False m)" "cf_good (record_of ''A'' n v p b m)" "cf_good (record_of ''AAAA'' n v p b m)" for n v p b m
    by (simp_all add: cf_good_def up)
  ultimately have "list_all cf_good (BuildDnsRecordSpecs sha256 spec)"
    unfolding BuildDnsRecordSpecs_def Let_def mail_host_def [symmetric] list_all_append opt
    by (intro conjI impI good_list) assumption+
  with assms(3) show ?thesis by (simp add: list_all_iff)
qed

section \<open>A server of a zone\<close>

text \<open>
  A zone behind the API, with the failures the contract allows: a rate limit, a failure before or after the
  request was carried out.
\<close>

datatype cf_fault = Fine | Limited string | Failing | Lost

record cf_zone =
  cz_records :: "cfRecord list"
  cz_next :: nat
  cz_faults :: "cf_fault list"

definition shown :: "cfRecord \<Rightarrow> cfRecord" where
  "shown body = body\<lparr>cf_Priority := (if cf_Data body = [] then cf_Priority body
     else case map_of (cf_Data body) ''priority'' of Some (JNum p) \<Rightarrow> Some p | _ \<Rightarrow> None)\<rparr>"

definition envelope :: "bool \<Rightarrow> cf_envelope" where
  "envelope b = \<lparr>env_success = b, env_zones = [], env_records = [], env_total_pages = 0, env_errors = []\<rparr>"

definition page_count :: "nat \<Rightarrow> int" where
  "page_count n = (int n + int recordsPerPage - 1) div int recordsPerPage"

fun carry_out :: "string \<Rightarrow> string \<Rightarrow> nat \<Rightarrow> cf_request \<Rightarrow> cf_zone \<Rightarrow> cf_envelope \<times> cf_zone" where
  "carry_out domain zoneID pages (ReqZones d) z =
     ((envelope True)\<lparr>env_zones := if d = domain then [zoneID] else []\<rparr>, z)"
| "carry_out domain zoneID pages (ReqList zid n) z =
     ((envelope True)\<lparr>env_records := take recordsPerPage (drop ((n - 1) * recordsPerPage) (cz_records z)),
        env_total_pages := page_count (length (cz_records z))\<rparr>, z)"
| "carry_out domain zoneID pages (ReqCreate zid body) z =
     (if length (cz_records z) \<ge> recordsPerPage * pages then (envelope False, z)
      else (envelope True, z\<lparr>cz_records := cz_records z @ [(shown body)\<lparr>cf_ID := ItoaNat (cz_next z)\<rparr>], cz_next := cz_next z + 1\<rparr>))"
| "carry_out domain zoneID pages (ReqUpdate zid i body) z =
     (if i \<in> cf_ID ` set (cz_records z)
      then (envelope True, z\<lparr>cz_records := map (\<lambda>x. if cf_ID x = i then (shown body)\<lparr>cf_ID := i\<rparr> else x) (cz_records z)\<rparr>)
      else (envelope False, z))"
| "carry_out domain zoneID pages (ReqDelete zid i) z =
     (envelope True, z\<lparr>cz_records := filter (\<lambda>x. cf_ID x \<noteq> i) (cz_records z)\<rparr>)"

definition zone_server :: "string \<Rightarrow> string \<Rightarrow> nat \<Rightarrow> cf_zone cf_api" where
  "zone_server domain zoneID pages req z =
     (let f = (case cz_faults z of [] \<Rightarrow> Fine | f # _ \<Rightarrow> f);
          z = z\<lparr>cz_faults := tl (cz_faults z)\<rparr>;
          (env, z') = carry_out domain zoneID pages req z
      in case f of
           Fine \<Rightarrow> (HttpAnswer 200 [] (Readable [] (Some env)), z')
         | Limited header \<Rightarrow> (HttpAnswer 429 header (Readable [] None), z)
         | Failing \<Rightarrow> (HttpAnswer 500 [] (Readable [] None), z)
         | Lost \<Rightarrow> (TransportError ''connection reset'', z'))"

definition zone_ok :: "nat \<Rightarrow> cf_zone \<Rightarrow> bool" where
  "zone_ok pages z \<longleftrightarrow> distinct (map cf_ID (cz_records z)) \<and> cf_ID ` set (cz_records z) \<subseteq> ItoaNat ` {..<cz_next z}
     \<and> length (cz_records z) \<le> recordsPerPage * pages"

lemma ItoaNat_inj: "ItoaNat m = ItoaNat n \<Longrightarrow> m = n"
  using digits_value_ItoaNat by (metis option.inject)

lemma zone_ok_map:
  assumes "map cf_ID (cz_records z') = map cf_ID (cz_records z)" "cz_next z' = cz_next z"
  shows "zone_ok pages z' = zone_ok pages z"
proof -
  have "cf_ID ` set (cz_records z') = cf_ID ` set (cz_records z)" using assms(1) by (metis set_map)
  moreover have "length (cz_records z') = length (cz_records z)" using assms(1) by (metis length_map)
  ultimately show ?thesis using assms by (simp only: zone_ok_def)
qed

lemma carry_out_ok:
  assumes "zone_ok pages z" "carry_out domain zoneID pages req z = (env, z')"
  shows "zone_ok pages z'"
proof (cases req)
  case (ReqCreate zid body)
  have "ItoaNat (cz_next z) \<notin> cf_ID ` set (cz_records z)"
  proof
    assume "ItoaNat (cz_next z) \<in> cf_ID ` set (cz_records z)"
    then have "ItoaNat (cz_next z) \<in> ItoaNat ` {..<cz_next z}" using assms(1) unfolding zone_ok_def by blast
    then obtain k where "k < cz_next z" "ItoaNat (cz_next z) = ItoaNat k" by auto
    with ItoaNat_inj show False by fastforce
  qed
  moreover have "cf_ID ` set (cz_records z) \<subseteq> ItoaNat ` {..<Suc (cz_next z)}"
    using assms(1) unfolding zone_ok_def by (auto simp: lessThan_Suc)
  ultimately show ?thesis using assms ReqCreate by (auto simp: zone_ok_def image_subset_iff split: if_splits)
next
  case (ReqUpdate zid i body)
  have "map cf_ID (map (\<lambda>x. if cf_ID x = i then (shown body)\<lparr>cf_ID := i\<rparr> else x) xs) = map cf_ID xs" for xs
    by (induction xs) auto
  then have "map cf_ID (cz_records z') = map cf_ID (cz_records z)" "cz_next z' = cz_next z"
    using assms(2) ReqUpdate by (auto split: if_splits simp del: map_map)
  then show ?thesis using assms(1) zone_ok_map by blast
next
  case (ReqDelete zid i)
  with assms show ?thesis
    by (auto simp: zone_ok_def distinct_map_filter image_subset_iff intro: order_trans [OF length_filter_le])
qed (use assms in auto)

lemma zone_ok_faults [simp]: "zone_ok pages (z\<lparr>cz_faults := fs\<rparr>) = zone_ok pages z"
  by (simp add: zone_ok_def)

lemma zone_server_cases:
  assumes "zone_server domain zoneID pages req z = (ans, z')"
  obtains env where "carry_out domain zoneID pages req (z\<lparr>cz_faults := tl (cz_faults z)\<rparr>) = (env, z')"
      "\<forall>e. accepted_answer ans e \<longrightarrow> e = env \<and> env_success env" "env_success env \<or> (\<forall>e. \<not> accepted_answer ans e)" "\<forall>h b. ans \<noteq> HttpAnswer 429 h b"
  | "z' = z\<lparr>cz_faults := tl (cz_faults z)\<rparr>" "\<forall>e. \<not> accepted_answer ans e"
proof -
  obtain env z1 where c: "carry_out domain zoneID pages req (z\<lparr>cz_faults := tl (cz_faults z)\<rparr>) = (env, z1)" by force
  show ?thesis
    using assms c that
    by (cases "case cz_faults z of [] \<Rightarrow> Fine | f # _ \<Rightarrow> f")
      (auto simp: zone_server_def Let_def accepted_answer_def http_outcome_def judge_def)
qed

lemma shown_as_shown: "shown_as body ((shown body)\<lparr>cf_ID := i\<rparr>)"
  by (simp add: shown_as_def shown_def)

lemma page_count_le: "page_count n \<le> int k \<longleftrightarrow> int n \<le> int k * int recordsPerPage"
  by (simp add: page_count_def recordsPerPage_def) linarith

lemma page_count_Suc: "page_count n \<le> 1 + int k \<longleftrightarrow> int n \<le> (1 + int k) * int recordsPerPage"
  using page_count_le [of n "Suc k"] by simp

lemma env_success_envelope [simp]: "env_success (envelope b) = b"
  by (simp add: envelope_def)

lemma zone_server_api:
  "cloudflare_api (zone_server domain zoneID pages) domain zoneID cz_records (zone_ok pages) pages"
proof
  fix z req ans z' assume "zone_ok pages z" "zone_server domain zoneID pages req z = (ans, z')"
  then show "zone_ok pages z'"
    using carry_out_ok zone_ok_faults
    by (cases rule: zone_server_cases [OF \<open>zone_server domain zoneID pages req z = (ans, z')\<close>]) metis+
next
  fix z i body ans z' assume "i \<in> cf_ID ` set (cz_records z)" "zone_server domain zoneID pages (ReqUpdate zoneID i body) z = (ans, z')"
  then show "((\<forall>env. \<not> accepted_answer ans env) \<and> cz_records z' = cz_records z)
      \<or> (\<exists>r. cz_records z' = map (\<lambda>x. if cf_ID x = i then r else x) (cz_records z) \<and> cf_ID r = i \<and> shown_as body r)"
    by (cases rule: zone_server_cases [OF \<open>zone_server domain zoneID pages (ReqUpdate zoneID i body) z = (ans, z')\<close>])
      (auto intro!: exI [of _ "(shown body)\<lparr>cf_ID := i\<rparr>"] shown_as_shown)
qed (auto simp: zone_ok_def page_count_Suc elim!: zone_server_cases split: if_splits intro!: shown_as_shown)

interpretation zone: cloudflare_api "zone_server domain zoneID pages" domain zoneID cz_records "zone_ok pages" pages
  for domain zoneID pages
  by (rule zone_server_api)

section \<open>The reconciliation\<close>

text \<open>
  C37. The reconciliation of a zone never changes or removes a record that is not its own, whatever the
  API does (refuses, limits the rate, fails or loses an answer at any call): a published record stays exactly as it
  is unless it shares type and name with a wanted record and carries our mark, the same protocol tag
  or the wanted value, or is our own BIMI record and the logo is gone. The hypothesis on the API is its
  documented contract (locale \<open>cloudflare_api\<close>).
\<close>

theorem reconcile_keeps_foreign_records:
  assumes "cloudflare_api api (DomainName (sd_spec input)) zoneID held ok pages" "ok z"
    and "Execute env (cloudflare api pages) input (z, a) = (res, z', a')"
    and "x \<in> set (map fromCfRecord (held z))"
    and "\<not> claimed (wanted_records (sy_sha256 env) input) x" "\<not> retired_bimi (sd_spec input) x"
  shows "x \<in> set (map fromCfRecord (held z'))"
  using dns_provider.others_kept [OF cloudflare_api.is_provider [OF assms(1)] refl assms(2-6)] .

definition demo_spec :: DnsRecordSpec where
  "demo_spec = \<lparr>DomainName = ''x.y'', MailHost = [], ServerIPv4 = ''1.2.3.4'', ServerIPv6 = [], RsaDkimPubKey = [], EdDkimPubKey = [],
     TlsaHashes = [], DaneEnabled = False, RelaySpfInclude = [], BimiLogoURL = [], BimiVmcURL = []\<rparr>"

definition demo_sync :: SyncDnsRecordsInput where
  "demo_sync = \<lparr>sd_spec = demo_spec, sd_TlsaHash = [], sd_AdminEmailAddress = []\<rparr>"

definition demo_sync_env :: "unit sync_env" where
  "demo_sync_env = \<lparr>sy_sha256 = (\<lambda>s. ''12345678''), sy_verifier = None, sy_aliases = None\<rparr>"

text \<open>A zone with a verification token of somebody else beside the SPF record.\<close>

definition demo_token :: cfRecord where
  "demo_token = \<lparr>cf_ID = ''0'', cf_RecType = ''TXT'', cf_RecName = ''x.y'', cf_Content = ''site-verification=1'', cf_TTL = 1,
     cf_Priority = None, cf_Proxied = None, cf_Data = [], cf_Comment = []\<rparr>"

definition demo_zone :: cf_zone where
  "demo_zone = \<lparr>cz_records = [demo_token], cz_next = 1, cz_faults = []\<rparr>"

lemma demo_zone_ok: "zone_ok 2 demo_zone"
proof -
  have "ItoaNat 0 = ''0''" by code_simp
  then show ?thesis by (simp add: zone_ok_def demo_zone_def demo_token_def recordsPerPage_def lessThan_Suc)
qed

theorem reconcile_keeps_foreign_records_witness:
  "fromCfRecord demo_token \<in> set (map fromCfRecord (cz_records (fst (snd
     (Execute demo_sync_env (cloudflare (zone_server ''x.y'' ''z1'' 2) 2) demo_sync
       (demo_zone\<lparr>cz_faults := [Fine, Limited ''1'', Fine, Failing, Lost]\<rparr>, ()))))))"
proof -
  let ?z = "demo_zone\<lparr>cz_faults := [Fine, Limited ''1'', Fine, Failing, Lost]\<rparr>"
  obtain res z' a' where ex: "Execute demo_sync_env (cloudflare (zone_server ''x.y'' ''z1'' 2) 2) demo_sync (?z, ()) = (res, z', a')"
    by (metis prod.exhaust)
  have dom: "DomainName (sd_spec demo_sync) = ''x.y''" by (simp add: demo_sync_def demo_spec_def)
  have "fromCfRecord demo_token \<in> set (map fromCfRecord (cz_records z'))"
  proof (rule reconcile_keeps_foreign_records [OF _ _ ex])
    show "cloudflare_api (zone_server ''x.y'' ''z1'' 2) (DomainName (sd_spec demo_sync)) ''z1'' cz_records (zone_ok 2) 2"
      unfolding dom by (rule zone_server_api)
    show "zone_ok 2 ?z" using demo_zone_ok by simp
    show "fromCfRecord demo_token \<in> set (map fromCfRecord (cz_records ?z))" by (simp add: demo_zone_def)
    show "\<not> claimed (wanted_records (sy_sha256 demo_sync_env) demo_sync) (fromCfRecord demo_token)" by code_simp
    show "\<not> retired_bimi (sd_spec demo_sync) (fromCfRecord demo_token)" by code_simp
  qed
  then show ?thesis unfolding ex by simp
qed

text \<open>
  C11. The reconciliation converges: when a pass reports neither an error nor a conflict, the zone holds every
  wanted record, and the next pass, whatever failures it meets, either fails before it starts or changes
  nothing and reports nothing created, updated, deleted, in conflict or in error. This needs a host name and
  key hashes without blanks, at most one wanted TLSA association, and an API that keeps its contract (and so
  shows the priority of an SRV record).
\<close>

theorem reconcile_converges:
  assumes "cloudflare_api api (DomainName (sd_spec input)) zoneID held ok pages" "ok z"
    and "plain_text (mail_host (sd_spec input))" "\<forall>hash\<in>set (wanted_hashes input). hash \<noteq> [] \<longrightarrow> plain_text hash"
    and "length (filter (\<lambda>h. h \<noteq> []) (wanted_hashes input)) \<le> 1"
    and "Execute env (cloudflare api pages) input (z, a) = (Inr out, z', a')" "Errors out = []" "ConflictCount out = 0"
  shows "(\<forall>spec\<in>set (wanted_records (sy_sha256 env) input). \<exists>r\<in>set (map fromCfRecord (held z')). EqualsNormalized spec r)
    \<and> (\<forall>b out2 z2 a2. Execute env (cloudflare api pages) input (z', b) = (Inr out2, z2, a2) \<longrightarrow>
         map fromCfRecord (held z2) = map fromCfRecord (held z') \<and> CreatedCount out2 = 0 \<and> UpdatedCount out2 = 0
         \<and> DeletedCount out2 = 0 \<and> ConflictCount out2 = 0 \<and> Errors out2 = [])"
proof -
  note provider = cloudflare_api.is_provider [OF assms(1)]
  have good: "\<forall>spec\<in>set (wanted_records (sy_sha256 env) input). cf_good spec"
    using wanted_good [of "(sd_spec input)\<lparr>TlsaHashes := wanted_hashes input\<rparr>"] assms(3,4)
    unfolding wanted_records_def mail_host_TlsaHashes by simp
  note pass = dns_provider.clean_pass [OF provider refl assms(2,6,7,8,5) good]
  have "\<exists>r\<in>set (map fromCfRecord (held z')). EqualsNormalized spec r" if "spec \<in> set (wanted_records (sy_sha256 env) input)" for spec
    using pass that dns_provider.ours_in [OF provider] unfolding settled_def by blast
  moreover have "map fromCfRecord (held z2) = map fromCfRecord (held z') \<and> CreatedCount out2 = 0 \<and> UpdatedCount out2 = 0
         \<and> DeletedCount out2 = 0 \<and> ConflictCount out2 = 0 \<and> Errors out2 = []"
    if "Execute env (cloudflare api pages) input (z', b) = (Inr out2, z2, a2)" for b out2 z2 a2
    using dns_provider.settled_pass [OF provider refl _ that] pass by blast
  ultimately show ?thesis by blast
qed

theorem reconcile_converges_witness:
  "\<exists>out z' a'. Execute demo_sync_env (cloudflare (zone_server ''x.y'' ''z1'' 2) 2) demo_sync (demo_zone, ()) = (Inr out, z', a')
    \<and> CreatedCount out = 12 \<and> (\<forall>out2 z2 a2. Execute demo_sync_env (cloudflare (zone_server ''x.y'' ''z1'' 2) 2) demo_sync (z', ()) = (Inr out2, z2, a2)
         \<longrightarrow> CreatedCount out2 = 0 \<and> UpdatedCount out2 = 0)"
proof -
  let ?ex = "Execute demo_sync_env (cloudflare (zone_server ''x.y'' ''z1'' 2) 2) demo_sync (demo_zone, ())"
  have "(case ?ex of (Inr out, _) \<Rightarrow> Errors out = [] \<and> ConflictCount out = 0 \<and> CreatedCount out = 12 | (Inl _, _) \<Rightarrow> False)"
    by code_simp
  then obtain out z' a' where ex: "?ex = (Inr out, z', a')" "Errors out = []" "ConflictCount out = 0" "CreatedCount out = 12"
    by (auto split: prod.splits sum.splits)
  have dom: "DomainName (sd_spec demo_sync) = ''x.y''" by (simp add: demo_sync_def demo_spec_def)
  have api: "cloudflare_api (zone_server ''x.y'' ''z1'' 2) (DomainName (sd_spec demo_sync)) ''z1'' cz_records (zone_ok 2) 2"
    unfolding dom by (rule zone_server_api)
  have "plain_text (mail_host (sd_spec demo_sync))" "wanted_hashes demo_sync = []" by code_simp+
  with reconcile_converges [OF api demo_zone_ok _ _ _ ex(1-3)] ex show ?thesis by auto
qed

section \<open>Where the reconciliation does not converge\<close>

text \<open>
  The identifier a wanted record takes over is looked up among the records that were listed before the pass, and
  any record of ours with the type and name will do. Two wanted TLSA associations have the same type and name:
  the second overwrites the record of the first. With the association of the current key published, adding that of
  the next key replaces it, and a pass over both published leaves the second twice.
\<close>

definition tlsa_pass :: "string list \<Rightarrow> cf_zone \<Rightarrow> cf_zone" where
  "tlsa_pass hashes z = snd (sync_all (cloudflare (zone_server ''x.y'' ''z1'' 2) 2) ''z1'' (map fromCfRecord (cz_records z))
     (tlsa_records ''h'' hashes) (new_output ''z1'', z))"

definition tlsa_values :: "cf_zone \<Rightarrow> string list" where
  "tlsa_values z = map Value (filter (\<lambda>r. Type r = ''TLSA'') (map fromCfRecord (cz_records z)))"

lemma second_tlsa_overwrites_first:
  "let z1 = tlsa_pass [''aa''] demo_zone
   in tlsa_values z1 = [''3 1 1 aa''] \<and> tlsa_values (tlsa_pass [''aa'', ''bb''] z1) = [''3 1 1 bb'']"
  "tlsa_values (tlsa_pass [''aa'', ''bb''] (tlsa_pass [''aa'', ''bb''] demo_zone)) = [''3 1 1 bb'', ''3 1 1 bb'']"
  by code_simp+

text \<open>
  An API that shows an SRV record without a priority of its own, as the tests of the adapter have it, makes every
  wanted SRV record differ from the published one, so that each pass writes it again.
\<close>

lemma srv_without_priority_differs:
  "cf_Priority x = None \<Longrightarrow> \<not> EqualsNormalized (record_of ''SRV'' n v (Some 0) False m) (fromCfRecord x)"
  by (simp add: EqualsNormalized_def)

end
