(* ===== verification/TLSA_Rollover_Properties.thy ===== *)
theory TLSA_Rollover_Properties
  imports TLSA_Rollover_Progress Cloudflare_Properties
begin

text \<open>
  The rollover over the Cloudflare adapter: the digests it publishes survive the wire, and its two guarantees, that a
  certificate is only served when its association is known to resolvers, and that it is renewed in time.
\<close>

section \<open>The associations of the host\<close>

lemma hex_digit: "c \<in> set (hex_digits b) \<Longrightarrow> \<not> IsSpace c \<and> c \<noteq> CHR ''.''"
proof -
  assume c: "c \<in> set (hex_digits b)"
  let ?digit = "\<lambda>n :: nat. if n < 10 then char_of (48 + n) else char_of (87 + n) :: char"
  have "\<forall>n\<in>set [0..<16]. \<not> IsSpace (?digit n) \<and> ?digit n \<noteq> CHR ''.''" by code_simp
  then have digit: "n < 16 \<Longrightarrow> \<not> IsSpace (?digit n) \<and> ?digit n \<noteq> CHR ''.''" for n by auto
  have "of_char b div 16 < (16 :: nat)" "of_char b mod 16 < (16 :: nat)" by (simp_all add: less_mult_imp_div_less)
  moreover have "c = ?digit (of_char b div 16) \<or> c = ?digit (of_char b mod 16)" using c by (simp add: hex_digits_def Let_def)
  ultimately show ?thesis using digit [of "of_char b div 16"] digit [of "of_char b mod 16"] by (elim disjE) simp_all
qed

lemma hex_plain: "s \<noteq> [] \<Longrightarrow> plain_text (hex_EncodeToString s)"
proof -
  assume "s \<noteq> []"
  have all: "\<not> IsSpace c \<and> c \<noteq> CHR ''.''" if "c \<in> set (hex_EncodeToString s)" for c
    using that hex_digit by (auto simp: hex_EncodeToString_def)
  have "hex_EncodeToString s \<noteq> []" using \<open>s \<noteq> []\<close> by (cases s) (auto simp: hex_EncodeToString_def hex_digits_def Let_def)
  moreover have "\<not> HasSuffix (hex_EncodeToString s) ''.''" using all [of "CHR ''.''"] by (auto simp: HasSuffix_iff)
  ultimately show ?thesis using all by (auto simp: plain_text_def list_all_iff)
qed

lemma tlsa_good: "plain_text d \<Longrightarrow> cf_good (entityTlsaRecord name (tlsa_value d))"
  unfolding entityTlsaRecord_def tlsa_value_def
  by (rule srv_good(2) [of d _ "''3''" "''1''" "''1''" 3 1 1], simp, code_simp+)

section \<open>The rollover over the adapter\<close>

locale cloudflare_rollover = cloudflare_api api domain zoneID held ok pages
  for api :: "'z cf_api" and domain zoneID held ok pages +
  fixes cfg :: "'z acme_config"
  assumes adapter: "ac_dns cfg = cloudflare api pages" "ac_domain cfg = domain"
    and with_dane: "ac_dane cfg"
    and some_wait: "PropagationWait (ac_rollover cfg) \<ge> 0"
    and hash: "pk_sha256 (ac_pki cfg) s \<noteq> []"
    and pairs: "pk_pair (ac_pki cfg) cert key \<Longrightarrow> TlsaDigestForCertificate (ac_pki cfg) cert = TlsaDigestForKey (ac_pki cfg) key"

sublocale cloudflare_rollover \<subseteq> rollover: tlsa_rollover "cloudflare api pages" domain zoneID "\<lambda>z. map fromCfRecord (held z)" cf_good ok cfg
proof
  fix key d assume "TlsaDigestForKey (ac_pki cfg) key = Some d"
  then have "plain_text d" using hex_plain hash by (auto simp: TlsaDigestForKey_def)
  then show "d \<noteq> [] \<and> cf_good (entityTlsaRecord (''_25._tcp.'' @ ac_mailHost cfg) (tlsa_value d))"
    using tlsa_good by (simp add: plain_text_def)
qed (use adapter with_dane some_wait pairs in auto)

definition association_published :: "'z acme_config \<Rightarrow> ('z \<Rightarrow> cfRecord list) \<Rightarrow> string \<Rightarrow> 'z \<Rightarrow> bool" where
  "association_published cfg held d z \<longleftrightarrow>
     tlsa_value d \<in> associations (''_25._tcp.'' @ ac_mailHost cfg) (map fromCfRecord (held z))"

text \<open>The state after an installation: a certificate that is stored and served, its association published, no rollover.\<close>

definition installed :: "'z acme_config \<Rightarrow> ('z \<Rightarrow> cfRecord list) \<Rightarrow> int \<Rightarrow> 'z acme_state \<Rightarrow> bool" where
  "installed cfg held t st \<longleftrightarrow> (\<exists>cert d. am_stored st = Some cert \<and> am_current st = Some cert \<and> am_pending st = None
     \<and> pk_pair (ac_pki cfg) (CertificatePEM cert) (PrivateKeyPEM cert) \<and> TlsaDigestForCertificate (ac_pki cfg) (CertificatePEM cert) = Some d
     \<and> am_log st = [(t, am_zone st)] \<and> association_published cfg held d (am_zone st))"

context cloudflare_rollover
begin

lemma installed_inv:
  assumes "installed cfg held t st" "ok (am_zone st)"
  shows "rollover.roll_inv t st"
proof -
  obtain cert d where c: "am_stored st = Some cert" "am_current st = Some cert" "am_pending st = None"
    "pk_pair (ac_pki cfg) (CertificatePEM cert) (PrivateKeyPEM cert)" "TlsaDigestForCertificate (ac_pki cfg) (CertificatePEM cert) = Some d"
    "am_log st = [(t, am_zone st)]" "association_published cfg held d (am_zone st)"
    using assms(1) unfolding installed_def by blast
  have "rollover.published d (am_zone st)" using c(7) by (simp add: association_published_def rollover.published_def)
  then have "rollover.served_inv t st"
    unfolding rollover.served_inv_def rollover.covered_def using c by auto
  then show ?thesis using c assms(2) by (simp add: rollover.roll_inv_def rollover.log_ok_def rollover.pending_inv_def)
qed

lemma served_published:
  assumes "installed cfg held t st" "ok (am_zone st)" "in_order t envs" "\<forall>env\<in>set envs. issuer_ok cfg env"
    "foldl (\<lambda>_ env. ae_marked env) t envs \<le> t'"
  shows "\<exists>c d. am_current (run_passes cfg st envs) = Some c \<and> TlsaDigestForCertificate (ac_pki cfg) (CertificatePEM c) = Some d
    \<and> (\<forall>z\<in>set (visible_since (t' - PropagationWait (ac_rollover cfg)) (am_log (run_passes cfg st envs))). association_published cfg held d z)"
proof -
  have "rollover.roll_inv t' (run_passes cfg st envs)"
    using rollover.roll_inv_later [OF rollover.passes_inv [OF installed_inv [OF assms(1,2)] assms(3,4)] assms(5)] by (simp add: run_passes_def)
  then show ?thesis
    unfolding rollover.roll_inv_def rollover.served_inv_def rollover.covered_def rollover.published_def association_published_def by blast
qed

end

section \<open>A rollover\<close>

text \<open>A year of passes in small: a key stands for its public key, and the authority answers every request.\<close>

definition demo_pki :: pki where
  "demo_pki = \<lparr>pk_sha256 = (\<lambda>s. CHR ''h'' # s), pk_key_spki = (\<lambda>k. if k = [] then None else Some k), pk_cert_spki = (\<lambda>c. Some c),
     pk_pair = (\<lambda>c k. c = k \<and> k \<noteq> [])\<rparr>"

definition demo_acme :: "cf_zone acme_config" where
  "demo_acme = \<lparr>ac_pki = demo_pki, ac_rollover = DefaultRolloverConfig, ac_dns = cloudflare (zone_server ''x.y'' ''z1'' 1) 1,
     ac_domain = ''x.y'', ac_mailHost = ''h'', ac_dane = True\<rparr>"

definition demo_cert :: "string \<Rightarrow> StoredCertificate" where
  "demo_cert key = \<lparr>CertificatePEM = key, PrivateKeyPEM = key, crt_NotAfter = Some (90 * 24 * Hour), KeyGeneration = 1\<rparr>"

definition demo_pass :: "int \<Rightarrow> acme_env" where
  "demo_pass t = \<lparr>ae_now = t * Hour, ae_marked = t * Hour, ae_load_ok = True, ae_pending_ok = True, ae_save_pending_ok = True, ae_mark_ok = True,
     ae_load_key_ok = True, ae_clear_ok = True, ae_save_ok = True, ae_key = Some ''b'', ae_obtain = map_option demo_cert\<rparr>"

definition demo_start :: "cf_fault list \<Rightarrow> cf_zone acme_state" where
  "demo_start faults =
     (let z = \<lparr>cz_records = [(toCfRecord (entityTlsaRecord ''_25._tcp.h'' (tlsa_value ''6861'')))\<lparr>cf_ID := ''0''\<rparr>], cz_next = 1, cz_faults = faults\<rparr>
      in \<lparr>am_stored = Some (demo_cert ''a''), am_pending = None, am_current = Some (demo_cert ''a''), am_zone = z, am_log = [(0, z)]\<rparr>)"

interpretation demo: cloudflare_rollover "zone_server ''x.y'' ''z1'' 1" "''x.y''" "''z1''" cz_records "zone_ok 1" 1 demo_acme
proof
  show "pk_pair (ac_pki demo_acme) cert key \<Longrightarrow> TlsaDigestForCertificate (ac_pki demo_acme) cert = TlsaDigestForKey (ac_pki demo_acme) key" for cert key
    by (simp add: demo_acme_def demo_pki_def TlsaDigestForCertificate_def TlsaDigestForKey_def)
qed (simp_all add: demo_acme_def demo_pki_def DefaultRolloverConfig_def Hour_def Minute_def Second_def)

lemma demo_installed: "installed demo_acme cz_records 0 (demo_start faults)" "zone_ok 1 (am_zone (demo_start faults))"
proof -
  have "TlsaDigestForCertificate demo_pki ''a'' = Some ''6861''" by code_simp
  moreover have "association_published demo_acme cz_records ''6861'' (am_zone (demo_start faults))"
  proof -
    have "association_published demo_acme cz_records ''6861'' (am_zone (demo_start []))" by code_simp
    moreover have "cz_records (am_zone (demo_start faults)) = cz_records (am_zone (demo_start []))" by (simp add: demo_start_def Let_def)
    ultimately show ?thesis by (simp only: association_published_def)
  qed
  ultimately show "installed demo_acme cz_records 0 (demo_start faults)"
    by (simp add: installed_def demo_start_def demo_acme_def demo_cert_def Let_def) (simp add: demo_pki_def)
  have "ItoaNat 0 = ''0''" by code_simp
  then show "zone_ok 1 (am_zone (demo_start faults))" by (simp add: demo_start_def Let_def zone_ok_def recordsPerPage_def lessThan_Suc)
qed

lemma demo_issuer: "issuer_ok demo_acme (demo_pass t)"
  by (simp add: issuer_ok_def demo_pass_def demo_cert_def)

text \<open>Passes over a quarter.\<close>

definition demo_days :: "acme_env list" where
  "demo_days = map (\<lambda>d. demo_pass (d * 24)) [30, 59, 61, 62, 63, 64]"

lemma demo_in_order: "in_order 0 demo_days" by code_simp

lemma demo_issuers: "\<forall>env\<in>set demo_days. issuer_ok demo_acme env"
  by (simp add: demo_days_def demo_issuer)

section \<open>The guarantees\<close>

text \<open>
  C10. DANE never breaks during a rollover. Over the Cloudflare adapter, after an installation and any number of passes of the
  manager, at any time \<open>t'\<close> after them and whatever calls fail on the way (to the API, the database or the certificate authority),
  there is a served certificate, and its association was in the zone in every state that resolvers could
  see in the propagation wait before \<open>t'\<close>. The hypotheses on others are the contract of the API, that a certificate is issued
  for the key of the request, that a key pair has one public key, and that a hash is not empty.
\<close>

theorem dane_rollover_safe:
  assumes "cloudflare_rollover api domain zoneID held ok pages cfg" "installed cfg held t st" "ok (am_zone st)"
    and "in_order t envs" "\<forall>env\<in>set envs. issuer_ok cfg env" "foldl (\<lambda>_ env. ae_marked env) t envs \<le> t'"
  shows "\<exists>c d. am_current (run_passes cfg st envs) = Some c \<and> TlsaDigestForCertificate (ac_pki cfg) (CertificatePEM c) = Some d
    \<and> (\<forall>z\<in>set (visible_since (t' - PropagationWait (ac_rollover cfg)) (am_log (run_passes cfg st envs))). association_published cfg held d z)"
  using cloudflare_rollover.served_published [OF assms] .

theorem dane_rollover_safe_witness:
  "\<exists>c d. am_current (run_passes demo_acme (demo_start [Fine, Failing, Lost]) demo_days) = Some c
    \<and> TlsaDigestForCertificate demo_pki (CertificatePEM c) = Some d
    \<and> (\<forall>z\<in>set (visible_since (65 * 24 * Hour - 24 * Hour) (am_log (run_passes demo_acme (demo_start [Fine, Failing, Lost]) demo_days))).
         association_published demo_acme cz_records d z)"
proof -
  have last: "foldl (\<lambda>_ env. ae_marked env) 0 demo_days \<le> 65 * 24 * Hour" by code_simp
  have cfg: "ac_pki demo_acme = demo_pki" "PropagationWait (ac_rollover demo_acme) = 24 * Hour"
    by (simp_all add: demo_acme_def DefaultRolloverConfig_def)
  from dane_rollover_safe [OF demo.cloudflare_rollover_axioms demo_installed demo_in_order demo_issuers last]
  show ?thesis unfolding cfg .
qed

text \<open>
  C36. With DANE enabled, the certificate is renewed in time under passes that report no error: when one pass runs within the
  preparation time before the expiry and a later one after the propagation wait has gone by since, then at the end of the passes a
  certificate of a later key generation is stored and served, whatever passes run before, between and after them. At the
  start a certificate is stored; a rollover may be under way, for a next key whose digest is not that of the certificate and
  whose publication, if noted, is not in the future (\<open>waiting\<close>). The keys that are generated are new ones, and the
  clock does not go back. Without DANE the rule is another one, \<open>renewed_without_dane\<close>.
\<close>

theorem certificate_renewed:
  assumes "ac_dane cfg" "waiting cfg cert t st" "crt_NotAfter cert = Some e"
    and "passes_ok cfg st (pre @ env1 # mid @ env2 # post)" "in_order t (pre @ env1 # mid @ env2 # post)"
    and "\<forall>env\<in>set (pre @ env1 # mid @ [env2]). fresh_key cfg cert env"
    and "e - PrepareBefore (ac_rollover cfg) < ae_now env1"
    and "ae_marked env1 + PropagationWait (ac_rollover cfg) \<le> ae_now env2"
  shows "\<exists>c. am_stored (run_passes cfg st (pre @ env1 # mid @ env2 # post)) = Some c
    \<and> am_current (run_passes cfg st (pre @ env1 # mid @ env2 # post)) = Some c \<and> KeyGeneration cert < KeyGeneration c"
proof -
  let ?g = "KeyGeneration cert"
  let ?last = "foldl (\<lambda>_ env. ae_marked env)"
  define st1 where "st1 = run_passes cfg st pre"
  define st2 where "st2 = snd (reconcile cfg env1 st1)"
  define st3 where "st3 = run_passes cfg st2 mid"
  define st4 where "st4 = snd (reconcile cfg env2 st3)"
  have ok: "passes_ok cfg st pre" "reconcile cfg env1 st1 = (True, st2)" "passes_ok cfg st2 mid"
      "reconcile cfg env2 st3 = (True, st4)" "passes_ok cfg st4 post"
    using assms(4) by (simp_all add: passes_ok_append st1_def st2_def st3_def st4_def prod_eq_iff)
  have ord: "in_order t pre" "?last t pre \<le> ae_now env1" "ae_now env1 \<le> ae_marked env1" "in_order (ae_marked env1) mid"
      "?last (ae_marked env1) mid \<le> ae_now env2" "ae_now env2 \<le> ae_marked env2"
    using assms(5) by (simp_all add: in_order_append)
  have run: "run_passes cfg st (pre @ env1 # mid @ env2 # post) = run_passes cfg st4 post"
    by (simp add: run_passes_append run_passes_Cons st1_def st2_def st3_def st4_def)
  have 1: "waiting cfg cert (?last t pre) st1 \<or> renewed ?g st1"
    unfolding st1_def using waiting_passes [OF ok(1) assms(1,2) ord(1)] assms(6) by auto
  have 2: "waiting cfg cert (ae_marked env1) st2 \<and> noted (ae_marked env1) st2 \<or> renewed ?g st2"
    using 1 waiting_pass [OF ok(2) assms(1) _ ord(2,3)] renewed_pass [OF ok(2) assms(1)] assms(3,6,7) by auto
  have 3: "waiting cfg cert (?last (ae_marked env1) mid) st3 \<and> noted (ae_marked env1) st3 \<or> renewed ?g st3"
    unfolding st3_def using 2 waiting_passes [OF ok(3) assms(1) _ ord(4)] renewed_passes [OF ok(3) assms(1)] assms(6) by auto
  have "renewed ?g st4"
    using 3 waiting_pass [OF ok(4) assms(1) _ ord(5,6)] renewed_pass [OF ok(4) assms(1)] assms(6,8) by fastforce
  then show ?thesis using renewed_passes [OF ok(5) assms(1)] by (simp add: run renewed_def)
qed

theorem certificate_renewed_witness:
  "\<exists>c. am_stored (run_passes demo_acme (demo_start []) demo_days) = Some c
    \<and> am_current (run_passes demo_acme (demo_start []) demo_days) = Some c \<and> 1 < KeyGeneration c"
proof -
  have split: "map (\<lambda>d. demo_pass (d * 24)) [30, 59] @ demo_pass (61 * 24) # [demo_pass (62 * 24)] @ demo_pass (63 * 24) # [demo_pass (64 * 24)] = demo_days"
    by (simp add: demo_days_def)
  have fresh: "fresh_key demo_acme (demo_cert ''a'') (demo_pass t)" for t
  proof -
    have "TlsaDigestForCertificate demo_pki ''a'' = Some ''6861''" "TlsaDigestForKey demo_pki ''b'' = Some ''6862''" by code_simp+
    then show ?thesis by (simp add: fresh_key_def demo_pass_def demo_acme_def demo_cert_def)
  qed
  have ok: "passes_ok demo_acme (demo_start []) demo_days" by code_simp
  have start: "waiting demo_acme (demo_cert ''a'') 0 (demo_start [])" "ac_dane demo_acme"
    by (simp_all add: waiting_def demo_start_def demo_acme_def Let_def)
  have times: "90 * 24 * Hour - PrepareBefore (ac_rollover demo_acme) < ae_now (demo_pass (61 * 24))"
    "ae_marked (demo_pass (61 * 24)) + PropagationWait (ac_rollover demo_acme) \<le> ae_now (demo_pass (63 * 24))"
    by (simp_all add: demo_acme_def DefaultRolloverConfig_def demo_pass_def Hour_def Minute_def Second_def)
  have "KeyGeneration (demo_cert ''a'') = 1" "crt_NotAfter (demo_cert ''a'') = Some (90 * 24 * Hour)" by (simp_all add: demo_cert_def)
  with certificate_renewed [of demo_acme "demo_cert ''a''" 0 "demo_start []" "90 * 24 * Hour" "map (\<lambda>d. demo_pass (d * 24)) [30, 59]"
      "demo_pass (61 * 24)" "[demo_pass (62 * 24)]" "demo_pass (63 * 24)" "[demo_pass (64 * 24)]"] start ok times demo_in_order fresh
  show ?thesis unfolding split by simp
qed

text \<open>
  Without DANE there is no next key: a pass that reports no error renews the certificate when the time before the expiry has
  come, always as generation 1, and otherwise keeps it.
\<close>

lemma renewed_without_dane:
  assumes "\<not> ac_dane cfg" "reconcile cfg env st = (True, st')" "am_stored st = Some cert"
  shows "if ShouldRenewNow (ac_rollover cfg) (ae_now env) (crt_NotAfter cert)
    then \<exists>c. am_stored st' = Some c \<and> am_current st' = Some c \<and> KeyGeneration c = 1
    else am_stored st' = Some cert \<and> am_current st' = Some cert"
  using assms by (auto simp: reconcile_def issue_def serve_def Let_def split: if_splits bool.splits prod.splits option.splits)

section \<open>The stage that is never entered\<close>

text \<open>
  The wait of the last stage is measured from the publication of the next association, not from the renewal. A renewal is
  decided when that wait is over, and no later call moves the noted time; so from the first pass after a renewal on the decision is
  the stable stage and the association of the old certificate is dropped at once, never kept until caches expire.
\<close>

lemma old_association_dropped_at_once:
  assumes "Decide config now st = (StageRenew, wanted)" "now \<le> now'" "PendingPublishedAt st' = PendingPublishedAt st"
    "CertificateMatchesPending st'"
  shows "fst (Decide config now' st') = StageStable \<and> set (snd (Decide config now' st')) \<subseteq> {PendingDigest st'}"
proof -
  obtain t where "PendingPublishedAt st = Some t" "PropagationWait config \<le> now - t" using Decide_stage(2) [OF assms(1) refl] by blast
  with assms(2-4) show ?thesis by (simp add: Decide_def)
qed

end
