(* ===== verification/Imap.thy ===== *)
theory Imap
  imports Mail_Store Credentials
begin

text \<open>
  The IMAP server: the session that the protocol library drives (\<^verbatim>\<open>presentation/imap/backend.go\<close>,
  \<^verbatim>\<open>stubs.go\<close>), its use case (\<^verbatim>\<open>usecase/imap_session.go\<close>), the notifications to
  other sessions (\<^verbatim>\<open>usecase/mailbox_tracker_manager.go\<close>) and the repositories through which it reads the mail store
  (\<^verbatim>\<open>postgres/imap_folder_repository.go\<close>, \<^verbatim>\<open>message_query_repository.go\<close>). SEARCH is in \<open>Imap_Search\<close>.

  The library parses commands and number sets and reads MIME: what is used of it is \<open>imap_lib\<close> and, for a number
  set, its membership test. It calls \<open>Login\<close> only on a session that is not logged in and the other commands only on one that
  is. The tracker of a folder is a library object; here it is the list of updates that were queued.

  A command is several transactions. \<open>imap_env\<close> says which of them fail; nothing else happens between them.
\<close>

section \<open>Folders and messages as IMAP sees them\<close>

record imap_folder =
  imf_id :: uuid
  imf_name :: string
  imf_uid_next :: uid32
  imf_uid_validity :: "32 word"
  imf_num :: "32 word"
  imf_modseq :: "64 word"

definition imapRecord :: "folder_info \<Rightarrow> imap_folder" where
  "imapRecord f =
     \<lparr>imf_id = fi_id f, imf_name = fi_name f, imf_uid_next = word_of_int (fi_uid_next f), imf_uid_validity = word_of_int (fi_uid_validity f),
      imf_num = word_of_int (fi_total f), imf_modseq = word_of_int (fi_highest_modseq f)\<rparr>"

record msg_record =
  mr_uid :: uid32
  mr_blob :: uuid
  mr_size :: int
  mr_received :: int
  mr_flags :: "string set"
  mr_modseq :: "64 word"

definition messageRecord :: "message_row \<Rightarrow> msg_record" where
  "messageRecord m =
     \<lparr>mr_uid = word_of_int (m_uid m), mr_blob = m_blob m, mr_size = m_size m, mr_received = m_received_at m,
      mr_flags = m_flags m, mr_modseq = word_of_int (m_modseq m)\<rparr>"

section \<open>The environment of a command\<close>

record 'h imap_lib =
  il_header :: "string \<Rightarrow> 'h option"
  il_envelope :: "'h \<Rightarrow> string"
  il_structure :: "string \<Rightarrow> string"
  il_section :: "string \<Rightarrow> string \<Rightarrow> string"
  il_match_list :: "string \<Rightarrow> string \<Rightarrow> string \<Rightarrow> bool"

text \<open>\<open>ie_read_ok n\<close> is whether the read number \<open>n\<close> of the command succeeds.\<close>

record imap_env =
  ie_accounts :: "string \<Rightarrow> unit + mailbox_auth option"
  ie_compare :: argon2
  ie_blob :: "uuid \<Rightarrow> string option"
  ie_now :: int
  ie_read_ok :: "nat \<Rightarrow> bool"
  ie_set_ok :: "uid32 \<Rightarrow> bool"
  ie_copy_ok :: "uid32 \<Rightarrow> bool"
  ie_expunge_ok :: bool

datatype imap_cause = ErrAuthFailed | ErrNoSuchFolder | OtherError

datatype imap_error = ImapAuthFailed | ImapNo string | ImapTryCreate string | RawError

definition toIMAPError :: "imap_cause \<Rightarrow> imap_error" where
  "toIMAPError c = (case c of ErrAuthFailed \<Rightarrow> ImapAuthFailed
     | ErrNoSuchFolder \<Rightarrow> ImapNo ''No such mailbox'' | OtherError \<Rightarrow> ImapNo ''Internal error'')"

section \<open>The use case\<close>

definition imap_login :: "imap_env \<Rightarrow> string \<Rightarrow> string \<Rightarrow> imap_cause + uuid" where
  "imap_login env address password =
     (case ie_accounts env address of
        Inl _ \<Rightarrow> Inl OtherError
      | Inr None \<Rightarrow> Inl ErrAuthFailed
      | Inr (Some r) \<Rightarrow>
          (case fst (verifyCredential (ie_compare env) r password ScopeIMAP) of
             Inl _ \<Rightarrow> Inl OtherError
           | Inr match \<Rightarrow> if match then Inr (ma_id r) else Inl ErrAuthFailed))"

definition imap_ListFolders :: "bool \<Rightarrow> mail_db \<Rightarrow> uuid option \<Rightarrow> imap_cause + imap_folder list" where
  "imap_ListFolders ok db mailbox =
     (case mailbox of
        None \<Rightarrow> Inl OtherError
      | Some mb \<Rightarrow> if \<not> ok then Inl OtherError else Inr (map imapRecord (Folders db mb)))"

definition SelectFolder :: "bool \<Rightarrow> mail_db \<Rightarrow> uuid option \<Rightarrow> string \<Rightarrow> imap_cause + imap_folder" where
  "SelectFolder ok db mailbox name =
     (case mailbox of
        None \<Rightarrow> Inl OtherError
      | Some mb \<Rightarrow>
          if \<not> ok then Inl OtherError
          else (case FolderByName db mb name of None \<Rightarrow> Inl ErrNoSuchFolder | Some f \<Rightarrow> Inr (imapRecord f)))"

definition FetchMessages :: "bool \<Rightarrow> mail_db \<Rightarrow> uuid \<Rightarrow> imap_cause + msg_record list" where
  "FetchMessages ok db folder =
     (if \<not> ok then Inl OtherError else Inr (map messageRecord (Messages db folder every_message)))"

section \<open>Notifications\<close>

datatype imap_update =
    UpdateNumMessages "32 word"
  | UpdateMessageFlags "32 word" uid32 "string list"
  | UpdateExpunge "32 word"

record tracker_manager =
  tm_trackers :: "uuid \<rightharpoonup> 32 word"
  tm_queued :: "(uuid \<times> imap_update) list"

definition GetTracker :: "uuid \<Rightarrow> 32 word \<Rightarrow> tracker_manager \<Rightarrow> tracker_manager" where
  "GetTracker folder initial tm =
     (case tm_trackers tm folder of
        None \<Rightarrow> tm\<lparr>tm_trackers := (tm_trackers tm)(folder \<mapsto> initial)\<rparr>
      | Some _ \<Rightarrow> tm)"

definition notify :: "uuid \<Rightarrow> imap_update \<Rightarrow> tracker_manager \<Rightarrow> tracker_manager" where
  "notify folder u tm =
     (case tm_trackers tm folder of None \<Rightarrow> tm | Some _ \<Rightarrow> tm\<lparr>tm_queued := tm_queued tm @ [(folder, u)]\<rparr>)"

definition NotifyNumMessages :: "uuid \<Rightarrow> 32 word \<Rightarrow> tracker_manager \<Rightarrow> tracker_manager" where
  "NotifyNumMessages folder n = notify folder (UpdateNumMessages n)"

definition NotifyMessageFlags :: "uuid \<Rightarrow> 32 word \<Rightarrow> uid32 \<Rightarrow> string list \<Rightarrow> tracker_manager \<Rightarrow> tracker_manager" where
  "NotifyMessageFlags folder n uid flags = notify folder (UpdateMessageFlags n uid flags)"

definition NotifyExpunge :: "uuid \<Rightarrow> 32 word \<Rightarrow> tracker_manager \<Rightarrow> tracker_manager" where
  "NotifyExpunge folder n = notify folder (UpdateExpunge n)"

section \<open>The session\<close>

record imap_session =
  is_mailbox :: "uuid option"
  is_selected :: "imap_folder option"
  is_tracking :: bool

record imap_world =
  iw_db :: mail_db
  iw_tm :: tracker_manager

type_synonym imap_state = "imap_session \<times> imap_world"

definition NewSession :: imap_session where
  "NewSession = \<lparr>is_mailbox = None, is_selected = None, is_tracking = False\<rparr>"

definition imap_Login :: "imap_env \<Rightarrow> string \<Rightarrow> string \<Rightarrow> imap_state \<Rightarrow> imap_error option \<times> imap_state" where
  "imap_Login env address password = (\<lambda>(s, w).
     (case imap_login env address password of
        Inl c \<Rightarrow> (Some (toIMAPError c), s, w)
      | Inr mb \<Rightarrow> (None, s\<lparr>is_mailbox := Some mb\<rparr>, w)))"

definition imap_Select :: "imap_env \<Rightarrow> string \<Rightarrow> imap_state \<Rightarrow> (imap_error + imap_folder) \<times> imap_state" where
  "imap_Select env name = (\<lambda>(s, w).
     (case SelectFolder (ie_read_ok env 0) (iw_db w) (is_mailbox s) name of
        Inl c \<Rightarrow> (Inl (toIMAPError c), s, w)
      | Inr f \<Rightarrow> (Inr f, s\<lparr>is_selected := Some f, is_tracking := True\<rparr>,
                  w\<lparr>iw_tm := GetTracker (imf_id f) (imf_num f) (iw_tm w)\<rparr>)))"

definition imap_Unselect :: "imap_state \<Rightarrow> imap_state" where
  "imap_Unselect = (\<lambda>(s, w). (s\<lparr>is_selected := None, is_tracking := False\<rparr>, w))"

definition imap_Close :: "imap_state \<Rightarrow> imap_state" where
  "imap_Close = (\<lambda>(s, w). (s\<lparr>is_tracking := False\<rparr>, w))"

text \<open>The answer to STATUS: the fields that are asked for and that the server knows.\<close>

record status_options =
  so_num :: bool
  so_uid_next :: bool
  so_uid_validity :: bool
  so_modseq :: bool

definition imap_Status :: "imap_env \<Rightarrow> string \<Rightarrow> status_options \<Rightarrow> imap_state
    \<Rightarrow> imap_error + (32 word option \<times> uid32 \<times> 32 word \<times> 64 word)" where
  "imap_Status env name opts = (\<lambda>(s, w).
     (case SelectFolder (ie_read_ok env 0) (iw_db w) (is_mailbox s) name of
        Inl c \<Rightarrow> Inl (toIMAPError c)
      | Inr f \<Rightarrow> Inr (if so_num opts then Some (imf_num f) else None, if so_uid_next opts then imf_uid_next f else 0,
                      if so_uid_validity opts then imf_uid_validity f else 0, if so_modseq opts then imf_modseq f else 0)))"

definition matchFolders :: "'h imap_lib \<Rightarrow> imap_folder list \<Rightarrow> string \<Rightarrow> string list \<Rightarrow> imap_folder list" where
  "matchFolders lib recs ref patterns = filter (\<lambda>r. list_ex (\<lambda>p. il_match_list lib (imf_name r) ref p) patterns) recs"

definition imap_List :: "'h imap_lib \<Rightarrow> imap_env \<Rightarrow> string \<Rightarrow> string list \<Rightarrow> imap_state \<Rightarrow> imap_error + string list" where
  "imap_List lib env ref patterns = (\<lambda>(s, w).
     (case imap_ListFolders (ie_read_ok env 0) (iw_db w) (is_mailbox s) of
        Inl c \<Rightarrow> Inl (toIMAPError c)
      | Inr recs \<Rightarrow> Inr (map imf_name (matchFolders lib recs ref patterns))))"

section \<open>Number sets\<close>

text \<open>The four types of set a command can carry, and none.\<close>

datatype num_set = NoSet | SeqSet "32 word \<Rightarrow> bool" | UIDSet "uid32 \<Rightarrow> bool"

definition numbered :: "'a list \<Rightarrow> (32 word \<times> 'a) list" where
  "numbered ms = zip (map (\<lambda>i. word_of_nat i + 1) [0..<length ms]) ms"

fun in_set :: "num_set \<Rightarrow> 32 word \<Rightarrow> msg_record \<Rightarrow> bool" where
  "in_set NoSet n m = False"
| "in_set (SeqSet contains) n m = contains n"
| "in_set (UIDSet contains) n m = contains (mr_uid m)"

definition numSetIter :: "num_set \<Rightarrow> msg_record list \<Rightarrow> (32 word \<times> msg_record) list" where
  "numSetIter ns ms = filter (\<lambda>(n, m). in_set ns n m) (numbered ms)"

section \<open>FETCH\<close>

record fetch_options =
  fo_flags :: bool
  fo_date :: bool
  fo_size :: bool
  fo_envelope :: bool
  fo_structure :: bool
  fo_sections :: "string list"
  fo_binary :: bool
  fo_changed_since :: "64 word"

datatype fetch_item =
    ItemUID uid32 | ItemFlags "string set" | ItemInternalDate int | ItemSize int
  | ItemEnvelope string | ItemBodyStructure string | ItemBodySection string string

text \<open>The items that were written, and whether all of them could be.\<close>

definition writeFetchResponse :: "'h imap_lib \<Rightarrow> imap_env \<Rightarrow> msg_record \<Rightarrow> fetch_options \<Rightarrow> fetch_item list \<times> bool" where
  "writeFetchResponse lib env msg opts =
     (let items = [ItemUID (mr_uid msg)] @ (if fo_flags opts then [ItemFlags (mr_flags msg)] else [])
            @ (if fo_date opts then [ItemInternalDate (mr_received msg)] else [])
            @ (if fo_size opts then [ItemSize (mr_size msg)] else []);
          needsRaw = (fo_envelope opts \<or> fo_structure opts \<or> fo_sections opts \<noteq> [] \<or> fo_binary opts)
      in if \<not> needsRaw then (items, True)
         else case ie_blob env (mr_blob msg) of
                None \<Rightarrow> (items, False)
              | Some raw \<Rightarrow>
                  let rest = (if fo_structure opts then [ItemBodyStructure (il_structure lib raw)] else [])
                         @ map (\<lambda>bs. ItemBodySection bs (il_section lib raw bs)) (fo_sections opts)
                  in if \<not> fo_envelope opts then (items @ rest, True)
                     else (case il_header lib raw of
                             None \<Rightarrow> (items, False)
                           | Some h \<Rightarrow> (items @ [ItemEnvelope (il_envelope lib h)] @ rest, True)))"

fun fetch_loop :: "'h imap_lib \<Rightarrow> imap_env \<Rightarrow> fetch_options \<Rightarrow> (32 word \<times> msg_record) list \<Rightarrow> (32 word \<times> fetch_item list) list \<times> bool" where
  "fetch_loop lib env opts [] = ([], True)"
| "fetch_loop lib env opts ((n, msg) # rest) =
     (if fo_changed_since opts > 0 \<and> mr_modseq msg \<le> fo_changed_since opts then fetch_loop lib env opts rest
      else case writeFetchResponse lib env msg opts of
             (items, False) \<Rightarrow> ([(n, items)], False)
           | (items, True) \<Rightarrow> let (rs, ok) = fetch_loop lib env opts rest in ((n, items) # rs, ok))"

text \<open>The responses that were written, and the error at the end, if any.\<close>

definition imap_Fetch :: "'h imap_lib \<Rightarrow> imap_env \<Rightarrow> nat \<Rightarrow> num_set \<Rightarrow> fetch_options \<Rightarrow> imap_state
    \<Rightarrow> (32 word \<times> fetch_item list) list \<times> imap_error option" where
  "imap_Fetch lib env i ns opts = (\<lambda>(s, w).
     (case is_selected s of
        None \<Rightarrow> ([], Some (ImapNo ''No mailbox selected''))
      | Some f \<Rightarrow>
          (case FetchMessages (ie_read_ok env i) (iw_db w) (imf_id f) of
             Inl c \<Rightarrow> ([], Some (toIMAPError c))
           | Inr ms \<Rightarrow>
               let (rs, ok) = fetch_loop lib env opts (numSetIter ns ms)
               in (rs, if ok then None else Some RawError))))"

section \<open>EXPUNGE, COPY, MOVE\<close>

text \<open>The messages of a listing that are to go, with their numbers.\<close>

definition to_expunge :: "(uid32 \<Rightarrow> bool) option \<Rightarrow> bool \<Rightarrow> msg_record list \<Rightarrow> (32 word \<times> msg_record) list" where
  "to_expunge uids requireDeleted ms =
     filter (\<lambda>(n, m). (case uids of None \<Rightarrow> True | Some contains \<Rightarrow> contains (mr_uid m)) \<and> (requireDeleted \<longrightarrow> DELETED \<in> mr_flags m))
       (numbered ms)"

definition expungeUIDs :: "imap_env \<Rightarrow> nat \<Rightarrow> (uid32 \<Rightarrow> bool) option \<Rightarrow> bool \<Rightarrow> imap_state \<Rightarrow> (imap_error + 32 word list) \<times> imap_state" where
  "expungeUIDs env i uids requireDeleted = (\<lambda>(s, w).
     (case is_selected s of
        None \<Rightarrow> (Inl (ImapNo ''No mailbox selected''), s, w)
      | Some f \<Rightarrow>
          (case FetchMessages (ie_read_ok env i) (iw_db w) (imf_id f) of
             Inl c \<Rightarrow> (Inl (toIMAPError c), s, w)
           | Inr ms \<Rightarrow>
               let chosen = to_expunge uids requireDeleted ms
               in if chosen = [] then (Inr [], s, w)
                  else (case Expunge (ie_expunge_ok env) (imf_id f) (map (\<lambda>(_, m). mr_uid m) chosen) (iw_db w) of
                          (Inl _, db) \<Rightarrow> (Inl (toIMAPError OtherError), s, w\<lparr>iw_db := db\<rparr>)
                        | (Inr _, db) \<Rightarrow> (Inr (rev (map fst chosen)), s, w\<lparr>iw_db := db\<rparr>)))))"

definition notify_expunged :: "32 word list \<Rightarrow> imap_state \<Rightarrow> imap_state" where
  "notify_expunged seqNums = (\<lambda>(s, w).
     (case is_selected s of
        None \<Rightarrow> (s, w)
      | Some f \<Rightarrow> (s, w\<lparr>iw_tm := foldl (\<lambda>tm n. NotifyExpunge (imf_id f) n tm) (iw_tm w) seqNums\<rparr>)))"

definition imap_Expunge :: "imap_env \<Rightarrow> (uid32 \<Rightarrow> bool) option \<Rightarrow> imap_state \<Rightarrow> (imap_error + 32 word list) \<times> imap_state" where
  "imap_Expunge env uids st =
     (case expungeUIDs env 0 uids True st of
        (Inl e, st') \<Rightarrow> (Inl e, st')
      | (Inr seqNums, st') \<Rightarrow> (Inr seqNums, notify_expunged seqNums st'))"

text \<open>The answer to COPY: the UID validity of the destination and the pairs of UIDs.\<close>

definition imap_Copy :: "imap_env \<Rightarrow> num_set \<Rightarrow> string \<Rightarrow> imap_state \<Rightarrow> (imap_error + 32 word \<times> (uid32 \<times> uid32) list) \<times> imap_state" where
  "imap_Copy env ns dest = (\<lambda>(s, w).
     (case is_selected s of
        None \<Rightarrow> (Inl (ImapNo ''No mailbox selected''), s, w)
      | Some f \<Rightarrow>
          (case SelectFolder (ie_read_ok env 0) (iw_db w) (is_mailbox s) dest of
             Inl _ \<Rightarrow> (Inl (ImapTryCreate ''No such destination mailbox''), s, w)
           | Inr d \<Rightarrow>
               (case FetchMessages (ie_read_ok env 1) (iw_db w) (imf_id f) of
                  Inl c \<Rightarrow> (Inl (toIMAPError c), s, w)
                | Inr ms \<Rightarrow>
                    (case Copy (ie_copy_ok env) (ie_now env) (imf_id f) (map (\<lambda>(_, m). mr_uid m) (numSetIter ns ms)) (imf_id d) (iw_db w) of
                       (Inl _, db) \<Rightarrow> (Inl (toIMAPError OtherError), s, w\<lparr>iw_db := db\<rparr>)
                     | (Inr copied, db) \<Rightarrow>
                         (Inr (imf_uid_validity d, copied), s,
                          w\<lparr>iw_db := db, iw_tm := NotifyNumMessages (imf_id d) (imf_num d + word_of_nat (length copied)) (iw_tm w)\<rparr>))))))"

definition imap_Move :: "imap_env \<Rightarrow> num_set \<Rightarrow> string \<Rightarrow> imap_state
    \<Rightarrow> (imap_error + (32 word \<times> (uid32 \<times> uid32) list) \<times> 32 word list) \<times> imap_state" where
  "imap_Move env ns dest st =
     (case imap_Copy env ns dest st of
        (Inl e, st') \<Rightarrow> (Inl e, st')
      | (Inr (validity, copied), st') \<Rightarrow>
          (case expungeUIDs env 2 (Some (\<lambda>u. u \<in> set (map fst copied))) False st' of
             (Inl e, st'') \<Rightarrow> (Inl e, st'')
           | (Inr seqNums, st'') \<Rightarrow> (Inr ((validity, copied), seqNums), notify_expunged seqNums st'')))"

section \<open>STORE\<close>

fun store_loop :: "imap_env \<Rightarrow> uuid \<Rightarrow> flag_op \<Rightarrow> string list \<Rightarrow> 64 word \<Rightarrow> (32 word \<times> msg_record) list \<Rightarrow> imap_world
    \<Rightarrow> imap_error option \<times> imap_world" where
  "store_loop env folder op flags since [] w = (None, w)"
| "store_loop env folder op flags since ((n, m) # rest) w =
     (case SetFlags (ie_set_ok env (mr_uid m)) folder (mr_uid m) op flags (unat since) (iw_db w) of
        (Inl _, db) \<Rightarrow> (Some (toIMAPError OtherError), w\<lparr>iw_db := db\<rparr>)
      | (Inr updated, db) \<Rightarrow>
          store_loop env folder op flags since rest
            (w\<lparr>iw_db := db, iw_tm := (if updated then NotifyMessageFlags folder n (mr_uid m) flags (iw_tm w) else iw_tm w)\<rparr>))"

definition flags_only :: fetch_options where
  "flags_only = \<lparr>fo_flags = True, fo_date = False, fo_size = False, fo_envelope = False, fo_structure = False,
     fo_sections = [], fo_binary = False, fo_changed_since = 0\<rparr>"

definition imap_Store :: "'h imap_lib \<Rightarrow> imap_env \<Rightarrow> num_set \<Rightarrow> flag_op \<Rightarrow> string list \<Rightarrow> bool \<Rightarrow> 64 word \<Rightarrow> imap_state
    \<Rightarrow> ((32 word \<times> fetch_item list) list \<times> imap_error option) \<times> imap_state" where
  "imap_Store lib env ns op flags silent since = (\<lambda>(s, w).
     (case is_selected s of
        None \<Rightarrow> (([], Some (ImapNo ''No mailbox selected'')), s, w)
      | Some f \<Rightarrow>
          (case FetchMessages (ie_read_ok env 0) (iw_db w) (imf_id f) of
             Inl c \<Rightarrow> (([], Some (toIMAPError c)), s, w)
           | Inr ms \<Rightarrow>
               (case store_loop env (imf_id f) op flags since (numSetIter ns ms) w of
                  (Some e, w') \<Rightarrow> (([], Some e), s, w')
                | (None, w') \<Rightarrow>
                    if silent then (([], None), s, w')
                    else (imap_Fetch lib env 1 ns flags_only (s, w'), s, w')))))"

section \<open>Commands\<close>

text \<open>CREATE, DELETE, RENAME, SUBSCRIBE, UNSUBSCRIBE and APPEND are answered by one error.\<close>

datatype stub_command = Create string | Delete string | Rename string string | Subscribe string | Unsubscribe string | Append string string

definition imap_stub :: "stub_command \<Rightarrow> imap_error" where
  "imap_stub c = ImapNo ''not yet implemented''"

datatype imap_command =
    CmdLogin string string
  | CmdSelect string
  | CmdUnselect
  | CmdClose
  | CmdRead num_set fetch_options
  | CmdExpunge "(uid32 \<Rightarrow> bool) option"
  | CmdCopy num_set string
  | CmdMove num_set string
  | CmdStore num_set flag_op "string list" bool "64 word"
  | CmdStub stub_command

text \<open>One command, as the library passes it on. STATUS, LIST, SEARCH and FETCH read only.\<close>

fun imap_command_step :: "'h imap_lib \<Rightarrow> imap_env \<Rightarrow> imap_command \<Rightarrow> imap_state \<Rightarrow> imap_state" where
  "imap_command_step lib env (CmdLogin address password) st = snd (imap_Login env address password st)"
| "imap_command_step lib env (CmdSelect name) st = snd (imap_Select env name st)"
| "imap_command_step lib env CmdUnselect st = imap_Unselect st"
| "imap_command_step lib env CmdClose st = imap_Close st"
| "imap_command_step lib env (CmdRead ns opts) st = st"
| "imap_command_step lib env (CmdExpunge uids) st = snd (imap_Expunge env uids st)"
| "imap_command_step lib env (CmdCopy ns dest) st = snd (imap_Copy env ns dest st)"
| "imap_command_step lib env (CmdMove ns dest) st = snd (imap_Move env ns dest st)"
| "imap_command_step lib env (CmdStore ns op flags silent since) st = snd (imap_Store lib env ns op flags silent since st)"
| "imap_command_step lib env (CmdStub c) st = st"

fun allowed :: "imap_command \<Rightarrow> bool \<Rightarrow> bool" where
  "allowed (CmdLogin _ _) logged_in = (\<not> logged_in)"
| "allowed CmdClose logged_in = True"
| "allowed _ logged_in = logged_in"

definition imap_serve :: "'h imap_lib \<Rightarrow> imap_state \<Rightarrow> imap_env \<times> imap_command \<Rightarrow> imap_state" where
  "imap_serve lib st = (\<lambda>(env, cmd).
     if allowed cmd (is_mailbox (fst st) \<noteq> None) then imap_command_step lib env cmd st else st)"

end
