(* ===== verification/Imap_Search.thy ===== *)
theory Imap_Search
  imports Imap
begin

text \<open>
  SEARCH (\<^verbatim>\<open>presentation/imap/search.go\<close>): the test of a message against the search criteria, which reads the raw message only when a
  criterion asks for it, and the answer to the command. The parts of a message are parsed by \<^verbatim>\<open>go-message\<close>: its headers, its
  date and its MIME tree, up to the first part that cannot be read, come from \<open>search_lib\<close>.
\<close>

section \<open>Dates, headers and parts\<close>

text \<open>The texts of the header fields, and the body (\<open>None\<close> when it cannot be read to its end) or the parts.\<close>

datatype mime_entity = Leaf "string list" "string option" | Multipart "string list" "mime_entity list"

text \<open>
  \<open>sl_fields\<close> gives the values of a field, \<open>sl_date\<close> the time of the \<^verbatim>\<open>Date\<close> field and the offset of its zone in seconds,
  \<open>sl_zone\<close> the offset of the local zone at a time. Times are seconds; \<open>None\<close> is the zero time.
\<close>

record 'h search_lib =
  sl_header :: "string \<Rightarrow> 'h option"
  sl_fields :: "'h \<Rightarrow> string \<Rightarrow> string list"
  sl_date :: "'h \<Rightarrow> (int \<times> int) option"
  sl_entity :: "string \<Rightarrow> mime_entity option"
  sl_zone :: "int \<Rightarrow> int"

definition matchDate :: "int \<Rightarrow> int \<Rightarrow> int option \<Rightarrow> int option \<Rightarrow> bool" where
  "matchDate t offset since before =
     (let day = ((t + offset) div 86400) * 86400
      in \<not> (case since of None \<Rightarrow> False | Some s \<Rightarrow> day < s)
         \<and> \<not> (case before of None \<Rightarrow> False | Some b \<Rightarrow> \<not> day < b))"

definition matchHeaderField :: "'h search_lib \<Rightarrow> 'h \<Rightarrow> string \<Rightarrow> string \<Rightarrow> bool" where
  "matchHeaderField lib header key pat =
     (if pat = [] then sl_fields lib header key \<noteq> []
      else list_ex (\<lambda>v. Contains (ToLower v) (ToLower pat)) (sl_fields lib header key))"

definition matchHeaderFieldsLower :: "string list \<Rightarrow> string \<Rightarrow> bool" where
  "matchHeaderFieldsLower texts patternLower = list_ex (\<lambda>v. Contains (ToLower v) patternLower) texts"

fun matchEntityRecursive :: "mime_entity \<Rightarrow> string \<Rightarrow> bool \<Rightarrow> bool" where
  "matchEntityRecursive (Leaf texts body) patternLower includeHeader =
     (if includeHeader \<and> matchHeaderFieldsLower texts patternLower then True
      else case body of None \<Rightarrow> False | Some b \<Rightarrow> Contains (ToLower b) patternLower)"
| "matchEntityRecursive (Multipart texts parts) patternLower includeHeader =
     (if includeHeader \<and> matchHeaderFieldsLower texts patternLower then True
      else list_ex (\<lambda>part. matchEntityRecursive part patternLower includeHeader) parts)"

definition matchEntity :: "'h search_lib \<Rightarrow> string \<Rightarrow> string \<Rightarrow> bool \<Rightarrow> bool" where
  "matchEntity lib raw pat includeHeader =
     (if pat = [] then True
      else case sl_entity lib raw of None \<Rightarrow> False | Some e \<Rightarrow> matchEntityRecursive e (ToLower pat) includeHeader)"

definition canonicalFlag :: "string \<Rightarrow> string" where
  "canonicalFlag f = ToLower f"

section \<open>Criteria\<close>

text \<open>The fields of \<^verbatim>\<open>imap.SearchCriteria\<close>: those that are not criteria themselves, and \<^verbatim>\<open>Not\<close> and \<^verbatim>\<open>Or\<close>.\<close>

record search_fields =
  sf_SeqNum :: "(32 word \<Rightarrow> bool) list"
  sf_UID :: "(uid32 \<Rightarrow> bool) list"
  sf_Since :: "int option"
  sf_Before :: "int option"
  sf_ModSeq :: "64 word option"
  sf_Flag :: "string list"
  sf_NotFlag :: "string list"
  sf_Larger :: int
  sf_Smaller :: int
  sf_Header :: "(string \<times> string) list"
  sf_SentSince :: "int option"
  sf_SentBefore :: "int option"
  sf_Text :: "string list"
  sf_Body :: "string list"

datatype search_criteria =
  SearchCriteria search_fields (sc_Not: "search_criteria list") (sc_Or: "(search_criteria \<times> search_criteria) list")

definition needsRaw :: "search_fields \<Rightarrow> bool" where
  "needsRaw f \<longleftrightarrow> 0 < length (sf_Header f) \<or> 0 < length (sf_Body f) \<or> 0 < length (sf_Text f)
     \<or> sf_SentSince f \<noteq> None \<or> sf_SentBefore f \<noteq> None"

text \<open>The tests before the raw message is loaded, and those on it.\<close>

definition match_row :: "'h search_lib \<Rightarrow> 32 word \<Rightarrow> msg_record \<Rightarrow> search_fields \<Rightarrow> bool" where
  "match_row lib n m f =
     (if list_ex (\<lambda>contains. n = 0 \<or> \<not> contains n) (sf_SeqNum f) then False
      else if list_ex (\<lambda>contains. \<not> contains (mr_uid m)) (sf_UID f) then False
      else if \<not> matchDate (mr_received m) (sl_zone lib (mr_received m)) (sf_Since f) (sf_Before f) then False
      else if (case sf_ModSeq f of None \<Rightarrow> False | Some q \<Rightarrow> q > 0 \<and> mr_modseq m < q) then False
      else let flagSet = canonicalFlag ` mr_flags m
           in if list_ex (\<lambda>flag. canonicalFlag flag \<notin> flagSet) (sf_Flag f) then False
              else if list_ex (\<lambda>flag. canonicalFlag flag \<in> flagSet) (sf_NotFlag f) then False
              else if sf_Larger f \<noteq> 0 \<and> mr_size m \<le> sf_Larger f then False
              else if sf_Smaller f \<noteq> 0 \<and> mr_size m \<ge> sf_Smaller f then False
              else True)"

definition match_raw :: "'h search_lib \<Rightarrow> string option \<Rightarrow> search_fields \<Rightarrow> bool" where
  "match_raw lib loaded f =
     (if \<not> needsRaw f then True
      else case loaded of
        None \<Rightarrow> False
      | Some raw \<Rightarrow>
          (case sl_header lib raw of
             None \<Rightarrow> False
           | Some header \<Rightarrow>
               if list_ex (\<lambda>(key, v). \<not> matchHeaderField lib header key v) (sf_Header f) then False
               else if (sf_SentSince f \<noteq> None \<or> sf_SentBefore f \<noteq> None)
                 \<and> (case sl_date lib header of None \<Rightarrow> True | Some (t, offset) \<Rightarrow> \<not> matchDate t offset (sf_SentSince f) (sf_SentBefore f))
               then False
               else if list_ex (\<lambda>s. \<not> matchEntity lib raw s True) (sf_Text f) then False
               else if list_ex (\<lambda>s. \<not> matchEntity lib raw s False) (sf_Body f) then False
               else True))"

fun matchCriteria :: "'h search_lib \<Rightarrow> string option \<Rightarrow> 32 word \<Rightarrow> msg_record \<Rightarrow> search_criteria \<Rightarrow> bool" where
  "matchCriteria lib loaded n m (SearchCriteria f nots ors) =
     (if \<not> match_row lib n m f then False
      else if \<not> match_raw lib loaded f then False
      else if list_ex (\<lambda>c. matchCriteria lib loaded n m c) nots then False
      else if list_ex (\<lambda>(a, b). \<not> matchCriteria lib loaded n m a \<and> \<not> matchCriteria lib loaded n m b) ors then False
      else True)"

section \<open>The command\<close>

record search_data =
  sd_All :: "32 word list"
  sd_Min :: "32 word"
  sd_Max :: "32 word"
  sd_Count :: "32 word"

definition search_add :: "bool \<Rightarrow> search_data \<Rightarrow> 32 word \<times> msg_record \<Rightarrow> search_data" where
  "search_add by_uid d = (\<lambda>(n, m).
     (let num = (if by_uid then mr_uid m else n)
      in \<lparr>sd_All = sd_All d @ [num],
          sd_Min = (if sd_Min d = 0 \<or> num < sd_Min d then num else sd_Min d),
          sd_Max = (if num > sd_Max d then num else sd_Max d),
          sd_Count = sd_Count d + 1\<rparr>))"

definition imap_Search :: "'h search_lib \<Rightarrow> imap_env \<Rightarrow> bool \<Rightarrow> search_criteria \<Rightarrow> imap_state \<Rightarrow> imap_error + search_data" where
  "imap_Search lib env by_uid criteria = (\<lambda>(s, w).
     (case is_selected s of
        None \<Rightarrow> Inl (ImapNo ''No mailbox selected'')
      | Some f \<Rightarrow>
          (case FetchMessages (ie_read_ok env 0) (iw_db w) (imf_id f) of
             Inl c \<Rightarrow> Inl (toIMAPError c)
           | Inr ms \<Rightarrow>
               Inr (foldl (\<lambda>d (n, m). if \<not> matchCriteria lib (ie_blob env (mr_blob m)) n m criteria then d else search_add by_uid d (n, m))
                 \<lparr>sd_All = [], sd_Min = 0, sd_Max = 0, sd_Count = 0\<rparr> (numbered ms)))))"

end
