(* ===== verification/Imap_Session.thy ===== *)
theory Imap_Session
  imports Imap Store_Properties
begin

text \<open>
  An IMAP session among everybody else: whatever other clients do to the mail store between its commands, it keeps the
  store invariant, its selected folder stays one of its own mailbox, and no command of it changes another mailbox.
\<close>

section \<open>What the store operations change\<close>

definition own_change :: "uuid \<Rightarrow> mail_db \<Rightarrow> mail_db \<Rightarrow> bool" where
  "own_change mb db db' \<longleftrightarrow> store_inv db' \<and> store_le db db' \<and> others mb db' = others mb db"

lemma own_change_refl: "store_inv db \<Longrightarrow> own_change mb db db"
  by (simp add: own_change_def store_le_refl)

lemma own_change_trans: "own_change mb db db1 \<Longrightarrow> own_change mb db1 db2 \<Longrightarrow> own_change mb db db2"
  unfolding own_change_def by (metis store_le_trans)

lemma owned_iff_others: "owned mb k db \<longleftrightarrow> k \<notin> fid ` set (fst (others mb db))"
  by (auto simp: owned_def others_def)

lemma own_change_owned: "own_change mb db db' \<Longrightarrow> owned mb k db' = owned mb k db"
  by (simp add: own_change_def owned_iff_others)

lemma own_change_inv: "own_change mb db db' \<Longrightarrow> store_inv db'"
  by (simp add: own_change_def)

lemma SetFlags_own: "store_inv db \<Longrightarrow> owned mb k db \<Longrightarrow> own_change mb db (snd (SetFlags ok k uid op flags since db))"
  by (simp add: own_change_def SetFlags_inv SetFlags_le SetFlags_others)

lemma Expunge_own: "store_inv db \<Longrightarrow> owned mb k db \<Longrightarrow> own_change mb db (snd (Expunge ok k uids db))"
  by (simp add: own_change_def Expunge_inv Expunge_le Expunge_others)

lemma filed_others:
  assumes "store_inv db" "filed_ok db f n" "m_mailbox n = mb"
  shows "others mb (filed db f n) = others mb db"
proof -
  have "f_mailbox x = mb" if "x \<in> set (folders db)" "fid x = fid f" for x
    using distinct_key_eq [of fid "folders db" x f] assms that by (auto simp: store_inv_def keys_ok_def filed_ok_def)
  then have "filter (\<lambda>f. f_mailbox f \<noteq> mb) (folders (filed db f n)) = filter (\<lambda>f. f_mailbox f \<noteq> mb) (folders db)"
    unfolding filed_def added_def by (auto simp: filter_map comp_def intro!: map_idI intro: filter_cong)
  moreover have "filter (\<lambda>b. mb_id b \<noteq> mb) (mailboxes (filed db f n)) = filter (\<lambda>b. mb_id b \<noteq> mb) (mailboxes db)"
    unfolding filed_def added_def using assms(3) by (auto simp: filter_map comp_def intro!: map_idI intro: filter_cong)
  ultimately show ?thesis using assms(3) by (simp add: others_def filed_def added_def)
qed

lemma copyOne_own:
  assumes "store_inv db" "owned mb d db" "copyOne ok now k uid d db = (r, db')"
  shows "own_change mb db db'"
proof (cases r)
  case (Inl e)
  then show ?thesis using assms copyOne_failed own_change_refl by blast
next
  case (Inr v)
  from copyOne_files [OF assms(1) assms(3) [unfolded Inr]] obtain dest n where
    dest: "folder_by_id db d = Some dest" "filed_ok db dest n" and db': "db' = filed db dest n" by blast
  have "m_mailbox n = mb"
    using folder_by_id_Some [OF dest(1)] dest(2) assms(2) by (auto simp: filed_ok_def owned_def)
  then show ?thesis
    using filed_others [OF assms(1) dest(2)] filed_addition [OF assms(1) dest(2)] filed_le [OF dest(2)] db'
    by (simp add: own_change_def)
qed

lemma copy_loop_own: "store_inv db \<Longrightarrow> owned mb d db \<Longrightarrow> own_change mb db (snd (copy_loop ok now k uids d acc db))"
proof (induction uids arbitrary: acc db)
  case Nil
  then show ?case by (simp add: own_change_refl)
next
  case (Cons uid uids)
  obtain r db' where c: "copyOne (ok uid) now k uid d db = (r, db')" by force
  note one = copyOne_own [OF Cons.prems c]
  then have "own_change mb db' (snd (copy_loop ok now k uids d acc' db'))" for acc'
    using Cons.IH own_change_owned own_change_inv Cons.prems(2) by blast
  then show ?case using one c own_change_trans by (auto split: sum.splits)
qed

lemma Copy_own: "store_inv db \<Longrightarrow> owned mb d db \<Longrightarrow> own_change mb db (snd (Copy ok now k uids d db))"
  by (simp add: Copy_def copy_loop_own)

section \<open>The commands of a session\<close>

definition session_ok :: "imap_state \<Rightarrow> bool" where
  "session_ok st \<longleftrightarrow> store_inv (iw_db (snd st)) \<and> (\<forall>f. is_selected (fst st) = Some f \<longrightarrow>
     (\<exists>mb. is_mailbox (fst st) = Some mb \<and> owned mb (imf_id f) (iw_db (snd st)) \<and> imf_id f < next_uuid (iw_db (snd st))))"

lemma SelectFolder_owned:
  assumes "store_inv db" "SelectFolder ok db (Some mb) name = Inr f"
  shows "owned mb (imf_id f) db \<and> imf_id f < next_uuid db"
proof -
  obtain r where r: "find (\<lambda>f. f_mailbox f = mb \<and> f_name f = name) (folders db) = Some r" "imf_id f = fid r"
    using assms(2) by (auto simp: SelectFolder_def FolderByName_def imapRecord_def scanFolder_def split: if_splits option.splits)
  from find_SomeD [OF r(1)] have "r \<in> set (folders db)" "f_mailbox r = mb" by auto
  then show ?thesis
    using assms(1) r(2) distinct_key_eq [of fid "folders db" _ r] by (fastforce simp: owned_def store_inv_def keys_ok_def)
qed

text \<open>What a command does to the store when it is run by a session of mailbox \<open>mb\<close>.\<close>

definition confined :: "uuid \<Rightarrow> imap_state \<Rightarrow> imap_state \<Rightarrow> bool" where
  "confined mb st st' \<longleftrightarrow> fst st' = fst st \<and> own_change mb (iw_db (snd st)) (iw_db (snd st'))"

lemma confined_refl: "session_ok st \<Longrightarrow> confined mb st st"
  by (simp add: confined_def own_change_refl session_ok_def)

lemma confined_trans: "confined mb st st1 \<Longrightarrow> confined mb st1 st2 \<Longrightarrow> confined mb st st2"
  by (auto simp: confined_def intro: own_change_trans)

lemma confined_tm: "confined mb st (s, w) \<Longrightarrow> confined mb st (s, w\<lparr>iw_tm := tm\<rparr>)"
  by (simp add: confined_def)

lemma confined_ok:
  assumes "session_ok st" "is_mailbox (fst st) = Some mb" "confined mb st st'"
  shows "session_ok st'"
proof -
  have "next_uuid (iw_db (snd st)) \<le> next_uuid (iw_db (snd st'))" using assms(3) by (simp add: confined_def own_change_def store_le_def)
  then show ?thesis using assms unfolding session_ok_def confined_def
    by (metis own_change_inv own_change_owned option.inject order_less_le_trans)
qed

lemma selected_owned:
  "session_ok (s, w) \<Longrightarrow> is_mailbox s = Some mb \<Longrightarrow> is_selected s = Some f \<Longrightarrow> store_inv (iw_db w) \<and> owned mb (imf_id f) (iw_db w)"
  by (auto simp: session_ok_def)

lemma expungeUIDs_confined:
  assumes "session_ok st" "is_mailbox (fst st) = Some mb"
  shows "confined mb st (snd (expungeUIDs env i uids del st))"
proof -
  obtain s w where st: "st = (s, w)" by force
  show ?thesis
  proof (cases "is_selected s")
    case (Some f)
    note own = selected_owned [OF assms(1) [unfolded st] _ Some, of mb]
    have "own_change mb (iw_db w) (snd (Expunge ok (imf_id f) us (iw_db w)))" for ok us
      using own assms(2) st by (intro Expunge_own) auto
    then have "Expunge ok (imf_id f) us (iw_db w) = (r, db') \<Longrightarrow> own_change mb (iw_db w) db'" for ok us r db'
      by (metis snd_conv)
    then show ?thesis using Some confined_refl [OF assms(1)] unfolding st expungeUIDs_def
      by (auto simp: Let_def confined_def split: sum.splits prod.splits)
  qed (use confined_refl [OF assms(1)] st in \<open>simp add: expungeUIDs_def\<close>)
qed

lemma notify_expunged_confined: "confined mb st st' \<Longrightarrow> confined mb st (notify_expunged ns st')"
  by (auto simp: notify_expunged_def confined_def split: option.splits prod.splits)

lemma imap_Expunge_confined:
  assumes "session_ok st" "is_mailbox (fst st) = Some mb"
  shows "confined mb st (snd (imap_Expunge env uids st))"
  using expungeUIDs_confined [OF assms, of env 0 uids True]
  by (auto simp: imap_Expunge_def split: prod.splits sum.splits intro: notify_expunged_confined)

lemma imap_Copy_confined:
  assumes "session_ok st" "is_mailbox (fst st) = Some mb"
  shows "confined mb st (snd (imap_Copy env ns dest st))"
proof -
  obtain s w where st: "st = (s, w)" by force
  have inv: "store_inv (iw_db w)" using assms(1) st by (simp add: session_ok_def)
  have "own_change mb (iw_db w) (snd (Copy (ie_copy_ok env) (ie_now env) k uids (imf_id d) (iw_db w)))"
    if "SelectFolder (ie_read_ok env 0) (iw_db w) (is_mailbox s) dest = Inr d" for k uids d
    using SelectFolder_owned [OF inv, of _ mb dest d] that assms(2) st by (intro Copy_own [OF inv]) auto
  then have copied: "own_change mb (iw_db w) db'"
    if "SelectFolder (ie_read_ok env 0) (iw_db w) (is_mailbox s) dest = Inr d"
      "Copy (ie_copy_ok env) (ie_now env) k uids (imf_id d) (iw_db w) = (r, db')" for k uids d r db'
    using that by (metis snd_conv)
  show ?thesis using confined_refl [OF assms(1)] copied unfolding st imap_Copy_def
    by (auto simp: confined_def split: option.splits sum.splits prod.splits)
qed

lemma imap_Move_confined:
  assumes "session_ok st" "is_mailbox (fst st) = Some mb"
  shows "confined mb st (snd (imap_Move env ns dest st))"
proof -
  obtain r st1 where c: "imap_Copy env ns dest st = (r, st1)" by (metis prod.exhaust)
  have one: "confined mb st st1" using imap_Copy_confined [OF assms, of env ns dest] c by simp
  have "session_ok st1" "is_mailbox (fst st1) = Some mb"
    using confined_ok [OF assms one] one assms(2) by (auto simp: confined_def)
  then have "confined mb st (snd (expungeUIDs env i uids del st1))" for i uids del
    using expungeUIDs_confined one confined_trans by blast
  then have "expungeUIDs env i uids del st1 = (q, st2) \<Longrightarrow> confined mb st st2" for i uids del q st2
    by (metis snd_conv)
  then show ?thesis using one c
    by (auto simp: imap_Move_def split: sum.splits prod.splits intro: notify_expunged_confined)
qed

lemma store_loop_own:
  "store_inv (iw_db w) \<Longrightarrow> owned mb k (iw_db w) \<Longrightarrow> own_change mb (iw_db w) (iw_db (snd (store_loop env k op flags since ms w)))"
proof (induction ms arbitrary: w)
  case Nil
  then show ?case by (simp add: own_change_refl)
next
  case (Cons p ms)
  obtain n m where p: "p = (n, m)" by force
  obtain r db where r: "SetFlags (ie_set_ok env (mr_uid m)) k (mr_uid m) op flags (unat since) (iw_db w) = (r, db)" by force
  have one: "own_change mb (iw_db w) db" using SetFlags_own [OF Cons.prems] r by (metis snd_conv)
  have "own_change mb db (iw_db (snd (store_loop env k op flags since ms (w\<lparr>iw_db := db, iw_tm := tm\<rparr>))))" for tm
    using Cons.IH [of "w\<lparr>iw_db := db, iw_tm := tm\<rparr>"] own_change_owned [OF one] own_change_inv [OF one] Cons.prems(2) by simp
  then show ?case using one r p own_change_trans by (auto split: sum.splits)
qed

lemma imap_Store_confined:
  assumes "session_ok st" "is_mailbox (fst st) = Some mb"
  shows "confined mb st (snd (imap_Store lib env ns op flags silent since st))"
proof -
  obtain s w where st: "st = (s, w)" by force
  show ?thesis
  proof (cases "is_selected s")
    case (Some f)
    have "own_change mb (iw_db w) (iw_db (snd (store_loop env (imf_id f) op flags since ms w)))" for ms
      using selected_owned [OF assms(1) [unfolded st] _ Some, of mb] assms(2) st by (intro store_loop_own) auto
    then have "store_loop env (imf_id f) op flags since ms w = (r, w') \<Longrightarrow> own_change mb (iw_db w) (iw_db w')" for ms r w'
      by (metis snd_conv)
    then show ?thesis using Some confined_refl [OF assms(1)] unfolding st imap_Store_def
      by (auto simp: confined_def split: sum.splits prod.splits option.splits)
  qed (use confined_refl [OF assms(1)] st in \<open>simp add: imap_Store_def\<close>)
qed

lemmas imap_confined = imap_Expunge_confined imap_Copy_confined imap_Move_confined imap_Store_confined


lemma imap_command_confined:
  assumes "session_ok st" "is_mailbox (fst st) = Some mb"
    and "allowed cmd True" "imap_command_step lib env cmd st = st'"
  shows "own_change mb (iw_db (snd st)) (iw_db (snd st')) \<and> session_ok st' \<and> is_mailbox (fst st') = Some mb"
proof -
  have moved: ?thesis if "confined mb st st'"
    using confined_ok [OF assms(1,2) that] that assms(2) by (simp add: confined_def)
  obtain s w where st: "st = (s, w)" by force
  have inv: "store_inv (iw_db w)" using assms(1) st by (simp add: session_ok_def)
  show ?thesis
  proof (cases cmd)
    case (CmdSelect name)
    have "st' = snd (imap_Select env name st)" using CmdSelect assms(4) by simp
    then show ?thesis using SelectFolder_owned [OF inv, of _ mb name] own_change_refl [OF inv] assms(1,2) st
      by (auto simp: imap_Select_def session_ok_def split: sum.splits)
  next
    case CmdUnselect
    then show ?thesis using assms own_change_refl [OF inv] st by (auto simp: imap_Unselect_def session_ok_def)
  next
    case CmdClose
    then show ?thesis using assms own_change_refl [OF inv] st by (auto simp: imap_Close_def session_ok_def)
  next
    case (CmdStore ns op flags silent since)
    then show ?thesis using moved imap_Store_confined [OF assms(1,2), of lib env ns op flags silent since] assms(4) by simp
  qed (use assms moved imap_confined(1-3) [OF assms(1,2)] confined_refl [OF assms(1)] in auto)
qed

section \<open>A session among others\<close>

text \<open>An event is a command of the session or an operation of anybody else on the store.\<close>

fun mail_step :: "'h imap_lib \<Rightarrow> imap_state \<Rightarrow> (imap_env \<times> imap_command) + (bool \<times> store_op) \<Rightarrow> imap_state" where
  "mail_step lib st (Inl c) = imap_serve lib st c"
| "mail_step lib (s, w) (Inr op) = (s, w\<lparr>iw_db := exec (iw_db w) op\<rparr>)"

fun login_accepted :: "imap_state \<Rightarrow> (imap_env \<times> imap_command) + (bool \<times> store_op) \<Rightarrow> uuid \<Rightarrow> bool" where
  "login_accepted st (Inl (env, CmdLogin address password)) mb = (imap_login env address password = Inr mb)"
| "login_accepted st _ mb = False"

lemma imap_serve_logged_out:
  assumes "is_mailbox (fst st) = None" "session_ok st"
  shows "session_ok (imap_serve lib st (env, cmd)) \<and> snd (imap_serve lib st (env, cmd)) = snd st
    \<and> is_selected (fst (imap_serve lib st (env, cmd))) = None
    \<and> (is_mailbox (fst (imap_serve lib st (env, cmd))) = Some mb \<longrightarrow> login_accepted st (Inl (env, cmd)) mb)"
proof -
  obtain s w where st: "st = (s, w)" by force
  have "is_selected s = None" using assms st by (auto simp: session_ok_def)
  then show ?thesis using assms st
    by (cases cmd) (auto simp: imap_serve_def imap_Login_def imap_Close_def session_ok_def split: sum.splits)
qed

lemma imap_serve_logged_in:
  assumes "is_mailbox (fst st) = Some mb" "session_ok st"
  shows "own_change mb (iw_db (snd st)) (iw_db (snd (imap_serve lib st c))) \<and> session_ok (imap_serve lib st c)
    \<and> is_mailbox (fst (imap_serve lib st c)) = Some mb"
proof -
  obtain env cmd where c: "c = (env, cmd)" by force
  show ?thesis
  proof (cases "allowed cmd True")
    case True
    then show ?thesis using imap_command_confined [OF assms(2,1) True refl] assms(1) c by (simp add: imap_serve_def)
  next
    case False
    then show ?thesis using assms c own_change_refl by (simp add: imap_serve_def session_ok_def)
  qed
qed

lemma exec_owned:
  assumes "store_inv db" "owned mb k db" "k < next_uuid db"
  shows "owned mb k (exec db op) \<and> k < next_uuid (exec db op)"
proof -
  have le: "store_le db (exec db op)" using assms(1) by (cases op) (simp add: exec_le)
  have "f_mailbox f' = mb" if "f' \<in> set (folders (exec db op))" "fid f' = k" for f'
  proof -
    have "\<exists>f \<in> set (folders db). folder_le f f'" using le that assms(3) unfolding store_le_def by (metis not_less)
    then show ?thesis using assms(2) that(2) by (auto simp: folder_le_def owned_def)
  qed
  moreover have "next_uuid db \<le> next_uuid (exec db op)" using le by (simp add: store_le_def)
  ultimately show ?thesis using assms(3) by (auto simp: owned_def)
qed

lemma mail_step_ok: "session_ok st \<Longrightarrow> session_ok (mail_step lib st ev)"
proof (cases ev)
  case (Inl c)
  assume "session_ok st"
  with Inl imap_serve_logged_in [of st _ lib c] imap_serve_logged_out [of st lib "fst c" "snd c"] show ?thesis
    by (cases "is_mailbox (fst st)") auto
next
  case (Inr op)
  assume ok: "session_ok st"
  obtain s w where st: "st = (s, w)" by force
  have "store_inv (exec (iw_db w) op)" using ok st exec_inv [of "iw_db w" op] by (simp add: session_ok_def)
  then show ?thesis using ok st Inr exec_owned [of "iw_db w" _ _ op] by (auto simp: session_ok_def)
qed

interpretation imap_store: invariant_machine "mail_step lib" session_ok for lib :: "'h imap_lib"
  by unfold_locales (rule mail_step_ok)

lemma run_mailbox_kept:
  "is_mailbox (fst st) = Some a \<Longrightarrow> session_ok st \<Longrightarrow> is_mailbox (fst (foldl (mail_step lib) st es)) = Some a"
proof (induction es arbitrary: st)
  case (Cons ev es)
  have "is_mailbox (fst (mail_step lib st ev)) = Some a"
    using imap_serve_logged_in [OF Cons.prems] Cons.prems(1) by (cases ev; cases st) auto
  then show ?case using Cons.IH [of "mail_step lib st ev"] mail_step_ok [OF Cons.prems(2), of lib ev] by simp
qed simp

lemma run_login:
  assumes "session_ok st" "is_mailbox (fst st) = None" "is_mailbox (fst (foldl (mail_step lib) st es)) = Some mb"
  shows "\<exists>env address password. Inl (env, CmdLogin address password) \<in> set es \<and> imap_login env address password = Inr mb"
  using assms
proof (induction es arbitrary: st)
  case (Cons ev es)
  let ?st = "mail_step lib st ev"
  show ?case
  proof (cases "is_mailbox (fst ?st)")
    case None
    from Cons.IH [OF mail_step_ok [OF Cons.prems(1)] None] Cons.prems(3) show ?thesis by auto
  next
    case (Some a)
    obtain env cmd where ev: "ev = Inl (env, cmd)"
      using Some Cons.prems(2) by (cases ev; cases st) auto
    have "login_accepted st (Inl (env, cmd)) a"
      using imap_serve_logged_out [OF Cons.prems(2,1), of lib env cmd a] Some ev by simp
    then obtain address password where l: "cmd = CmdLogin address password" "imap_login env address password = Inr a"
      by (cases cmd) auto
    from run_mailbox_kept [OF Some mail_step_ok [OF Cons.prems(1)], of lib es] Cons.prems(3) have "mb = a" by simp
    with l ev show ?thesis by auto
  qed
qed simp

text \<open>
  C4. An IMAP session is confined to the mailbox it logged in to. Start a session on a sound store and let anything happen: its own
  commands, with any calls failing, and between them any operations of other clients, of the webmail and of the
  delivery. Then the store is sound; a session that has a mailbox got it from a login whose credentials were accepted
  for IMAP; and whatever it does next keeps the store sound and leaves the folders, messages and quota of all
  other mailboxes as they are, or, before a login, the whole store.
\<close>

theorem imap_confined_to_mailbox:
  assumes "store_inv (iw_db w)" "foldl (mail_step lib) (NewSession, w) es = st"
  shows "store_inv (iw_db (snd st))
    \<and> (\<forall>mb. is_mailbox (fst st) = Some mb \<longrightarrow>
         (\<exists>env address password. Inl (env, CmdLogin address password) \<in> set es \<and> imap_login env address password = Inr mb)
         \<and> others mb (iw_db (snd (imap_serve lib st c))) = others mb (iw_db (snd st)) \<and> store_inv (iw_db (snd (imap_serve lib st c))))
    \<and> (is_mailbox (fst st) = None \<longrightarrow> snd (imap_serve lib st c) = snd st)"
proof -
  have new: "session_ok (NewSession, w)" "is_mailbox (fst (NewSession, w)) = None"
    using assms(1) by (simp_all add: session_ok_def NewSession_def)
  have ok: "session_ok st" using imap_store.run_inv [OF new(1)] assms(2) by blast
  have "own_change mb (iw_db (snd st)) (iw_db (snd (imap_serve lib st c)))" if "is_mailbox (fst st) = Some mb" for mb
    using imap_serve_logged_in [OF that ok] by blast
  moreover have "snd (imap_serve lib st c) = snd st" if "is_mailbox (fst st) = None"
    using imap_serve_logged_out [OF that ok, of lib "fst c" "snd c"] by simp
  ultimately show ?thesis
    using ok run_login [OF new, of lib es] assms(2) by (auto simp: session_ok_def own_change_def)
qed

text \<open>A session on the sample store: it logs in, selects INBOX, another client removes a message, and it stores a flag.\<close>

definition demo_imap_env :: imap_env where
  "demo_imap_env = \<lparr>ie_accounts = (\<lambda>a. Inr (if a = ''u@y''
       then Some \<lparr>ma_id = 0, ma_password_hash = ''h'', ma_email = ''u@y'', ma_domain = ''y'', ma_max_recipients = 5, ma_app_passwords = []\<rparr>
       else None)),
     ie_compare = (\<lambda>password hash. Inr (password = ''pw'')), ie_blob = (\<lambda>b. Some ''raw''), ie_now = 7, ie_read_ok = (\<lambda>i. True),
     ie_set_ok = (\<lambda>u. True), ie_copy_ok = (\<lambda>u. True), ie_expunge_ok = True\<rparr>"

definition demo_world :: imap_world where
  "demo_world = \<lparr>iw_db = demo_db, iw_tm = \<lparr>tm_trackers = Map.empty, tm_queued = []\<rparr>\<rparr>"

text \<open>The session logs in and selects INBOX; another client marks message 2 deleted.\<close>

definition demo_events :: "((imap_env \<times> imap_command) + (bool \<times> store_op)) list" where
  "demo_events = [Inl (demo_imap_env, CmdLogin ''u@y'' ''pw''), Inl (demo_imap_env, CmdSelect ''INBOX''),
     Inr (True, ImapSetFlags 1 2 FlagOpAdd [DELETED] 0)]"

definition demo_session :: "'h imap_lib \<Rightarrow> imap_state" where
  "demo_session lib = foldl (mail_step lib) (NewSession, demo_world) demo_events"

lemma demo_inbox: "FolderByName demo_db 0 ''INBOX'' = Some (scanFolder demo_db (hd (folders demo_db)))"
  by code_simp

lemma demo_scan: "imapRecord (scanFolder demo_db (hd (folders demo_db))) =
    \<lparr>imf_id = 1, imf_name = ''INBOX'', imf_uid_next = 3, imf_uid_validity = 9, imf_num = 2, imf_modseq = 4\<rparr>"
  by code_simp

text \<open>For evaluation: the limit of a listing is compared, not counted down.\<close>

lemma Messages_code [code]:
  "Messages db folderID q =
     (let limit = (if q_limit q \<le> 0 then 2147483647 else q_limit q);
          found = filter (\<lambda>m. live_in folderID m \<and> message_found (q_search q) m) (messages db);
          ordered = (if q_newest_first q
                     then sort_key (\<lambda>m. - m_received_at m) (sort_key (\<lambda>m. - m_uid m) found)
                     else sort_key m_uid found);
          rest = drop (nat (if q_offset q < 0 then 0 else q_offset q)) ordered
      in if int (length rest) \<le> limit then rest else take (nat limit) rest)"
  by (auto simp: Messages_def Let_def)

definition demo_selected :: imap_session where
  "demo_selected = \<lparr>is_mailbox = Some 0, is_selected =
     Some \<lparr>imf_id = 1, imf_name = ''INBOX'', imf_uid_next = 3, imf_uid_validity = 9, imf_num = 2, imf_modseq = 4\<rparr>, is_tracking = True\<rparr>"

definition demo_deleted :: imap_world where
  "demo_deleted = \<lparr>iw_db = exec demo_db (True, ImapSetFlags 1 2 FlagOpAdd [DELETED] 0),
     iw_tm = \<lparr>tm_trackers = [1 \<mapsto> 2], tm_queued = []\<rparr>\<rparr>"

lemma demo_session: "demo_session lib = (demo_selected, demo_deleted)"
  by (simp add: demo_session_def demo_events_def imap_serve_def imap_Login_def imap_login_def demo_imap_env_def verifyCredential_def
    imap_Select_def SelectFolder_def demo_world_def NewSession_def GetTracker_def demo_inbox demo_scan demo_selected_def demo_deleted_def)

definition demo_imap_lib :: "string imap_lib" where
  "demo_imap_lib = \<lparr>il_header = Some, il_envelope = (\<lambda>h. h), il_structure = (\<lambda>raw. []), il_section = (\<lambda>raw bs. raw),
     il_match_list = (\<lambda>name ref p. name = ref @ p)\<rparr>"

lemma imap_confined_to_mailbox_witness:
  "store_inv (iw_db (snd (demo_session demo_imap_lib)))
   \<and> others 0 (iw_db (snd (imap_serve demo_imap_lib (demo_session demo_imap_lib) (demo_imap_env, CmdExpunge None))))
     = others 0 (iw_db (snd (demo_session demo_imap_lib)))"
proof -
  have "is_mailbox (fst (demo_session demo_imap_lib)) = Some 0" by (simp add: demo_session demo_selected_def)
  moreover have "store_inv (iw_db demo_world)" using demo_inv by (simp add: demo_world_def)
  ultimately show ?thesis
    using imap_confined_to_mailbox [OF _ demo_session_def [symmetric], of demo_imap_lib "(demo_imap_env, CmdExpunge None)"] by blast
qed

end
