(* ===== verification/Imap_Properties.thy ===== *)
theory Imap_Properties
  imports Imap_Session
begin

text \<open>
  What EXPUNGE and MOVE do: the sequence numbers an EXPUNGE reports turn the client's list of messages into the list the
  server has afterwards, and a MOVE never loses a message, at whatever call it fails.
\<close>

section \<open>What an expunge leaves\<close>

lemma expunge_loop_rows:
  assumes "store_inv db"
  shows "messages (snd (expunge_loop k uids n db)) =
    map (\<lambda>m. if live_in k m \<and> m_uid m \<in> uint ` set uids then m\<lparr>m_expunged := True\<rparr> else m) (messages db)"
  using assms
proof (induction uids arbitrary: n db)
  case (Cons uid uids)
  show ?case
  proof (cases "loadMessage db k uid")
    case None
    then have "\<not> (live_in k m \<and> m_uid m = uint uid)" if "m \<in> set (messages db)" for m
      using that by (auto simp: loadMessage_def find_None_iff live_in_def)
    then show ?thesis using None Cons by (auto intro!: map_cong)
  next
    case (Some m)
    note m = loadMessage_Some [OF Some]
    have rows: "messages (expungeRow m k db) = update_where (\<lambda>x. mid x = mid m) (\<lambda>x. x\<lparr>m_expunged := True\<rparr>) (messages db)"
      by (simp add: expungeRow_def Let_def store_upd_defs)
    have same: "mid x = mid m \<longleftrightarrow> live_in k x \<and> m_uid x = uint uid \<or> x = m" if "x \<in> set (messages db)" for x
      using Cons.prems that m uids_ok_unique [of db x m] distinct_key_eq [of mid "messages db" x m]
      by (auto simp: store_inv_def keys_ok_def live_in_def)
    have live: "live_in k m" "m_uid m = uint uid" using m by (simp_all add: live_in_def)
    let ?expunge = "\<lambda>U x. if live_in k x \<and> m_uid x \<in> U then x\<lparr>m_expunged := True\<rparr> else x"
    have "?expunge (uint ` set uids) (if mid x = mid m then x\<lparr>m_expunged := True\<rparr> else x) = ?expunge (uint ` set (uid # uids)) x"
      if "x \<in> set (messages db)" for x
    proof (cases "mid x = mid m")
      case True
      then have "live_in k x" "m_uid x = uint uid" using same [OF that] live by auto
      then show ?thesis using True by (simp add: live_in_def)
    next
      case False
      then have "\<not> (live_in k x \<and> m_uid x = uint uid)" using same [OF that] by simp
      then show ?thesis using False by auto
    qed
    then have "map (?expunge (uint ` set uids)) (messages (expungeRow m k db)) = map (?expunge (uint ` set (uid # uids))) (messages db)"
      unfolding rows update_where_def map_map by (intro map_cong) simp_all
    then show ?thesis using Some Cons.IH [OF expungeRow_inv [OF Cons.prems Some], of "n + 1"] by simp
  qed
qed simp

definition listed :: "mail_db \<Rightarrow> uuid \<Rightarrow> message_row list" where
  "listed db k = sort_key m_uid (filter (live_in k) (messages db))"

lemma Messages_listed: "length (filter (live_in k) (messages db)) < 2 ^ 31 \<Longrightarrow> Messages db k every_message = listed db k"
  by (simp add: Messages_def every_message_def listed_def message_found_def)

lemma Messages_in: "m \<in> set (Messages db k every_message) \<Longrightarrow> m \<in> set (messages db) \<and> live_in k m"
  by (auto simp: Messages_def every_message_def Let_def dest!: in_set_takeD)

lemma filter_expunged:
  "filter (live_in k) (map (\<lambda>m. if live_in k m \<and> m_uid m \<in> U then m\<lparr>m_expunged := True\<rparr> else m) ms)
    = filter (\<lambda>m. m_uid m \<notin> U) (filter (live_in k) ms)"
  by (induction ms) (auto simp: live_in_def)

lemma listed_expunged:
  assumes "store_inv db" "Expunge True k uids db = (r, db')"
  shows "listed db' k = filter (\<lambda>m. m_uid m \<notin> uint ` set uids) (listed db k)"
proof -
  have "messages db' = map (\<lambda>m. if live_in k m \<and> m_uid m \<in> uint ` set uids then m\<lparr>m_expunged := True\<rparr> else m) (messages db)"
    using expunge_loop_rows [OF assms(1), of k uids 0] assms(2) by (auto simp: Expunge_def split: if_splits prod.splits)
  then show ?thesis by (simp add: listed_def filter_expunged filter_sort)
qed

section \<open>The client's list\<close>

text \<open>A client removes the message with the number of each EXPUNGE response, one response after the other.\<close>

definition client_view :: "'a list \<Rightarrow> 32 word list \<Rightarrow> 'a list" where
  "client_view xs ns = foldl (\<lambda>xs n. take (unat n - 1) xs @ drop (unat n) xs) xs ns"

lemma client_view_snoc:
  assumes "sorted_wrt (\<lambda>a b. unat b < unat a) ns" "\<forall>n\<in>set ns. 0 < unat n \<and> unat n \<le> length xs"
  shows "client_view (xs @ [x]) ns = client_view xs ns @ [x]"
  using assms
proof (induction ns arbitrary: xs)
  case (Cons n ns)
  let ?xs = "take (unat n - 1) xs @ drop (unat n) xs"
  have "take (unat n - 1) (xs @ [x]) @ drop (unat n) (xs @ [x]) = ?xs @ [x]" using Cons.prems(2) by simp
  moreover have "\<forall>a\<in>set ns. 0 < unat a \<and> unat a \<le> length ?xs" using Cons.prems by auto
  ultimately show ?case using Cons.IH [of ?xs] Cons.prems(1) by (simp add: client_view_def)
qed (simp add: client_view_def)

lemma numbered_snoc: "numbered (xs @ [x]) = numbered xs @ [(word_of_nat (length xs) + 1, x)]"
  by (simp add: numbered_def)

lemma numbered_replay:
  assumes "length xs < 2 ^ 32"
  shows "client_view xs (rev (map fst (filter (\<lambda>(n, x). P x) (numbered xs)))) = filter (\<lambda>x. \<not> P x) xs
    \<and> sorted_wrt (\<lambda>a b. unat b < unat a) (rev (map fst (filter (\<lambda>(n, x). P x) (numbered xs))))
    \<and> (\<forall>n\<in>set (rev (map fst (filter (\<lambda>(n, x). P x) (numbered xs)))). 0 < unat n \<and> unat n \<le> length xs)"
  using assms
proof (induction xs rule: rev_induct)
  case Nil
  then show ?case by (simp add: numbered_def client_view_def)
next
  case (snoc x xs)
  let ?ns = "rev (map fst (filter (\<lambda>(n, x). P x) (numbered xs)))"
  have IH: "client_view xs ?ns = filter (\<lambda>x. \<not> P x) xs" "sorted_wrt (\<lambda>a b. unat b < unat a) ?ns"
    "\<forall>n\<in>set ?ns. 0 < unat n \<and> unat n \<le> length xs" using snoc by auto
  have len: "unat (word_of_nat (length xs) + 1 :: 32 word) = Suc (length xs)"
  proof -
    have "(word_of_nat (length xs) + 1 :: 32 word) = word_of_nat (Suc (length xs))" by simp
    then show ?thesis using snoc.prems by (simp only: unsigned_of_nat) (simp add: take_bit_eq_mod)
  qed
  show ?case
  proof (cases "P x")
    case False
    then have "rev (map fst (filter (\<lambda>(n, x). P x) (numbered (xs @ [x])))) = ?ns" by (simp add: numbered_snoc)
    then show ?thesis using IH client_view_snoc [OF IH(2,3)] False by fastforce
  next
    case True
    have ns: "rev (map fst (filter (\<lambda>(n, x). P x) (numbered (xs @ [x])))) = (word_of_nat (length xs) + 1) # ?ns"
      using True by (simp add: numbered_snoc)
    have "client_view (xs @ [x]) ((word_of_nat (length xs) + 1) # ?ns) = client_view xs ?ns"
      by (simp add: client_view_def len)
    then show ?thesis using IH True ns len by (fastforce simp: less_Suc_eq_le)
  qed
qed

lemma numbered_map: "numbered (map f xs) = map (\<lambda>(n, x). (n, f x)) (numbered xs)"
  by (simp add: numbered_def zip_map2)

section \<open>EXPUNGE\<close>

definition uids_fit :: "mail_db \<Rightarrow> bool" where
  "uids_fit db \<longleftrightarrow> (\<forall>f \<in> set (folders db). uid_next f \<le> 2 ^ 32)"

lemma uid_fits:
  assumes "store_inv db" "uids_fit db" "m \<in> set (messages db)" "live_in k m"
  shows "uint (word_of_int (m_uid m) :: uid32) = m_uid m"
proof -
  have live: "\<not> m_expunged m" "m_folder m = k" using assms(4) by (simp_all add: live_in_def)
  obtain f where f: "f \<in> set (folders db)" "fid f = k"
    using live_owner [OF assms(1,3) live(1)] live(2) by auto
  then have "0 < m_uid m" "m_uid m < uid_next f" using assms(1,3) live uids_okD(2) [of db f m] by (auto simp: store_inv_def)
  moreover have "uid_next f \<le> 2 ^ 32" using assms(2) f by (simp add: uids_fit_def)
  ultimately show ?thesis by (simp add: unsigned_of_int take_bit_eq_mod)
qed

lemma uid_positive:
  assumes "store_inv db" "m \<in> set (messages db)" "\<not> m_expunged m"
  shows "0 < m_uid m"
proof -
  obtain f where "f \<in> set (folders db)" "fid f = m_folder m" using live_owner [OF assms] .
  then show ?thesis using assms(1,2) uids_okD(2) [of db f m] by (auto simp: store_inv_def)
qed

lemma same_uid:
  assumes "store_inv db" "m \<in> set (messages db)" "x \<in> set (messages db)" "live_in k m" "live_in k x" "m_uid m = m_uid x"
  shows "m = x"
  using assms uids_ok_unique [of db m x] distinct_key_eq [of mid "messages db" m x]
  by (auto simp: store_inv_def keys_ok_def live_in_def)

text \<open>Expunging, in a folder, the messages of its listing that satisfy a predicate.\<close>

lemma expunge_chosen:
  assumes "store_inv db" "uids_fit db" "length (filter (live_in k) (messages db)) < 2 ^ 31"
    and chosen: "chosen = filter (\<lambda>(n, m). P m) (numbered (map messageRecord (Messages db k every_message)))"
    and expunge: "Expunge ok k (map (\<lambda>(_, m). mr_uid m) chosen) db = (Inr j, db')"
  shows "client_view (Messages db k every_message) (rev (map fst chosen)) = Messages db' k every_message
    \<and> Messages db' k every_message = filter (\<lambda>m. \<not> P (messageRecord m)) (Messages db k every_message)"
proof -
  let ?L = "listed db k" and ?Q = "\<lambda>m. P (messageRecord m)"
  let ?uids = "map (\<lambda>(_, m). mr_uid m) chosen"
  note L = Messages_listed [OF assms(3)]
  have in_L: "m \<in> set ?L \<longleftrightarrow> m \<in> set (messages db) \<and> live_in k m" for m by (auto simp: listed_def)
  have chosen': "chosen = map (\<lambda>(n, m). (n, messageRecord m)) (filter (\<lambda>(n, m). ?Q m) (numbered ?L))"
    unfolding chosen L numbered_map by (simp add: filter_map comp_def case_prod_unfold)
  have "snd ` set (filter (\<lambda>(n, m). ?Q m) (numbered ?L)) = {m \<in> set ?L. ?Q m}"
  proof -
    have "map snd (numbered ?L) = ?L" by (simp add: numbered_def)
    then have "snd ` set (numbered ?L) = set ?L" by (metis set_map)
    then show ?thesis by force
  qed
  then have U: "set ?uids = (\<lambda>m. word_of_int (m_uid m)) ` {m \<in> set ?L. ?Q m}"
    unfolding chosen' by (auto simp: messageRecord_def case_prod_unfold image_image) (force simp: messageRecord_def)+
  have removed: "m_uid m \<in> uint ` set ?uids \<longleftrightarrow> ?Q m" if "m \<in> set ?L" for m
  proof
    assume "m_uid m \<in> uint ` set ?uids"
    then obtain x where x: "x \<in> set ?L" "?Q x" "m_uid m = uint (word_of_int (m_uid x) :: uid32)" unfolding U by auto
    then have "m = x" using uid_fits [OF assms(1,2)] same_uid [OF assms(1)] that in_L by metis
    with x show "?Q m" by simp
  next
    assume "?Q m"
    then have "word_of_int (m_uid m) \<in> set ?uids" using that U by blast
    then show "m_uid m \<in> uint ` set ?uids" using uid_fits [OF assms(1,2)] that in_L by (metis imageI)
  qed
  have rest: "listed db' k = filter (\<lambda>m. m_uid m \<notin> uint ` set ?uids) ?L"
  proof (cases "?uids = []")
    case True
    then show ?thesis using expunge by (simp add: Expunge_def)
  next
    case False
    then have "Expunge True k ?uids db = (Inr j, db')" using expunge by (cases ok) (simp_all add: Expunge_def)
    then show ?thesis by (rule listed_expunged [OF assms(1)])
  qed
  have db': "listed db' k = filter (\<lambda>m. \<not> ?Q m) ?L"
    unfolding rest by (rule filter_cong [OF refl]) (simp only: removed not_False_eq_True)
  have "length (filter (live_in k) (messages db')) = length (listed db' k)" by (simp add: listed_def)
  also have "\<dots> \<le> length ?L" unfolding db' by (rule length_filter_le)
  also have "\<dots> = length (filter (live_in k) (messages db))" by (simp add: listed_def)
  finally have L': "Messages db' k every_message = listed db' k" using assms(3) by (intro Messages_listed) simp
  have "map fst chosen = map fst (filter (\<lambda>(n, m). ?Q m) (numbered ?L))" unfolding chosen' by (simp add: case_prod_unfold)
  moreover have "length ?L < 2 ^ 32" using assms(3) by (simp add: listed_def)
  ultimately have "client_view ?L (rev (map fst chosen)) = filter (\<lambda>m. \<not> ?Q m) ?L" using numbered_replay [of ?L ?Q] by simp
  then show ?thesis unfolding L L' db' by simp
qed

lemma expungeUIDs_ok:
  assumes "expungeUIDs env i uids del (s, w) = (Inr seqNums, s', w')" "is_selected s = Some f"
  obtains chosen ok j where "chosen = to_expunge uids del (map messageRecord (Messages (iw_db w) (imf_id f) every_message))"
    "Expunge ok (imf_id f) (map (\<lambda>(_, m). mr_uid m) chosen) (iw_db w) = (Inr j, iw_db w')" "seqNums = rev (map fst chosen)" "s' = s"
proof -
  define chosen where "chosen = to_expunge uids del (map messageRecord (Messages (iw_db w) (imf_id f) every_message))"
  let ?e = "Expunge (ie_expunge_ok env) (imf_id f) (map (\<lambda>(_, m). mr_uid m) chosen) (iw_db w)"
  have res: "(if chosen = [] then (Inr [], s, w)
      else case ?e of (Inl _, db) \<Rightarrow> (Inl (toIMAPError OtherError), s, w\<lparr>iw_db := db\<rparr>)
           | (Inr _, db) \<Rightarrow> (Inr (rev (map fst chosen)), s, w\<lparr>iw_db := db\<rparr>)) = (Inr seqNums, s', w')"
    using assms unfolding expungeUIDs_def FetchMessages_def chosen_def Let_def by (cases "ie_read_ok env i") simp_all
  show ?thesis
  proof (cases "chosen = []")
    case True
    then have "Expunge True (imf_id f) (map (\<lambda>(_, m). mr_uid m) chosen) (iw_db w) = (Inr 0, iw_db w')" "seqNums = rev (map fst chosen)" "s' = s"
      using res by (simp_all add: Expunge_def)
    then show ?thesis using that [OF chosen_def] by blast
  next
    case False
    obtain r db where e: "?e = (r, db)" by force
    with False res obtain j where "r = Inr j" "db = iw_db w'" "seqNums = rev (map fst chosen)" "s' = s" by (cases r) auto
    with that [OF chosen_def] e show ?thesis by blast
  qed
qed

text \<open>
  C13. EXPUNGE is reported truthfully: a client that holds the listing of the selected folder and removes, response by response,
  the message of each reported number ends up with the listing the server has afterwards; and the messages that are gone are
  exactly those with the Deleted flag, among the UIDs of the command if it named any.
\<close>

theorem imap_expunge_reported:
  assumes "store_inv (iw_db w)" "uids_fit (iw_db w)" "is_selected s = Some f"
    and "length (filter (live_in (imf_id f)) (messages (iw_db w))) < 2 ^ 31"
    and "imap_Expunge env uids (s, w) = (Inr seqNums, s', w')"
  shows "client_view (Messages (iw_db w) (imf_id f) every_message) seqNums = Messages (iw_db w') (imf_id f) every_message
    \<and> Messages (iw_db w') (imf_id f) every_message = filter (\<lambda>m. \<not> (DELETED \<in> m_flags m
         \<and> (case uids of None \<Rightarrow> True | Some contains \<Rightarrow> contains (word_of_int (m_uid m))))) (Messages (iw_db w) (imf_id f) every_message)"
proof -
  let ?P = "\<lambda>m. (case uids of None \<Rightarrow> True | Some contains \<Rightarrow> contains (mr_uid m)) \<and> (True \<longrightarrow> DELETED \<in> mr_flags m)"
  obtain s1 w1 where e: "expungeUIDs env 0 uids True (s, w) = (Inr seqNums, s1, w1)" "notify_expunged seqNums (s1, w1) = (s', w')"
    using assms(5) by (auto simp: imap_Expunge_def split: prod.splits sum.splits)
  have same: "iw_db w' = iw_db w1" using e(2) by (auto simp: notify_expunged_def split: option.splits)
  obtain chosen ok j where c: "chosen = filter (\<lambda>(n, m). ?P m) (numbered (map messageRecord (Messages (iw_db w) (imf_id f) every_message)))"
      and j: "Expunge ok (imf_id f) (map (\<lambda>(_, m). mr_uid m) chosen) (iw_db w) = (Inr j, iw_db w')" "seqNums = rev (map fst chosen)"
    by (rule expungeUIDs_ok [OF e(1) assms(3)]) (use same in \<open>simp add: to_expunge_def\<close>)
  have "(\<lambda>m. \<not> ?P (messageRecord m)) = (\<lambda>m. \<not> (DELETED \<in> m_flags m
      \<and> (case uids of None \<Rightarrow> True | Some contains \<Rightarrow> contains (word_of_int (m_uid m)))))"
    by (auto simp: messageRecord_def fun_eq_iff split: option.splits)
  then show ?thesis using expunge_chosen [OF assms(1,2,4) c j(1)] j(2) by (simp only: simp_thms)
qed

section \<open>MOVE\<close>

text \<open>A live message with the same content, in the same mailbox.\<close>

definition same_content :: "message_row \<Rightarrow> message_row \<Rightarrow> bool" where
  "same_content m m' \<longleftrightarrow> \<not> m_expunged m' \<and> m_mailbox m' = m_mailbox m \<and> m_blob m' = m_blob m \<and> m_size m' = m_size m
     \<and> m_flags m' = m_flags m \<and> m_meta m' = m_meta m"

text \<open>What a copy adds, and that the source of every pair it reports has a copy.\<close>

definition copies :: "mail_db \<Rightarrow> uuid \<Rightarrow> uuid \<Rightarrow> uuid \<Rightarrow> (uid32 \<times> uid32) list \<Rightarrow> message_row list \<Rightarrow> bool" where
  "copies db mb k d pairs new \<longleftrightarrow>
     (\<forall>n\<in>set new. \<not> m_expunged n \<and> m_folder n = d \<and> m_mailbox n = mb \<and> (\<forall>x\<in>set (messages db). m_folder x = d \<longrightarrow> m_uid x < m_uid n))
     \<and> (\<forall>(u, v)\<in>set pairs. \<forall>src. loadMessage db k u = Some src \<longrightarrow>
          (\<exists>n\<in>set new. m_blob n = m_blob src \<and> m_size n = m_size src \<and> m_flags n = m_flags src \<and> m_meta n = m_meta src))"

lemma copyOne_rows:
  assumes "store_inv db" "owned mb d db" "copyOne ok now k uid d db = (Inr v, db')"
  obtains n where "messages db' = messages db @ [n]" "copies db mb k d [(uid, v)] [n]"
proof -
  from copyOne_files [OF assms(1,3)] obtain src dest n where n: "loadMessage db k uid = Some src" "folder_by_id db d = Some dest"
    "filed_ok db dest n" "db' = filed db dest n"
    "m_blob n = m_blob src" "m_size n = m_size src" "m_flags n = m_flags src" "m_meta n = m_meta src" by blast
  have d: "dest \<in> set (folders db)" "fid dest = d" using folder_by_id_Some [OF n(2)] by auto
  have "m_uid x < m_uid n" if "x \<in> set (messages db)" "m_folder x = d" for x
    using uids_okD(2) [of db dest x] assms(1) d that n(3) by (simp add: store_inv_def filed_ok_def)
  moreover have "m_mailbox n = mb" using assms(2) d n(3) by (auto simp: owned_def filed_ok_def)
  ultimately have "copies db mb k d [(uid, v)] [n]" using n d by (auto simp: copies_def filed_ok_def)
  moreover have "messages db' = messages db @ [n]" using n(4) by (simp add: filed_def added_def)
  ultimately show ?thesis using that by blast
qed

lemma loadMessage_more: "messages db' = messages db @ new \<Longrightarrow> loadMessage db k u = Some src \<Longrightarrow> loadMessage db' k u = Some src"
  by (simp add: loadMessage_def find_append)

lemma copy_loop_rows:
  assumes "store_inv db" "owned mb d db" "copy_loop ok now k uids d acc db = (r, db')"
  shows "\<exists>new pairs. messages db' = messages db @ new \<and> copies db mb k d pairs new
    \<and> (\<forall>res. r = Inr res \<longrightarrow> res = acc @ pairs \<and> map fst pairs = uids)"
  using assms
proof (induction uids arbitrary: acc db)
  case Nil
  then have "r = Inr acc" "db' = db" by simp_all
  moreover have "copies db mb k d [] []" by (simp add: copies_def)
  ultimately show ?case by (intro exI [of _ "[]"]) simp
next
  case (Cons uid uids)
  obtain r1 db1 where c: "copyOne (ok uid) now k uid d db = (r1, db1)" by force
  show ?case
  proof (cases r1)
    case (Inl e)
    then have "r = Inl e" "db' = db" using Cons.prems(3) c copyOne_failed [of "ok uid" now k uid d db] by auto
    moreover have "copies db mb k d [] []" by (simp add: copies_def)
    ultimately show ?thesis by (intro exI [of _ "[]"]) simp
  next
    case (Inr v)
    obtain n where n: "messages db1 = messages db @ [n]" "copies db mb k d [(uid, v)] [n]"
      using copyOne_rows [OF Cons.prems(1,2) c [unfolded Inr]] .
    note own = copyOne_own [OF Cons.prems(1,2) c]
    have "store_inv db1" "owned mb d db1" using own_change_inv [OF own] own_change_owned [OF own] Cons.prems(2) by simp_all
    moreover have "copy_loop ok now k uids d (acc @ [(uid, v)]) db1 = (r, db')" using Cons.prems(3) c Inr by simp
    ultimately obtain new pairs where IH: "messages db' = messages db1 @ new" "copies db1 mb k d pairs new"
        "\<forall>res. r = Inr res \<longrightarrow> res = (acc @ [(uid, v)]) @ pairs \<and> map fst pairs = uids"
      using Cons.IH by blast
    have "copies db mb k d ((uid, v) # pairs) (n # new)"
      using n IH(2) loadMessage_more [OF n(1)] unfolding copies_def by fastforce
    then show ?thesis using n(1) IH(1,3) by (intro exI [of _ "n # new"] exI [of _ "(uid, v) # pairs"]) simp
  qed
qed

lemma imap_Copy_rows:
  assumes "session_ok (s, w)" "is_selected s = Some f" "is_mailbox s = Some mb" "imap_Copy env ns dest (s, w) = (r, s1, w1)"
  obtains new pairs d where "s1 = s" "messages (iw_db w1) = messages (iw_db w) @ new" "copies (iw_db w) mb (imf_id f) d pairs new"
    "\<forall>v ps. r = Inr (v, ps) \<longrightarrow> ps = pairs
       \<and> (\<forall>u\<in>set (map fst ps). \<exists>x\<in>set (messages (iw_db w)). live_in (imf_id f) x \<and> u = word_of_int (m_uid x))"
proof -
  have inv: "store_inv (iw_db w)" using assms(1) by (simp add: session_ok_def)
  have no_copy: "copies (iw_db w) mb (imf_id f) 0 [] []" by (simp add: copies_def)
  show ?thesis
  proof (cases "SelectFolder (ie_read_ok env 0) (iw_db w) (is_mailbox s) dest")
    case (Inl c)
    then have "s1 = s \<and> w1 = w \<and> (\<forall>x. r \<noteq> Inr x)" using assms(2,4) by (auto simp: imap_Copy_def)
    then show ?thesis using no_copy by (intro that [where new = "[]" and pairs = "[]" and d = 0]) auto
  next
    case (Inr d)
    then have own: "owned mb (imf_id d) (iw_db w)" using SelectFolder_owned [OF inv] assms(3) by simp
    let ?ms = "map messageRecord (Messages (iw_db w) (imf_id f) every_message)"
    show ?thesis
    proof (cases "ie_read_ok env 1")
      case False
      then have "s1 = s \<and> w1 = w \<and> (\<forall>x. r \<noteq> Inr x)" using assms(2,4) Inr by (auto simp: imap_Copy_def FetchMessages_def)
      then show ?thesis using no_copy by (intro that [where new = "[]" and pairs = "[]" and d = 0]) auto
    next
      case True
      define us where "us = map (\<lambda>(_, m). mr_uid m) (numSetIter ns ?ms)"
      obtain q db where c: "Copy (ie_copy_ok env) (ie_now env) (imf_id f) us (imf_id d) (iw_db w) = (q, db)" by force
      then obtain new pairs where rows: "messages db = messages (iw_db w) @ new" "copies (iw_db w) mb (imf_id f) (imf_id d) pairs new"
          "\<forall>res. q = Inr res \<longrightarrow> res = pairs \<and> map fst pairs = us"
        using copy_loop_rows [OF inv own] unfolding Copy_def by fastforce
      have "iw_db w1 = db" "s1 = s" "\<forall>v ps. r = Inr (v, ps) \<longrightarrow> q = Inr ps"
        using assms(2,4) Inr True c unfolding us_def by (auto simp: imap_Copy_def FetchMessages_def split: sum.splits)
      moreover have "\<exists>x\<in>set (messages (iw_db w)). live_in (imf_id f) x \<and> u = word_of_int (m_uid x)" if "u \<in> set us" for u
      proof -
        from that obtain n m where "(n, m) \<in> set (numbered ?ms)" "u = mr_uid m" by (auto simp: us_def numSetIter_def)
        then have "m \<in> set ?ms" by (auto simp: numbered_def dest: set_zip_rightD)
        with \<open>u = mr_uid m\<close> show ?thesis using Messages_in by (fastforce simp: messageRecord_def)
      qed
      ultimately show ?thesis using that [of new "imf_id d" pairs] rows by fastforce
    qed
  qed
qed

lemma expungeUIDs_rows:
  assumes "store_inv (iw_db w)" "is_selected s = Some f" "expungeUIDs env i (Some contains) del (s, w) = (r, s', w')"
  obtains us where "set us \<subseteq> Collect contains"
    "messages (iw_db w') = map (\<lambda>m. if live_in (imf_id f) m \<and> m_uid m \<in> uint ` set us then m\<lparr>m_expunged := True\<rparr> else m) (messages (iw_db w))"
proof -
  let ?us = "map (\<lambda>(_, m). mr_uid m) (to_expunge (Some contains) del (map messageRecord (Messages (iw_db w) (imf_id f) every_message)))"
  have sub: "set ?us \<subseteq> Collect contains" by (auto simp: to_expunge_def)
  obtain q db where e: "Expunge (ie_expunge_ok env) (imf_id f) ?us (iw_db w) = (q, db)" by force
  have "w' = w \<or> iw_db w' = db"
    using assms(2,3) e by (auto simp: expungeUIDs_def FetchMessages_def Let_def split: if_splits sum.splits)
  moreover have "db = iw_db w \<or> db = snd (expunge_loop (imf_id f) ?us 0 (iw_db w))"
    using e by (auto simp: Expunge_def split: if_splits prod.splits)
  ultimately consider "iw_db w' = iw_db w" | "iw_db w' = snd (expunge_loop (imf_id f) ?us 0 (iw_db w))" by auto
  then show ?thesis
  proof cases
    case 1
    then show ?thesis using that [of "[]"] by simp
  next
    case 2
    show ?thesis using 2 sub by (intro that [of ?us]) (simp_all only: expunge_loop_rows [OF assms(1)])
  qed
qed

text \<open>What an expunge of copied sources leaves: each source that goes has a copy that stays.\<close>

lemma loadMessage_live:
  assumes "store_inv db" "m \<in> set (messages db)" "live_in k m" "m_uid m = uint u"
  shows "loadMessage db k u = Some m"
proof -
  have "find (\<lambda>m. m_folder m = k \<and> m_uid m = uint u \<and> \<not> m_expunged m) (messages db) = Some m"
  proof (rule find_unique)
    fix y
    assume "y \<in> set (messages db)" "m_folder y = k \<and> m_uid y = uint u \<and> \<not> m_expunged y"
    then show "y = m" using same_uid [OF assms(1) _ assms(2), of y k] assms(3,4) by (simp add: live_in_def)
  qed (use assms in \<open>simp_all add: live_in_def\<close>)
  then show ?thesis by (simp add: loadMessage_def)
qed

lemma live_in_owned:
  assumes "store_inv db" "m \<in> set (messages db)" "live_in k m" "owned mb k db"
  shows "m_mailbox m = mb"
proof -
  obtain g where "g \<in> set (folders db)" "fid g = m_folder m" "f_mailbox g = m_mailbox m"
    using live_owner [OF assms(1,2)] assms(3) by (auto simp: live_in_def)
  then show ?thesis using assms(3,4) by (auto simp: owned_def live_in_def)
qed

lemma copied_sources_stay:
  assumes "store_inv db" "uids_fit db" "owned mb k db" "copies db mb k d pairs new"
    and source: "\<forall>u\<in>set (map fst pairs). \<exists>x\<in>set (messages db). live_in k x \<and> u = word_of_int (m_uid x)"
    and us: "set us \<subseteq> set (map fst pairs)"
    and rows: "messages db2 = map (\<lambda>m. if live_in k m \<and> m_uid m \<in> uint ` set us then m\<lparr>m_expunged := True\<rparr> else m) (messages db @ new)"
    and m: "m \<in> set (messages db)" "\<not> m_expunged m"
  shows "\<exists>m' \<in> set (messages db2). same_content m m'"
proof -
  have kept: "x \<in> set (messages db2)" if "x \<in> set (messages db @ new)" "\<not> (live_in k x \<and> m_uid x \<in> uint ` set us)" for x
    unfolding rows set_map using that by (auto intro: rev_image_eqI)
  show ?thesis
  proof (cases "live_in k m \<and> m_uid m \<in> uint ` set us")
    case False
    then show ?thesis using kept [of m] m by (auto simp: same_content_def)
  next
    case True
    then obtain u v where u: "u \<in> set us" "m_uid m = uint u" "(u, v) \<in> set pairs" using us by auto
    then obtain n where n: "n \<in> set new" "m_blob n = m_blob m" "m_size n = m_size m" "m_flags n = m_flags m" "m_meta n = m_meta m"
      using copies_def [THEN iffD1, OF assms(4)] loadMessage_live [OF assms(1) m(1) conjunct1 [OF True] u(2)] by fast
    have new: "\<not> m_expunged n" "m_folder n = d" "m_mailbox n = mb" "\<forall>x\<in>set (messages db). m_folder x = d \<longrightarrow> m_uid x < m_uid n"
      using assms(4) n(1) unfolding copies_def by blast+
    have "\<exists>x\<in>set (messages db). live_in k x \<and> m_uid x = uint u" if "u \<in> set us" for u
    proof -
      from that us source obtain x where x: "x \<in> set (messages db)" "live_in k x" "u = word_of_int (m_uid x)" by blast
      then show ?thesis using uid_fits [OF assms(1,2) x(1,2)] by auto
    qed
    then have "\<not> (live_in k n \<and> m_uid n \<in> uint ` set us)" using new(2,4) by (fastforce simp: live_in_def)
    then have "n \<in> set (messages db2)" using kept [of n] n(1) by simp
    moreover have "m_mailbox m = mb" using live_in_owned [OF assms(1) m(1) _ assms(3)] True by blast
    ultimately show ?thesis using n(2-5) new(1,3) by (auto simp: same_content_def)
  qed
qed

text \<open>
  C12. MOVE loses nothing. Whatever set of messages and destination a MOVE of a session names, and whichever of its reads, copies or
  expunges fails, every message that was live before is live afterwards with the same body, size, flags and envelope in the same
  mailbox: itself, or a copy. In particular a source is removed only when a copy of it exists.
\<close>

theorem imap_move_loses_nothing:
  assumes "session_ok (s, w)" "uids_fit (iw_db w)"
    and "imap_Move env ns dest (s, w) = (r, s', w')"
    and "m \<in> set (messages (iw_db w))" "\<not> m_expunged m"
  shows "\<exists>m' \<in> set (messages (iw_db w')). same_content m m'"
proof -
  have inv: "store_inv (iw_db w)" using assms(1) by (simp add: session_ok_def)
  have refl: "same_content m m" using assms(5) by (simp add: same_content_def)
  obtain q s1 w1 where c: "imap_Copy env ns dest (s, w) = (q, s1, w1)" by (metis prod.exhaust)
  show ?thesis
  proof (cases "is_selected s")
    case None
    then show ?thesis using assms(3-) refl by (auto simp: imap_Move_def imap_Copy_def)
  next
    case (Some f)
    obtain mb where mb: "is_mailbox s = Some mb" "owned mb (imf_id f) (iw_db w)" using assms(1) Some by (auto simp: session_ok_def)
    obtain new pairs d where cp: "s1 = s" "messages (iw_db w1) = messages (iw_db w) @ new" "copies (iw_db w) mb (imf_id f) d pairs new"
      "\<forall>v ps. q = Inr (v, ps) \<longrightarrow> ps = pairs
         \<and> (\<forall>u\<in>set (map fst ps). \<exists>x\<in>set (messages (iw_db w)). live_in (imf_id f) x \<and> u = word_of_int (m_uid x))"
      using imap_Copy_rows [OF assms(1) Some mb(1) c] .
    show ?thesis
    proof (cases q)
      case (Inl e)
      then show ?thesis using assms(3,4) c cp(2) refl by (auto simp: imap_Move_def)
    next
      case (Inr vp)
      then obtain v where q: "q = Inr (v, pairs)" using cp(4) by (metis surj_pair)
      obtain t s2 w2 where e: "expungeUIDs env 2 (Some (\<lambda>u. u \<in> set (map fst pairs))) False (s, w1) = (t, s2, w2)" by (metis prod.exhaust)
      have w': "iw_db w' = iw_db w2"
        using assms(3) c q e cp(1) by (auto simp: imap_Move_def notify_expunged_def split: sum.splits option.splits)
      have inv1: "store_inv (iw_db w1)"
        using imap_Copy_confined [OF assms(1), of mb env ns dest] mb(1) c by (auto simp: confined_def dest: own_change_inv)
      obtain us where "set us \<subseteq> Collect (\<lambda>u. u \<in> set (map fst pairs))" and rows: "messages (iw_db w2) =
          map (\<lambda>m. if live_in (imf_id f) m \<and> m_uid m \<in> uint ` set us then m\<lparr>m_expunged := True\<rparr> else m) (messages (iw_db w) @ new)"
        using expungeUIDs_rows [OF inv1 Some e] unfolding cp(2) .
      then have us: "set us \<subseteq> set (map fst pairs)" by (metis Collect_mem_eq)
      have "\<forall>u\<in>set (map fst pairs). \<exists>x\<in>set (messages (iw_db w)). live_in (imf_id f) x \<and> u = word_of_int (m_uid x)"
        using cp(4) q by blast
      from copied_sources_stay [OF inv assms(2) mb(2) cp(3) this us rows assms(4,5)] show ?thesis unfolding w' .
    qed
  qed
qed

lemma demo_deleted_ok: "store_inv (iw_db demo_deleted)" "uids_fit (iw_db demo_deleted)"
  "length (filter (live_in 1) (messages (iw_db demo_deleted))) < 2 ^ 31"
proof -
  show "store_inv (iw_db demo_deleted)" using mail_store.step_inv [OF demo_inv] by (simp only: demo_deleted_def imap_world.simps)
  show "uids_fit (iw_db demo_deleted)" by code_simp
  have "length (filter (live_in 1) (messages (iw_db demo_deleted))) = 2" by code_simp
  then show "length (filter (live_in 1) (messages (iw_db demo_deleted))) < 2 ^ 31" by simp
qed

lemma imap_expunge_reported_witness:
  "fst (imap_Expunge demo_imap_env None (demo_selected, demo_deleted)) = Inr [2]
   \<and> client_view (Messages (iw_db demo_deleted) 1 every_message) [2]
     = Messages (iw_db (snd (snd (imap_Expunge demo_imap_env None (demo_selected, demo_deleted))))) 1 every_message"
proof -
  obtain r s' w' where e: "imap_Expunge demo_imap_env None (demo_selected, demo_deleted) = (r, s', w')" by (metis prod.exhaust)
  moreover have "fst (imap_Expunge demo_imap_env None (demo_selected, demo_deleted)) = Inr [2]" by code_simp
  ultimately have "imap_Expunge demo_imap_env None (demo_selected, demo_deleted) = (Inr [2], s', w')" by simp
  from imap_expunge_reported [OF demo_deleted_ok(1,2) _ _ this, of "the (is_selected demo_selected)"] demo_deleted_ok(3) this
  show ?thesis by (simp add: demo_selected_def)
qed

lemma imap_move_loses_nothing_witness:
  "fst (imap_Move demo_imap_env (UIDSet (\<lambda>u. u = 2)) ''Trash'' (demo_selected, demo_deleted)) = Inr ((9, [(2, 1)]), [2])
   \<and> (\<exists>m' \<in> set (messages (iw_db (snd (snd (imap_Move demo_imap_env (UIDSet (\<lambda>u. u = 2)) ''Trash'' (demo_selected, demo_deleted)))))).
        same_content (messages (iw_db demo_deleted) ! 1) m')"
proof -
  obtain r s' w' where e: "imap_Move demo_imap_env (UIDSet (\<lambda>u. u = 2)) ''Trash'' (demo_selected, demo_deleted) = (r, s', w')"
    by (metis prod.exhaust)
  have "session_ok (demo_session demo_imap_lib)"
    unfolding demo_session_def by (rule imap_store.run_inv) (use demo_inv in \<open>simp add: session_ok_def NewSession_def demo_world_def\<close>)
  then have ok: "session_ok (demo_selected, demo_deleted)" by (simp only: demo_session)
  have "messages (iw_db demo_deleted) ! 1 \<in> set (messages (iw_db demo_deleted))" by (rule nth_mem) code_simp
  moreover have "\<not> m_expunged (messages (iw_db demo_deleted) ! 1)" by code_simp
  ultimately have "\<exists>m' \<in> set (messages (iw_db w')). same_content (messages (iw_db demo_deleted) ! 1) m'"
    by (rule imap_move_loses_nothing [OF ok demo_deleted_ok(2) e])
  moreover have "fst (imap_Move demo_imap_env (UIDSet (\<lambda>u. u = 2)) ''Trash'' (demo_selected, demo_deleted)) = Inr ((9, [(2, 1)]), [2])"
    by code_simp
  ultimately show ?thesis using e by simp
qed

section \<open>Sequence numbers\<close>

text \<open>
  A session that selected a folder with messages 1 and 2 and has been told nothing since asks to flag message 1. Another session has
  expunged that one: its number now names the message with UID 2, which is flagged.
\<close>

definition demo_expunged :: imap_world where
  "demo_expunged = demo_world\<lparr>iw_db := exec demo_db (True, ImapExpunge 1 [1])\<rparr>"

lemma imap_stale_number:
  "map mr_uid (map messageRecord (Messages demo_db 1 every_message)) = [1, 2]"
  "map_option m_flags (loadMessage (iw_db (snd (snd (imap_Store lib demo_imap_env (SeqSet (\<lambda>n. n = 1)) FlagOpAdd [DELETED] True 0
     (demo_selected, demo_expunged))))) 1 2) = Some {DELETED}"
  by code_simp+

end
