(* ===== verification/Imap_Search_Properties.thy ===== *)
theory Imap_Search_Properties
  imports Imap_Search Imap_Properties
begin

text \<open>
  SEARCH against the meaning of the search keys of RFC 3501: a criterion is the list of its keys, each of them with a meaning of its
  own, and the message is found when all of them hold. The answer to the command is exactly the messages found.
\<close>

section \<open>The meaning of a key\<close>

datatype search_key =
    KeySeq "32 word \<Rightarrow> bool" | KeyUID "uid32 \<Rightarrow> bool" | KeySince int | KeyBefore int | KeyModSeq "64 word"
  | KeyFlag string | KeyUnflag string | KeyLarger int | KeySmaller int
  | KeyHeader string string | KeySentSince int | KeySentBefore int | KeyText string | KeyBody string
  | KeyNot "search_key list" | KeyOr "search_key list" "search_key list"

definition midnight :: "int \<Rightarrow> int \<Rightarrow> int" where
  "midnight t offset = ((t + offset) div 86400) * 86400"

text \<open>The raw message and its header, when both can be read.\<close>

definition readable :: "'h search_lib \<Rightarrow> string option \<Rightarrow> (string \<times> 'h) option" where
  "readable lib loaded = Option.bind loaded (\<lambda>raw. map_option (Pair raw) (sl_header lib raw))"

definition sent_day :: "'h search_lib \<Rightarrow> string option \<Rightarrow> int option" where
  "sent_day lib loaded = Option.bind (readable lib loaded) (\<lambda>(raw, h). map_option (\<lambda>(t, offset). midnight t offset) (sl_date lib h))"

fun key_holds :: "'h search_lib \<Rightarrow> string option \<Rightarrow> 32 word \<Rightarrow> msg_record \<Rightarrow> search_key \<Rightarrow> bool" where
  "key_holds lib loaded n m (KeySeq contains) = (n \<noteq> 0 \<and> contains n)"
| "key_holds lib loaded n m (KeyUID contains) = contains (mr_uid m)"
| "key_holds lib loaded n m (KeySince d) = (d \<le> midnight (mr_received m) (sl_zone lib (mr_received m)))"
| "key_holds lib loaded n m (KeyBefore d) = (midnight (mr_received m) (sl_zone lib (mr_received m)) < d)"
| "key_holds lib loaded n m (KeyModSeq q) = (q \<le> mr_modseq m)"
| "key_holds lib loaded n m (KeyFlag f) = (\<exists>g\<in>mr_flags m. EqualFold g f)"
| "key_holds lib loaded n m (KeyUnflag f) = (\<not> (\<exists>g\<in>mr_flags m. EqualFold g f))"
| "key_holds lib loaded n m (KeyLarger k) = (k < mr_size m)"
| "key_holds lib loaded n m (KeySmaller k) = (mr_size m < k)"
| "key_holds lib loaded n m (KeyHeader key v) = (case readable lib loaded of None \<Rightarrow> False | Some (raw, h) \<Rightarrow> matchHeaderField lib h key v)"
| "key_holds lib loaded n m (KeySentSince d) = (case sent_day lib loaded of None \<Rightarrow> False | Some day \<Rightarrow> d \<le> day)"
| "key_holds lib loaded n m (KeySentBefore d) = (case sent_day lib loaded of None \<Rightarrow> False | Some day \<Rightarrow> day < d)"
| "key_holds lib loaded n m (KeyText s) = (case readable lib loaded of None \<Rightarrow> False | Some (raw, h) \<Rightarrow> matchEntity lib raw s True)"
| "key_holds lib loaded n m (KeyBody s) = (case readable lib loaded of None \<Rightarrow> False | Some (raw, h) \<Rightarrow> matchEntity lib raw s False)"
| "key_holds lib loaded n m (KeyNot ks) = (\<not> (\<forall>k\<in>set ks. key_holds lib loaded n m k))"
| "key_holds lib loaded n m (KeyOr ks ls) =
     ((\<forall>k\<in>set ks. key_holds lib loaded n m k) \<or> (\<forall>k\<in>set ls. key_holds lib loaded n m k))"

definition opt_key :: "('a \<Rightarrow> search_key) \<Rightarrow> 'a option \<Rightarrow> search_key list" where
  "opt_key k v = (case v of None \<Rightarrow> [] | Some x \<Rightarrow> [k x])"

definition row_keys :: "search_fields \<Rightarrow> search_key list" where
  "row_keys f = map KeySeq (sf_SeqNum f) @ map KeyUID (sf_UID f) @ opt_key KeySince (sf_Since f) @ opt_key KeyBefore (sf_Before f)
     @ (case sf_ModSeq f of None \<Rightarrow> [] | Some q \<Rightarrow> if q > 0 then [KeyModSeq q] else [])
     @ map KeyFlag (sf_Flag f) @ map KeyUnflag (sf_NotFlag f)
     @ (if sf_Larger f \<noteq> 0 then [KeyLarger (sf_Larger f)] else []) @ (if sf_Smaller f \<noteq> 0 then [KeySmaller (sf_Smaller f)] else [])"

definition raw_keys :: "search_fields \<Rightarrow> search_key list" where
  "raw_keys f = map (\<lambda>(key, v). KeyHeader key v) (sf_Header f) @ opt_key KeySentSince (sf_SentSince f) @ opt_key KeySentBefore (sf_SentBefore f)
     @ map KeyText (sf_Text f) @ map KeyBody (sf_Body f)"

fun keys_of :: "search_criteria \<Rightarrow> search_key list" where
  "keys_of (SearchCriteria f nots ors) =
     row_keys f @ raw_keys f @ map (\<lambda>c. KeyNot (keys_of c)) nots @ map (\<lambda>(a, b). KeyOr (keys_of a) (keys_of b)) ors"

lemma ball_opt_key: "(\<forall>k\<in>set (opt_key c v). P k) = (case v of None \<Rightarrow> True | Some x \<Rightarrow> P (c x))"
  by (simp add: opt_key_def split: option.split)

lemma match_row_keys: "match_row lib n m f \<longleftrightarrow> (\<forall>k\<in>set (row_keys f). key_holds lib loaded n m k)"
proof -
  have flag: "ToLower g \<in> ToLower ` mr_flags m \<longleftrightarrow> (\<exists>h\<in>mr_flags m. EqualFold h g)" for g
    by (metis EqualFold_def image_iff)
  show ?thesis
    unfolding match_row_def row_keys_def set_append ball_Un ball_opt_key matchDate_def Let_def canonicalFlag_def flag
    by (simp add: list_ex_iff midnight_def not_less not_le split: option.split) blast
qed

lemma match_raw_keys: "match_raw lib loaded f \<longleftrightarrow> (\<forall>k\<in>set (raw_keys f). key_holds lib loaded n m k)"
proof (cases "readable lib loaded")
  case None
  then have no_day: "sent_day lib loaded = None" by (simp add: sent_day_def)
  have "match_raw lib loaded f \<longleftrightarrow> \<not> needsRaw f"
    using None by (auto simp: match_raw_def readable_def bind_eq_None_conv split: option.splits)
  moreover have "(\<forall>k\<in>set (raw_keys f). key_holds lib loaded n m k) \<longleftrightarrow> \<not> needsRaw f"
    unfolding raw_keys_def set_append ball_Un ball_opt_key needsRaw_def
    by (cases "sf_Header f") (auto simp: None no_day split: option.split)
  ultimately show ?thesis by simp
next
  case (Some p)
  obtain raw h where p: "p = (raw, h)" by force
  have loaded: "loaded = Some raw" "sl_header lib raw = Some h" using Some p by (auto simp: readable_def bind_eq_Some_conv)
  have day: "sent_day lib loaded = map_option (\<lambda>(t, offset). midnight t offset) (sl_date lib h)"
    using Some p by (simp add: sent_day_def)
  have "match_raw lib loaded f \<longleftrightarrow> (\<forall>(key, v)\<in>set (sf_Header f). matchHeaderField lib h key v)
      \<and> (case sf_SentSince f of None \<Rightarrow> True | Some d \<Rightarrow> key_holds lib loaded n m (KeySentSince d))
      \<and> (case sf_SentBefore f of None \<Rightarrow> True | Some d \<Rightarrow> key_holds lib loaded n m (KeySentBefore d))
      \<and> (\<forall>s\<in>set (sf_Text f). matchEntity lib raw s True) \<and> (\<forall>s\<in>set (sf_Body f). matchEntity lib raw s False)"
  proof (cases "needsRaw f")
    case True
    then show ?thesis
      by (cases "sl_date lib h"; cases "sf_SentSince f"; cases "sf_SentBefore f")
        (auto simp: match_raw_def loaded day [unfolded loaded(1)] list_ex_iff matchDate_def midnight_def Let_def)
  next
    case False
    then show ?thesis by (simp add: match_raw_def needsRaw_def)
  qed
  then show ?thesis
    unfolding raw_keys_def set_append ball_Un ball_opt_key by (auto simp: Some p split: option.split)
qed

lemma matchCriteria_meaning:
  "matchCriteria lib loaded n m c \<longleftrightarrow> (\<forall>k\<in>set (keys_of c). key_holds lib loaded n m k)"
proof (induction c rule: keys_of.induct)
  case (1 f nots ors)
  have "list_ex (\<lambda>c. matchCriteria lib loaded n m c) nots \<longleftrightarrow> (\<exists>c\<in>set nots. \<forall>k\<in>set (keys_of c). key_holds lib loaded n m k)"
    using 1(1) by (simp add: list_ex_iff)
  moreover have "(\<forall>k\<in>(\<lambda>c. KeyNot (keys_of c)) ` set nots. key_holds lib loaded n m k)
      \<longleftrightarrow> \<not> (\<exists>c\<in>set nots. \<forall>k\<in>set (keys_of c). key_holds lib loaded n m k)" by simp
  moreover have "list_ex (\<lambda>(a, b). \<not> matchCriteria lib loaded n m a \<and> \<not> matchCriteria lib loaded n m b) ors
      \<longleftrightarrow> (\<exists>(a, b)\<in>set ors. \<not> (\<forall>k\<in>set (keys_of a). key_holds lib loaded n m k) \<and> \<not> (\<forall>k\<in>set (keys_of b). key_holds lib loaded n m k))"
  proof -
    have "(\<not> matchCriteria lib loaded n m a \<and> \<not> matchCriteria lib loaded n m b) =
        (\<not> (\<forall>k\<in>set (keys_of a). key_holds lib loaded n m k) \<and> \<not> (\<forall>k\<in>set (keys_of b). key_holds lib loaded n m k))"
      if "(a, b) \<in> set ors" for a b
      using 1(2) [OF that refl] 1(3) [OF that refl] by simp
    then show ?thesis unfolding list_ex_iff by (intro bex_cong refl) auto
  qed
  moreover have "(\<forall>k\<in>(\<lambda>(a, b). KeyOr (keys_of a) (keys_of b)) ` set ors. key_holds lib loaded n m k)
      \<longleftrightarrow> \<not> (\<exists>(a, b)\<in>set ors. \<not> (\<forall>k\<in>set (keys_of a). key_holds lib loaded n m k) \<and> \<not> (\<forall>k\<in>set (keys_of b). key_holds lib loaded n m k))"
    by (auto simp: case_prod_unfold)
  ultimately show ?case
    unfolding keys_of.simps matchCriteria.simps set_append ball_Un set_map
      match_row_keys [where loaded = loaded] match_raw_keys [where n = n and m = m] by argo
qed

text \<open>
  The search test means what its keys mean. The matcher, which answers at the first key that fails and loads the message only when a
  key needs it, accepts a message exactly when each key of the criteria holds on its own: the sequence and UID sets, the dates by calendar
  day, the flags whatever their case, the sizes, the header fields, sent date and texts of the message (which do not hold when it cannot be
  read), and, nested to any depth, that the keys of a \<^verbatim>\<open>NOT\<close> do not all hold and those of one side of an \<^verbatim>\<open>OR\<close> do.
\<close>

lemma matchCriteria_keys: "matchCriteria lib loaded n m c = list_all (key_holds lib loaded n m) (keys_of c)"
  by (simp add: matchCriteria_meaning list_all_iff)

section \<open>The answer\<close>

definition search_found :: "'h search_lib \<Rightarrow> imap_env \<Rightarrow> search_criteria \<Rightarrow> msg_record list \<Rightarrow> (32 word \<times> msg_record) list" where
  "search_found lib env c ms =
     filter (\<lambda>(n, m). \<forall>k\<in>set (keys_of c). key_holds lib (ie_blob env (mr_blob m)) n m k) (numbered ms)"

definition search_num :: "bool \<Rightarrow> 32 word \<times> msg_record \<Rightarrow> 32 word" where
  "search_num by_uid = (\<lambda>(n, m). if by_uid then mr_uid m else n)"

lemma search_add:
  "search_add by_uid d x = \<lparr>sd_All = sd_All d @ [search_num by_uid x],
     sd_Min = (if sd_Min d = 0 \<or> search_num by_uid x < sd_Min d then search_num by_uid x else sd_Min d),
     sd_Max = (if search_num by_uid x > sd_Max d then search_num by_uid x else sd_Max d), sd_Count = sd_Count d + 1\<rparr>"
  by (simp add: search_add_def search_num_def Let_def split: prod.split)

lemma search_fold:
  assumes "\<forall>x\<in>set xs. search_num by_uid x \<noteq> 0" "length xs < 2 ^ 32"
    and "d = foldl (search_add by_uid) \<lparr>sd_All = [], sd_Min = 0, sd_Max = 0, sd_Count = 0\<rparr> xs"
  shows "sd_All d = map (search_num by_uid) xs \<and> unat (sd_Count d) = length xs
    \<and> (if xs = [] then sd_Min d = 0 \<and> sd_Max d = 0
       else sd_Min d = Min (search_num by_uid ` set xs) \<and> sd_Max d = Max (search_num by_uid ` set xs))"
  using assms
proof (induction xs arbitrary: d rule: rev_induct)
  case (snoc x xs)
  define d0 where "d0 = foldl (search_add by_uid) \<lparr>sd_All = [], sd_Min = 0, sd_Max = 0, sd_Count = 0\<rparr> xs"
  define k where "k = search_num by_uid x"
  have d: "d = search_add by_uid d0 x" using snoc.prems(3) by (simp add: d0_def)
  have new: "sd_All d = sd_All d0 @ [k]" "sd_Min d = (if sd_Min d0 = 0 \<or> k < sd_Min d0 then k else sd_Min d0)"
      "sd_Max d = (if k > sd_Max d0 then k else sd_Max d0)" "sd_Count d = sd_Count d0 + 1"
    unfolding d by (simp_all add: k_def search_add)
  note IH = snoc.IH [OF _ _ d0_def]
  have k: "k \<noteq> 0" and xs: "\<forall>x\<in>set xs. search_num by_uid x \<noteq> 0" using snoc.prems(1) by (simp_all add: k_def)
  have rows: "sd_All d = map (search_num by_uid) (xs @ [x])" "unat (sd_Count d) = length (xs @ [x])"
    using IH [OF xs] snoc.prems(2) by (simp_all add: new k_def unat_word_ariths)
  show ?case
  proof (cases "xs = []")
    case True
    then have "sd_Min d0 = 0" "sd_Max d0 = 0" by (simp_all add: d0_def)
    then show ?thesis using rows k True by (simp add: new k_def word_neq_0_conv)
  next
    case False
    let ?S = "search_num by_uid ` set xs"
    have S: "finite ?S" "?S \<noteq> {}" using False by auto
    have d0: "sd_Min d0 = Min ?S" "sd_Max d0 = Max ?S" using IH [OF xs] snoc.prems(2) False by simp_all
    have "Min ?S \<in> ?S" using S by (rule Min_in)
    then have "sd_Min d0 \<noteq> 0" using xs d0 by auto
    moreover have all: "search_num by_uid ` set (xs @ [x]) = insert k ?S" by (simp add: k_def)
    moreover have "Min (insert k ?S) = min k (Min ?S)" "Max (insert k ?S) = max k (Max ?S)" using S by simp_all
    ultimately have "sd_Min d = Min (search_num by_uid ` set (xs @ [x]))" "sd_Max d = Max (search_num by_uid ` set (xs @ [x]))"
      unfolding new d0 all min_def max_def by auto
    then show ?thesis using rows by simp
  qed
qed simp

lemma foldl_filter: "foldl (\<lambda>d x. if P x then f d x else d) d xs = foldl f d (filter P xs)"
  by (induction xs arbitrary: d) auto

text \<open>
  C38. SEARCH answers exactly the messages that are found. On a sound store whose UIDs fit their width, the set of numbers (or UIDs) it
  returns lists the messages of the folder for which all keys hold, in order; the count is their number, the minimum and maximum
  are the least and greatest of them, and both are zero when there is none.
\<close>

theorem imap_search_exact:
  assumes "store_inv (iw_db w)" "uids_fit (iw_db w)" "is_selected s = Some f" "imap_Search lib env by_uid c (s, w) = Inr d"
    and "length (filter (live_in (imf_id f)) (messages (iw_db w))) < 2 ^ 31"
    and "nums = map (search_num by_uid) (search_found lib env c (map messageRecord (Messages (iw_db w) (imf_id f) every_message)))"
  shows "sd_All d = nums \<and> unat (sd_Count d) = length nums
    \<and> (if nums = [] then sd_Min d = 0 \<and> sd_Max d = 0 else sd_Min d = Min (set nums) \<and> sd_Max d = Max (set nums))"
proof -
  let ?ms = "map messageRecord (Messages (iw_db w) (imf_id f) every_message)"
  let ?found = "search_found lib env c ?ms"
  have step: "(\<lambda>d (n, m). if \<not> matchCriteria lib (ie_blob env (mr_blob m)) n m c then d else search_add by_uid d (n, m))
      = (\<lambda>d x. if (case x of (n, m) \<Rightarrow> \<forall>k\<in>set (keys_of c). key_holds lib (ie_blob env (mr_blob m)) n m k) then search_add by_uid d x else d)"
    by (auto simp: fun_eq_iff matchCriteria_meaning)
  have d: "d = foldl (search_add by_uid) \<lparr>sd_All = [], sd_Min = 0, sd_Max = 0, sd_Count = 0\<rparr> ?found"
    using assms(3,4) unfolding imap_Search_def search_found_def step foldl_filter
    by (simp add: FetchMessages_def split: if_splits)
  have len: "length ?ms < 2 ^ 31" using assms(5) Messages_listed [OF assms(5)] by (simp add: listed_def)
  have "search_num by_uid x \<noteq> 0" if "x \<in> set ?found" for x
  proof -
    obtain n m where x: "x = (n, m)" by force
    with that have x2: "(n, m) \<in> set (numbered ?ms)" by (simp add: search_found_def)
    have "n \<noteq> 0"
    proof -
      obtain i where "i < length ?ms" "n = word_of_nat i + 1" using x2 by (auto simp: numbered_def set_zip)
      moreover have "(word_of_nat i + 1 :: 32 word) = word_of_nat (Suc i)" by simp
      ultimately show ?thesis using len by (simp only: word_of_nat_eq_0_iff) (auto dest: dvd_imp_le)
    qed
    moreover have "mr_uid m \<noteq> 0"
    proof -
      from x2 have "m \<in> set ?ms" by (auto simp: numbered_def dest: set_zip_rightD)
      then obtain r where r: "m = messageRecord r" "r \<in> set (messages (iw_db w))" "live_in (imf_id f) r" using Messages_in by auto
      then have "uint (mr_uid m) = m_uid r" using uid_fits [OF assms(1,2) r(2,3)] by (simp add: messageRecord_def)
      moreover have "0 < m_uid r" using uid_positive [OF assms(1) r(2)] r(3) by (simp add: live_in_def)
      ultimately show ?thesis by auto
    qed
    ultimately show ?thesis by (simp add: x search_num_def)
  qed
  moreover have "length ?found < 2 ^ 32"
    using len le_less_trans [OF length_filter_le, of "numbered ?ms"] by (simp add: search_found_def numbered_def)
  ultimately show ?thesis using search_fold [OF _ _ d] unfolding assms(6) by simp
qed

definition no_fields :: search_fields where
  "no_fields = \<lparr>sf_SeqNum = [], sf_UID = [], sf_Since = None, sf_Before = None, sf_ModSeq = None, sf_Flag = [], sf_NotFlag = [],
     sf_Larger = 0, sf_Smaller = 0, sf_Header = [], sf_SentSince = None, sf_SentBefore = None, sf_Text = [], sf_Body = []\<rparr>"

definition demo_search_lib :: "unit search_lib" where
  "demo_search_lib = \<lparr>sl_header = (\<lambda>raw. Some ()), sl_fields = (\<lambda>h key. []), sl_date = (\<lambda>h. None), sl_entity = (\<lambda>raw. Some (Leaf [] (Some raw))),
     sl_zone = (\<lambda>t. 0)\<rparr>"

text \<open>\<^verbatim>\<open>UID SEARCH UNDELETED TEXT "AW"\<close> in the INBOX of the sample.\<close>

definition demo_criteria :: search_criteria where
  "demo_criteria = SearchCriteria (no_fields\<lparr>sf_NotFlag := [DELETED], sf_Text := [''AW'']\<rparr>) [] []"

definition demo_answer :: search_data where
  "demo_answer = \<lparr>sd_All = [1], sd_Min = 1, sd_Max = 1, sd_Count = 1\<rparr>"

lemma imap_search_exact_witness:
  "imap_Search demo_search_lib demo_imap_env True demo_criteria (demo_selected, demo_deleted) = Inr demo_answer
   \<and> unat (sd_Count demo_answer) = length (search_found demo_search_lib demo_imap_env demo_criteria
       (map messageRecord (Messages (iw_db demo_deleted) 1 every_message)))"
proof -
  have "imap_Search demo_search_lib demo_imap_env True demo_criteria (demo_selected, demo_deleted) = Inr demo_answer" by code_simp
  from imap_search_exact [OF demo_deleted_ok(1,2) _ this, of "the (is_selected demo_selected)", OF _ _ refl] demo_deleted_ok(3) this
  show ?thesis by (simp add: demo_selected_def)
qed

text \<open>
  A message that cannot be read satisfies no key on its text, so it satisfies the negation of every such key:
  \<^verbatim>\<open>SEARCH NOT TEXT x\<close> finds it without having looked for \<^verbatim>\<open>x\<close>.
\<close>

lemma unreadable_matches_not:
  "matchCriteria lib None n m (SearchCriteria no_fields [SearchCriteria (no_fields\<lparr>sf_Text := [x]\<rparr>) [] []] [])"
  by (simp add: match_row_def match_raw_def needsRaw_def no_fields_def matchDate_def)

end
