(* ===== verification/Webmail_Compose.thy ===== *)
theory Webmail_Compose
  imports Net_Mail Vacation Mail_Store
begin

text \<open>
  Composing a message in the webmail: the second half of \<^verbatim>\<open>usecase/webmail_mail.go\<close>, which normalises the recipients, derives a plain
  text from the HTML and writes the headers and parts. Strings are bytes; what the browser sends has been decoded from JSON and is
  valid UTF-8. The address parser and the encoder of RFC 2047 words come from the standard library.
\<close>

section \<open>Strings\<close>

text \<open>\<^verbatim>\<open>strings.Count\<close> of one byte, and a \<^verbatim>\<open>strings.Replacer\<close>: at each place the first pair that fits.\<close>

definition CountByte :: "string \<Rightarrow> char \<Rightarrow> nat" where
  "CountByte s c = length (filter (\<lambda>x. x = c) s)"

function Replacer :: "(string \<times> string) list \<Rightarrow> string \<Rightarrow> string" where
  "Replacer pairs s =
     (if s = [] then []
      else case find (\<lambda>(old, new). old \<noteq> [] \<and> HasPrefix s old) pairs of
          Some (old, new) \<Rightarrow> new @ Replacer pairs (drop (length old) s)
        | None \<Rightarrow> hd s # Replacer pairs (tl s))"
  by pat_completeness auto
termination
  by (relation "measure (\<lambda>(pairs, s). length s)") (auto simp: find_Some_iff)

declare Replacer.simps [simp del]

text \<open>The loop that replaces runs of line breaks until there are none.\<close>

definition LF3 :: string where "LF3 = [LF, LF, LF]"

lemma length_ReplaceAll_le: "length new \<le> length old \<Longrightarrow> length (ReplaceAll s old new) \<le> length s"
proof (induction s old new rule: ReplaceAll.induct)
  case (1 s old new)
  show ?case
  proof (cases "s = [] \<or> old = []")
    case True
    then show ?thesis by (subst ReplaceAll.simps) simp
  next
    case ne: False
    show ?thesis
    proof (cases "HasPrefix s old")
      case True
      then obtain t where s: "s = old @ t" by (auto simp: HasPrefix_iff)
      then have "length (ReplaceAll t old new) \<le> length t" using 1(1) [OF ne True] 1(3) by simp
      then show ?thesis using ne 1(3) by (subst ReplaceAll.simps) (simp add: s)
    next
      case False
      then have "length (ReplaceAll (tl s) old new) \<le> length (tl s)" using 1(2) [OF ne False] 1(3) by simp
      then show ?thesis using ne False by (subst ReplaceAll.simps) (cases s; simp)
    qed
  qed
qed

lemma length_ReplaceAll_less:
  assumes "length new < length old" "Contains s old"
  shows "length (ReplaceAll s old new) < length s"
  using assms
proof (induction s old new rule: ReplaceAll.induct)
  case (1 s old new)
  show ?case
  proof (cases "HasPrefix s old")
    case True
    then obtain t where s: "s = old @ t" by (auto simp: HasPrefix_iff)
    have "old \<noteq> []" using 1(3) by auto
    moreover have "length (ReplaceAll t old new) \<le> length t" using 1(3) by (intro length_ReplaceAll_le) simp
    ultimately show ?thesis using 1(3) by (subst ReplaceAll.simps) (simp add: s)
  next
    case False
    have "old \<noteq> []" using 1(3) by auto
    then have ne: "s \<noteq> []" using False 1(4) by (auto simp: Contains_def Index.simps)
    then obtain c t where s: "s = c # t" by (cases s) auto
    then have "Contains t old" using 1(4) False by (simp add: Contains_def Index.simps [of "c # t" old])
    then have "length (ReplaceAll (tl s) old new) < length t" using 1(2) [OF _ False] \<open>old \<noteq> []\<close> ne 1(3) s by simp
    then show ?thesis using False s \<open>old \<noteq> []\<close> by (subst ReplaceAll.simps) simp
  qed
qed

function collapse :: "string \<Rightarrow> string" where
  "collapse s = (if Contains s LF3 then collapse (ReplaceAll s LF3 [LF, LF]) else s)"
  by pat_completeness auto
termination
  by (relation "measure length") (auto intro: length_ReplaceAll_less simp: LF3_def)

declare collapse.simps [simp del]

section \<open>Input\<close>

record ComposeInput =
  ci_From :: string
  ci_To :: "string list"
  ci_Cc :: "string list"
  ci_Bcc :: "string list"
  ci_Subject :: string
  ci_Text :: string
  ci_HTML :: string
  ci_DraftUID :: uid32
  ci_Important :: bool
  ci_InReplyTo :: string

text \<open>The library, and what is drawn for a message: the date as it is printed and two UUIDs.\<close>

record compose_lib =
  cl_address :: "string \<Rightarrow> string option"
  cl_bencode :: "string \<Rightarrow> string"

record compose_draw =
  cd_date :: string
  cd_uuid :: string
  cd_boundary :: string

section \<open>Recipients\<close>

definition add_recipient :: "compose_lib \<Rightarrow> string list \<Rightarrow> string \<Rightarrow> string list" where
  "add_recipient lib out part =
     (case cl_address lib (TrimSpace part) of
        None \<Rightarrow> out
      | Some addr \<Rightarrow> if addr \<in> set out then out else out @ [addr])"

definition normaliseRecipients :: "compose_lib \<Rightarrow> string list \<Rightarrow> string list" where
  "normaliseRecipients lib raw =
     foldl (\<lambda>out entry. foldl (add_recipient lib) out (FieldsFunc (\<lambda>c. c = CHR '','' \<or> c = CHR '';'') entry)) [] raw"

section \<open>Texts\<close>

definition block_elements :: "(string \<times> string) list" where
  "block_elements =
     [(''<br>'', [LF]), (''<br/>'', [LF]), (''<br />'', [LF]), (''</p>'', [LF, LF]), (''</div>'', [LF]), (''</li>'', [LF]), (''</tr>'', [LF]),
      (''<li>'', ''- '')]"

definition html_entities :: "(string \<times> string) list" where
  "html_entities = [(''&nbsp;'', '' ''), (''&amp;'', ''&''), (''&lt;'', ''<''), (''&gt;'', ''>''), (''&quot;'', [DQUOTE]), (''&#39;'', [CHR 0x27])]"

fun drop_tags :: "nat \<Rightarrow> string \<Rightarrow> string" where
  "drop_tags depth [] = []"
| "drop_tags depth (c # s) =
     (if c = CHR ''<'' then drop_tags (depth + 1) s
      else if c = CHR ''>'' \<and> depth > 0 then drop_tags (depth - 1) s
      else if depth = 0 then c # drop_tags depth s
      else drop_tags depth s)"

definition htmlToPlainText :: "string \<Rightarrow> string" where
  "htmlToPlainText html = TrimSpace (collapse (Replacer html_entities (drop_tags 0 (Replacer block_elements html))))"

definition cleanMessageID :: "string \<Rightarrow> string" where
  "cleanMessageID id0 =
     (let s = TrimSpace id0
      in if length s < 3 \<or> length s > 998 \<or> hd s \<noteq> CHR ''<'' \<or> last s \<noteq> CHR ''>'' then []
         else if ContainsAny s [CR, LF, CHR 0x00, CHR '' '', TAB, CHR '','', CHR '';''] \<or> CountByte s CHR ''<'' \<noteq> 1 \<or> CountByte s CHR ''>'' \<noteq> 1
         then []
         else s)"

section \<open>The message\<close>

definition compose_text :: "ComposeInput \<Rightarrow> string" where
  "compose_text input = (if ci_Text input = [] \<and> ci_HTML input \<noteq> [] then htmlToPlainText (ci_HTML input) else ci_Text input)"

definition plain_part :: "string \<Rightarrow> string" where
  "plain_part s = ''Content-Type: text/plain; charset=utf-8'' @ CRLF @ ''Content-Transfer-Encoding: 8bit'' @ CRLF @ CRLF
     @ normaliseEOL s"

definition html_part :: "string \<Rightarrow> string" where
  "html_part s = ''Content-Type: text/html; charset=utf-8'' @ CRLF @ ''Content-Transfer-Encoding: 8bit'' @ CRLF @ CRLF
     @ normaliseEOL s"

definition buildMimeMessage :: "compose_lib \<Rightarrow> compose_draw \<Rightarrow> string \<Rightarrow> ComposeInput \<Rightarrow> string list \<Rightarrow> string" where
  "buildMimeMessage lib draw localHost input recipients =
     ''From: '' @ ci_From input @ CRLF
     @ (if ci_To input \<noteq> [] then ''To: '' @ Join (ci_To input) '', '' @ CRLF
        else let addrs = normaliseRecipients lib (ci_To input) in ''To: '' @ Join (if addrs = [] then recipients else addrs) '', '' @ CRLF)
     @ (if ci_Cc input \<noteq> [] then ''Cc: '' @ Join (ci_Cc input) '', '' @ CRLF else [])
     @ (let id = cleanMessageID (ci_InReplyTo input)
        in if id \<noteq> [] then ''In-Reply-To: '' @ id @ CRLF @ ''References: '' @ id @ CRLF else [])
     @ (if ci_Important input then ''Importance: high'' @ CRLF @ ''X-Priority: 1'' @ CRLF else [])
     @ ''Subject: '' @ encodeHeaderValue (cl_bencode lib) (ci_Subject input) @ CRLF
     @ ''Date: '' @ cd_date draw @ CRLF
     @ ''Message-ID: <'' @ cd_uuid draw @ ''@'' @ localHost @ ''>'' @ CRLF
     @ ''MIME-Version: 1.0'' @ CRLF
     @ (if ci_HTML input = [] then plain_part (compose_text input)
        else let boundary = ''=_alt_'' @ cd_boundary draw
             in ''Content-Type: multipart/alternative; boundary='' @ [DQUOTE] @ boundary @ [DQUOTE] @ CRLF @ CRLF
                @ ''--'' @ boundary @ CRLF @ plain_part (compose_text input)
                @ ''--'' @ boundary @ CRLF @ html_part (ci_HTML input)
                @ ''--'' @ boundary @ ''--'' @ CRLF)"

end
