(* ===== verification/Webmail_Render.thy ===== *)
theory Webmail_Render
  imports Mail_Store
begin

text \<open>
  Showing a message in the webmail: \<^verbatim>\<open>usecase/message_render.go\<close>, which walks the MIME tree for the bodies, the inline images and
  the names of the attachments, and finds the bytes of one of them, and the two filters of \<^verbatim>\<open>http/mail_api.go\<close> on what the sender
  chose for an attachment, its type and its name.

  The library parses the message: a part is what it returns for its headers, with the errors, and its body up to the first error.
\<close>

section \<open>Parts\<close>

record part_head =
  ph_type_ok :: bool
  ph_type :: string
  ph_type_name :: string
  ph_disposition_ok :: bool
  ph_disposition :: string
  ph_filename :: string
  ph_content_id :: string

text \<open>A body: the bytes that can be read, and whether they end without an error. The parts of a multipart go up to the first error.\<close>

datatype mime_part = Part part_head "string \<times> bool" | Parts part_head "mime_part list" "string \<times> bool"

definition ReadAll :: "string \<times> bool \<Rightarrow> string option" where
  "ReadAll = (\<lambda>(content, ok). if ok then Some content else None)"

definition ReadAllLimit :: "nat \<Rightarrow> string \<times> bool \<Rightarrow> string option" where
  "ReadAllLimit n = (\<lambda>(content, ok). if n \<le> length content then Some (take n content) else if ok then Some content else None)"

section \<open>Rendering\<close>

record RenderedMessage =
  rm_UID :: uid32
  rm_Subject :: string
  rm_From :: string
  rm_To :: "string list"
  rm_Cc :: "string list"
  rm_Date :: string
  rm_Text :: string
  rm_HTML :: string
  rm_Attachments :: "string list"
  rm_MessageID :: string
  rm_InReplyTo :: string
  rm_Important :: bool
  rm_InlineImages :: "(string \<times> string) list"

definition maxRenderedPartBytes :: nat where "maxRenderedPartBytes = 2097152"
definition maxInlineImageBytes :: nat where "maxInlineImageBytes = 2097152"

definition isHighPriority :: "string \<Rightarrow> string \<Rightarrow> bool" where
  "isHighPriority importance xPriority =
     (if EqualFold (TrimSpace importance) ''high'' then True
      else case Fields xPriority of [] \<Rightarrow> False | f # _ \<Rightarrow> f = ''1'' \<or> f = ''2'')"

definition isInlineImageCandidate :: "string \<Rightarrow> string \<Rightarrow> string \<Rightarrow> bool" where
  "isInlineImageCandidate disposition mediaType contentID =
     (if contentID = [] \<and> disposition \<noteq> ''inline'' then False
      else if \<not> HasPrefix (ToLower mediaType) ''image/'' then False
      else \<not> EqualFold mediaType ''image/svg+xml'')"

text \<open>A Go map as an association list with one entry for a key.\<close>

definition put :: "string \<Rightarrow> string \<Rightarrow> (string \<times> string) list \<Rightarrow> (string \<times> string) list" where
  "put k v m = (k, v) # filter (\<lambda>(k', _). k' \<noteq> k) m"

definition collectInlineImage :: "(string \<Rightarrow> string) \<Rightarrow> part_head \<Rightarrow> string \<times> bool \<Rightarrow> string \<Rightarrow> RenderedMessage \<Rightarrow> bool \<times> RenderedMessage" where
  "collectInlineImage b64 h body mediaType out =
     (let contentID = Trim (TrimSpace (ph_content_id h)) ''<>''
      in if contentID = [] then (False, out)
         else case ReadAllLimit (maxInlineImageBytes + 1) body of
             None \<Rightarrow> (True, out)
           | Some b \<Rightarrow>
               if length b > maxInlineImageBytes then (True, out)
               else (True, out\<lparr>rm_InlineImages := put contentID (''data:'' @ ToLower mediaType @ '';base64,'' @ b64 b) (rm_InlineImages out)\<rparr>))"

fun collectParts :: "(string \<Rightarrow> string) \<Rightarrow> mime_part \<Rightarrow> RenderedMessage \<Rightarrow> RenderedMessage" where
  "collectParts b64 (Parts h parts body) out = foldl (\<lambda>out part. collectParts b64 part out) out parts"
| "collectParts b64 (Part h body) out =
     (let mediaType = (if ph_type_ok h then ph_type h else ''text/plain'');
          disposition = (if ph_disposition_ok h then ph_disposition h else []);
          inline_image = (if isInlineImageCandidate disposition mediaType (ph_content_id h) then collectInlineImage b64 h body mediaType out
            else (False, out))
      in if fst inline_image then snd inline_image
         else if disposition = ''attachment'' \<or> disposition = ''inline'' \<and> ph_filename h \<noteq> [] then
           out\<lparr>rm_Attachments := rm_Attachments out @ [if ph_filename h = [] then ''attachment'' else ph_filename h]\<rparr>
         else case ReadAllLimit maxRenderedPartBytes body of
             None \<Rightarrow> out
           | Some b \<Rightarrow>
               if EqualFold mediaType ''text/plain'' \<and> rm_Text out = [] then out\<lparr>rm_Text := b\<rparr>
               else if EqualFold mediaType ''text/html'' \<and> rm_HTML out = [] then out\<lparr>rm_HTML := b\<rparr>
               else out)"

text \<open>The top header: its decoded subject, the addresses of a list (\<open>None\<close> if it does not parse), a field, and the date in UTC.\<close>

record render_lib =
  rl_read :: "string \<Rightarrow> mime_part option"
  rl_subject :: "string \<Rightarrow> string"
  rl_addresses :: "string \<Rightarrow> string \<Rightarrow> string list option"
  rl_field :: "string \<Rightarrow> string \<Rightarrow> string"
  rl_date :: "string \<Rightarrow> string option"
  rl_b64 :: "string \<Rightarrow> string"

definition empty_render :: "uid32 \<Rightarrow> RenderedMessage" where
  "empty_render uid = \<lparr>rm_UID = uid, rm_Subject = [], rm_From = [], rm_To = [], rm_Cc = [], rm_Date = [], rm_Text = [], rm_HTML = [],
     rm_Attachments = [], rm_MessageID = [], rm_InReplyTo = [], rm_Important = False, rm_InlineImages = []\<rparr>"

definition RenderMessage :: "render_lib \<Rightarrow> string \<Rightarrow> uid32 \<Rightarrow> RenderedMessage" where
  "RenderMessage lib raw uid =
     (case rl_read lib raw of
        None \<Rightarrow> (empty_render uid)\<lparr>rm_Text := raw\<rparr>
      | Some entity \<Rightarrow>
          collectParts (rl_b64 lib) entity
            ((empty_render uid)\<lparr>rm_Subject := rl_subject lib raw,
               rm_From := (case rl_addresses lib raw ''From'' of Some (a # _) \<Rightarrow> a | _ \<Rightarrow> []),
               rm_To := (case rl_addresses lib raw ''To'' of Some addrs \<Rightarrow> addrs | None \<Rightarrow> []),
               rm_Cc := (case rl_addresses lib raw ''Cc'' of Some addrs \<Rightarrow> addrs | None \<Rightarrow> []),
               rm_MessageID := TrimSpace (rl_field lib raw ''Message-Id''),
               rm_InReplyTo := TrimSpace (rl_field lib raw ''In-Reply-To''),
               rm_Important := isHighPriority (rl_field lib raw ''Importance'') (rl_field lib raw ''X-Priority''),
               rm_Date := (case rl_date lib raw of Some d \<Rightarrow> d | None \<Rightarrow> [])\<rparr>))"

section \<open>One attachment\<close>

definition part_answers :: "part_head \<Rightarrow> string \<Rightarrow> bool" where
  "part_answers h targetName =
     (let name = (if ph_filename h = [] then ph_type_name h else ph_filename h)
      in ph_disposition_ok h \<and> ph_disposition h = ''attachment'' \<and> (targetName = [] \<or> EqualFold name targetName)
         \<or> targetName \<noteq> [] \<and> EqualFold name targetName)"

definition extract_here :: "part_head \<Rightarrow> string \<times> bool \<Rightarrow> string \<Rightarrow> (string \<times> string) option" where
  "extract_here h body targetName =
     (if part_answers h targetName then (case ReadAll body of Some b \<Rightarrow> Some (b, ph_type h) | None \<Rightarrow> None) else None)"

fun ExtractAttachment :: "mime_part \<Rightarrow> string \<Rightarrow> (string \<times> string) option"
  and extract_first :: "mime_part list \<Rightarrow> string \<Rightarrow> (string \<times> string) option" where
  "ExtractAttachment (Part h body) targetName = extract_here h body targetName"
| "ExtractAttachment (Parts h parts body) targetName =
     (case extract_first parts targetName of Some r \<Rightarrow> Some r | None \<Rightarrow> extract_here h body targetName)"
| "extract_first [] targetName = None"
| "extract_first (part # parts) targetName =
     (case ExtractAttachment part targetName of Some r \<Rightarrow> Some r | None \<Rightarrow> extract_first parts targetName)"

section \<open>What the sender chose\<close>

definition renderableTypes :: "string list" where
  "renderableTypes = [''text/html'', ''application/xhtml+xml'', ''image/svg+xml'', ''application/xml'', ''text/xml'',
     ''application/javascript'', ''text/javascript'', ''application/x-javascript'', ''application/xhtml'', ''application/vnd.wap.xhtml+xml'']"

definition safeAttachmentContentType :: "string \<Rightarrow> string" where
  "safeAttachmentContentType declared0 =
     (let declared = ToLower (TrimSpace declared0)
      in if declared = [] \<or> declared \<in> set renderableTypes then ''application/octet-stream'' else declared)"

definition clean_rune :: "char \<Rightarrow> char option" where
  "clean_rune c =
     (if of_char c < (0x20 :: nat) \<or> of_char c = (0x7F :: nat) then None
      else if c = DQUOTE \<or> c = BACKSLASH \<or> c = CHR ''/'' \<or> c = CHR '':'' then Some CHR ''_''
      else Some c)"

definition sanitiseFilename :: "string \<Rightarrow> string" where
  "sanitiseFilename name0 =
     (let name = TrimSpace (List.map_filter clean_rune name0)
      in if name = [] \<or> name = ''.'' \<or> name = ''..'' then ''attachment''
         else if length name > 200 then take 200 name else name)"

end
