(* ===== verification/Web_Session.thy ===== *)
theory Web_Session
  imports Prelude
begin

text \<open>
  The sessions of the webmail: the check of the tokens that the auth service signs (\<^verbatim>\<open>http/websession.go\<close>) and how a request carries
  one (\<^verbatim>\<open>authenticate\<close> of \<^verbatim>\<open>http/mail_api.go\<close>). HMAC-SHA256 under the shared secret, base64url and JSON are parameters.
\<close>

record web_session =
  ws_Subject :: string
  ws_Email :: string
  ws_Role :: string
  ws_DomainID :: string
  ws_Surface :: string
  ws_Audience :: string
  ws_MfaSatisfied :: bool
  ws_Purpose :: string
  ws_IssuedAt :: int
  ws_ExpiresAt :: int

datatype session_error = ErrTokenMalformed | ErrBadSignature | ErrTokenExpired | ErrNotASession | ErrWrongAudience

record token_lib =
  tl_mac :: "string \<Rightarrow> string"
  tl_encode :: "string \<Rightarrow> string"
  tl_decode :: "string \<Rightarrow> string option"
  tl_unmarshal :: "string \<Rightarrow> web_session option"

text \<open>\<open>now\<close> is in Unix seconds.\<close>

definition Verify :: "token_lib \<Rightarrow> int \<Rightarrow> string \<Rightarrow> session_error + web_session" where
  "Verify lib now token =
     (let parts = Split token CHR ''.''
      in if length parts \<noteq> 3 then Inl ErrTokenMalformed
         else if parts ! 2 \<noteq> tl_encode lib (tl_mac lib (parts ! 0 @ ''.'' @ parts ! 1)) then Inl ErrBadSignature
         else case tl_decode lib (parts ! 1) of
             None \<Rightarrow> Inl ErrTokenMalformed
           | Some raw \<Rightarrow>
               (case tl_unmarshal lib raw of
                  None \<Rightarrow> Inl ErrTokenMalformed
                | Some session \<Rightarrow>
                    if ws_ExpiresAt session > 0 \<and> now \<ge> ws_ExpiresAt session then Inl ErrTokenExpired
                    else if ws_Purpose session \<noteq> ''session'' then Inl ErrNotASession
                    else Inr session))"

definition RequireSurface :: "token_lib \<Rightarrow> int \<Rightarrow> string \<Rightarrow> string \<Rightarrow> session_error + web_session" where
  "RequireSurface lib now token surface =
     (case Verify lib now token of
        Inl e \<Rightarrow> Inl e
      | Inr session \<Rightarrow>
          if ws_Surface session \<noteq> surface \<or> ws_Audience session \<noteq> ''lambdamail:'' @ surface then Inl ErrWrongAudience else Inr session)"

text \<open>The \<^verbatim>\<open>Authorization\<close> header and the session cookie of a request.\<close>

record web_credentials =
  wc_Authorization :: string
  wc_cookie :: "string option"

definition request_token :: "web_credentials \<Rightarrow> string" where
  "request_token cred =
     (if HasPrefix (wc_Authorization cred) ''Bearer '' then TrimPrefix (wc_Authorization cred) ''Bearer ''
      else case wc_cookie cred of None \<Rightarrow> [] | Some v \<Rightarrow> v)"

definition authenticate :: "token_lib \<Rightarrow> int \<Rightarrow> web_credentials \<Rightarrow> web_session option" where
  "authenticate lib now cred =
     (let token = request_token cred
      in if token = [] then None
         else case RequireSurface lib now token ''user'' of Inl _ \<Rightarrow> None | Inr session \<Rightarrow> Some session)"

section \<open>What an accepted token is\<close>

text \<open>A token the auth service issued for a session: the payload says what the session is, and the signature is the one over it.\<close>

definition issued :: "token_lib \<Rightarrow> string \<Rightarrow> web_session \<Rightarrow> bool" where
  "issued lib token session \<longleftrightarrow> (\<exists>header payload raw. CHR ''.'' \<notin> set header \<and> CHR ''.'' \<notin> set payload
     \<and> token = header @ ''.'' @ payload @ ''.'' @ tl_encode lib (tl_mac lib (header @ ''.'' @ payload))
     \<and> CHR ''.'' \<notin> set (tl_encode lib (tl_mac lib (header @ ''.'' @ payload)))
     \<and> tl_decode lib payload = Some raw \<and> tl_unmarshal lib raw = Some session)"

lemma Verify_iff:
  "Verify lib now token = Inr session \<longleftrightarrow> issued lib token session
     \<and> \<not> (ws_ExpiresAt session > 0 \<and> now \<ge> ws_ExpiresAt session) \<and> ws_Purpose session = ''session''"
proof
  assume v: "Verify lib now token = Inr session"
  then have "length (Split token CHR ''.'') = 3" by (auto simp: Verify_def Let_def split: if_splits)
  then obtain a b c where parts: "Split token CHR ''.'' = [a, b, c]" by (auto simp: length_Suc_conv numeral_3_eq_3)
  have clean: "CHR ''.'' \<notin> set a" "CHR ''.'' \<notin> set b" "CHR ''.'' \<notin> set c"
    using Split_no_sep [of _ token "CHR ''.''"] by (simp_all add: parts)
  have "token = a @ ''.'' @ b @ ''.'' @ c" using Join_Split [of token "CHR ''.''"] by (simp add: parts)
  then show "issued lib token session \<and> \<not> (ws_ExpiresAt session > 0 \<and> now \<ge> ws_ExpiresAt session) \<and> ws_Purpose session = ''session''"
    using v clean unfolding issued_def Verify_def parts Let_def
    by (auto split: if_splits option.splits)
next
  assume a: "issued lib token session \<and> \<not> (ws_ExpiresAt session > 0 \<and> now \<ge> ws_ExpiresAt session) \<and> ws_Purpose session = ''session''"
  then obtain h p raw where t: "CHR ''.'' \<notin> set h" "CHR ''.'' \<notin> set p" "token = h @ ''.'' @ p @ ''.'' @ tl_encode lib (tl_mac lib (h @ ''.'' @ p))"
      "CHR ''.'' \<notin> set (tl_encode lib (tl_mac lib (h @ ''.'' @ p)))" "tl_decode lib p = Some raw" "tl_unmarshal lib raw = Some session"
    by (auto simp: issued_def)
  have "Split token CHR ''.'' = [h, p, tl_encode lib (tl_mac lib (h @ ''.'' @ p))]"
    using t(1-4) Split_at [of "CHR ''.''" h] Split_at [of "CHR ''.''" p] Split_none [OF t(4)] by simp
  then show "Verify lib now token = Inr session" using a t(5,6) by (auto simp: Verify_def Let_def)
qed

text \<open>
  A request acts for a user exactly when it carries a session of that user: its token is non-empty, is the signed token of the session
  under the shared secret, has not expired, and the session is a real one (not the challenge between password and second
  factor) of the user surface and of its audience.
\<close>

lemma authenticate_iff:
  "authenticate lib now cred = Some session \<longleftrightarrow>
     issued lib (request_token cred) session \<and> \<not> (0 < ws_ExpiresAt session \<and> ws_ExpiresAt session \<le> now)
     \<and> ws_Purpose session = ''session'' \<and> ws_Surface session = ''user'' \<and> ws_Audience session = ''lambdamail:user''"
proof -
  have "issued lib (request_token cred) session \<Longrightarrow> request_token cred \<noteq> []" by (auto simp: issued_def)
  moreover have "authenticate lib now cred = Some session \<longleftrightarrow> request_token cred \<noteq> [] \<and> Verify lib now (request_token cred) = Inr session
      \<and> ws_Surface session = ''user'' \<and> ws_Audience session = ''lambdamail:user''"
    by (auto simp: authenticate_def RequireSurface_def Let_def split: sum.splits if_splits)
  ultimately show ?thesis by (auto simp: Verify_iff)
qed

end
