(* ===== verification/Webmail.thy ===== *)
theory Webmail
  imports Webmail_Compose Webmail_Render Web_Session Submission Webmail_Repository
begin

text \<open>
  The webmail: the use case behind its screens (\<^verbatim>\<open>usecase/webmail_mail.go\<close>) and the requests that reach it
  (\<^verbatim>\<open>http/mail_api.go\<close>). A request is given with its body decoded from JSON (\<open>None\<close> when it does not decode); the answer is
  a status with what is shown, or a status with the code and the text of an error.
\<close>

section \<open>Environment\<close>

record web_lib =
  wl_server :: server_lib
  wl_compose :: compose_lib
  wl_render :: render_lib
  wl_token :: token_lib
  wl_localHost :: string
  wl_drafts :: bool
  wl_folders :: bool

text \<open>
  What a request meets: the clock in nanoseconds, what is drawn for a message, which of its reads succeed and which writes, and what the
  submission and the storing of a body meet.
\<close>

record web_env =
  we_now :: int
  we_draw :: compose_draw
  we_read_ok :: "nat \<Rightarrow> bool"
  we_write_ok :: "nat \<Rightarrow> bool"
  we_submit :: submit_env
  we_store :: store_fault

datatype web_error =
    WebStore store_error
  | WebNoSuchMailbox
  | WebSubmit submit_error
  | WebFolderNotATarget
  | WebNoTargetFolder
  | WebDraftsUnavailable
  | WebFolder folder_error
  | WebOther

section \<open>Reading\<close>

definition mailboxID :: "bool \<Rightarrow> server \<Rightarrow> string \<Rightarrow> web_error + uuid" where
  "mailboxID ok sv address =
     (if \<not> ok then Inl WebNoSuchMailbox
      else case MailboxIDByAddress (sv_mail sv) address of Inl _ \<Rightarrow> Inl WebNoSuchMailbox | Inr k \<Rightarrow> Inr k)"

definition webmail_ListFolders :: "web_env \<Rightarrow> server \<Rightarrow> string \<Rightarrow> web_error + folder_info list" where
  "webmail_ListFolders env sv address =
     (case mailboxID (we_read_ok env 0) sv address of
        Inl e \<Rightarrow> Inl e
      | Inr k \<Rightarrow> if we_read_ok env 1 then Inr (ListFolders (sv_mail sv) k) else Inl WebOther)"

definition webmail_ListMessages :: "web_env \<Rightarrow> server \<Rightarrow> string \<Rightarrow> string \<Rightarrow> string \<Rightarrow> int \<Rightarrow> int \<Rightarrow> web_error + message_row list" where
  "webmail_ListMessages env sv address folder search limit offset =
     (case mailboxID (we_read_ok env 0) sv address of
        Inl e \<Rightarrow> Inl e
      | Inr k \<Rightarrow> if we_read_ok env 1 then Inr (ListMessages (sv_mail sv) k folder search limit offset) else Inl WebOther)"

definition GetMessage :: "web_env \<Rightarrow> string \<Rightarrow> string \<Rightarrow> uid32 \<Rightarrow> server \<Rightarrow> (web_error + string) \<times> server" where
  "GetMessage env address folder uid sv =
     (case mailboxID (we_read_ok env 0) sv address of
        Inl e \<Rightarrow> (Inl e, sv)
      | Inr k \<Rightarrow>
          if \<not> we_read_ok env 1 then (Inl WebOther, sv)
          else (case GetMessageBlob (sv_mail sv) k folder uid of
             Inl e \<Rightarrow> (Inl (WebStore e), sv)
           | Inr blob \<Rightarrow>
               (case if we_read_ok env 2 then ReadByID (sv_disk sv) blob else None of
                  None \<Rightarrow> (Inl WebOther, sv)
                | Some raw \<Rightarrow> (Inr raw, sv\<lparr>sv_mail := snd (MarkSeen (we_write_ok env 0) k folder uid True (sv_mail sv))\<rparr>))))"

section \<open>Marking, moving and deleting\<close>

definition on_mailbox :: "web_env \<Rightarrow> string \<Rightarrow> (uuid \<Rightarrow> mail_db \<Rightarrow> (store_error + 'a) \<times> mail_db) \<Rightarrow> server \<Rightarrow> web_error option \<times> server" where
  "on_mailbox env address f sv =
     (case mailboxID (we_read_ok env 0) sv address of
        Inl e \<Rightarrow> (Some e, sv)
      | Inr k \<Rightarrow> (case f k (sv_mail sv) of
           (Inl e, db) \<Rightarrow> (Some (WebStore e), sv\<lparr>sv_mail := db\<rparr>)
         | (Inr _, db) \<Rightarrow> (None, sv\<lparr>sv_mail := db\<rparr>)))"

definition SetSeen :: "web_env \<Rightarrow> string \<Rightarrow> string \<Rightarrow> uid32 \<Rightarrow> bool \<Rightarrow> server \<Rightarrow> web_error option \<times> server" where
  "SetSeen env address folder uid seen = on_mailbox env address (\<lambda>k. MarkSeen (we_write_ok env 0) k folder uid seen)"

definition SetFlagged :: "web_env \<Rightarrow> string \<Rightarrow> string \<Rightarrow> uid32 \<Rightarrow> bool \<Rightarrow> server \<Rightarrow> web_error option \<times> server" where
  "SetFlagged env address folder uid flagged = on_mailbox env address (\<lambda>k. MarkFlagged (we_write_ok env 0) k folder uid flagged)"

definition notAMoveTarget :: "string list" where "notAMoveTarget = [''sent'', ''drafts'']"

definition webmail_Move :: "web_env \<Rightarrow> string \<Rightarrow> string \<Rightarrow> uid32 \<Rightarrow> string \<Rightarrow> server \<Rightarrow> web_error option \<times> server" where
  "webmail_Move env address folder uid target0 sv =
     (let target = TrimSpace target0
      in if target = [] then (Some WebNoTargetFolder, sv)
         else if ToLower target \<in> set notAMoveTarget then (Some WebFolderNotATarget, sv)
         else if EqualFold target folder then (None, sv)
         else on_mailbox env address (\<lambda>k. MoveToFolder (we_write_ok env 0) k folder uid target) sv)"

definition webmail_Delete :: "web_env \<Rightarrow> string \<Rightarrow> string \<Rightarrow> uid32 \<Rightarrow> server \<Rightarrow> web_error option \<times> server" where
  "webmail_Delete env address folder uid sv =
     (case mailboxID (we_read_ok env 0) sv address of
        Inl e \<Rightarrow> (Some e, sv)
      | Inr k \<Rightarrow>
          (case MoveToTrash (we_write_ok env 0) k folder uid (sv_mail sv) of
             (Inr _, db) \<Rightarrow> (None, sv\<lparr>sv_mail := db\<rparr>)
           | (Inl e, db) \<Rightarrow>
               if e = AlreadyInTrash \<or> e = NoTrashFolder then
                 (case webmail_Expunge (we_write_ok env 1) k folder uid db of
                    (Inl e', db') \<Rightarrow> (Some (WebStore e'), sv\<lparr>sv_mail := db'\<rparr>)
                  | (Inr _, db') \<Rightarrow> (None, sv\<lparr>sv_mail := db'\<rparr>))
               else (Some (WebStore e), sv\<lparr>sv_mail := db\<rparr>)))"

section \<open>Sending and saving\<close>

definition all_recipients :: "compose_lib \<Rightarrow> ComposeInput \<Rightarrow> string list" where
  "all_recipients lib input = normaliseRecipients lib (ci_To input @ ci_Cc input @ ci_Bcc input)"

definition find_account :: "bool \<Rightarrow> server \<Rightarrow> string \<Rightarrow> web_error + mailbox_auth" where
  "find_account ok sv address =
     (if \<not> ok then Inl WebOther
      else case FindByAddress (sv_accounts sv) address of None \<Rightarrow> Inl WebNoSuchMailbox | Some a \<Rightarrow> Inr a)"

text \<open>Discarding the draft that was sent or superseded: best effort.\<close>

definition discard_draft :: "web_env \<Rightarrow> string \<Rightarrow> uid32 \<Rightarrow> server \<Rightarrow> server" where
  "discard_draft env address uid sv =
     (if uid = 0 then sv
      else case mailboxID (we_read_ok env 1) sv address of
          Inl _ \<Rightarrow> sv
        | Inr k \<Rightarrow> sv\<lparr>sv_mail := snd (webmail_Expunge (we_write_ok env 1) k ''Drafts'' uid (sv_mail sv))\<rparr>)"

definition Send :: "web_lib \<Rightarrow> web_env \<Rightarrow> ComposeInput \<Rightarrow> server \<Rightarrow> web_error option \<times> server" where
  "Send lib env input sv =
     (let recipients = all_recipients (wl_compose lib) input
      in if recipients = [] then (Some (WebSubmit ErrNoRecipients), sv)
         else case find_account (we_read_ok env 0) sv (ci_From input) of
             Inl e \<Rightarrow> (Some e, sv)
           | Inr account \<Rightarrow>
               (case Submit (wl_server lib) (we_submit env)
                   \<lparr>si_MailboxID = ma_id account, si_SenderAddr = ma_email account, si_DomainName = ma_domain account,
                    si_Recipients = recipients,
                    si_Body = Some (buildMimeMessage (wl_compose lib) (we_draw env) (wl_localHost lib) input recipients),
                    si_MaxRecipientsPerHour = ma_max_recipients account, si_FileSentCopy = True\<rparr> sv of
                  (Some e, sv1) \<Rightarrow> (Some (WebSubmit e), sv1)
                | (None, sv1) \<Rightarrow> (None, discard_draft env (ma_email account) (ci_DraftUID input) sv1)))"

definition draft_input :: "web_lib \<Rightarrow> mailbox_auth \<Rightarrow> BlobRef \<Rightarrow> string \<Rightarrow> persist_input" where
  "draft_input lib account blob raw =
     (let headers = ExtractMessageHeaders (lib_mime (wl_server lib)) raw
      in \<lparr>pi_mailbox = ma_id account, pi_blob = ref_ID blob, pi_blob_size = ref_SizeBytes blob,
          pi_sender = ma_email account, pi_recipient = ma_email account, pi_target_folder = ''Drafts'',
          pi_subject = mh_Subject headers, pi_snippet = mh_Snippet headers, pi_from_display_name = mh_FromDisplayName headers,
          pi_message_id = mh_MessageID headers, pi_has_attachments = mh_HasAttachments headers, pi_already_seen = True,
          pi_spf = [], pi_dkim = [], pi_dmarc = []\<rparr>)"

definition SaveDraft :: "web_lib \<Rightarrow> web_env \<Rightarrow> ComposeInput \<Rightarrow> uid32 \<Rightarrow> server \<Rightarrow> (web_error + uid32) \<times> server" where
  "SaveDraft lib env input replaceUID sv =
     (case find_account (we_read_ok env 0) sv (ci_From input) of
        Inl e \<Rightarrow> (Inl e, sv)
      | Inr account \<Rightarrow>
          if \<not> wl_drafts lib then (Inl WebDraftsUnavailable, sv)
          else
            let recipients = all_recipients (wl_compose lib) input;
                raw = buildMimeMessage (wl_compose lib) (we_draw env) (wl_localHost lib) input recipients
            in (case store_blob (lib_sha256 (wl_server lib)) (lib_baseDir (wl_server lib)) (we_store env) raw sv of
                  (Inl _, sv1) \<Rightarrow> (Inl WebOther, sv1)
                | (Inr blob, sv1) \<Rightarrow>
                    (case PersistAll (we_write_ok env 0) (we_now env) [draft_input lib account blob raw] (sv_mail sv1) of
                       (Inl _, db) \<Rightarrow> (Inl WebOther, sv1\<lparr>sv_mail := db\<rparr>)
                     | (Inr uids, db) \<Rightarrow>
                         (Inr (case uids of [] \<Rightarrow> 0 | uid # _ \<Rightarrow> word_of_int uid),
                          discard_draft env (ma_email account) replaceUID (sv1\<lparr>sv_mail := db\<rparr>)))))"

section \<open>Requests\<close>

record compose_body =
  cb_To :: "string list"
  cb_Cc :: "string list"
  cb_Bcc :: "string list"
  cb_Subject :: string
  cb_Text :: string
  cb_HTML :: string
  cb_LegacyBody :: string
  cb_DraftUID :: uid32
  cb_Important :: bool
  cb_InReplyTo :: string

definition decodeCompose :: "string \<Rightarrow> compose_body \<Rightarrow> ComposeInput" where
  "decodeCompose sender body =
     \<lparr>ci_From = sender, ci_To = cb_To body, ci_Cc = cb_Cc body, ci_Bcc = cb_Bcc body, ci_Subject = cb_Subject body,
      ci_Text = (if cb_Text body = [] \<and> cb_HTML body = [] then cb_LegacyBody body else cb_Text body),
      ci_HTML = cb_HTML body, ci_DraftUID = cb_DraftUID body, ci_Important = cb_Important body, ci_InReplyTo = cb_InReplyTo body\<rparr>"

text \<open>
  The body of a draft is read once and decoded twice: \<^verbatim>\<open>replace_uid\<close> is 0 when it does not decode. \<open>limit\<close> and \<open>offset\<close> of a
  listing are the numbers \<^verbatim>\<open>strconv.Atoi\<close> gives for the parameters of the query.
\<close>

datatype web_request =
    ReqFolders
  | ReqMessages string string int int
  | ReqMessage string string
  | ReqSeen "(string \<times> uid32 \<times> bool) option"
  | ReqFlagged "(string \<times> uid32 \<times> bool) option"
  | ReqSend "compose_body option"
  | ReqDelete "(string \<times> uid32) option"
  | ReqFolderAdmin "(string \<times> string \<times> string) option"
  | ReqMove "(string \<times> uid32 \<times> string) option"
  | ReqSaveDraft "compose_body option" uid32

datatype web_payload =
    ShowFolders "folder_info list"
  | ShowMessages "message_row list"
  | ShowMessage RenderedMessage
  | ShowAttachment string string string
  | ShowSaved uid32
  | ShowDone string

datatype web_answer = Answer nat web_payload | Failure nat string string

definition fail_store :: "store_error \<Rightarrow> web_answer" where
  "fail_store e =
     (case e of
        MessageNotFound \<Rightarrow> Failure 404 ''NOT_FOUND'' ''Message not found''
      | FolderMissing \<Rightarrow> Failure 404 ''NOT_FOUND'' ''No folder with that name''
      | NoTrashFolder \<Rightarrow> Failure 404 ''NOT_FOUND'' ''That folder does not exist''
      | _ \<Rightarrow> Failure 500 ''INTERNAL_ERROR'' ''Request could not be processed'')"

definition web_fail :: "web_error \<Rightarrow> web_answer" where
  "web_fail e =
     (case e of
        WebStore s \<Rightarrow> fail_store s
      | WebNoSuchMailbox \<Rightarrow> Failure 404 ''NOT_FOUND'' ''Message not found''
      | WebSubmit s \<Rightarrow>
          (if s = ErrNoRecipients then Failure 400 ''NO_RECIPIENTS'' ''At least one valid recipient is required''
           else if s = ErrSendLimitExceeded then Failure 429 ''SEND_LIMIT_EXCEEDED'' ''Hourly recipient limit reached''
           else Failure 500 ''INTERNAL_ERROR'' ''Request could not be processed'')
      | WebFolder f \<Rightarrow>
          (case f of
             ErrNoSuchMailbox \<Rightarrow> Failure 404 ''NOT_FOUND'' ''Message not found''
           | ErrFolderExists \<Rightarrow> Failure 409 ''FOLDER_EXISTS'' ''A folder with that name already exists''
           | ErrFolderReserved \<Rightarrow> Failure 403 ''FOLDER_RESERVED'' ''That folder belongs to the mail system and cannot be changed''
           | ErrInvalidFolderName \<Rightarrow> Failure 400 ''INVALID_FOLDER_NAME'' ''That folder name cannot be used''
           | ErrFolderNotFound \<Rightarrow> Failure 404 ''NOT_FOUND'' ''No folder with that name''
           | StoreError s \<Rightarrow> fail_store s)
      | WebFolderNotATarget \<Rightarrow> Failure 400 ''FOLDER_NOT_A_TARGET'' ''Messages cannot be moved into Sent or Drafts''
      | WebNoTargetFolder \<Rightarrow> Failure 400 ''NO_TARGET_FOLDER'' ''A destination folder is required''
      | WebDraftsUnavailable \<Rightarrow> Failure 503 ''DRAFTS_UNAVAILABLE'' ''Draft storage is not configured''
      | WebOther \<Rightarrow> Failure 500 ''INTERNAL_ERROR'' ''Request could not be processed'')"

definition bad_json :: web_answer where
  "bad_json = Failure 400 ''BAD_REQUEST'' ''Invalid JSON''"

definition no_uid :: web_answer where
  "no_uid = Failure 400 ''INVALID_UID'' ''Message UID is required''"

definition or_inbox :: "string \<Rightarrow> string" where
  "or_inbox folder = (if folder = [] then ''inbox'' else folder)"

definition answer :: "nat \<Rightarrow> web_payload \<Rightarrow> web_error option \<times> server \<Rightarrow> web_answer \<times> server" where
  "answer status shown = (\<lambda>(e, sv). (case e of Some e \<Rightarrow> web_fail e | None \<Rightarrow> Answer status shown, sv))"

text \<open>\<^verbatim>\<open>strconv.ParseUint(s, 10, 32)\<close>.\<close>

definition ParseUint32 :: "string \<Rightarrow> uid32 option" where
  "ParseUint32 s =
     (if s = [] then None
      else case digits_value 0 s of None \<Rightarrow> None | Some n \<Rightarrow> if n < 2 ^ 32 then Some (word_of_nat n) else None)"

definition handleAttachmentDownload :: "web_lib \<Rightarrow> string \<Rightarrow> string \<Rightarrow> web_answer" where
  "handleAttachmentDownload lib raw filename =
     (case rl_read (wl_render lib) raw of
        None \<Rightarrow> Failure 404 ''NOT_FOUND'' ''Attachment not found''
      | Some entity \<Rightarrow>
          (case ExtractAttachment entity filename of
             None \<Rightarrow> Failure 404 ''NOT_FOUND'' ''Attachment not found''
           | Some (content, contentType) \<Rightarrow>
               Answer 200 (ShowAttachment (safeAttachmentContentType contentType) (sanitiseFilename filename) content)))"

definition handleMessage :: "web_lib \<Rightarrow> web_env \<Rightarrow> string \<Rightarrow> string \<Rightarrow> string \<Rightarrow> server \<Rightarrow> web_answer \<times> server" where
  "handleMessage lib env address path folder sv =
     (let parts = Split path CHR ''/''
      in if hd parts = [] then (no_uid, sv)
         else case ParseUint32 (hd parts) of
             None \<Rightarrow> (Failure 400 ''INVALID_UID'' ''Message UID must be a number'', sv)
           | Some uid \<Rightarrow>
               (case GetMessage env address (or_inbox folder) uid sv of
                  (Inl e, sv') \<Rightarrow> (web_fail e, sv')
                | (Inr raw, sv') \<Rightarrow>
                    if length parts \<ge> 3 \<and> parts ! 1 = ''attachment'' then (handleAttachmentDownload lib raw (parts ! 2), sv')
                    else (Answer 200 (ShowMessage (RenderMessage (wl_render lib) raw uid)), sv')))"

definition handleFolderAdmin :: "web_lib \<Rightarrow> web_env \<Rightarrow> string \<Rightarrow> string \<times> string \<times> string \<Rightarrow> server \<Rightarrow> web_answer \<times> server" where
  "handleFolderAdmin lib env address = (\<lambda>(action, name, newName) sv.
     (let act = ToLower action;
          run = (\<lambda>r. answer 200 (ShowDone ''ok'')
                  (case r of (Inl e, db) \<Rightarrow> (Some (WebFolder e), sv\<lparr>sv_mail := db\<rparr>) | (Inr _, db) \<Rightarrow> (None, sv\<lparr>sv_mail := db\<rparr>)))
      in if act = ''create'' then run (folders_Create (we_write_ok env 0) (we_now env div Second) address name (sv_mail sv))
         else if act = ''rename'' then run (folders_Rename (we_write_ok env 0) address name newName (sv_mail sv))
         else if act = ''delete'' then run (folders_Delete (we_write_ok env 0) address name (sv_mail sv))
         else (Failure 400 ''BAD_REQUEST'' ''action must be create, rename or delete'', sv)))"

text \<open>What a request does for the user \<open>address\<close>.\<close>

fun web_request_step :: "web_lib \<Rightarrow> web_env \<Rightarrow> string \<Rightarrow> web_request \<Rightarrow> server \<Rightarrow> web_answer \<times> server" where
  "web_request_step lib env address ReqFolders sv =
     (case webmail_ListFolders env sv address of Inl e \<Rightarrow> web_fail e | Inr fs \<Rightarrow> Answer 200 (ShowFolders fs), sv)"
| "web_request_step lib env address (ReqMessages folder q limit offset) sv =
     (case webmail_ListMessages env sv address (or_inbox folder) q limit offset of
        Inl e \<Rightarrow> web_fail e | Inr ms \<Rightarrow> Answer 200 (ShowMessages ms), sv)"
| "web_request_step lib env address (ReqMessage path folder) sv = handleMessage lib env address path folder sv"
| "web_request_step lib env address (ReqSeen body) sv =
     (case body of None \<Rightarrow> (bad_json, sv)
      | Some (folder, uid, seen) \<Rightarrow> answer 200 (ShowDone ''ok'') (SetSeen env address (or_inbox folder) uid seen sv))"
| "web_request_step lib env address (ReqFlagged body) sv =
     (case body of None \<Rightarrow> (bad_json, sv)
      | Some (folder, uid, flagged) \<Rightarrow> answer 200 (ShowDone ''ok'') (SetFlagged env address (or_inbox folder) uid flagged sv))"
| "web_request_step lib env address (ReqSend body) sv =
     (case body of None \<Rightarrow> (bad_json, sv)
      | Some b \<Rightarrow> answer 202 (ShowDone ''queued'') (Send lib env (decodeCompose address b) sv))"
| "web_request_step lib env address (ReqDelete body) sv =
     (case body of None \<Rightarrow> (bad_json, sv)
      | Some (folder, uid) \<Rightarrow>
          if uid = 0 then (no_uid, sv) else answer 200 (ShowDone ''deleted'') (webmail_Delete env address (or_inbox folder) uid sv))"
| "web_request_step lib env address (ReqFolderAdmin body) sv =
     (if \<not> wl_folders lib then (Failure 503 ''FOLDERS_UNAVAILABLE'' ''Folder management is not configured'', sv)
      else case body of None \<Rightarrow> (bad_json, sv) | Some b \<Rightarrow> handleFolderAdmin lib env address b sv)"
| "web_request_step lib env address (ReqMove body) sv =
     (case body of None \<Rightarrow> (bad_json, sv)
      | Some (folder, uid, target) \<Rightarrow>
          if uid = 0 then (no_uid, sv) else answer 200 (ShowDone ''moved'') (webmail_Move env address (or_inbox folder) uid target sv))"
| "web_request_step lib env address (ReqSaveDraft body replaceUID) sv =
     (case body of None \<Rightarrow> (bad_json, sv)
      | Some b \<Rightarrow>
          (case SaveDraft lib env (decodeCompose address b) replaceUID sv of
             (Inl e, sv') \<Rightarrow> (web_fail e, sv') | (Inr uid, sv') \<Rightarrow> (Answer 200 (ShowSaved uid), sv')))"

definition web_serve :: "web_lib \<Rightarrow> web_env \<Rightarrow> web_credentials \<Rightarrow> web_request \<Rightarrow> server \<Rightarrow> web_answer \<times> server" where
  "web_serve lib env cred req sv =
     (case authenticate (wl_token lib) (we_now env div Second) cred of
        None \<Rightarrow> (Failure 401 ''UNAUTHORIZED'' ''User session required'', sv)
      | Some session \<Rightarrow> web_request_step lib env (ws_Email session) req sv)"

end
