(* ===== verification/Webmail_Compose_Properties.thy ===== *)
theory Webmail_Compose_Properties
  imports Webmail_Compose Vacation_Properties
begin

text \<open>
  What a composed message says: read back by the mail parser it has exactly the intended fields, once each, whatever the user typed
  into the subject or the browser sent as the message it answers, and the blind copies are in none of them. The two conditions
  are needed, as the last section shows.
\<close>

section \<open>Texts\<close>

lemma collapse_clean: "\<not> Contains (collapse s) LF3"
proof (induction s rule: collapse.induct)
  case (1 s)
  then show ?case by (subst collapse.simps) simp
qed

lemma Index_append: "Index s p = Some i \<Longrightarrow> \<exists>a b. s = a @ p @ b \<and> length a = i"
proof (induction s p arbitrary: i rule: Index.induct)
  case (1 s p)
  show ?case
  proof (cases "HasPrefix s p")
    case True
    then have "i = 0" using 1(2) by (simp add: Index.simps [of s])
    then show ?thesis using True by (auto simp: HasPrefix_iff)
  next
    case False
    then obtain c t j where s: "s = c # t" "Index t p = Some j" "i = Suc j"
      using 1(2) by (subst (asm) Index.simps) (auto split: list.splits)
    then obtain a b where "t = a @ p @ b" "length a = j" using 1(1) [OF False, of c t j] by auto
    then show ?thesis using s by (intro exI [of _ "c # a"] exI [of _ b]) simp
  qed
qed

lemma Contains_iff: "Contains s p \<longleftrightarrow> (\<exists>a b. s = a @ p @ b)"
proof
  assume "Contains s p"
  then show "\<exists>a b. s = a @ p @ b" using Index_append by (fastforce simp: Contains_def)
next
  assume "\<exists>a b. s = a @ p @ b"
  then obtain a b where "s = a @ p @ b" by blast
  moreover have "Index (a @ p @ b) p \<noteq> None"
  proof (induction a)
    case (Cons c a)
    then show ?case by (subst Index.simps) auto
  qed (subst Index.simps, simp)
  ultimately show "Contains s p" by (simp add: Contains_def)
qed

lemma TrimSpace_infix: "\<exists>a b. s = a @ TrimSpace s @ b"
proof -
  have "s = takeWhile IsSpace s @ dropWhile IsSpace s" by simp
  moreover have "\<exists>b. t = TrimRightFunc P t @ b" for P and t :: string
    unfolding TrimRightFunc_def by (metis rev_append rev_rev_ident takeWhile_dropWhile_id)
  ultimately show ?thesis unfolding TrimSpace_def TrimFunc_def by metis
qed

text \<open>
  The plain text of an HTML message has no two blank lines in a row and no white space around it.
\<close>

lemma htmlToPlainText_tidy:
  "\<not> Contains (htmlToPlainText html) LF3 \<and> TrimSpace (htmlToPlainText html) = htmlToPlainText html"
proof -
  let ?s = "collapse (Replacer html_entities (drop_tags 0 (Replacer block_elements html)))"
  have "Contains ?s LF3" if "Contains (TrimSpace ?s) LF3"
  proof -
    from that obtain a b where "TrimSpace ?s = a @ LF3 @ b" by (auto simp: Contains_iff)
    moreover obtain c d where "?s = c @ TrimSpace ?s @ d" using TrimSpace_infix by blast
    ultimately show ?thesis unfolding Contains_iff by (metis append.assoc)
  qed
  then show ?thesis using collapse_clean by (auto simp: htmlToPlainText_def)
qed

lemma cleanMessageID_safe:
  assumes "cleanMessageID s \<noteq> []"
  shows "cleanMessageID s = TrimSpace s \<and> LF \<notin> set (cleanMessageID s) \<and> CR \<notin> set (cleanMessageID s) \<and> length (cleanMessageID s) \<le> 998"
  using assms by (auto simp: cleanMessageID_def Let_def ContainsAny_def list_ex_iff split: if_splits)

section \<open>Recipients\<close>

lemma normaliseRecipients_distinct: "distinct (normaliseRecipients lib raw)"
proof -
  have one: "distinct (foldl (add_recipient lib) out parts)" if "distinct out" for out parts
    using that by (induction parts arbitrary: out) (auto simp: add_recipient_def split: option.split)
  have "distinct (foldl (\<lambda>out entry. foldl (add_recipient lib) out (FieldsFunc P entry)) out raw)" if "distinct out" for out P
    using that one by (induction raw arbitrary: out) auto
  then show ?thesis by (simp add: normaliseRecipients_def)
qed

lemma normaliseRecipients_set:
  "set (normaliseRecipients lib raw) = {a. \<exists>entry\<in>set raw. \<exists>part\<in>set (FieldsFunc (\<lambda>c. c = CHR '','' \<or> c = CHR '';'') entry).
     cl_address lib (TrimSpace part) = Some a}"
proof -
  have one: "set (foldl (add_recipient lib) out parts) = set out \<union> {a. \<exists>part\<in>set parts. cl_address lib (TrimSpace part) = Some a}" for out parts
    by (induction parts arbitrary: out) (auto simp: add_recipient_def split: option.split)
  have "set (foldl (\<lambda>out entry. foldl (add_recipient lib) out (FieldsFunc P entry)) out raw)
      = set out \<union> {a. \<exists>entry\<in>set raw. \<exists>part\<in>set (FieldsFunc P entry). cl_address lib (TrimSpace part) = Some a}" for out P
    by (induction raw arbitrary: out) (auto simp: one)
  then show ?thesis by (simp add: normaliseRecipients_def)
qed

section \<open>Reading a composed message back\<close>

text \<open>The fields a message is to have, without its recipients other than \<^verbatim>\<open>To\<close> and \<^verbatim>\<open>Cc\<close>.\<close>

definition composed_fields :: "compose_lib \<Rightarrow> compose_draw \<Rightarrow> string \<Rightarrow> ComposeInput \<Rightarrow> (string \<times> string) list" where
  "composed_fields lib draw localHost input =
     [(''From'', ci_From input), (''To'', Join (ci_To input) '', '')]
     @ (if ci_Cc input \<noteq> [] then [(''Cc'', Join (ci_Cc input) '', '')] else [])
     @ (let id = cleanMessageID (ci_InReplyTo input) in if id \<noteq> [] then [(''In-Reply-To'', id), (''References'', id)] else [])
     @ (if ci_Important input then [(''Importance'', ''high''), (''X-Priority'', ''1'')] else [])
     @ [(''Subject'', encodeHeaderValue (cl_bencode lib) (ci_Subject input)), (''Date'', cd_date draw),
        (''Message-ID'', ''<'' @ cd_uuid draw @ ''@'' @ localHost @ ''>''), (''MIME-Version'', ''1.0'')]
     @ (if ci_HTML input = [] then [(''Content-Type'', ''text/plain; charset=utf-8''), (''Content-Transfer-Encoding'', ''8bit'')]
        else [(''Content-Type'', ''multipart/alternative; boundary='' @ [DQUOTE] @ ''=_alt_'' @ cd_boundary draw @ [DQUOTE])])"

definition composed_body :: "compose_draw \<Rightarrow> ComposeInput \<Rightarrow> string" where
  "composed_body draw input =
     (if ci_HTML input = [] then normaliseEOL (compose_text input)
      else let boundary = ''=_alt_'' @ cd_boundary draw
           in ''--'' @ boundary @ CRLF @ plain_part (compose_text input)
              @ ''--'' @ boundary @ CRLF @ html_part (ci_HTML input) @ ''--'' @ boundary @ ''--'' @ CRLF)"

lemma buildMimeMessage_fields:
  "ci_To input \<noteq> [] \<Longrightarrow> buildMimeMessage lib draw localHost input recipients =
     concat (map field_line (composed_fields lib draw localHost input)) @ CRLF @ composed_body draw input"
  by (simp add: buildMimeMessage_def composed_fields_def composed_body_def field_line_def plain_part_def Let_def)

lemma read_fields:
  assumes "distinct (map (\<lambda>f. CanonicalMIMEHeaderKey (fst f)) fs)" "\<forall>f\<in>set fs. CanonicalMIMEHeaderKey (fst f) \<notin> fst ` set m"
  shows "foldl (\<lambda>m f. add_field (CanonicalMIMEHeaderKey (fst f)) (field_value (snd f)) m) m fs =
    m @ map (\<lambda>f. (CanonicalMIMEHeaderKey (fst f), [field_value (snd f)])) fs"
  using assms
proof (induction fs arbitrary: m)
  case (Cons f fs)
  have new: "add_field k v m = m @ [(k, [v])]" if "k \<notin> fst ` set m" for k v m
    using that by (induction k v m rule: add_field.induct) auto
  have "CanonicalMIMEHeaderKey (fst g) \<noteq> CanonicalMIMEHeaderKey (fst f)" if "g \<in> set fs" for g
    using Cons.prems(1) that by (force simp: image_iff)
  then have "foldl (\<lambda>m f. add_field (CanonicalMIMEHeaderKey (fst f)) (field_value (snd f)) m)
      (m @ [(CanonicalMIMEHeaderKey (fst f), [field_value (snd f)])]) fs
      = (m @ [(CanonicalMIMEHeaderKey (fst f), [field_value (snd f)])]) @ map (\<lambda>f. (CanonicalMIMEHeaderKey (fst f), [field_value (snd f)])) fs"
    using Cons.prems by (intro Cons.IH) auto
  then show ?case using Cons.prems by (simp add: new)
qed simp

lemma composed_keys: "distinct (map (\<lambda>f. CanonicalMIMEHeaderKey (fst f)) (composed_fields lib draw localHost input))"
proof -
  have keys: "CanonicalMIMEHeaderKey ''From'' = ''From''" "CanonicalMIMEHeaderKey ''To'' = ''To''" "CanonicalMIMEHeaderKey ''Cc'' = ''Cc''"
      "CanonicalMIMEHeaderKey ''In-Reply-To'' = ''In-Reply-To''" "CanonicalMIMEHeaderKey ''References'' = ''References''"
      "CanonicalMIMEHeaderKey ''Importance'' = ''Importance''" "CanonicalMIMEHeaderKey ''X-Priority'' = ''X-Priority''"
      "CanonicalMIMEHeaderKey ''Subject'' = ''Subject''" "CanonicalMIMEHeaderKey ''Date'' = ''Date''"
      "CanonicalMIMEHeaderKey ''Message-ID'' = ''Message-Id''" "CanonicalMIMEHeaderKey ''MIME-Version'' = ''Mime-Version''"
      "CanonicalMIMEHeaderKey ''Content-Type'' = ''Content-Type''"
      "CanonicalMIMEHeaderKey ''Content-Transfer-Encoding'' = ''Content-Transfer-Encoding''"
    by code_simp+
  show ?thesis
    by (cases "ci_Cc input = []"; cases "cleanMessageID (ci_InReplyTo input) = []"; cases "ci_Important input"; cases "ci_HTML input = []")
      (simp_all add: composed_fields_def Let_def keys)
qed

definition one_line :: "string \<Rightarrow> bool" where
  "one_line s \<longleftrightarrow> LF \<notin> set s"

lemma one_line_Join: "\<forall>w\<in>set ws. one_line w \<Longrightarrow> LF \<notin> set (Join ws '', '')"
  using set_Join [of ws "'', ''"] by (auto simp: one_line_def)

definition composed_names :: "string list" where
  "composed_names = [''From'', ''To'', ''Cc'', ''In-Reply-To'', ''References'', ''Importance'', ''X-Priority'', ''Subject'', ''Date'',
     ''Message-ID'', ''MIME-Version'', ''Content-Type'', ''Content-Transfer-Encoding'']"

lemma good_name: "k \<in> set composed_names \<Longrightarrow> good_field (k, v) \<longleftrightarrow> LF \<notin> set v"
proof -
  have "list_all (\<lambda>k. k \<noteq> [] \<and> list_all validHeaderFieldByte k) composed_names" by code_simp
  then show "k \<in> set composed_names \<Longrightarrow> good_field (k, v) \<longleftrightarrow> LF \<notin> set v" by (auto simp: list_all_iff good_field_def)
qed

lemma composed_in_names: "f \<in> set (composed_fields lib draw localHost input) \<Longrightarrow> fst f \<in> set composed_names"
  by (auto simp: composed_fields_def composed_names_def Let_def split: if_splits)

lemma composed_good:
  assumes "one_line (ci_From input)" "\<forall>a\<in>set (ci_To input) \<union> set (ci_Cc input). one_line a"
    and "one_line (cd_date draw)" "one_line (cd_uuid draw)" "one_line (cd_boundary draw)" "one_line localHost" "\<And>s. one_line (cl_bencode lib s)"
  shows "list_all good_field (composed_fields lib draw localHost input)"
proof -
  have lists: "LF \<notin> set (Join (ci_To input) '', '')" "LF \<notin> set (Join (ci_Cc input) '', '')"
    using assms(2) by (auto intro!: one_line_Join)
  have subject: "LF \<notin> set (encodeHeaderValue (cl_bencode lib) (ci_Subject input))"
    using assms(7) by (intro encodeHeaderValue_LF) (simp add: one_line_def)
  have reply: "LF \<notin> set (cleanMessageID (ci_InReplyTo input))"
    using cleanMessageID_safe [of "ci_InReplyTo input"] by fastforce
  have "LF \<notin> set (snd f)" if "f \<in> set (composed_fields lib draw localHost input)" for f
    using that assms(1,3-6) lists subject reply by (auto simp: composed_fields_def Let_def one_line_def split: if_splits)
  then show ?thesis using good_name composed_in_names unfolding list_all_iff by (metis prod.collapse)
qed

text \<open>
  C39. A composed message is what was composed. When the message has a \<^verbatim>\<open>To\<close> and no address of it or of \<^verbatim>\<open>Cc\<close> has a line break in it,
  the mail parser reads back exactly the fields intended, once each and in order, with their values, and the body: whatever is in the subject
  or in the Message-ID that is answered adds no field, and the envelope, with its blind copies, is in none of them.
\<close>

theorem composed_reads_back:
  assumes "ci_To input \<noteq> []" "one_line (ci_From input)" "list_all one_line (ci_To input)" "list_all one_line (ci_Cc input)"
    and "one_line (cd_date draw)" "one_line (cd_uuid draw)" "one_line (cd_boundary draw)" "one_line localHost" "\<And>s. one_line (cl_bencode lib s)"
  shows "ReadMessage (buildMimeMessage lib draw localHost input recipients) =
    Some (map (\<lambda>f. (CanonicalMIMEHeaderKey (fst f), [field_value (snd f)])) (composed_fields lib draw localHost input), composed_body draw input)"
proof -
  have good: "list_all good_field (composed_fields lib draw localHost input)"
    using assms(2-9) by (intro composed_good) (auto simp: list_all_iff)
  have first: "buildMimeMessage lib draw localHost input recipients \<noteq> [] \<and> \<not> isBlank (hd (buildMimeMessage lib draw localHost input recipients))"
    by (simp add: buildMimeMessage_def isBlank_def)
  show ?thesis
    using first unfolding ReadMessage_def buildMimeMessage_fields [OF assms(1)] readHeader_fields [OF good]
    by (simp add: read_fields [OF composed_keys])
qed

definition demo_compose_lib :: compose_lib where
  "demo_compose_lib = \<lparr>cl_address = (\<lambda>s. if Contains s ''@'' \<and> \<not> Contains s [LF] then Some s else None), cl_bencode = (\<lambda>s. ''encoded'')\<rparr>"

definition demo_draw :: compose_draw where
  "demo_draw = \<lparr>cd_date = ''Thu, 01 Jan 2026 00:00:00 +0000'', cd_uuid = ''u1'', cd_boundary = ''b1''\<rparr>"

definition demo_compose :: ComposeInput where
  "demo_compose = \<lparr>ci_From = ''u@y'', ci_To = [''a@x''], ci_Cc = [], ci_Bcc = [''hidden@x''], ci_Subject = ''hi'' @ CRLF @ ''Bcc: all@x'',
     ci_Text = ''text'', ci_HTML = [], ci_DraftUID = 0, ci_Important = False, ci_InReplyTo = []\<rparr>"

lemma composed_reads_back_witness:
  "ReadMessage (buildMimeMessage demo_compose_lib demo_draw ''mx'' demo_compose [''a@x'', ''hidden@x'']) =
    Some (map (\<lambda>f. (CanonicalMIMEHeaderKey (fst f), [field_value (snd f)])) (composed_fields demo_compose_lib demo_draw ''mx'' demo_compose),
      ''text'' @ CRLF)"
proof -
  have "composed_body demo_draw demo_compose = ''text'' @ CRLF" by code_simp
  moreover have "ci_To demo_compose \<noteq> []" "one_line (ci_From demo_compose)" "list_all one_line (ci_To demo_compose)" "list_all one_line (ci_Cc demo_compose)"
      "one_line (cd_date demo_draw)" "one_line (cd_uuid demo_draw)" "one_line (cd_boundary demo_draw)" "one_line ''mx''"
      "\<And>s. one_line (cl_bencode demo_compose_lib s)"
    by (simp_all add: demo_compose_def demo_draw_def demo_compose_lib_def one_line_def)
  ultimately show ?thesis using composed_reads_back [of demo_compose demo_draw "''mx''" demo_compose_lib "[''a@x'', ''hidden@x'']"] by simp
qed

section \<open>Why the conditions are needed\<close>

text \<open>
  A message with blind copies only: the fallback for an empty \<^verbatim>\<open>To\<close> is the whole envelope, so the blind recipients are written into the
  message that all of them get.
\<close>

lemma blind_only_is_shown:
  assumes "ci_To input = []"
  shows "\<exists>rest. buildMimeMessage lib draw localHost input recipients
    = ''From: '' @ ci_From input @ CRLF @ ''To: '' @ Join recipients '', '' @ CRLF @ rest"
  using assms by (auto simp: buildMimeMessage_def normaliseRecipients_def Let_def)

text \<open>
  The addresses are written as they came. One that is no address is not delivered to, but a line break in it starts a field.
\<close>

lemma address_adds_field:
  "map_option (\<lambda>(h, b). header_Get h ''Reply-To'')
     (ReadMessage (buildMimeMessage demo_compose_lib demo_draw ''mx''
        (demo_compose\<lparr>ci_To := [''a@x'', ''q'' @ CRLF @ ''Reply-To: evil@x'']\<rparr>) [''a@x''])) = Some ''evil@x''"
  "normaliseRecipients demo_compose_lib [''a@x'', ''q'' @ CRLF @ ''Reply-To: evil@x''] = [''a@x'']"
  by code_simp+

end
