(* ===== verification/Webmail_Render_Properties.thy ===== *)
theory Webmail_Render_Properties
  imports Webmail_Render
begin

text \<open>
  What a message can do to its reader: the inline images are images and never SVG, an attachment is served neither under a type a
  browser renders nor under a name that leaves its header, and of the attachments that are listed with a name the first one of that name can be fetched.
\<close>

section \<open>Rendering\<close>

definition inline_ok :: "string \<times> string \<Rightarrow> bool" where
  "inline_ok = (\<lambda>(cid, uri). \<exists>mediaType rest. uri = ''data:'' @ mediaType @ '';base64,'' @ rest
     \<and> HasPrefix mediaType ''image/'' \<and> mediaType \<noteq> ''image/svg+xml'')"

lemma candidate_type:
  assumes "isInlineImageCandidate d mt c"
  shows "HasPrefix (ToLower mt) ''image/'' \<and> ToLower mt \<noteq> ''image/svg+xml''"
proof -
  have "ToLower ''image/svg+xml'' = ''image/svg+xml''" by code_simp
  then show ?thesis using assms by (auto simp: isInlineImageCandidate_def EqualFold_def split: if_splits)
qed

lemma collectInlineImage_ok:
  assumes "isInlineImageCandidate d mt c" "\<forall>e\<in>set (rm_InlineImages out). inline_ok e"
  shows "(\<forall>e\<in>set (rm_InlineImages (snd (collectInlineImage b64 h body mt out))). inline_ok e)
    \<and> rm_Attachments (snd (collectInlineImage b64 h body mt out)) = rm_Attachments out"
proof -
  have "inline_ok (cid, ''data:'' @ ToLower mt @ '';base64,'' @ rest)" for cid rest
    unfolding inline_ok_def prod.case by (intro exI [of _ "ToLower mt"] exI [of _ rest] conjI refl) (use candidate_type [OF assms(1)] in simp_all)
  then show ?thesis using assms(2) by (auto simp: collectInlineImage_def Let_def put_def split: option.split)
qed

text \<open>The names of the attachments of a tree, in order: the parts that are listed.\<close>

definition is_listed :: "part_head \<Rightarrow> bool" where
  "is_listed h \<longleftrightarrow> ph_disposition_ok h \<and> (ph_disposition h = ''attachment'' \<or> ph_disposition h = ''inline'' \<and> ph_filename h \<noteq> [])"

fun heads :: "mime_part \<Rightarrow> (part_head \<times> (string \<times> bool)) list" where
  "heads (Part h body) = [(h, body)]"
| "heads (Parts h parts body) = concat (map heads parts)"

lemma collectParts_leaf:
  assumes "\<forall>e\<in>set (rm_InlineImages out). inline_ok e"
  shows "(\<forall>e\<in>set (rm_InlineImages (collectParts b64 (Part h body) out)). inline_ok e)
    \<and> (rm_Attachments (collectParts b64 (Part h body) out) = rm_Attachments out
       \<or> is_listed h \<and> rm_Attachments (collectParts b64 (Part h body) out)
           = rm_Attachments out @ [if ph_filename h = [] then ''attachment'' else ph_filename h])"
proof -
  define mt where "mt = (if ph_type_ok h then ph_type h else ''text/plain'')"
  define d where "d = (if ph_disposition_ok h then ph_disposition h else [])"
  define inl where "inl = (if isInlineImageCandidate d mt (ph_content_id h) then collectInlineImage b64 h body mt out else (False, out))"
  have inl: "\<forall>e\<in>set (rm_InlineImages (snd inl)). inline_ok e" "rm_Attachments (snd inl) = rm_Attachments out"
    using collectInlineImage_ok [OF _ assms, of d mt "ph_content_id h" b64 h body] assms by (auto simp: inl_def)
  have listed: "is_listed h" if "d = ''attachment'' \<or> d = ''inline'' \<and> ph_filename h \<noteq> []"
    using that by (auto simp: d_def is_listed_def split: if_splits)
  show ?thesis
    unfolding collectParts.simps Let_def mt_def [symmetric] d_def [symmetric] inl_def [symmetric]
    using inl assms listed by (auto split: option.split)
qed

lemma collectParts_shown:
  assumes "\<forall>e\<in>set (rm_InlineImages out). inline_ok e"
  shows "(\<forall>e\<in>set (rm_InlineImages (collectParts b64 part out)). inline_ok e)
    \<and> (\<forall>name\<in>set (rm_Attachments (collectParts b64 part out)). name \<in> set (rm_Attachments out)
        \<or> (\<exists>(h, body)\<in>set (heads part). is_listed h \<and> name = (if ph_filename h = [] then ''attachment'' else ph_filename h)))"
  using assms
proof (induction part arbitrary: out)
  case (Part h body)
  then show ?case using collectParts_leaf [OF Part, of b64 h body] by fastforce
next
  case (Parts h parts body)
  have "(\<forall>e\<in>set (rm_InlineImages (foldl (\<lambda>out part. collectParts b64 part out) out ps)). inline_ok e)
    \<and> (\<forall>name\<in>set (rm_Attachments (foldl (\<lambda>out part. collectParts b64 part out) out ps)). name \<in> set (rm_Attachments out)
        \<or> (\<exists>p\<in>set ps. \<exists>(h, body)\<in>set (heads p). is_listed h \<and> name = (if ph_filename h = [] then ''attachment'' else ph_filename h)))"
    if "set ps \<subseteq> set parts" "\<forall>e\<in>set (rm_InlineImages out). inline_ok e" for ps out
    using that
  proof (induction ps arbitrary: out)
    case (Cons p ps)
    have p: "p \<in> set parts" using Cons.prems by simp
    note first = Parts.IH [OF p Cons.prems(2)]
    have "set ps \<subseteq> set parts" using Cons.prems by simp
    note rest = Cons.IH [OF this conjunct1 [OF first]]
    show ?case
    proof (intro conjI ballI)
      show "inline_ok e" if "e \<in> set (rm_InlineImages (foldl (\<lambda>out part. collectParts b64 part out) out (p # ps)))" for e
        using rest that by simp
      fix name
      assume "name \<in> set (rm_Attachments (foldl (\<lambda>out part. collectParts b64 part out) out (p # ps)))"
      then consider "name \<in> set (rm_Attachments (collectParts b64 p out))"
        | "\<exists>q\<in>set ps. \<exists>(h, body)\<in>set (heads q). is_listed h \<and> name = (if ph_filename h = [] then ''attachment'' else ph_filename h)"
        using rest by (simp only: foldl_Cons) blast
      then show "name \<in> set (rm_Attachments out) \<or> (\<exists>q\<in>set (p # ps). \<exists>(h, body)\<in>set (heads q). is_listed h
          \<and> name = (if ph_filename h = [] then ''attachment'' else ph_filename h))"
        using first by cases (simp only: list.set bex_simps, blast)+
    qed
  qed simp
  from this [OF subset_refl Parts.prems] show ?case by (simp only: collectParts.simps heads.simps set_concat set_map) blast
qed

section \<open>One attachment\<close>

text \<open>
  The parts in the order in which an attachment is looked for (a multipart itself after its parts), the name a part goes by, and the
  first readable part of a name.
\<close>

fun search_order :: "mime_part \<Rightarrow> (part_head \<times> (string \<times> bool)) list" where
  "search_order (Part h body) = [(h, body)]"
| "search_order (Parts h parts body) = concat (map search_order parts) @ [(h, body)]"

definition goes_by :: "string \<Rightarrow> part_head \<Rightarrow> bool" where
  "goes_by name h \<longleftrightarrow> EqualFold (if ph_filename h = [] then ph_type_name h else ph_filename h) name"

definition first_named :: "string \<Rightarrow> (part_head \<times> (string \<times> bool)) list \<Rightarrow> (string \<times> string) option" where
  "first_named name parts =
     (case filter (\<lambda>(h, (content, ok)). goes_by name h \<and> ok) parts of
        [] \<Rightarrow> None
      | (h, (content, ok)) # _ \<Rightarrow> Some (content, ph_type h))"

lemma first_named_append: "first_named name (xs @ ys) = (case first_named name xs of None \<Rightarrow> first_named name ys | Some r \<Rightarrow> Some r)"
  by (auto simp: first_named_def split: list.splits)

lemma extract_here_first: "name \<noteq> [] \<Longrightarrow> extract_here h body name = first_named name [(h, body)]"
  by (auto simp: extract_here_def first_named_def part_answers_def goes_by_def ReadAll_def Let_def split: prod.splits)

lemma ExtractAttachment_first:
  "name \<noteq> [] \<Longrightarrow> ExtractAttachment part name = first_named name (search_order part)"
  "name \<noteq> [] \<Longrightarrow> extract_first parts name = first_named name (concat (map search_order parts))"
proof (induction part name and parts name rule: ExtractAttachment_extract_first.induct)
  case (3 name)
  show ?case by (simp add: first_named_def)
qed (auto simp: extract_here_first first_named_append split: option.split)

lemma heads_searched: "set (heads part) \<subseteq> set (search_order part)"
  by (induction part) auto

definition readable_as :: "string \<Rightarrow> part_head \<times> (string \<times> bool) \<Rightarrow> bool" where
  "readable_as name p \<longleftrightarrow> goes_by name (fst p) \<and> snd (snd p)"

lemma first_named_split:
  assumes "(h, content, True) \<in> set parts" "goes_by name h"
  shows "\<exists>before f c after. parts = before @ (f, c, True) # after \<and> goes_by name f
    \<and> (\<forall>p \<in> set before. \<not> readable_as name p) \<and> first_named name parts = Some (c, ph_type f)"
proof -
  have "\<exists>p \<in> set parts. readable_as name p" using assms by (force simp: readable_as_def)
  then obtain before x "after" where x: "parts = before @ x # after" "readable_as name x" "\<forall>p \<in> set before. \<not> readable_as name p"
    by (rule split_list_first_propE)
  obtain f c where f: "x = (f, c, True)" "goes_by name f" using x(2) by (cases x) (auto simp: readable_as_def)
  have "(\<lambda>(h, (content, ok)). goes_by name h \<and> ok) = readable_as name" by (auto simp: readable_as_def)
  moreover have "filter (readable_as name) before = []" using x(3) by (auto simp: filter_empty_conv)
  ultimately have "first_named name parts = Some (c, ph_type f)"
    using x(1,2) by (simp add: first_named_def f(1))
  with x(1,3) f show ?thesis by blast
qed

text \<open>
  C40. What the reader is shown is harmless, and what is listed can be fetched. Of any message that parses, every inline image is a
  \<^verbatim>\<open>data:\<close> URI of an image type and never of SVG. Every attachment that is listed under its own name (not the default
  name) is a part with that file name; looking that name up returns, when the bodies of the message can be read, the
  content and the declared type of the first part that goes by the name, case aside, in the order of the tree. So
  an attachment whose name no part before it has is returned itself, and of several with the same name only the first can be fetched.
  (The path of the download ends at the first slash, so the program never looks up a name with a slash in it.)
\<close>

theorem rendered_message_safe:
  assumes "rl_read lib raw = Some entity"
  shows "list_all inline_ok (rm_InlineImages (RenderMessage lib raw uid))
    \<and> (list_all (snd \<circ> snd) (heads entity) \<longrightarrow> name \<in> set (rm_Attachments (RenderMessage lib raw uid)) \<longrightarrow> name \<noteq> ''attachment''
       \<longrightarrow> (\<exists>h content. (h, content, True) \<in> set (heads entity) \<and> is_listed h \<and> ph_filename h = name)
           \<and> (\<exists>before f content after. search_order entity = before @ (f, content, True) # after
                \<and> goes_by name f \<and> (\<forall>p \<in> set before. \<not> readable_as name p)
                \<and> ExtractAttachment entity name = Some (content, ph_type f)))"
proof -
  define out where "out = (empty_render uid)\<lparr>rm_Subject := rl_subject lib raw,
               rm_From := (case rl_addresses lib raw ''From'' of Some (a # _) \<Rightarrow> a | _ \<Rightarrow> []),
               rm_To := (case rl_addresses lib raw ''To'' of Some addrs \<Rightarrow> addrs | None \<Rightarrow> []),
               rm_Cc := (case rl_addresses lib raw ''Cc'' of Some addrs \<Rightarrow> addrs | None \<Rightarrow> []),
               rm_MessageID := TrimSpace (rl_field lib raw ''Message-Id''),
               rm_InReplyTo := TrimSpace (rl_field lib raw ''In-Reply-To''),
               rm_Important := isHighPriority (rl_field lib raw ''Importance'') (rl_field lib raw ''X-Priority''),
               rm_Date := (case rl_date lib raw of Some d \<Rightarrow> d | None \<Rightarrow> [])\<rparr>"
  have empty: "rm_InlineImages out = []" "rm_Attachments out = []" by (simp_all add: out_def empty_render_def)
  have r: "RenderMessage lib raw uid = collectParts (rl_b64 lib) entity out"
    unfolding RenderMessage_def assms option.case out_def ..
  have "\<forall>e\<in>set (rm_InlineImages out). inline_ok e" using empty by simp
  note shown = collectParts_shown [OF this, of "rl_b64 lib" entity]
  have "(\<exists>h content. (h, content, True) \<in> set (heads entity) \<and> is_listed h \<and> ph_filename h = name)
      \<and> (\<exists>before f content after. search_order entity = before @ (f, content, True) # after
           \<and> goes_by name f \<and> (\<forall>p \<in> set before. \<not> readable_as name p)
           \<and> ExtractAttachment entity name = Some (content, ph_type f))"
    if ok: "list_all (snd \<circ> snd) (heads entity)" and name: "name \<in> set (rm_Attachments (RenderMessage lib raw uid))" "name \<noteq> ''attachment''"
  proof -
    obtain h body where h: "(h, body) \<in> set (heads entity)" "is_listed h" "name = (if ph_filename h = [] then ''attachment'' else ph_filename h)"
      using shown name(1) unfolding r empty by fastforce
    have named: "ph_filename h \<noteq> []" "name = ph_filename h" using h(3) name(2) by presburger+
    have "snd body" using ok h(1) by (auto simp: list_all_iff)
    then have body: "(h, fst body, True) \<in> set (heads entity)" using h(1) by (cases body) simp
    have "goes_by name h" using named by (simp add: goes_by_def EqualFold_def)
    with body heads_searched [of entity] first_named_split [where name = name and parts = "search_order entity" and h = h and content = "fst body"]
    obtain before f content "after" where split: "search_order entity = before @ (f, content, True) # after" "goes_by name f"
      "\<forall>p \<in> set before. \<not> readable_as name p" "first_named name (search_order entity) = Some (content, ph_type f)" by blast
    have "ExtractAttachment entity name = Some (content, ph_type f)"
      using split(4) ExtractAttachment_first(1) [of name entity] named by simp
    with body h(2) named split(1-3) show ?thesis by blast
  qed
  then show ?thesis using shown unfolding r list_all_iff by blast
qed

definition demo_head :: "string \<Rightarrow> string \<Rightarrow> part_head" where
  "demo_head ct filename = \<lparr>ph_type_ok = True, ph_type = ct, ph_type_name = [], ph_disposition_ok = True, ph_disposition = ''attachment'',
     ph_filename = filename, ph_content_id = []\<rparr>"

definition demo_render_lib :: "mime_part \<Rightarrow> render_lib" where
  "demo_render_lib entity = \<lparr>rl_read = (\<lambda>raw. Some entity), rl_subject = (\<lambda>raw. []), rl_addresses = (\<lambda>raw f. None), rl_field = (\<lambda>raw f. []),
     rl_date = (\<lambda>raw. None), rl_b64 = (\<lambda>s. s)\<rparr>"

definition demo_tree :: mime_part where
  "demo_tree = Parts (demo_head ''multipart/mixed'' []) [Part (demo_head ''text/html'' ''b.htm'') (''x'', True),
     Part (demo_head ''application/pdf'' ''a.pdf'') (''y'', True), Part (demo_head ''text/plain'' ''A.PDF'') (''z'', True)] ([], True)"

lemma rendered_message_safe_witness:
  "list_all inline_ok (rm_InlineImages (RenderMessage (demo_render_lib demo_tree) ''raw'' 1))
   \<and> (\<exists>before f content after. search_order demo_tree = before @ (f, content, True) # after \<and> goes_by ''a.pdf'' f
       \<and> ExtractAttachment demo_tree ''a.pdf'' = Some (content, ph_type f))
   \<and> ExtractAttachment demo_tree ''a.pdf'' = Some (''y'', ''application/pdf'')"
proof -
  have read: "rl_read (demo_render_lib demo_tree) ''raw'' = Some demo_tree" by (simp add: demo_render_lib_def)
  have "list_all (snd \<circ> snd) (heads demo_tree)" "''a.pdf'' \<in> set (rm_Attachments (RenderMessage (demo_render_lib demo_tree) ''raw'' 1))"
    "ExtractAttachment demo_tree ''a.pdf'' = Some (''y'', ''application/pdf'')"
    by code_simp+
  then show ?thesis using rendered_message_safe [OF read, of 1 "''a.pdf''"] by blast
qed

text \<open>Of two attachments with the same name, case aside, the second cannot be fetched.\<close>

lemma second_of_a_name_not_found:
  "rm_Attachments (RenderMessage (demo_render_lib demo_tree) ''raw'' 1) = [''b.htm'', ''a.pdf'', ''A.PDF'']"
  "ExtractAttachment demo_tree ''A.PDF'' = Some (''y'', ''application/pdf'')"
  by code_simp+

text \<open>An attachment without a name is listed under the default name, under which it is not found.\<close>

lemma nameless_not_found:
  "rm_Attachments (RenderMessage (demo_render_lib (Part (demo_head ''application/pdf'' []) (''x'', True))) ''raw'' 1) = [''attachment'']"
  "ExtractAttachment (Part (demo_head ''application/pdf'' []) (''x'', True)) ''attachment'' = None"
  by code_simp+

section \<open>Headers of a download\<close>

definition header_safe :: "char \<Rightarrow> bool" where
  "header_safe c \<longleftrightarrow> (0x20 :: nat) \<le> of_char c \<and> of_char c \<noteq> (0x7F :: nat) \<and> c \<notin> {DQUOTE, BACKSLASH, CHR ''/'', CHR '':''}"

lemma clean_rune_safe: "clean_rune c = Some d \<Longrightarrow> header_safe d"
  by (auto simp: clean_rune_def header_safe_def split: if_splits)

lemma set_TrimSpace: "set (TrimSpace s) \<subseteq> set s"
  by (auto simp: TrimSpace_def TrimFunc_def TrimRightFunc_def dest!: set_dropWhileD)

text \<open>
  What the sender calls an attachment stays in its header. Whatever type and name a part declares, it is served under a type that is not
  one of those a browser renders or runs, and under a name that is not empty, at most 200 bytes long, and has no quote, backslash, slash,
  colon or control character in it.
\<close>

lemma attachment_headers_safe:
  "safeAttachmentContentType declared \<notin> set renderableTypes \<and> safeAttachmentContentType declared \<noteq> []
   \<and> list_all header_safe (sanitiseFilename name) \<and> sanitiseFilename name \<noteq> [] \<and> length (sanitiseFilename name) \<le> 200"
proof -
  have fallback: "''application/octet-stream'' \<notin> set renderableTypes" by code_simp
  have "list_all header_safe ''attachment''" by code_simp
  moreover have "header_safe c" if "c \<in> set (TrimSpace (List.map_filter clean_rune name))" for c
    using that set_TrimSpace [of "List.map_filter clean_rune name"] clean_rune_safe by (auto simp: map_filter_def)
  ultimately show ?thesis using fallback
    by (auto simp: safeAttachmentContentType_def sanitiseFilename_def Let_def list_all_iff dest: in_set_takeD)
qed

end
