(* ===== verification/Webmail_Properties.thy ===== *)
theory Webmail_Properties
  imports Webmail Imap_Properties Submission_Properties Webmail_Compose_Properties Webmail_Render_Properties
begin

text \<open>
  What the webmail guarantees: a request without a session does nothing, one with a session acts on the mailbox of that session
  only, and saving a draft loses neither the old nor the new one.
\<close>

section \<open>What the steps change\<close>

lemma exec_own: "store_inv db \<Longrightarrow> op_mailbox db op = Some mb \<Longrightarrow> own_change mb db (exec db (ok, op))"
  by (simp add: own_change_def mail_store.step_inv exec_le exec_others_aux del: exec.simps)

lemma setFlag_own: "store_inv db \<Longrightarrow> own_change mb db (snd (setFlag ok mb folder uid flag on db))"
  using exec_own [of db "WebSetFlag mb folder uid flag on" mb ok] by simp

lemma webmail_Expunge_own: "store_inv db \<Longrightarrow> own_change mb db (snd (webmail_Expunge ok mb folder uid db))"
  using exec_own [of db "WebExpunge mb folder uid" mb ok] by simp

lemma moveInto_own: "store_inv db \<Longrightarrow> own_change mb db (snd (moveInto ok mb folder uid target db))"
  using exec_own [of db "WebMove mb folder uid target" mb ok] by simp

lemmas webmail_own = setFlag_own webmail_Expunge_own moveInto_own

text \<open>Every message has the row of its body, as the foreign key of \<^verbatim>\<open>messages\<close> has it.\<close>

definition blobs_known :: "mail_db \<Rightarrow> bool" where
  "blobs_known db \<longleftrightarrow> (\<forall>m\<in>set (messages db). \<exists>b\<in>set (blobs db). blob_id b = m_blob m)"

lemma add_blob_own:
  assumes "store_inv db" "blobs_known db"
  shows "own_change mb db (add_blob_row k db)"
proof (cases "list_ex (\<lambda>b. blob_id b = k) (blobs db)")
  case True
  then show ?thesis using assms by (simp add: add_blob_row_def own_change_refl)
next
  case False
  then have none: "m_blob m \<noteq> k" if "m \<in> set (messages db)" for m
    using that assms(2) unfolding blobs_known_def list_ex_iff by metis
  let ?db = "db\<lparr>blobs := blobs db @ [\<lparr>blob_id = k, ref_count = 0\<rparr>]\<rparr>"
  have "map (\<lambda>m. of_bool (m_blob m = k) :: int) (messages db) = map (\<lambda>m. 0) (messages db)"
    by (rule map_cong [OF refl]) (simp add: none)
  then have "sum_list (map (\<lambda>m. of_bool (m_blob m = k) :: int) (messages db)) = 0" by (simp del: map_eq_conv)
  then have "refs_ok ?db" using assms(1) by (auto simp: store_inv_def refs_ok_def sum_rows_def)
  moreover have "keys_ok ?db = keys_ok db" "counts_ok ?db = counts_ok db" "uids_ok ?db = uids_ok db" "owners_ok ?db = owners_ok db"
      "quota_ok ?db = quota_ok db"
    by (simp_all add: keys_ok_def counts_ok_def uids_ok_def owners_ok_def quota_ok_def)
  ultimately have "store_inv (add_blob_row k db)" using False assms(1) by (simp add: store_inv_def add_blob_row_def)
  moreover have "store_le db (add_blob_row k db)" using False store_le_refl [of db] by (simp add: store_le_def add_blob_row_def new_place_def)
  moreover have "others mb (add_blob_row k db) = others mb db" by (simp add: others_def add_blob_row_def)
  ultimately show ?thesis by (simp add: own_change_def)
qed

definition addresses :: "mail_db \<Rightarrow> (uuid \<times> string \<times> bool) list" where
  "addresses db = map (\<lambda>b. (mb_id b, email_address b, mb_active b)) (mailboxes db)"

lemma MailboxIDByAddress_addresses:
  "MailboxIDByAddress db address =
     (case find (\<lambda>(k, e, on). EqualFold e address \<and> on) (addresses db) of None \<Rightarrow> Inl MessageNotFound | Some (k, e, on) \<Rightarrow> Inr k)"
proof -
  show ?thesis by (simp add: MailboxIDByAddress_def addresses_def find_map split: option.split)
qed

lemma PersistAll_own:
  assumes "store_inv db" "pi_mailbox input = mb"
  shows "own_change mb db (snd (PersistAll ok now [input] db)) \<and> addresses (snd (PersistAll ok now [input] db)) = addresses db"
proof -
  obtain r db' where p: "persistOne now input db = (r, db')" by force
  have "own_change mb db db' \<and> addresses db' = addresses db"
  proof (cases r)
    case (Inl e)
    then show ?thesis using p persistOne_failed own_change_refl [OF assms(1)] by blast
  next
    case (Inr uid)
    from persistOne_files [OF p [unfolded Inr]] obtain f n os where f: "filed_ok db f n" "db' = (filed db f n)\<lparr>outbox := os\<rparr>"
        "delivered_row now input f (next_uuid db) n" by blast
    have "m_mailbox n = mb" using f(3) assms(2) by (simp add: delivered_row_def)
    then have "others mb (filed db f n) = others mb db" using filed_others assms(1) f(1) by blast
    then have "others mb db' = others mb db" by (simp add: f(2) others_def)
    moreover have "addresses db' = addresses db" by (simp add: f(2) addresses_def filed_def added_def)
    moreover have "store_le db db'" using f(2) filed_le [OF f(1)] by simp
    ultimately show ?thesis using persistOne_inv [OF assms(1) p] by (simp add: own_change_def)
  qed
  then show ?thesis using p own_change_refl [OF assms(1)] by (auto simp: PersistAll_def split: sum.splits prod.splits)
qed

section \<open>Acting for a mailbox\<close>

text \<open>
  \<open>acts_for mb address sv sv'\<close>: the mail store stays sound, everything in it of other mailboxes stays, the jobs that were queued are of the
  mailbox with its own address as their sender, and no other table changes.
\<close>

definition acts_for :: "uuid \<Rightarrow> string \<Rightarrow> server \<Rightarrow> server \<Rightarrow> bool" where
  "acts_for mb address sv sv' \<longleftrightarrow> own_change mb (sv_mail sv) (sv_mail sv')
     \<and> (\<exists>k sender now. EqualFold sender address \<and> sent_log (sv_jobs sv') = sent_log (sv_jobs sv) @ replicate k (Some mb, sender, now))
     \<and> sv_accounts sv' = sv_accounts sv \<and> sv_domains sv' = sv_domains sv \<and> sv_aliases sv' = sv_aliases sv
     \<and> sv_scripts sv' = sv_scripts sv \<and> sv_vacation sv' = sv_vacation sv \<and> sv_reports sv' = sv_reports sv"

lemma acts_for_refl: "store_inv (sv_mail sv) \<Longrightarrow> acts_for mb address sv sv"
  unfolding acts_for_def by (auto simp: own_change_refl EqualFold_def intro!: exI [of _ 0])

lemma acts_for_mail:
  "own_change mb (sv_mail sv) db \<Longrightarrow> acts_for mb address sv (sv\<lparr>sv_mail := db\<rparr>)"
  unfolding acts_for_def by (auto simp: EqualFold_def intro!: exI [of _ 0])

lemma acts_for_more:
  "acts_for mb address sv sv1 \<Longrightarrow> own_change mb (sv_mail sv1) db \<Longrightarrow> acts_for mb address sv (sv1\<lparr>sv_mail := db\<rparr>)"
  unfolding acts_for_def by (auto intro: own_change_trans)

lemma acts_for_disk: "acts_for mb address sv (sv1\<lparr>sv_disk := d\<rparr>) = acts_for mb address sv sv1"
  by (simp add: acts_for_def)

lemma store_blob_acts:
  assumes "store_inv (sv_mail sv)" "blobs_known (sv_mail sv)" "store_blob sha dir fault raw sv = (r, sv1)"
  shows "acts_for mb address sv sv1 \<and> addresses (sv_mail sv1) = addresses (sv_mail sv)"
proof -
  obtain q d where st: "Store sha dir fault raw (sv_disk sv) = (q, d)" by force
  show ?thesis
  proof (cases q)
    case (Inl e)
    then show ?thesis using assms st acts_for_refl [OF assms(1)] by (auto simp: store_blob_def acts_for_disk)
  next
    case (Inr ref)
    then have "sv1 = sv\<lparr>sv_disk := d, sv_mail := add_blob_row (ref_ID ref) (sv_mail sv)\<rparr>" using assms(3) st by (simp add: store_blob_def)
    moreover have "acts_for mb address sv (sv\<lparr>sv_mail := add_blob_row (ref_ID ref) (sv_mail sv)\<rparr>)"
      by (intro acts_for_mail add_blob_own assms)
    ultimately show ?thesis by (simp add: acts_for_def addresses_def add_blob_row_def)
  qed
qed

lemma Submit_shape:
  "snd (Submit lib env input sv) = sv
   \<or> (\<exists>raw r sv1 t. store_blob (lib_sha256 lib) (lib_baseDir lib) (se_store env) raw sv = (r, sv1) \<and> snd (Submit lib env input sv) = sv1\<lparr>sv_jobs := t\<rparr>)
   \<or> (\<exists>raw blob sv1 t. store_blob (lib_sha256 lib) (lib_baseDir lib) (se_store env) raw sv = (Inr blob, sv1)
        \<and> snd (Submit lib env input sv) = sv1\<lparr>sv_jobs := t, sv_mail := fileSentCopy lib env input blob raw (sv_mail sv1)\<rparr>)"
proof (cases "si_Recipients input = [] \<or> checkSendLimit env input (sv_jobs sv) \<noteq> None
    \<or> Option.bind (si_Body input) (sign_body env (si_DomainName input)) = None")
  case True
  then show ?thesis by (auto simp: Submit_def bind_eq_None_conv split: option.splits)
next
  case False
  then obtain body raw where ok: "si_Recipients input \<noteq> []" "checkSendLimit env input (sv_jobs sv) = None" "si_Body input = Some body"
      "sign_body env (si_DomainName input) body = Some raw" by (auto simp: bind_eq_Some_conv)
  obtain r sv1 where st: "store_blob (lib_sha256 lib) (lib_baseDir lib) (se_store env) raw sv = (r, sv1)" by force
  show ?thesis
  proof (cases r)
    case (Inl e)
    then have "snd (Submit lib env input sv) = sv1\<lparr>sv_jobs := sv_jobs sv1\<rparr>" using ok st by (simp add: Submit_def)
    then show ?thesis using st by blast
  next
    case (Inr blob)
    obtain e t where "enqueue_loop (se_enqueue_ok env) (se_now env) input blob 0 (si_Recipients input) (sv_jobs sv1) = (e, t)" by force
    then have "snd (Submit lib env input sv) = sv1\<lparr>sv_jobs := t\<rparr>
        \<or> snd (Submit lib env input sv) = sv1\<lparr>sv_jobs := t, sv_mail := fileSentCopy lib env input blob raw (sv_mail sv1)\<rparr>"
      using ok st Inr by (cases e) (simp_all add: Submit_def)
    then show ?thesis using st Inr by blast
  qed
qed

lemma Submit_acts:
  assumes "store_inv (sv_mail sv)" "blobs_known (sv_mail sv)" "si_MailboxID input = mb" "EqualFold (si_SenderAddr input) address"
  shows "acts_for mb address sv (snd (Submit lib env input sv)) \<and> addresses (sv_mail (snd (Submit lib env input sv))) = addresses (sv_mail sv)"
proof -
  let ?sv = "snd (Submit lib env input sv)"
  have log: "\<exists>k sender now. EqualFold sender address \<and> sent_log (sv_jobs ?sv) = sent_log (sv_jobs sv) @ replicate k (Some mb, sender, now)"
    using Submit_log [of lib env input sv] assms(3,4) by (metis append_Nil2 replicate_0)
  consider "?sv = sv"
    | raw r sv1 where "store_blob (lib_sha256 lib) (lib_baseDir lib) (se_store env) raw sv = (r, sv1)"
        "\<exists>t. ?sv = sv1\<lparr>sv_jobs := t\<rparr>"
    | raw blob sv1 where "store_blob (lib_sha256 lib) (lib_baseDir lib) (se_store env) raw sv = (Inr blob, sv1)"
        "\<exists>t. ?sv = sv1\<lparr>sv_jobs := t, sv_mail := fileSentCopy lib env input blob raw (sv_mail sv1)\<rparr>"
    using Submit_shape [of lib env input sv] by blast
  then show ?thesis
  proof cases
    case 1
    then show ?thesis using acts_for_refl [OF assms(1)] by simp
  next
    case 2
    then show ?thesis using store_blob_acts [OF assms(1,2) 2(1), of mb address] log by (auto simp: acts_for_def)
  next
    case 3
    note st = store_blob_acts [OF assms(1,2) 3(1), of mb address]
    have inv: "store_inv (sv_mail sv1)" using st by (simp add: acts_for_def own_change_def)
    have "own_change mb (sv_mail sv1) (fileSentCopy lib env input blob raw (sv_mail sv1))
        \<and> addresses (fileSentCopy lib env input blob raw (sv_mail sv1)) = addresses (sv_mail sv1)"
      unfolding fileSentCopy_def Let_def using inv assms(3) by (intro PersistAll_own) simp_all
    then show ?thesis using 3(2) st log by (auto simp: acts_for_def intro: own_change_trans)
  qed
qed

section \<open>Requests\<close>

text \<open>The accounts and the mailboxes are the same rows: an address names the same mailbox in both.\<close>

definition same_accounts :: "server \<Rightarrow> bool" where
  "same_accounts sv \<longleftrightarrow> (\<forall>address. map_option ma_id (FindByAddress (sv_accounts sv) address) =
     (case MailboxIDByAddress (sv_mail sv) address of Inl _ \<Rightarrow> None | Inr k \<Rightarrow> Some k))"

lemma find_account_Inr:
  assumes "same_accounts sv" "find_account ok sv address = Inr a"
  shows "MailboxIDByAddress (sv_mail sv) address = Inr (ma_id a) \<and> EqualFold (ma_email a) address"
proof -
  have f: "FindByAddress (sv_accounts sv) address = Some a" using assms(2) by (auto simp: find_account_def split: if_splits option.splits)
  have "map_option ma_id (FindByAddress (sv_accounts sv) address) =
      (case MailboxIDByAddress (sv_mail sv) address of Inl _ \<Rightarrow> None | Inr k \<Rightarrow> Some k)" using assms(1) by (simp add: same_accounts_def)
  then have "MailboxIDByAddress (sv_mail sv) address = Inr (ma_id a)" by (simp add: f split: sum.splits)
  moreover have "EqualFold (ma_email a) address" using f by (auto simp: FindByAddress_def find_Some_iff split: option.splits)
  ultimately show ?thesis by blast
qed

lemma find_account_Inl:
  assumes "same_accounts sv" "MailboxIDByAddress (sv_mail sv) address = Inl e"
  shows "\<exists>e. find_account ok sv address = Inl e"
proof -
  have "map_option ma_id (FindByAddress (sv_accounts sv) address) = None" using assms by (simp add: same_accounts_def)
  then show ?thesis by (simp add: find_account_def)
qed

lemma MailboxIDByAddress_fold: "EqualFold a b \<Longrightarrow> MailboxIDByAddress db a = MailboxIDByAddress db b"
  by (simp add: MailboxIDByAddress_def EqualFold_def)

lemma discard_draft_acts:
  assumes "acts_for mb address sv sv1" "addresses (sv_mail sv1) = addresses (sv_mail sv)"
    and "MailboxIDByAddress (sv_mail sv) address = Inr mb" "EqualFold email address"
  shows "acts_for mb address sv (discard_draft env email uid sv1)"
proof -
  have "MailboxIDByAddress (sv_mail sv1) email = Inr mb"
    using assms(3) MailboxIDByAddress_fold [OF assms(4), of "sv_mail sv1"] by (simp add: MailboxIDByAddress_addresses assms(2))
  moreover have "store_inv (sv_mail sv1)" using assms(1) by (simp add: acts_for_def own_change_def)
  ultimately show ?thesis using assms(1) acts_for_more webmail_own by (simp add: discard_draft_def mailboxID_def)
qed

lemma Send_acts:
  assumes "store_inv (sv_mail sv)" "blobs_known (sv_mail sv)" "same_accounts sv"
    and "MailboxIDByAddress (sv_mail sv) (ci_From input) = Inr mb"
  shows "acts_for mb (ci_From input) sv (snd (Send lib env input sv))"
proof (cases "find_account (we_read_ok env 0) sv (ci_From input)")
  case (Inl e)
  then show ?thesis using acts_for_refl [OF assms(1)] by (simp add: Send_def Let_def)
next
  case (Inr a)
  note acc = find_account_Inr [OF assms(3) Inr]
  define raw where "raw = \<lparr>si_MailboxID = ma_id a, si_SenderAddr = ma_email a, si_DomainName = ma_domain a,
    si_Recipients = all_recipients (wl_compose lib) input,
    si_Body = Some (buildMimeMessage (wl_compose lib) (we_draw env) (wl_localHost lib) input (all_recipients (wl_compose lib) input)),
    si_MaxRecipientsPerHour = ma_max_recipients a, si_FileSentCopy = True\<rparr>"
  obtain e sv1 where s: "Submit (wl_server lib) (we_submit env) raw sv = (e, sv1)" by force
  have "si_MailboxID raw = mb" "EqualFold (si_SenderAddr raw) (ci_From input)" using acc assms(4) by (simp_all add: raw_def)
  from Submit_acts [OF assms(1,2) this, of "wl_server lib" "we_submit env"] s
  have sub: "acts_for mb (ci_From input) sv sv1" "addresses (sv_mail sv1) = addresses (sv_mail sv)" by simp_all
  have "snd (Send lib env input sv) = sv \<or> snd (Send lib env input sv) = sv1
      \<or> snd (Send lib env input sv) = discard_draft env (ma_email a) (ci_DraftUID input) sv1"
    using s Inr by (cases e) (simp_all add: Send_def Let_def raw_def)
  then show ?thesis
    using sub discard_draft_acts [OF sub assms(4)] acc acts_for_refl [OF assms(1)] by metis
qed

lemma SaveDraft_acts:
  assumes "store_inv (sv_mail sv)" "blobs_known (sv_mail sv)" "same_accounts sv"
    and "MailboxIDByAddress (sv_mail sv) (ci_From input) = Inr mb"
  shows "acts_for mb (ci_From input) sv (snd (SaveDraft lib env input uid sv))"
proof (cases "find_account (we_read_ok env 0) sv (ci_From input)")
  case (Inl e)
  then show ?thesis using acts_for_refl [OF assms(1)] by (simp add: SaveDraft_def)
next
  case (Inr a)
  note acc = find_account_Inr [OF assms(3) Inr]
  define raw where "raw = buildMimeMessage (wl_compose lib) (we_draw env) (wl_localHost lib) input (all_recipients (wl_compose lib) input)"
  obtain r sv1 where st: "store_blob (lib_sha256 (wl_server lib)) (lib_baseDir (wl_server lib)) (we_store env) raw sv = (r, sv1)" by force
  note blob = store_blob_acts [OF assms(1,2) st, of mb "ci_From input"]
  show ?thesis
  proof (cases "wl_drafts lib \<and> (\<exists>b. r = Inr b)")
    case False
    then show ?thesis using st Inr blob acts_for_refl [OF assms(1)]
      by (cases r) (auto simp: SaveDraft_def Let_def raw_def)
  next
    case True
    then obtain b where b: "r = Inr b" "wl_drafts lib" by blast
    define inp where "inp = draft_input lib a b raw"
    obtain q db where p: "PersistAll (we_write_ok env 0) (we_now env) [inp] (sv_mail sv1) = (q, db)" by force
    have inv1: "store_inv (sv_mail sv1)" using blob by (simp add: acts_for_def own_change_def)
    have "pi_mailbox inp = mb" using acc assms(4) by (simp add: inp_def draft_input_def Let_def)
    from PersistAll_own [OF inv1 this, of "we_write_ok env 0" "we_now env"] p
    have pers: "acts_for mb (ci_From input) sv (sv1\<lparr>sv_mail := db\<rparr>)" "addresses (sv_mail (sv1\<lparr>sv_mail := db\<rparr>)) = addresses (sv_mail sv)"
      using blob acts_for_more by simp_all
    have "snd (SaveDraft lib env input uid sv) = sv1\<lparr>sv_mail := db\<rparr>
        \<or> snd (SaveDraft lib env input uid sv) = discard_draft env (ma_email a) uid (sv1\<lparr>sv_mail := db\<rparr>)"
      using Inr b st p by (cases q) (simp_all add: SaveDraft_def Let_def raw_def inp_def)
    then show ?thesis using pers discard_draft_acts [OF pers assms(4)] acc by metis
  qed
qed

lemma on_mailbox_acts:
  assumes "store_inv (sv_mail sv)" "MailboxIDByAddress (sv_mail sv) address = Inr mb"
    and "own_change mb (sv_mail sv) (snd (f mb (sv_mail sv)))"
  shows "acts_for mb address sv (snd (on_mailbox env address f sv))"
  using assms acts_for_refl [OF assms(1)] acts_for_mail [OF assms(3), of address]
  by (auto simp: on_mailbox_def mailboxID_def split: prod.splits sum.splits)

lemma on_mailbox_none:
  "MailboxIDByAddress (sv_mail sv) address = Inl e \<Longrightarrow> snd (on_mailbox env address f sv) = sv"
  by (simp add: on_mailbox_def mailboxID_def split: sum.splits)

lemma GetMessage_acts:
  assumes "store_inv (sv_mail sv)" "MailboxIDByAddress (sv_mail sv) address = Inr mb"
  shows "acts_for mb address sv (snd (GetMessage env address folder uid sv))"
  using assms acts_for_refl [OF assms(1)] acts_for_mail [OF setFlag_own [OF assms(1)]]
  by (auto simp: GetMessage_def mailboxID_def MarkSeen_def split: sum.splits option.splits)

lemma webmail_Delete_acts:
  assumes "store_inv (sv_mail sv)" "MailboxIDByAddress (sv_mail sv) address = Inr mb"
  shows "acts_for mb address sv (snd (webmail_Delete env address folder uid sv))"
proof -
  obtain r db where t: "MoveToTrash (we_write_ok env 0) mb folder uid (sv_mail sv) = (r, db)" by force
  have own: "own_change mb (sv_mail sv) db"
    using moveInto_own [OF assms(1), of mb "we_write_ok env 0" folder uid trashTarget] t by (simp add: MoveToTrash_def)
  then have inv: "store_inv db" by (rule own_change_inv)
  note ex = own_change_trans [OF own webmail_Expunge_own [OF inv, of mb "we_write_ok env 1" folder uid]]
  have "snd (webmail_Delete env address folder uid sv) = sv \<or> snd (webmail_Delete env address folder uid sv) = sv\<lparr>sv_mail := db\<rparr>
      \<or> snd (webmail_Delete env address folder uid sv) = sv\<lparr>sv_mail := snd (webmail_Expunge (we_write_ok env 1) mb folder uid db)\<rparr>"
    using assms(2) t by (auto simp: webmail_Delete_def mailboxID_def split: sum.splits prod.splits)
  then show ?thesis using acts_for_refl [OF assms(1)] acts_for_mail [OF own] acts_for_mail [OF ex] by metis
qed

lemma handleFolderAdmin_acts:
  assumes "store_inv (sv_mail sv)" "MailboxIDByAddress (sv_mail sv) address = Inr mb"
  shows "acts_for mb address sv (snd (handleFolderAdmin lib env address b sv))"
proof -
  obtain action name newName where b: "b = (action, name, newName)" by (metis prod.exhaust)
  have own: "own_change mb (sv_mail sv) (snd (folders_Create ok now address name (sv_mail sv)))"
    "own_change mb (sv_mail sv) (snd (folders_Rename ok address name newName (sv_mail sv)))"
    "own_change mb (sv_mail sv) (snd (folders_Delete ok address name (sv_mail sv)))" for ok now
    using exec_own [OF assms(1), of "FolderCreate now address name" mb ok] exec_own [OF assms(1), of "FolderRename address name newName" mb ok]
      exec_own [OF assms(1), of "FolderDelete address name" mb ok] assms(2) by simp_all
  have run: "acts_for mb address sv (snd (answer 200 p (case r of (Inl e, db) \<Rightarrow> (Some (WebFolder e), sv\<lparr>sv_mail := db\<rparr>)
      | (Inr _, db) \<Rightarrow> (None, sv\<lparr>sv_mail := db\<rparr>))))" if "own_change mb (sv_mail sv) (snd r)" for p and r :: "(folder_error + unit) \<times> mail_db"
    using acts_for_mail [OF that, of address] by (cases r; cases "fst r") (auto simp: answer_def)
  show ?thesis using acts_for_refl [OF assms(1)] run own unfolding b by (simp add: handleFolderAdmin_def Let_def)
qed

lemma handleMessage_snd:
  "snd (handleMessage lib env address path folder sv) = sv
   \<or> (\<exists>uid. snd (handleMessage lib env address path folder sv) = snd (GetMessage env address (or_inbox folder) uid sv))"
  by (auto simp: handleMessage_def Let_def split: option.splits sum.splits prod.splits if_splits) (metis snd_conv)+

lemma answer_snd [simp]: "snd (answer n p r) = snd r"
  by (simp add: answer_def split: prod.split)

lemma request_acts:
  assumes "store_inv (sv_mail sv)" "blobs_known (sv_mail sv)" "same_accounts sv" "MailboxIDByAddress (sv_mail sv) address = Inr mb"
  shows "acts_for mb address sv (snd (web_request_step lib env address req sv))"
proof -
  note refl = acts_for_refl [OF assms(1), of mb address]
  show ?thesis
  proof (cases req)
    case (ReqMessage path folder)
    then show ?thesis
      using handleMessage_snd [of lib env address path folder sv] GetMessage_acts [OF assms(1,4), of env "or_inbox folder"] refl by auto
  next
    case (ReqSeen body)
    have "acts_for mb address sv (snd (SetSeen env address folder uid seen sv))" for folder uid seen
      unfolding SetSeen_def by (rule on_mailbox_acts [OF assms(1,4)]) (simp add: MarkSeen_def setFlag_own [OF assms(1)])
    then show ?thesis using refl ReqSeen by (auto split: option.splits)
  next
    case (ReqFlagged body)
    have "acts_for mb address sv (snd (SetFlagged env address folder uid flagged sv))" for folder uid flagged
      unfolding SetFlagged_def by (rule on_mailbox_acts [OF assms(1,4)]) (simp add: MarkFlagged_def setFlag_own [OF assms(1)])
    then show ?thesis using refl ReqFlagged by (auto split: option.splits)
  next
    case (ReqSend body)
    have "ci_From (decodeCompose address b) = address" for b by (simp add: decodeCompose_def)
    then have "acts_for mb address sv (snd (Send lib env (decodeCompose address b) sv))" for b
      using Send_acts [OF assms(1-3), of "decodeCompose address b" mb lib env] assms(4) by simp
    then show ?thesis using refl ReqSend by (auto split: option.splits)
  next
    case (ReqDelete body)
    then show ?thesis using refl webmail_Delete_acts [OF assms(1,4)] by (auto split: option.splits)
  next
    case (ReqFolderAdmin body)
    then show ?thesis using refl handleFolderAdmin_acts [OF assms(1,4), of lib env] by (auto split: option.splits)
  next
    case (ReqMove body)
    have moved: "acts_for mb address sv (snd (on_mailbox env address (\<lambda>k. MoveToFolder (we_write_ok env 0) k folder uid target) sv))"
      for folder uid target
      by (rule on_mailbox_acts [OF assms(1,4)]) (simp add: MoveToFolder_def moveInto_own [OF assms(1)])
    have "acts_for mb address sv (snd (webmail_Move env address folder uid target sv))" for folder uid target
      using refl moved by (simp add: webmail_Move_def Let_def)
    then show ?thesis using refl ReqMove by (auto split: option.splits)
  next
    case (ReqSaveDraft body uid)
    have sender: "ci_From (decodeCompose address b) = address" for b by (simp add: decodeCompose_def)
    have "acts_for mb address sv (snd (SaveDraft lib env (decodeCompose address b) uid sv))" for b
      using SaveDraft_acts [OF assms(1-3), of "decodeCompose address b" mb lib env uid] assms(4) by (simp add: sender)
    then show ?thesis using refl ReqSaveDraft by (auto split: option.splits sum.splits prod.splits) (metis snd_conv)+
  qed (use refl in simp_all)
qed

lemma request_none:
  assumes "same_accounts sv" "MailboxIDByAddress (sv_mail sv) address = Inl e"
  shows "snd (web_request_step lib env address req sv) = sv"
proof -
  have none: "mailboxID ok sv address = Inl WebNoSuchMailbox" for ok using assms(2) by (simp add: mailboxID_def)
  obtain x where acc: "find_account (we_read_ok env 0) sv address = Inl x" using find_account_Inl [OF assms] by blast
  have sender: "ci_From (decodeCompose address b) = address" for b by (simp add: decodeCompose_def)
  have folder: "folder_mailbox (sv_mail sv) address = Inl ErrNoSuchMailbox" using assms(2) by (simp add: folder_mailbox_def)
  show ?thesis
  proof (cases req)
    case (ReqMessage path folder)
    have "snd (GetMessage env address f uid sv) = sv" for f uid by (simp add: GetMessage_def none)
    then show ?thesis using ReqMessage handleMessage_snd [of lib env address path folder sv] by auto
  next
    case (ReqFolderAdmin body)
    have "snd (handleFolderAdmin lib env address b sv) = sv" for b
      by (cases b) (simp add: handleFolderAdmin_def Let_def folders_Create_def folders_Rename_def folders_Delete_def folder split: option.split)
    then show ?thesis using ReqFolderAdmin by (simp split: option.split)
  next
    case (ReqDelete body)
    then show ?thesis by (simp add: webmail_Delete_def none split: option.split)
  next
    case (ReqMove body)
    then show ?thesis by (simp add: webmail_Move_def Let_def on_mailbox_none [OF assms(2)] split: option.split)
  next
    case (ReqSend body)
    then show ?thesis by (simp add: Send_def Let_def sender acc split: option.split)
  next
    case (ReqSaveDraft body uid)
    then show ?thesis by (simp add: SaveDraft_def sender acc split: option.split)
  qed (simp_all add: SetSeen_def SetFlagged_def on_mailbox_none [OF assms(2)] split: option.split)
qed

text \<open>
  C5. The webmail acts only for the user of the session. Whatever a request asks, names or carries, and whichever of its reads and writes
  fail: without a valid session it changes nothing and is answered 401; with one it acts for the mailbox of the session's
  address (nothing when there is none): the mail store stays sound, the folders, messages and quota of all other mailboxes stay as they are,
  the jobs it queues are of this mailbox and sent under its own address, and no account, alias, script or report changes.
\<close>

theorem webmail_confined:
  assumes "store_inv (sv_mail sv)" "blobs_known (sv_mail sv)" "same_accounts sv" "web_serve lib env cred req sv = (ans, sv')"
  shows "case authenticate (wl_token lib) (we_now env div Second) cred of
      None \<Rightarrow> sv' = sv \<and> ans = Failure 401 ''UNAUTHORIZED'' ''User session required''
    | Some session \<Rightarrow>
        (case MailboxIDByAddress (sv_mail sv) (ws_Email session) of Inl _ \<Rightarrow> sv' = sv | Inr mb \<Rightarrow> acts_for mb (ws_Email session) sv sv')"
proof (cases "authenticate (wl_token lib) (we_now env div Second) cred")
  case None
  then show ?thesis using assms(4) by (auto simp: web_serve_def)
next
  case (Some session)
  then have "sv' = snd (web_request_step lib env (ws_Email session) req sv)" using assms(4) by (simp add: web_serve_def)
  then show ?thesis
    using Some request_none [OF assms(3)] request_acts [OF assms(1-3)] by (auto split: sum.split)
qed

section \<open>Drafts\<close>

lemma ResolveFolder_map:
  assumes "folders db' = map u (folders db)" "\<And>f. folder_matches mb r (u f) = folder_matches mb r f" "\<And>f. special_use (u f) = special_use f"
  shows "ResolveFolder db' mb r = map_option u (ResolveFolder db mb r)"
  by (simp add: ResolveFolder_def assms find_map split: option.split)

lemma discard_draft_rows:
  assumes "store_inv (sv_mail sv)"
  shows "messages (sv_mail (discard_draft env email uid sv)) = messages (sv_mail sv)
    \<or> (\<exists>mb g. MailboxIDByAddress (sv_mail sv) email = Inr mb \<and> ResolveFolder (sv_mail sv) mb ''Drafts'' = Some g
        \<and> messages (sv_mail (discard_draft env email uid sv)) =
            map (\<lambda>m. if live_in (fid g) m \<and> m_uid m = uint uid then m\<lparr>m_expunged := True\<rparr> else m) (messages (sv_mail sv)))"
proof (cases "mailboxID (we_read_ok env 1) sv email")
  case (Inr mb)
  then have mb: "MailboxIDByAddress (sv_mail sv) email = Inr mb" by (auto simp: mailboxID_def split: if_splits sum.splits)
  show ?thesis
  proof (cases "ResolveFolder (sv_mail sv) mb ''Drafts''")
    case None
    then show ?thesis using Inr by (simp add: discard_draft_def webmail_Expunge_def messageFolder_def)
  next
    case (Some g)
    then have A: "snd (webmail_Expunge ok mb ''Drafts'' uid (sv_mail sv)) = snd (Expunge ok (fid g) [uid] (sv_mail sv))" for ok
      by (simp add: webmail_Expunge_snd messageFolder_def)
    have B: "snd (Expunge ok (fid g) [uid] (sv_mail sv)) = sv_mail sv
        \<or> snd (Expunge ok (fid g) [uid] (sv_mail sv)) = snd (expunge_loop (fid g) [uid] 0 (sv_mail sv))" for ok
      by (simp add: Expunge_def split: prod.split)
    have C: "messages (snd (expunge_loop (fid g) [uid] 0 (sv_mail sv))) =
        map (\<lambda>m. if live_in (fid g) m \<and> m_uid m = uint uid then m\<lparr>m_expunged := True\<rparr> else m) (messages (sv_mail sv))"
      using expunge_loop_rows [OF assms, of "fid g" "[uid]" 0] by (simp del: expunge_loop.simps)
    have "messages (snd (webmail_Expunge ok mb ''Drafts'' uid (sv_mail sv))) = messages (sv_mail sv)
        \<or> messages (snd (webmail_Expunge ok mb ''Drafts'' uid (sv_mail sv))) =
          map (\<lambda>m. if live_in (fid g) m \<and> m_uid m = uint uid then m\<lparr>m_expunged := True\<rparr> else m) (messages (sv_mail sv))" for ok
      by (rule disjE [OF B [of ok]]) (simp_all only: A C simp_thms)
    note rows = this [of "we_write_ok env 1"]
    have "messages (sv_mail (discard_draft env email uid sv)) = messages (sv_mail sv)
        \<or> messages (sv_mail (discard_draft env email uid sv)) = messages (snd (webmail_Expunge (we_write_ok env 1) mb ''Drafts'' uid (sv_mail sv)))"
      using Inr by (simp add: discard_draft_def)
    then have "messages (sv_mail (discard_draft env email uid sv)) = messages (sv_mail sv)
        \<or> messages (sv_mail (discard_draft env email uid sv)) =
          map (\<lambda>m. if live_in (fid g) m \<and> m_uid m = uint uid then m\<lparr>m_expunged := True\<rparr> else m) (messages (sv_mail sv))"
      using rows by (elim disjE) (simp_all only: simp_thms)
    then show ?thesis using mb Some by blast
  qed
qed (simp add: discard_draft_def)

text \<open>A draft that is saved: the row that was added, before the old one is discarded.\<close>

lemma SaveDraft_steps:
  assumes "store_inv (sv_mail sv)" "blobs_known (sv_mail sv)" "same_accounts sv" "SaveDraft lib env input replaceUID sv = (r, sv')"
  shows "(\<exists>e. r = Inl e) \<and> messages (sv_mail sv') = messages (sv_mail sv)
    \<or> (\<exists>mb email n u sv2. MailboxIDByAddress (sv_mail sv) (ci_From input) = Inr mb \<and> EqualFold email (ci_From input)
        \<and> m_mailbox n = mb \<and> \<not> m_expunged n \<and> r = Inr (word_of_int (m_uid n)) \<and> m_uid n \<in> uid_next ` set (folders (sv_mail sv))
        \<and> store_inv (sv_mail sv2) \<and> messages (sv_mail sv2) = messages (sv_mail sv) @ [n] \<and> addresses (sv_mail sv2) = addresses (sv_mail sv)
        \<and> folders (sv_mail sv2) = map u (folders (sv_mail sv))
        \<and> (\<forall>f. fid (u f) = fid f \<and> f_mailbox (u f) = f_mailbox f \<and> f_name (u f) = f_name f \<and> special_use (u f) = special_use f)
        \<and> sv' = discard_draft env email replaceUID sv2)"
proof (cases "find_account (we_read_ok env 0) sv (ci_From input)")
  case (Inl e)
  then show ?thesis using assms(4) by (auto simp: SaveDraft_def)
next
  case (Inr a)
  note acc = find_account_Inr [OF assms(3) Inr]
  define raw where "raw = buildMimeMessage (wl_compose lib) (we_draw env) (wl_localHost lib) input (all_recipients (wl_compose lib) input)"
  obtain q sv1 where st: "store_blob (lib_sha256 (wl_server lib)) (lib_baseDir (wl_server lib)) (we_store env) raw sv = (q, sv1)" by force
  have same1: "messages (sv_mail sv1) = messages (sv_mail sv)" "folders (sv_mail sv1) = folders (sv_mail sv)"
    using st by (auto simp: store_blob_def add_blob_row_def split: sum.splits prod.splits)
  note acts = store_blob_acts [OF assms(1,2) st, of 0 "[]"]
  then have inv1: "store_inv (sv_mail sv1)" by (simp add: acts_for_def own_change_def)
  consider "\<not> wl_drafts lib" | "wl_drafts lib" "q = Inl ()" | b where "wl_drafts lib" "q = Inr b" by (cases q) auto
  then show ?thesis
  proof cases
    case 1
    then show ?thesis using Inr assms(4) by (auto simp: SaveDraft_def)
  next
    case 2
    then show ?thesis using Inr assms(4) st same1 by (auto simp: SaveDraft_def Let_def raw_def)
  next
    case (3 b)
    define inp where "inp = draft_input lib a b raw"
    obtain x db where pers: "PersistAll (we_write_ok env 0) (we_now env) [inp] (sv_mail sv1) = (x, db)" by force
    have res: "(case x of Inl _ \<Rightarrow> (Inl WebOther, sv1\<lparr>sv_mail := db\<rparr>)
        | Inr uids \<Rightarrow> (Inr (case uids of [] \<Rightarrow> 0 | uid # _ \<Rightarrow> word_of_int uid), discard_draft env (ma_email a) replaceUID (sv1\<lparr>sv_mail := db\<rparr>)))
        = (r, sv')"
      using assms(4) Inr 3 st pers by (simp add: SaveDraft_def Let_def raw_def inp_def split: sum.splits)
    obtain p db1 where p: "persistOne (we_now env) inp (sv_mail sv1) = (p, db1)" by force
    show ?thesis
    proof (cases "we_write_ok env 0 \<and> (\<exists>u. p = Inr u)")
      case False
      then have "(\<exists>e. x = Inl e) \<and> db = sv_mail sv1" using p pers by (cases p) (auto simp: PersistAll_def split: if_splits)
      then show ?thesis using res same1 by auto
    next
      case True
      then obtain u where u: "p = Inr u" "we_write_ok env 0" by blast
      from persistOne_files [OF p [unfolded u(1)]] obtain f n os where f: "filed_ok (sv_mail sv1) f n" "db1 = (filed (sv_mail sv1) f n)\<lparr>outbox := os\<rparr>"
          "delivered_row (we_now env) inp f (next_uuid (sv_mail sv1)) n" "u = uid_next f" by blast
      have x: "x = Inr [u]" "db = db1" using pers p u by (simp_all add: PersistAll_def)
      have n: "m_mailbox n = ma_id a" "m_uid n = u" "\<not> m_expunged n" "m_uid n \<in> uid_next ` set (folders (sv_mail sv))"
        using f(1,3,4) same1(2) by (simp_all add: delivered_row_def inp_def draft_input_def filed_ok_def Let_def)
      define g :: "folder_row \<Rightarrow> folder_row" where "g = (\<lambda>x. if fid x = fid f then x\<lparr>uid_next := uid_next x + 1, highest_modseq := highest_modseq x + 1,
          total_count := total_count x + 1, unread_count := unread_count x + (if SEEN \<in> m_flags n then 0 else 1)\<rparr> else x)"
      have rows: "messages db1 = messages (sv_mail sv) @ [n]" "folders db1 = map g (folders (sv_mail sv))"
        by (simp_all add: f(2) filed_def added_def same1 g_def)
      moreover have "addresses db1 = addresses (sv_mail sv1)" by (simp add: f(2) filed_def added_def addresses_def)
      then have "addresses db1 = addresses (sv_mail sv)" using acts by simp
      moreover have "\<forall>h. fid (g h) = fid h \<and> f_mailbox (g h) = f_mailbox h \<and> f_name (g h) = f_name h \<and> special_use (g h) = special_use h"
        by (simp add: g_def)
      moreover have "store_inv db1" using persistOne_inv [OF inv1 p] .
      moreover have "r = Inr (word_of_int (m_uid n))" "sv' = discard_draft env (ma_email a) replaceUID (sv1\<lparr>sv_mail := db1\<rparr>)"
        using res x n(2) by simp_all
      ultimately show ?thesis
        using acc n by (intro disjI2 exI [of _ "ma_id a"] exI [of _ "ma_email a"] exI [of _ n] exI [of _ g] exI [of _ "sv1\<lparr>sv_mail := db1\<rparr>"]) simp
    qed
  qed
qed

text \<open>
  C14. Saving a draft loses no mail. When it fails, the messages are as they were. When it succeeds, every message is as it was except the draft
  that it replaces, a live message of the Drafts folder of the same mailbox with the given UID; and the new draft, a row that was not there
  before, is there, live, under the UID that is answered, unless that is the one to replace (a UID of the future, which no browser has).
  UIDs are below $2^{32}$, as IMAP has them: the column is wider.
\<close>

theorem draft_not_lost:
  assumes "store_inv (sv_mail sv)" "blobs_known (sv_mail sv)" "same_accounts sv" "list_all (\<lambda>f. uid_next f < 2 ^ 32) (folders (sv_mail sv))"
    and "SaveDraft lib env input replaceUID sv = (r, sv')"
  shows "case r of
      Inl _ \<Rightarrow> messages (sv_mail sv') = messages (sv_mail sv)
    | Inr uid \<Rightarrow> \<exists>n mb. MailboxIDByAddress (sv_mail sv) (ci_From input) = Inr mb \<and> m_mailbox n = mb \<and> \<not> m_expunged n \<and> m_uid n = uint uid
        \<and> mid n \<notin> mid ` set (messages (sv_mail sv)) \<and> (uid \<noteq> replaceUID \<longrightarrow> n \<in> set (messages (sv_mail sv')))
        \<and> (\<forall>m\<in>set (messages (sv_mail sv)). m \<in> set (messages (sv_mail sv'))
             \<or> (\<exists>f. ResolveFolder (sv_mail sv) mb ''Drafts'' = Some f \<and> live_in (fid f) m \<and> m_uid m = uint replaceUID))"
  using SaveDraft_steps [OF assms(1-3,5)]
proof (elim disjE exE conjE)
  fix mb email n u sv2
  assume d: "MailboxIDByAddress (sv_mail sv) (ci_From input) = Inr mb" "EqualFold email (ci_From input)" "m_mailbox n = mb" "\<not> m_expunged n"
      "r = Inr (word_of_int (m_uid n))" "store_inv (sv_mail sv2)" "messages (sv_mail sv2) = messages (sv_mail sv) @ [n]"
      "addresses (sv_mail sv2) = addresses (sv_mail sv)" "folders (sv_mail sv2) = map u (folders (sv_mail sv))"
      "\<forall>f. fid (u f) = fid f \<and> f_mailbox (u f) = f_mailbox f \<and> f_name (u f) = f_name f \<and> special_use (u f) = special_use f"
      "sv' = discard_draft env email replaceUID sv2" "m_uid n \<in> uid_next ` set (folders (sv_mail sv))"
  obtain g where "g \<in> set (folders (sv_mail sv))" "m_uid n = uid_next g" using d(12) by blast
  then have "0 < m_uid n" "m_uid n < 2 ^ 32" using assms(1,4) by (auto simp: store_inv_def uids_ok_def list_all_iff)
  then have uid: "uint (word_of_int (m_uid n) :: uid32) = m_uid n" by (simp add: unsigned_of_int take_bit_int_eq_self)
  have mb2: "MailboxIDByAddress (sv_mail sv2) email = Inr mb"
    using d(1) MailboxIDByAddress_fold [OF d(2), of "sv_mail sv2"] by (simp add: MailboxIDByAddress_addresses d(8))
  have folder: "ResolveFolder (sv_mail sv2) mb s = map_option u (ResolveFolder (sv_mail sv) mb s)" for s
    by (rule ResolveFolder_map [OF d(9)]) (simp_all add: d(10) folder_matches_def)
  have "m \<in> set (messages (sv_mail sv'))
      \<or> (\<exists>f. ResolveFolder (sv_mail sv) mb ''Drafts'' = Some f \<and> live_in (fid f) m \<and> m_uid m = uint replaceUID)"
    if "m \<in> set (messages (sv_mail sv2))" for m
    using discard_draft_rows [OF d(6), of env email replaceUID]
  proof (elim disjE exE conjE)
    fix mb' g
    assume g: "MailboxIDByAddress (sv_mail sv2) email = Inr mb'" "ResolveFolder (sv_mail sv2) mb' ''Drafts'' = Some g"
        "messages (sv_mail (discard_draft env email replaceUID sv2)) =
          map (\<lambda>m. if live_in (fid g) m \<and> m_uid m = uint replaceUID then m\<lparr>m_expunged := True\<rparr> else m) (messages (sv_mail sv2))"
    obtain f where f: "ResolveFolder (sv_mail sv) mb ''Drafts'' = Some f" "fid g = fid f"
      using g(1,2) mb2 folder d(10) by auto
    show ?thesis
    proof (cases "live_in (fid g) m \<and> m_uid m = uint replaceUID")
      case True
      then show ?thesis using f by auto
    next
      case False
      then show ?thesis using that unfolding d(11) g(3) set_map by (auto intro: rev_image_eqI)
    qed
  qed (use that d(11) in simp)
  note kept = this
  have "n \<in> set (messages (sv_mail sv'))" if "word_of_int (m_uid n) \<noteq> replaceUID"
  proof -
    have "m_uid n \<noteq> uint replaceUID" using that uid by auto
    then show ?thesis using kept [of n] d(7) by auto
  qed
  moreover have "mid n \<notin> mid ` set (messages (sv_mail sv))" using d(6,7) by (simp add: store_inv_def keys_ok_def)
  ultimately show ?thesis using d(1,3-5,7) uid kept by auto
qed simp

section \<open>A mailbox to run the requests on\<close>

text \<open>The mailbox of \<^verbatim>\<open>u@y\<close>: a message in INBOX and a draft.\<close>

definition demo_web_db :: mail_db where
  "demo_web_db = \<lparr>
     folders =
       [\<lparr>fid = 1, f_mailbox = 0, f_name = ''INBOX'', special_use = Some ''inbox'', uid_next = 2, uid_validity = 9,
          highest_modseq = 2, unread_count = 0, total_count = 1\<rparr>,
        \<lparr>fid = 2, f_mailbox = 0, f_name = ''Drafts'', special_use = Some ''drafts'', uid_next = 2, uid_validity = 9,
          highest_modseq = 2, unread_count = 1, total_count = 1\<rparr>],
     messages =
       [\<lparr>mid = 3, m_mailbox = 0, m_folder = 1, m_uid = 1, m_modseq = 2, m_blob = 0, m_size = 10, m_received_at = 0,
          m_expunged = False, m_flags = {SEEN}, m_meta = demo_meta\<rparr>,
        \<lparr>mid = 4, m_mailbox = 0, m_folder = 2, m_uid = 1, m_modseq = 2, m_blob = 1, m_size = 7, m_received_at = 1,
          m_expunged = False, m_flags = {}, m_meta = demo_meta\<rparr>],
     mailboxes = [\<lparr>mb_id = 0, email_address = ''u@y'', mb_active = True, max_message_bytes = 1000,
        quota_bytes = 5000, used_bytes = 17\<rparr>],
     blobs = [\<lparr>blob_id = 0, ref_count = 1\<rparr>, \<lparr>blob_id = 1, ref_count = 1\<rparr>],
     outbox = [], next_uuid = 5\<rparr>"

lemma demo_web_inv: "store_inv demo_web_db"
  unfolding store_inv_defs
  by (simp add: demo_web_db_def demo_meta_def sum_rows_def live_in_def unseen_in_def live_size_def)

definition demo_web_server :: server where
  "demo_web_server = demo_server\<lparr>sv_mail := demo_web_db, sv_disk := \<lparr>disk_files = Map.empty, disk_rows = [], disk_next = 2\<rparr>,
     sv_accounts := [\<lparr>ac_auth = demo_account\<lparr>ma_id := 0, ma_email := ''u@y'', ma_domain := ''y''\<rparr>, ac_active = True, ac_domain_active = True\<rparr>]\<rparr>"

definition demo_web_session :: web_session where
  "demo_web_session = \<lparr>ws_Subject = [], ws_Email = ''u@y'', ws_Role = [], ws_DomainID = [], ws_Surface = ''user'',
     ws_Audience = ''lambdamail:user'', ws_MfaSatisfied = True, ws_Purpose = ''session'', ws_IssuedAt = 0, ws_ExpiresAt = 100\<rparr>"

definition demo_web_lib :: web_lib where
  "demo_web_lib = \<lparr>wl_server = demo_lib, wl_compose = demo_compose_lib, wl_render = demo_render_lib demo_tree,
     wl_token = \<lparr>tl_mac = (\<lambda>s. ''m''), tl_encode = (\<lambda>s. s), tl_decode = Some, tl_unmarshal = (\<lambda>_. Some demo_web_session)\<rparr>,
     wl_localHost = ''mx'', wl_drafts = True, wl_folders = True\<rparr>"

definition demo_web_env :: web_env where
  "demo_web_env = \<lparr>we_now = 5, we_draw = demo_draw, we_read_ok = (\<lambda>_. True), we_write_ok = (\<lambda>_. True),
     we_submit = demo_submit_env 5, we_store = NoFault\<rparr>"

lemma demo_web_known: "blobs_known (sv_mail demo_web_server)" "same_accounts demo_web_server"
  by (simp_all add: blobs_known_def same_accounts_def demo_web_server_def demo_server_def demo_account_def demo_web_db_def FindByAddress_def
      MailboxIDByAddress_def)

lemma demo_web_sound: "store_inv (sv_mail demo_web_server)"
  by (simp add: demo_web_server_def demo_web_inv)

definition demo_credentials :: "string \<Rightarrow> web_credentials" where
  "demo_credentials token = \<lparr>wc_Authorization = ''Bearer '' @ token, wc_cookie = None\<rparr>"

text \<open>
  With a session, a message is deleted: this mailbox has no Trash folder, so it is gone. With a forged signature nothing happens.
\<close>

lemma webmail_confined_witness:
  "let run = (\<lambda>token. web_serve demo_web_lib demo_web_env (demo_credentials token) (ReqDelete (Some (''inbox'', 1))) demo_web_server)
   in acts_for 0 ''u@y'' demo_web_server (snd (run ''h.p.m'')) \<and> map m_expunged (messages (sv_mail (snd (run ''h.p.m'')))) = [True, False]
      \<and> snd (run ''h.p.x'') = demo_web_server"
proof -
  let ?run = "\<lambda>token. web_serve demo_web_lib demo_web_env (demo_credentials token) (ReqDelete (Some (''inbox'', 1))) demo_web_server"
  note confined = webmail_confined [OF demo_web_sound demo_web_known surjective_pairing, of demo_web_lib demo_web_env]
  have auth: "authenticate (wl_token demo_web_lib) (we_now demo_web_env div Second) (demo_credentials ''h.p.m'') = Some demo_web_session"
      "authenticate (wl_token demo_web_lib) (we_now demo_web_env div Second) (demo_credentials ''h.p.x'') = None"
    by code_simp+
  have own: "MailboxIDByAddress (sv_mail demo_web_server) (ws_Email demo_web_session) = Inr 0" "ws_Email demo_web_session = ''u@y''"
    by code_simp+
  have "acts_for 0 ''u@y'' demo_web_server (snd (?run ''h.p.m''))" "snd (?run ''h.p.x'') = demo_web_server"
    using confined [of "demo_credentials ''h.p.m''"] confined [of "demo_credentials ''h.p.x''"] own(1) unfolding auth
    by (simp_all add: own(2))
  moreover have "map m_expunged (messages (sv_mail (snd (?run ''h.p.m'')))) = [True, False]" by code_simp
  ultimately show ?thesis by (simp only: Let_def simp_thms)
qed

lemma draft_not_lost_witness:
  "\<exists>n\<in>set (messages (sv_mail (snd (SaveDraft demo_web_lib demo_web_env demo_compose 1 demo_web_server)))).
     m_uid n = 2 \<and> mid n \<notin> {3, 4} \<and> \<not> m_expunged n"
proof -
  obtain r sv' where s: "SaveDraft demo_web_lib demo_web_env demo_compose 1 demo_web_server = (r, sv')" by force
  have small: "list_all (\<lambda>f. uid_next f < 2 ^ 32) (folders (sv_mail demo_web_server))" by (simp add: demo_web_server_def demo_web_db_def)
  have "fst (SaveDraft demo_web_lib demo_web_env demo_compose 1 demo_web_server) = Inr 2" by code_simp
  then have "r = Inr 2" by (simp add: s)
  then obtain n where n: "\<not> m_expunged n" "m_uid n = uint (2 :: uid32)" "mid n \<notin> mid ` set (messages (sv_mail demo_web_server))"
      "n \<in> set (messages (sv_mail sv'))"
    using draft_not_lost [OF demo_web_sound demo_web_known small s] by auto
  moreover have "mid ` set (messages (sv_mail demo_web_server)) = {3, 4}" by (simp add: demo_web_server_def demo_web_db_def)
  ultimately show ?thesis by (intro bexI [of _ n]) (simp_all add: s)
qed

end
