(* ===== verification/Spec2Isabelle.thy ===== *)
theory Spec2Isabelle
  imports Store_Properties Sieve_Properties Sieve_Wildcard Pop3_Properties Manage_Sieve_Properties
    TLS_Policy_Properties Blob_Storage Vacation_Properties Vacation_Spacing Outbound_Queue_Properties TLSA_Rollover_Properties
    Imap_Search_Properties Webmail_Properties
begin

text \<open>
  A verification of the mail server LambdaMail, the Go service \<^verbatim>\<open>src/services/protocols\<close>. File names
  below are relative to its \<^verbatim>\<open>internal\<close> directory. The other services of the repository
  (web front end, authentication and storage, in TypeScript) are not part of it.

  \<^bold>\<open>How the program is put together.\<close> Mail comes in on port 25 and on the submission ports (package \<^verbatim>\<open>smtp\<close>), is
  checked and filed by the use cases (\<^verbatim>\<open>application/usecase\<close>), kept in PostgreSQL tables
  (\<^verbatim>\<open>infrastructure/postgres\<close>) with its bytes on disk (\<^verbatim>\<open>infrastructure/diskstorage\<close>), and read over IMAP,
  POP3 and a web API. Owners upload Sieve rules over ManageSieve. Mail to other servers goes through a table of jobs
  that workers empty. A scheduler publishes the DNS records of each domain and renews the certificate together with its
  DANE associations.

  \<^bold>\<open>How it is modelled.\<close> A table is a list of rows in a record, an SQL statement an update of it, a transaction a function whose
  argument \<open>ok\<close> says whether its statements succeed: when not, it rolls back and reports an error. An error is a value
  (\<^typ>\<open>'a + 'b\<close> or \<^typ>\<open>'a option\<close>). Strings are bytes, machine integers are words or integers with the range written out,
  times are nanoseconds. What the process asks of the outside in one step (clock, randomness, answers of peers, failing
  calls) is an environment record of that step, so a theorem over all environments is one over every fault.
  Third-party code (SHA-256, Argon2id, DKIM, MIME, X.509, DNS, HTTP) is a parameter; what is needed of it is
  the assumption of a locale or of the theorem, and each such theorem has a witness on a concrete instance.

  \<^bold>\<open>Theories\<close>, each with the source it translates and what is shown:

  \<^item> \<open>Prelude\<close>: the functions of Go's \<^verbatim>\<open>strings\<close> and \<^verbatim>\<open>strconv\<close>; the interfaces \<open>invariant_machine\<close> and
    \<open>ordered_machine\<close> (steps that keep an invariant and an order) and \<open>login_session\<close>, shared by several components; generic lemmas.
  \<^item> \<open>Mail_Store\<close>, \<open>Webmail_Repository\<close> (\<^verbatim>\<open>postgres/mail_store.go, mail_store_read.go, inbound_message_repository.go,
    webmail_repository.go, usecase/manage_folders.go\<close>): flags, expunge, move, copy, delivery, folders.
    \<open>Store_Invariant\<close>, \<open>Store_Operations\<close>, \<open>Store_Machine\<close>, \<open>Store_Properties\<close>: every operation keeps the counters, UIDs and
    quota true; UIDs and modification sequences never go back; a mailbox is never changed by the operations of another.
  \<^item> \<open>Sieve_Engine\<close>, \<open>Sieve_Properties\<close>, \<open>Sieve_Wildcard\<close> (\<^verbatim>\<open>domain/sieve\<close>): the parser with fuel, shown to be enough for every
    script; evaluation; the iterative wildcard matcher, on the code points of its UTF-8 arguments, against its recursive specification.
    \<open>Sieve_Validator\<close> (\<^verbatim>\<open>entity/sieve_validator.go\<close>): the check on upload against a nesting specification.
  \<^item> \<open>Credentials\<close> (\<^verbatim>\<open>usecase/credentials.go, postgres/auth_repository.go\<close>).
  \<^item> \<open>Pop3\<close>, \<open>Pop3_Properties\<close> (\<^verbatim>\<open>pop3/conn.go, usecase/pop3_session.go\<close>): no command works before a login, nothing is deleted
    without QUIT and then exactly the marked messages, dot-stuffing is undone by a client.
  \<^item> \<open>Manage_Sieve\<close>, \<open>Script_Repository\<close>, \<open>Manage_Sieve_Properties\<close> (\<^verbatim>\<open>managesieve/conn.go, usecase/managesieve_session.go,
    postgres/sieve_repository.go\<close>): the repository contract as a locale, uploads come back byte for byte, one script in force.
  \<^item> \<open>TLS_Policy\<close>, \<open>TLS_Policy_Properties\<close> (\<^verbatim>\<open>tlspolicy/resolver.go, netdns/tlsa_resolver.go, mx_resolver.go\<close> and the value objects of TLSA and MTA-STS):
    the TLSA lookup with the records it skips, patterns, policy files, the policy cache; the replies of the DNS server are inputs.
  \<^item> \<open>Blob_Storage\<close> (\<^verbatim>\<open>diskstorage\<close>): what is stored stays readable, whatever call fails.
  \<^item> \<open>Net_Mail\<close>, \<open>Vacation\<close>, \<open>Vacation_Properties\<close> (\<^verbatim>\<open>usecase/vacation_reply.go, vacation_suppression.go\<close>): no reply is answered
    by a reply. \<open>Vacation_Spacing\<close>: over runs of \<open>Handle\<close> and \<open>Submit\<close>, the replies that different messages queue to one address are
    the period apart; one message to two spellings of an address is answered twice.
  \<^item> \<open>Reports\<close> (\<^verbatim>\<open>entity/dmarc_report.go, tls_rpt_report.go, usecase/ingest_reports.go\<close>), \<open>Mail_Server\<close> (the state all of
    these share, with recipient lookup and message headers).
  \<^item> \<open>Submission\<close>, \<open>Submission_Properties\<close> (\<^verbatim>\<open>smtp/submission_backend.go, usecase/process_outbound_email.go\<close>): a session sends only
    as the mailbox it authenticated and within its hourly limit.
  \<^item> \<open>Inbound\<close>, \<open>Inbound_Properties\<close> (\<^verbatim>\<open>smtp/backend.go, usecase/process_inbound_email.go, scanning_pipeline.go\<close>): only local
    recipients, all or nothing filing, the stored body reads back as it arrived with the added headers in front, nothing kept of refused mail.
  \<^item> \<open>Outbound_Queue\<close>, \<open>Outbound_Delivery\<close>, \<open>Outbound_Worker\<close> with their properties (\<^verbatim>\<open>entity/outbound_job.go,
    postgres/outbound_repository.go, usecase/outbound_worker.go, relay.go\<close>): no downgrade under DANE or MTA-STS, no
    credentials in clear; an attempt ends delivered, bounced or deferred, and delivered only when somebody accepted the message; the counted
    attempts and their times are bounded under any interleaving of workers and crashes, and the attempts that were really made are those and
    the lost ones.
  \<^item> \<open>DNS_Records\<close>, \<open>DNS_Sync\<close>, \<open>DNS_Provider\<close>, \<open>DNS_Sync_Properties\<close> (\<^verbatim>\<open>entity/dns_record.go, usecase/sync_dns_records.go,
    port/dns_provider.go\<close>): the records of a domain and the reconciliation of its zone, over any provider that keeps the contract
    of locale \<open>dns_provider\<close>. \<open>Cloudflare\<close>, \<open>Cloudflare_Provider\<close>, \<open>Cloudflare_Properties\<close> (\<^verbatim>\<open>cloudflare/cloudflare_adapter.go\<close>):
    the adapter over any API that keeps the contract of locale \<open>cloudflare_api\<close> meets that contract; foreign records are kept, and a clean pass is a fixed point.
  \<^item> \<open>Imap\<close>, \<open>Imap_Session\<close>, \<open>Imap_Properties\<close> (\<^verbatim>\<open>imap/backend.go, stubs.go, usecase/imap_session.go, mailbox_tracker_manager.go,
    postgres/imap_folder_repository.go, message_query_repository.go\<close>): the commands of a session over the mail store, as locale instances of
    \<open>invariant_machine\<close>; whatever is interleaved, a session changes its own mailbox only; EXPUNGE reports the numbers that keep
    the view of a client true; MOVE loses nothing, whichever call fails. \<open>Imap_Search\<close>, \<open>Imap_Search_Properties\<close> (\<^verbatim>\<open>imap/search.go\<close>): the
    criteria against their reading as a formula, and the answer of SEARCH.
  \<^item> \<open>Web_Session\<close> (\<^verbatim>\<open>http/websession.go\<close>): the tokens that are accepted. \<open>Webmail_Compose\<close>, \<open>Webmail_Render\<close> with their properties
    (\<^verbatim>\<open>usecase/webmail_mail.go, message_render.go\<close>): a composed message is read back with the fields and the text that were composed and no
    blind recipient; a rendered one holds no script as an image, and of the attachments it names the first of each name is the one fetched.
    \<open>Webmail\<close>, \<open>Webmail_Properties\<close> (\<^verbatim>\<open>usecase/webmail_mail.go, http/mail_api.go\<close>): every request acts for the mailbox of its session or not
    at all; saving a draft loses neither draft.
  \<^item> \<open>TLSA_Rollover\<close>, \<open>TLSA_Publication\<close>, \<open>TLSA_Rollover_Invariant\<close>, \<open>TLSA_Rollover_Progress\<close>, \<open>TLSA_Rollover_Properties\<close>
    (\<^verbatim>\<open>usecase/rollover_tlsa.go, acme/manager.go, cmd/lambdamail-protocols/acme_mode.go, postgres/acme_repository.go\<close>): a served certificate always has an association
    resolvers know, and the certificate is renewed in time.

  \<^bold>\<open>Bounds and fuel.\<close> The Sieve parser has as much fuel as its input has statements (\<open>Parse_total\<close>). The listing of a zone reads at most
  \<open>pages\<close> pages, and the API contract bounds the zone by that many. A request is repeated at most three times while the API limits the
  rate (\<open>doJSON_waits\<close>). IMAP numbers UIDs and messages with 32 bits while the tables have 64: the theorems that need it say that the UIDs of the store
  fit (\<open>uids_fit\<close>). No other loop needs a bound: each consumes its input.

  \<^bold>\<open>Not modelled.\<close> The third-party protocol libraries (go-smtp, go-imap with its parser, its check that a command fits the
  state of the connection and its delivery of notifications; ACME, X.509, DNS and HTTP clients); MIME parsing, which is a parameter of search and rendering; DKIM, ARC, SPF
  and DMARC verification and the scanners, whose verdicts are inputs; the checks of BIMI images and certificates; the HTTP handlers of the administration; the relay of
  the outbox; preflight diagnostics, one-off maintenance, start-up and configuration. Cancellation of contexts and the memory model of
  goroutines are left out: concurrent operations are interleaved transaction by transaction.
\<close>

end
